(* ===== verification/Prelude.thy ===== *)
theory Prelude
  imports Main "HOL-Library.Word" "HOL-Library.Monad_Syntax"
begin

unbundle bit_operations_syntax

text \<open>
  Shared vocabulary of the development: the machine integers of the C++ sources, the C
  idiom \<open>x & mask\<close> used as a condition (\<open>tst\<close>), the reading of a 32-bit \<open>int\<close>, and the
  partial-correctness rules for the option monad in which every operation of the
  emulator is written.  \<open>None\<close> is a run that has no defined continuation in C++: a
  failed \<open>assert\<close>, an access out of the bounds of an array or undefined arithmetic.
\<close>

section \<open>Machine integers\<close>

type_synonym u8 = "8 word"
type_synonym u16 = "16 word"
type_synonym u32 = "32 word"
type_synonym u64 = "64 word"

text \<open>\<open>x & m\<close> in a condition.\<close>

definition tst :: "'a::len word \<Rightarrow> 'a word \<Rightarrow> bool" where
  "tst x m \<longleftrightarrow> x AND m \<noteq> 0"

text \<open>The value of a 32-bit \<open>int\<close> after a conversion from wider arithmetic.\<close>

definition int32 :: "int \<Rightarrow> int" where
  "int32 i = sint (word_of_int i :: u32)"

text \<open>\<open>1 << n\<close>, truncated to the width of the operand it meets.\<close>

abbreviation bitv :: "nat \<Rightarrow> 'a::len word" where
  "bitv n \<equiv> push_bit n 1"

text \<open>The two nibbles of an instruction byte, as register numbers.\<close>

abbreviation hi4 :: "u8 \<Rightarrow> nat" where
  "hi4 b \<equiv> unat (drop_bit 4 b)"

abbreviation lo4 :: "u8 \<Rightarrow> nat" where
  "lo4 b \<equiv> unat (b AND 0xF)"

subsection \<open>Bit tests\<close>

lemma tst_bitv [simp]: "tst (x :: 'a::len word) (bitv n) \<longleftrightarrow> bit x n"
proof -
  have "tst x (push_bit n 1) \<longleftrightarrow> x AND (2 ^ n) \<noteq> 0"
    by (simp add: tst_def push_bit_eq_mult)
  also have "\<dots> \<longleftrightarrow> bit x n"
    using and_exp_eq_0_iff_not_bit [of x n] by simp
  finally show ?thesis .
qed

lemma tst_pow:
  assumes "m = 2 ^ n" shows "tst (x :: 'a::len word) m \<longleftrightarrow> bit x n"
  using tst_bitv [of x n] assms by (simp add: push_bit_eq_mult)

lemma tst_exp [simp]: "tst (x :: 'a::len word) (2 ^ n) \<longleftrightarrow> bit x n"
  by (rule tst_pow) simp

lemma tst_1 [simp]: "tst (x :: 'a::len word) 1 \<longleftrightarrow> bit x 0" by (rule tst_pow) simp
lemma tst_2 [simp]: "tst (x :: 'a::len word) 2 \<longleftrightarrow> bit x 1" by (rule tst_pow) simp
lemma tst_4 [simp]: "tst (x :: 'a::len word) 4 \<longleftrightarrow> bit x 2" by (rule tst_pow) simp
lemma tst_8 [simp]: "tst (x :: 'a::len word) 8 \<longleftrightarrow> bit x 3" by (rule tst_pow) simp
lemma tst_16 [simp]: "tst (x :: 'a::len word) 16 \<longleftrightarrow> bit x 4" by (rule tst_pow) simp
lemma tst_32 [simp]: "tst (x :: 'a::len word) 32 \<longleftrightarrow> bit x 5" by (rule tst_pow) simp
lemma tst_64 [simp]: "tst (x :: 'a::len word) 64 \<longleftrightarrow> bit x 6" by (rule tst_pow) simp
lemma tst_128 [simp]: "tst (x :: 'a::len word) 128 \<longleftrightarrow> bit x 7" by (rule tst_pow) simp

lemma tst_zero [simp]: "\<not> tst (x :: 'a::len word) 0" "\<not> tst (0 :: 'a::len word) m"
  by (simp_all add: tst_def)

text \<open>Two bytes are equal if their eight bits are.\<close>

lemma u8_eqI:
  assumes "bit x 0 = bit y 0" "bit x 1 = bit y 1" "bit x 2 = bit y 2" "bit x 3 = bit y 3"
    and "bit x 4 = bit y 4" "bit x 5 = bit y 5" "bit x 6 = bit y 6" "bit x 7 = bit y 7"
  shows "x = (y :: u8)"
proof (rule bit_word_eqI)
  fix n assume "n < LENGTH(8)"
  then have "n = 0 \<or> n = 1 \<or> n = 2 \<or> n = 3 \<or> n = 4 \<or> n = 5 \<or> n = 6 \<or> n = 7"
    by simp arith
  then show "bit x n = bit y n" using assms by auto
qed

lemma lo4_less [simp]: "lo4 b < 16"
proof -
  have "b AND 0xF \<le> 0xF" by (rule word_and_le1)
  then have "unat (b AND 0xF) \<le> unat (0xF :: u8)" by (simp only: word_le_nat_alt)
  then show ?thesis by simp
qed

lemma hi4_less [simp]: "hi4 b < 16"
proof -
  have "unat b < 256" using unsigned_less [of b, where ?'a = nat] by simp
  moreover have "unat (drop_bit 4 b) = unat b div 2 ^ 4"
    by (simp only: drop_bit_eq_div unat_div) simp
  ultimately show ?thesis by simp
qed

text \<open>Numbers joined and split at a bit position.\<close>

lemma join_nat: "x < 2 ^ k \<Longrightarrow> x OR push_bit k y = x + 2 ^ k * (y :: nat)"
proof -
  assume "x < 2 ^ k"
  then have "take_bit k x = x" by (simp add: take_bit_nat_eq_self)
  then have "bit x n \<Longrightarrow> n < k" for n using bit_take_bit_iff [of k x n] by simp
  then have "x AND push_bit k y = 0"
    by (force simp: bit_eq_iff bit_simps)
  then show ?thesis by (simp add: push_bit_eq_mult mult.commute disjunctive_add_eq_or [symmetric])
qed

lemma join_u32: "x < 2 ^ k \<Longrightarrow> (of_nat x :: u32) OR push_bit k (of_nat y) = of_nat (x + 2 ^ k * y)"
  by (simp only: join_nat [symmetric] of_nat_or_eq of_nat_push_bit)

lemma split_nat: "and x (2 ^ k - 1) = x mod 2 ^ k" for x :: nat
  using take_bit_eq_mask [of k x] by (simp only: take_bit_eq_mod mask_eq_exp_minus_1)

text \<open>A word is joined from its four bytes.\<close>

lemma u32_bytes:
  "push_bit 24 (ucast (ucast (drop_bit 24 v) :: u8)) OR push_bit 16 (ucast (ucast (drop_bit 16 v) :: u8)) OR
   push_bit 8 (ucast (ucast (drop_bit 8 v) :: u8)) OR ucast (ucast v :: u8) = (v :: u32)"
proof (rule bit_word_eqI)
  fix n assume "n < LENGTH(32)"
  then consider "n < 8" | "8 \<le> n" "n < 16" | "16 \<le> n" "n < 24" | "24 \<le> n" "n < 32" by fastforce
  then show "bit (push_bit 24 (ucast (ucast (drop_bit 24 v) :: u8)) OR push_bit 16 (ucast (ucast (drop_bit 16 v) :: u8)) OR
   push_bit 8 (ucast (ucast (drop_bit 8 v) :: u8)) OR ucast (ucast v :: u8) :: u32) n = bit v n"
    by cases (auto simp: bit_or_iff bit_push_bit_iff bit_unsigned_iff bit_drop_bit_eq)
qed

lemma nat_bit_less: "n < 2 ^ k \<Longrightarrow> k \<le> i \<Longrightarrow> \<not> bit (n :: nat) i"
  by (metis bit_iff_odd div_less even_zero less_le_trans one_le_numeral power_increasing)

lemma unat_lo4: "unat (b AND 0xF :: u8) = unat b mod 16"
  using split_nat [of "unat b" 4] by (simp add: unsigned_and_eq)

lemma unat_hi4: "unat (b AND 0xF0 :: u8) = unat b div 16 * 16"
proof -
  have "b AND 0xF0 = push_bit 4 (drop_bit 4 b)"
  proof -
    have "(0xF0 :: u8) = NOT (mask 4)" by (simp add: mask_eq_exp_minus_1)
    moreover have "b AND NOT (mask 4) = push_bit 4 (drop_bit 4 b)"
      by (rule bit_word_eqI) (auto simp: bit_and_iff bit_not_iff bit_mask_iff bit_push_bit_iff bit_drop_bit_eq)
    ultimately show ?thesis by simp
  qed
  moreover have "unat (drop_bit 4 b) = unat b div 16"
    by (simp only: drop_bit_eq_div unat_div) simp
  moreover have "unat b < 256" using unsigned_less [of b, where ?'a = nat] by simp
  then have "unat b div 16 * 16 < 256" by simp
  moreover have "push_bit 4 (drop_bit 4 b) = drop_bit 4 b * 16" by (simp add: push_bit_eq_mult)
  ultimately show ?thesis using unat_mult_lem [of "drop_bit 4 b" 16] by simp
qed

lemma xor_zero: "x XOR y = 0 \<longleftrightarrow> x = (y :: 'a::len word)"
  by (auto simp: bit_eq_iff bit_simps)

lemma byte_pow [simp]: "n < 8 \<Longrightarrow> bit ((2 :: u8) ^ k) n \<longleftrightarrow> n = k"
  by (auto simp: bit_exp_iff)

text \<open>Counting from 0, for inductions that peel off the first element.\<close>

lemma upt_Suc_map: "[0..<Suc n] = 0 # map Suc [0..<n]"
  by (simp add: upt_conv_Cons map_Suc_upt del: upt_Suc)

section \<open>Partial correctness in the option monad\<close>

text \<open>\<open>holds P m\<close>: if the run \<open>m\<close> has a result, the result satisfies \<open>P\<close>.\<close>

definition holds :: "('a \<Rightarrow> bool) \<Rightarrow> 'a option \<Rightarrow> bool" where
  "holds P m \<longleftrightarrow> (\<forall>x. m = Some x \<longrightarrow> P x)"

named_theorems holds_intros \<open>decomposition rules for partial correctness\<close>

lemma holds_None [simp, holds_intros]: "holds P None"
  by (simp add: holds_def)

lemma holds_Some [simp]: "holds P (Some x) \<longleftrightarrow> P x"
  by (simp add: holds_def)

lemma holds_bind: "holds Q m \<Longrightarrow> (\<And>x. Q x \<Longrightarrow> holds P (f x)) \<Longrightarrow> holds P (m \<bind> f)"
  by (cases m) auto

lemma holds_mono: "holds Q m \<Longrightarrow> (\<And>x. Q x \<Longrightarrow> P x) \<Longrightarrow> holds P m"
  by (simp add: holds_def)

lemma holds_if [holds_intros]:
  "(b \<Longrightarrow> holds P m) \<Longrightarrow> (\<not> b \<Longrightarrow> holds P n) \<Longrightarrow> holds P (if b then m else n)"
  by simp

lemma holds_case_option [holds_intros]:
  "(x = None \<Longrightarrow> holds P m) \<Longrightarrow> (\<And>y. x = Some y \<Longrightarrow> holds P (f y)) \<Longrightarrow>
   holds P (case x of None \<Rightarrow> m | Some y \<Rightarrow> f y)"
  by (cases x) auto

lemma holds_case_prod [holds_intros]:
  "(\<And>a b. p = (a, b) \<Longrightarrow> holds P (f a b)) \<Longrightarrow> holds P (case p of (a, b) \<Rightarrow> f a b)"
  by (cases p) auto

lemma holdsD: "holds P m \<Longrightarrow> m = Some x \<Longrightarrow> P x"
  by (simp add: holds_def)

text \<open>\<open>assert(b)\<close>: the run stops when the condition fails.\<close>

definition asserting :: "bool \<Rightarrow> unit option" where
  "asserting b = (if b then Some () else None)"

lemma asserting_True [simp]: "asserting True = Some ()"
  by (simp add: asserting_def)

lemma asserting_False [simp]: "asserting False = None"
  by (simp add: asserting_def)

lemma holds_asserting: "holds (\<lambda>_. b) (asserting b)"
  by (simp add: asserting_def)

end
