(* ===== verification/H8ALU.thy ===== *)
theory H8ALU
  imports Prelude
begin

text \<open>
  The arithmetic and logic unit of the H8S core (\<open>emu2/H8CPU.cpp\<close>, the \<open>do*\<close>
  templates and the flag helpers).  Each template is a function of its operands and of
  the condition code register; it returns the new value of the operand the C++ code takes
  by reference together with the new \<open>ccr\<close>.  The operand size \<open>sizeof(T) * 8\<close> is the
  width of the word type.
\<close>

section \<open>The condition code register\<close>

abbreviation CC_C :: u8 where "CC_C \<equiv> 1"
abbreviation CC_V :: u8 where "CC_V \<equiv> 2"
abbreviation CC_Z :: u8 where "CC_Z \<equiv> 4"
abbreviation CC_N :: u8 where "CC_N \<equiv> 8"
abbreviation CC_U :: u8 where "CC_U \<equiv> 16"
abbreviation CC_H :: u8 where "CC_H \<equiv> 32"
abbreviation CC_UI :: u8 where "CC_UI \<equiv> 64"
abbreviation CC_I :: u8 where "CC_I \<equiv> 128"

definition signBit :: "'a::len word" where
  "signBit = bitv (LENGTH('a) - 1)"

definition hMask :: "'a::len word" where
  "hMask = ucast (drop_bit ((3 - (LENGTH('a) div 8 - 1)) * 8) (0xFFFFFFF :: u32))"

definition updateFlags :: "'a::len word \<Rightarrow> u8 \<Rightarrow> u8" where
  "updateFlags val ccr =
     (let ccr = ccr AND NOT (CC_Z OR CC_N)
      in ccr OR ((if val = 0 then CC_Z else 0) OR (if tst val signBit then CC_N else 0)))"

definition updateFlag :: "u8 \<Rightarrow> bool \<Rightarrow> u8 \<Rightarrow> u8" where
  "updateFlag flag on ccr = (ccr AND NOT flag) OR (if on then flag else 0)"

section \<open>Arithmetic\<close>

definition doADD :: "'a::len word \<Rightarrow> 'a word \<Rightarrow> u8 \<Rightarrow> 'a word \<times> u8" where
  "doADD a b ccr =
     (let res = a + b;
          ccr = updateFlags res ccr;
          ccr = updateFlag CC_C (res < b) ccr;
          ccr = updateFlag CC_V (tst (NOT (a XOR b) AND (b XOR res)) signBit) ccr;
          ccr = updateFlag CC_H (res AND hMask < b AND hMask) ccr
      in (res, ccr))"

text \<open>
  \<open>doADDX\<close> and \<open>doSUBX\<close> are only instantiated at \<open>B\<close>, where the comparisons are made in
  \<open>int\<close> after the integer promotions.
\<close>

definition doADDX :: "u8 \<Rightarrow> u8 \<Rightarrow> u8 \<Rightarrow> u8 \<times> u8" where
  "doADDX a b ccr =
     (let c = (if tst ccr CC_C then 1 else 0);
          res = a + b + word_of_int c;
          ccr = updateFlag CC_Z False ccr;
          ccr = updateFlag CC_N (tst res signBit) ccr;
          ccr = updateFlag CC_C (uint res < uint b + c) ccr;
          ccr = updateFlag CC_V (tst (NOT (a XOR b) AND (b XOR res)) signBit) ccr;
          ccr = updateFlag CC_H (uint (res AND hMask) < uint (b AND hMask) + c) ccr
      in (res, ccr))"

definition doSUB :: "'a::len word \<Rightarrow> 'a word \<Rightarrow> u8 \<Rightarrow> 'a word \<times> u8" where
  "doSUB a b ccr =
     (let res = b - a;
          ccr = updateFlags res ccr;
          ccr = updateFlag CC_C (res > b) ccr;
          ccr = updateFlag CC_V (tst (a XOR b) signBit \<and> tst (b XOR res) signBit) ccr;
          ccr = updateFlag CC_H (res AND hMask > b AND hMask) ccr
      in (res, ccr))"

definition doSUBX :: "u8 \<Rightarrow> u8 \<Rightarrow> u8 \<Rightarrow> u8 \<times> u8" where
  "doSUBX a b ccr =
     (let c = (if tst ccr CC_C then 1 else 0);
          res = b - a - word_of_int c;
          ccr = updateFlag CC_Z False ccr;
          ccr = updateFlag CC_N (tst res signBit) ccr;
          ccr = updateFlag CC_C (uint res > uint b - c) ccr;
          ccr = updateFlag CC_V (tst (a XOR b) signBit \<and> tst (b XOR res) signBit) ccr;
          ccr = updateFlag CC_H (uint (res AND hMask) > uint (b AND hMask) - c) ccr
      in (res, ccr))"

text \<open>\<open>doCMP\<close> takes its second operand by value: the difference is dropped.\<close>

definition doCMP :: "'a::len word \<Rightarrow> 'a word \<Rightarrow> u8 \<Rightarrow> u8" where
  "doCMP a b ccr = snd (doSUB a b ccr)"

definition doDEC :: "nat \<Rightarrow> 'a::len word \<Rightarrow> u8 \<Rightarrow> 'a word \<times> u8" where
  "doDEC n r ccr =
     (let overflowVal = bitv (LENGTH('a) - 1);
          ccr = updateFlag CC_V (r = overflowVal \<or> (n = 2 \<and> r = overflowVal + 1)) ccr;
          r = r - of_nat n;
          ccr = updateFlags r ccr
      in (r, ccr))"

definition doINC :: "nat \<Rightarrow> 'a::len word \<Rightarrow> u8 \<Rightarrow> 'a word \<times> u8" where
  "doINC n r ccr =
     (let overflowVal = bitv (LENGTH('a) - 1) - 1;
          ccr = updateFlag CC_V (r = overflowVal \<or> (n = 2 \<and> r = overflowVal - 1)) ccr;
          r = r + of_nat n;
          ccr = updateFlags r ccr
      in (r, ccr))"

section \<open>Logic and moves\<close>

definition doAND :: "'a::len word \<Rightarrow> 'a word \<Rightarrow> u8 \<Rightarrow> 'a word \<times> u8" where
  "doAND a b ccr = (let b = b AND a; ccr = updateFlags b ccr; ccr = updateFlag CC_V False ccr
                    in (b, ccr))"

definition doOR :: "'a::len word \<Rightarrow> 'a word \<Rightarrow> u8 \<Rightarrow> 'a word \<times> u8" where
  "doOR a b ccr = (let b = b OR a; ccr = updateFlags b ccr; ccr = updateFlag CC_V False ccr
                   in (b, ccr))"

definition doXOR :: "'a::len word \<Rightarrow> 'a word \<Rightarrow> u8 \<Rightarrow> 'a word \<times> u8" where
  "doXOR a b ccr = (let b = b XOR a; ccr = updateFlags b ccr; ccr = updateFlag CC_V False ccr
                    in (b, ccr))"

text \<open>\<open>doMOV\<close> returns its argument; only the flags change.\<close>

definition doMOV :: "'a::len word \<Rightarrow> u8 \<Rightarrow> u8" where
  "doMOV val ccr = (let ccr = updateFlag CC_V False ccr in updateFlags val ccr)"

section \<open>Shifts and rotates, by one or two places\<close>

definition doROTL :: "nat \<Rightarrow> 'a::len word \<Rightarrow> u8 \<Rightarrow> 'a word \<times> u8" where
  "doROTL s r ccr =
     (let topBit = bitv (LENGTH('a) - s);
          topShift = LENGTH('a) - s;
          ccr = updateFlag CC_C (tst r topBit) ccr;
          r = push_bit s r OR drop_bit topShift r;
          ccr = updateFlag CC_V False ccr;
          ccr = updateFlags r ccr
      in (r, ccr))"

definition doROTR :: "nat \<Rightarrow> 'a::len word \<Rightarrow> u8 \<Rightarrow> 'a word \<times> u8" where
  "doROTR s r ccr =
     (let bottomBit = of_nat s;
          topShift = LENGTH('a) - s;
          ccr = updateFlag CC_C (tst r bottomBit) ccr;
          r = drop_bit s r OR push_bit topShift r;
          ccr = updateFlag CC_V False ccr;
          ccr = updateFlags r ccr
      in (r, ccr))"

definition doROTXL :: "nat \<Rightarrow> 'a::len word \<Rightarrow> u8 \<Rightarrow> 'a word \<times> u8" where
  "doROTXL s r ccr =
     (let topBit = bitv (LENGTH('a) - s);
          bottomBit = of_nat s;
          topShift = LENGTH('a) - (s - 1);
          carry = tst ccr CC_C;
          ccr = updateFlag CC_C (tst r topBit) ccr;
          r = (if s = 2 then push_bit s r OR drop_bit topShift r else push_bit s r);
          r = (if carry then r OR bottomBit else r);
          ccr = updateFlag CC_V False ccr;
          ccr = updateFlags r ccr
      in (r, ccr))"

definition doROTXR :: "nat \<Rightarrow> 'a::len word \<Rightarrow> u8 \<Rightarrow> 'a word \<times> u8" where
  "doROTXR s r ccr =
     (let topBit = bitv (LENGTH('a) - s);
          bottomBit = of_nat s;
          topShift = LENGTH('a) - (s - 1);
          carry = tst ccr CC_C;
          ccr = updateFlag CC_C (tst r bottomBit) ccr;
          r = (if s = 2 then drop_bit s r OR push_bit topShift r else drop_bit s r);
          r = (if carry then r OR topBit else r);
          ccr = updateFlag CC_V False ccr;
          ccr = updateFlags r ccr
      in (r, ccr))"

definition doSHAL :: "nat \<Rightarrow> 'a::len word \<Rightarrow> u8 \<Rightarrow> 'a word \<times> u8" where
  "doSHAL s r ccr =
     (let topBit = bitv (LENGTH('a) - s);
          val = r;
          r = push_bit s r;
          ccr = updateFlags r ccr;
          ccr = updateFlag CC_C (tst val topBit) ccr;
          ccr = (if s = 2
                 then updateFlag CC_V ((\<not> tst val signBit) \<noteq> (\<not> tst r signBit) \<or>
                                       (\<not> tst val topBit) \<noteq> (\<not> tst r signBit)) ccr
                 else updateFlag CC_V (tst (val XOR r) signBit) ccr)
      in (r, ccr))"

definition doSHAR :: "nat \<Rightarrow> 'a::len word \<Rightarrow> u8 \<Rightarrow> 'a word \<times> u8" where
  "doSHAR s r ccr =
     (let bottomBit = of_nat s;
          val = r;
          r = signed_drop_bit s val;
          ccr = updateFlags r ccr;
          ccr = updateFlag CC_C (tst val bottomBit) ccr;
          ccr = updateFlag CC_V False ccr
      in (r, ccr))"

definition doSHLL :: "nat \<Rightarrow> 'a::len word \<Rightarrow> u8 \<Rightarrow> 'a word \<times> u8" where
  "doSHLL s r ccr =
     (let topBit = bitv (LENGTH('a) - s);
          ccr = updateFlag CC_C (tst r topBit) ccr;
          r = push_bit s r;
          ccr = updateFlag CC_V False ccr;
          ccr = updateFlags r ccr
      in (r, ccr))"

definition doSHLR :: "nat \<Rightarrow> 'a::len word \<Rightarrow> u8 \<Rightarrow> 'a word \<times> u8" where
  "doSHLR s r ccr =
     (let bottomBit = of_nat s;
          val = r;
          r = drop_bit s val;
          ccr = updateFlags r ccr;
          ccr = updateFlag CC_C (tst val bottomBit) ccr;
          ccr = updateFlag CC_V False ccr
      in (r, ccr))"

section \<open>Branch conditions\<close>

text \<open>The condition \<open>handleBranch\<close> computes from a condition code; codes are nibbles.\<close>

definition branchCondition :: "nat \<Rightarrow> u8 \<Rightarrow> bool option" where
  "branchCondition conditionCode ccr =
     (let C = tst ccr CC_C; Z = tst ccr CC_Z; V = tst ccr CC_V; N = tst ccr CC_N;
          nXorV = ((\<not> N) \<noteq> (\<not> V))
      in if conditionCode = 0 then Some True
         else if conditionCode = 1 then Some False
         else if conditionCode = 2 then Some (\<not> (C \<or> Z))
         else if conditionCode = 3 then Some (C \<or> Z)
         else if conditionCode = 4 then Some (\<not> C)
         else if conditionCode = 5 then Some C
         else if conditionCode = 6 then Some (\<not> Z)
         else if conditionCode = 7 then Some Z
         else if conditionCode = 8 then Some (\<not> V)
         else if conditionCode = 9 then Some V
         else if conditionCode = 10 then Some (\<not> N)
         else if conditionCode = 11 then Some N
         else if conditionCode = 12 then Some (nXorV = False)
         else if conditionCode = 13 then Some nXorV
         else if conditionCode = 14 then Some ((Z \<or> nXorV) = False)
         else if conditionCode = 15 then Some (Z \<or> nXorV)
         else None)"

section \<open>Decimal adjust and negation\<close>

text \<open>The \<open>daa\<close> and \<open>das\<close> cases of \<open>executeInstruction\<close>, on a byte and the flags.\<close>

definition doDAA :: "u8 \<Rightarrow> u8 \<Rightarrow> u8 \<times> u8" where
  "doDAA val ccr =
     (let (val, ccr) = (if tst ccr CC_C \<or> val > 0x99 then (val + 0x60, ccr OR CC_C)
                        else (val, ccr));
          val = (if tst ccr CC_H \<or> val AND 0x0F > 0x09 then val + 0x06 else val)
      in (val, updateFlags val ccr))"

definition doDAS :: "u8 \<Rightarrow> u8 \<Rightarrow> u8 \<times> u8" where
  "doDAS val ccr =
     (let val = (if tst ccr CC_C then val - 0x60 else val);
          val = (if tst ccr CC_H then val - 0x06 else val)
      in (val, updateFlags val ccr))"

text \<open>The \<open>neg\<close> cases of \<open>handleNOTEXTNEG\<close>, the same code at the three sizes.\<close>

definition doNEG :: "'a::len word \<Rightarrow> u8 \<Rightarrow> 'a word \<times> u8" where
  "doNEG val ccr =
     (let res = 0 - val;
          ccr = updateFlags res ccr;
          ccr = updateFlag CC_V (res = signBit) ccr;
          ccr = updateFlag CC_C (res > 0) ccr;
          ccr = updateFlag CC_H (res AND hMask > 0) ccr
      in (res, ccr))"

section \<open>Reading the flags back\<close>

named_theorems flag_simps \<open>the bits of a condition code register after an update\<close>

lemma signBit_bit [simp]: "tst (x :: 'a::len word) signBit \<longleftrightarrow> bit x (LENGTH('a) - 1)"
  by (simp add: signBit_def)

lemma bit_updateFlag_exp:
  "k < 8 \<Longrightarrow> bit (updateFlag (2 ^ k) on x) n \<longleftrightarrow> (if n = k then on else bit x n)"
  by (auto simp: updateFlag_def bit_simps dest: bit_imp_le_length)

lemma bit_updateFlag [flag_simps]:
  "bit (updateFlag CC_C on x) n \<longleftrightarrow> (if n = 0 then on else bit x n)"
  "bit (updateFlag CC_V on x) n \<longleftrightarrow> (if n = 1 then on else bit x n)"
  "bit (updateFlag CC_Z on x) n \<longleftrightarrow> (if n = 2 then on else bit x n)"
  "bit (updateFlag CC_N on x) n \<longleftrightarrow> (if n = 3 then on else bit x n)"
  "bit (updateFlag CC_H on x) n \<longleftrightarrow> (if n = 5 then on else bit x n)"
  using bit_updateFlag_exp [of 0] bit_updateFlag_exp [of 1] bit_updateFlag_exp [of 2]
    bit_updateFlag_exp [of 3] bit_updateFlag_exp [of 5]
  by simp_all

lemma updateFlags_eq:
  "updateFlags (v :: 'a::len word) x
     = updateFlag CC_N (bit v (LENGTH('a) - 1)) (updateFlag CC_Z (v = 0) x)"
  by (rule u8_eqI) (simp_all add: updateFlags_def updateFlag_def bit_simps)

lemma bit_updateFlags [flag_simps]:
  "bit (updateFlags (v :: 'a::len word) x) n
     \<longleftrightarrow> (if n = 2 then v = 0 else if n = 3 then bit v (LENGTH('a) - 1) else bit x n)"
  by (simp add: updateFlags_eq flag_simps)

text \<open>The register is determined by its eight bits; the instructions keep I, UI and U.\<close>

definition sameIU :: "u8 \<Rightarrow> u8 \<Rightarrow> bool" where
  "sameIU x y \<longleftrightarrow> (\<forall>n \<in> {4, 6, 7}. bit x n = bit y n)"

lemma hMask_mask:
  "hMask = (mask 4 :: u8)" "hMask = (mask 12 :: u16)" "hMask = (mask 28 :: u32)"
  by (simp_all add: hMask_def mask_numeral)

text \<open>The three operand sizes of the instruction set.\<close>

definition opSize :: "nat \<Rightarrow> bool" where
  "opSize n \<longleftrightarrow> n = 8 \<or> n = 16 \<or> n = 32"

lemma hMask_eq: "opSize LENGTH('a) \<Longrightarrow> (hMask :: 'a::len word) = mask (LENGTH('a) - 4)"
proof (rule bit_word_eqI)
  fix n assume os: "opSize LENGTH('a)" and n: "n < LENGTH('a)"
  have m: "(0xFFFFFFF :: u32) = mask 28" by (simp add: mask_numeral)
  show "bit (hMask :: 'a word) n \<longleftrightarrow> bit (mask (LENGTH('a) - 4) :: 'a word) n"
    using os n unfolding hMask_def m opSize_def by (auto simp: bit_simps)
qed

section \<open>Carry, half carry and overflow\<close>

lemma add_wraps_iff: "(a + b < b) \<longleftrightarrow> 2 ^ LENGTH('a) \<le> unat a + unat (b :: 'a::len word)"
  using no_plus_overflow_unat_size [of b a] by (auto simp: word_size not_le add.commute)

lemma sub_wraps_iff: "(b - a > b) \<longleftrightarrow> b < (a :: 'a::len word)"
proof (cases "a \<le> b")
  case True
  then have "unat (b - a) = unat b - unat a" by (simp add: unat_sub_if' word_le_nat_alt)
  with True show ?thesis by (simp add: word_less_nat_alt word_le_nat_alt)
next
  case False
  then have "unat (b - a) = 2 ^ LENGTH('a) + unat b - unat a"
    by (simp add: unat_sub_if' word_le_nat_alt not_le)
  moreover have "unat a < 2 ^ LENGTH('a)" by (rule unsigned_less)
  moreover from False have "unat b < unat a" by (simp add: word_le_nat_alt)
  ultimately show ?thesis unfolding word_less_nat_alt by linarith
qed

lemma sign_bit_iff: "bit (w :: 'a::len word) (LENGTH('a) - 1) \<longleftrightarrow> sint w < 0"
  using bit_last_iff [of w] by simp

lemma signed_overflow_cases:
  fixes s t :: int
  assumes "- (2 ^ n) \<le> s" "s < 2 ^ n" "- (2 ^ n) \<le> t" "t < 2 ^ n"
  shows "signed_take_bit n (s + t) \<noteq> s + t \<longleftrightarrow>
      (s < 0) = (t < 0) \<and> (t < 0) \<noteq> (signed_take_bit n (s + t) < 0)"
proof -
  define u where "u = signed_take_bit n (s + t)"
  have range: "- (2 ^ n) \<le> u" "u < 2 ^ n"
    by (simp_all add: u_def)
  have pos: "(0::int) < 2 ^ n" by simp
  consider "s + t < - (2 ^ n)" | "2 ^ n \<le> s + t" | "- (2 ^ n) \<le> s + t" "s + t < 2 ^ n"
    by linarith
  then show ?thesis
  proof cases
    case 1
    then have "s + t + 2 ^ Suc n \<le> u"
      unfolding u_def by (rule signed_take_bit_int_greater_eq)
    with 1 assms pos range show ?thesis unfolding u_def [symmetric] by auto
  next
    case 2
    then have "u \<le> s + t - 2 ^ Suc n"
      unfolding u_def by (rule signed_take_bit_int_less_eq)
    with 2 assms pos range show ?thesis unfolding u_def [symmetric] by auto
  next
    case 3
    then have "u = s + t"
      by (simp add: u_def signed_take_bit_int_eq_self_iff)
    with assms show ?thesis unfolding u_def [symmetric] by auto
  qed
qed

lemma add_overflow_iff:
  fixes a b :: "'a::len word"
  shows "sint (a + b) \<noteq> sint a + sint b \<longleftrightarrow>
    bit (NOT (a XOR b) AND (b XOR (a + b))) (LENGTH('a) - 1)"
proof -
  have bits: "bit (NOT (a XOR b) AND (b XOR (a + b))) (LENGTH('a) - 1) \<longleftrightarrow>
      (sint a < 0) = (sint b < 0) \<and> (sint b < 0) \<noteq> (sint (a + b) < 0)"
    by (auto simp: bit_and_iff bit_xor_iff bit_not_iff simp flip: sign_bit_iff)
  show ?thesis
    unfolding bits sint_word_add
    using signed_overflow_cases [of "LENGTH('a) - 1" "sint a" "sint b"]
    by (simp add: sint_less sint_greater_eq)
qed

lemma sub_overflow_iff:
  fixes a b :: "'a::len word"
  shows "sint (b - a) \<noteq> sint b - sint a \<longleftrightarrow>
    bit (a XOR b) (LENGTH('a) - 1) \<and> bit (b XOR (b - a)) (LENGTH('a) - 1)"
proof -
  let ?n = "LENGTH('a) - 1"
  have bits: "bit (a XOR b) ?n \<and> bit (b XOR (b - a)) ?n \<longleftrightarrow>
      (sint a < 0) \<noteq> (sint b < 0) \<and> (sint b < 0) \<noteq> (sint (b - a) < 0)"
    by (auto simp: bit_xor_iff simp flip: sign_bit_iff)
  have diff: "sint (b - a) = signed_take_bit ?n (sint b - sint a)"
    by (rule sint_word_diff)
  have ranges: "- (2 ^ ?n) \<le> sint a" "sint a < 2 ^ ?n" "- (2 ^ ?n) \<le> sint b" "sint b < 2 ^ ?n"
    by (rule sint_ge sint_lt)+
  have pos: "(0::int) < 2 ^ ?n" by simp
  consider "sint b - sint a < - (2 ^ ?n)" | "2 ^ ?n \<le> sint b - sint a"
    | "- (2 ^ ?n) \<le> sint b - sint a" "sint b - sint a < 2 ^ ?n"
    by linarith
  then show ?thesis
  proof cases
    case 1
    then have "sint b - sint a + 2 ^ Suc ?n \<le> sint (b - a)"
      unfolding diff by (rule signed_take_bit_int_greater_eq)
    then have "sint b - sint a + 2 * 2 ^ ?n \<le> sint (b - a)" by (simp only: power_Suc)
    with 1 ranges pos show ?thesis unfolding bits by linarith
  next
    case 2
    then have "sint (b - a) \<le> sint b - sint a - 2 ^ Suc ?n"
      unfolding diff by (rule signed_take_bit_int_less_eq)
    then have "sint (b - a) \<le> sint b - sint a - 2 * 2 ^ ?n" by (simp only: power_Suc)
    with 2 ranges pos show ?thesis unfolding bits by linarith
  next
    case 3
    then have "sint (b - a) = sint b - sint a"
      unfolding diff by (simp add: signed_take_bit_int_eq_self_iff)
    then show ?thesis unfolding bits by auto
  qed
qed

text \<open>The half carry: the sum of the low parts, without the top four bits, wraps.\<close>

lemma mod_add_wraps:
  fixes x y m :: nat
  assumes "0 < m"
  shows "(x + y) mod m < y mod m \<longleftrightarrow> m \<le> x mod m + y mod m"
proof -
  have lt: "x mod m < m" "y mod m < m" using assms by simp_all
  have "(x + y) mod m = (x mod m + y mod m) mod m" by (simp add: mod_add_eq)
  also have "\<dots> = (if x mod m + y mod m < m then x mod m + y mod m
                         else x mod m + y mod m - m)"
  proof (cases "x mod m + y mod m < m")
    case False
    moreover from False lt have "x mod m + y mod m - m < m" by linarith
    ultimately show ?thesis by (metis linorder_not_less le_mod_geq mod_less)
  qed simp
  finally have eq: "(x + y) mod m = (if x mod m + y mod m < m then x mod m + y mod m
                         else x mod m + y mod m - m)" .
  show ?thesis
  proof (cases "x mod m + y mod m < m")
    case True
    with eq show ?thesis by simp
  next
    case False
    with eq have "(x + y) mod m = x mod m + y mod m - m" by simp
    with False lt show ?thesis by linarith
  qed
qed

lemma unat_mask_less:
  "x AND mask m < y AND mask m \<longleftrightarrow> unat x mod 2 ^ m < unat (y :: 'a::len word) mod 2 ^ m"
proof -
  have "unat (z AND mask m) = unat z mod 2 ^ m" for z :: "'a word"
    by (simp only: unsigned_take_bit_eq flip: take_bit_eq_mask) (rule take_bit_eq_mod)
  then show ?thesis by (simp add: word_less_nat_alt)
qed

lemma add_half_carry:
  fixes a b :: "'a::len word"
  assumes "m \<le> LENGTH('a)"
  shows "(a + b) AND mask m < b AND mask m \<longleftrightarrow> 2 ^ m \<le> unat a mod 2 ^ m + unat b mod 2 ^ m"
proof -
  have "unat (a + b) mod 2 ^ m = (unat a + unat b) mod 2 ^ m"
    using assms by (simp add: unat_word_ariths mod_mod_cancel le_imp_power_dvd)
  then show ?thesis by (simp add: unat_mask_less mod_add_wraps)
qed

lemma sub_half_carry:
  fixes a b :: "'a::len word"
  assumes "m \<le> LENGTH('a)"
  shows "b AND mask m < (b - a) AND mask m \<longleftrightarrow> unat b mod 2 ^ m < unat a mod 2 ^ m"
proof -
  have "unat b mod 2 ^ m = (unat a + unat (b - a)) mod 2 ^ m"
  proof -
    have "unat b = unat (a + (b - a))" by simp
    then show ?thesis
      using assms by (simp only: unat_word_ariths mod_mod_cancel le_imp_power_dvd)
  qed
  then show ?thesis
    using mod_add_wraps [of "2 ^ m" "unat a" "unat (b - a)"]
      mod_add_wraps [of "2 ^ m" "unat (b - a)" "unat a"]
    by (auto simp: unat_mask_less add.commute)
qed

section \<open>What the arithmetic instructions compute\<close>

text \<open>
  The five flags of an addition of two operands: the value wraps, C is the carry out of
  the top bit, V the signed overflow, H the carry into the top four bits.
\<close>

definition addFlagsOK :: "'a::len word \<Rightarrow> 'a word \<Rightarrow> u8 \<Rightarrow> u8 \<Rightarrow> bool" where
  "addFlagsOK a b ccr ccr' \<longleftrightarrow>
     (tst ccr' CC_C \<longleftrightarrow> 2 ^ LENGTH('a) \<le> unat a + unat b) \<and>
     (tst ccr' CC_V \<longleftrightarrow> sint (a + b) \<noteq> sint a + sint b) \<and>
     (tst ccr' CC_Z \<longleftrightarrow> a + b = 0) \<and>
     (tst ccr' CC_N \<longleftrightarrow> sint (a + b) < 0) \<and>
     (tst ccr' CC_H \<longleftrightarrow> 2 ^ (LENGTH('a) - 4) \<le>
         unat a mod 2 ^ (LENGTH('a) - 4) + unat b mod 2 ^ (LENGTH('a) - 4)) \<and>
     sameIU ccr ccr'"

text \<open>The flags of \<open>b - a\<close>: C and H are borrows, V the signed overflow.\<close>

definition subFlagsOK :: "'a::len word \<Rightarrow> 'a word \<Rightarrow> u8 \<Rightarrow> u8 \<Rightarrow> bool" where
  "subFlagsOK a b ccr ccr' \<longleftrightarrow>
     (tst ccr' CC_C \<longleftrightarrow> unat b < unat a) \<and>
     (tst ccr' CC_V \<longleftrightarrow> sint (b - a) \<noteq> sint b - sint a) \<and>
     (tst ccr' CC_Z \<longleftrightarrow> b = a) \<and>
     (tst ccr' CC_N \<longleftrightarrow> sint (b - a) < 0) \<and>
     (tst ccr' CC_H \<longleftrightarrow>
         unat b mod 2 ^ (LENGTH('a) - 4) < unat a mod 2 ^ (LENGTH('a) - 4)) \<and>
     sameIU ccr ccr'"

lemma doADD_flags:
  assumes "opSize LENGTH('a::len)"
  shows "addFlagsOK (a :: 'a word) b ccr (snd (doADD a b ccr))"
  using add_half_carry [of "LENGTH('a) - 4" a b] sign_bit_iff [of "a + b"]
  by (simp add: addFlagsOK_def doADD_def Let_def flag_simps sameIU_def hMask_eq [OF assms]
      add_wraps_iff add_overflow_iff)

lemma doSUB_flags:
  assumes "opSize LENGTH('a::len)"
  shows "subFlagsOK (a :: 'a word) b ccr (snd (doSUB a b ccr))"
  using sub_half_carry [of "LENGTH('a) - 4" b a] sign_bit_iff [of "b - a"]
    sub_wraps_iff [of b a, unfolded word_less_nat_alt]
  by (simp add: subFlagsOK_def doSUB_def Let_def flag_simps sameIU_def hMask_eq [OF assms]
      sub_overflow_iff word_less_nat_alt)

end
