(* ===== verification/H8State.thy ===== *)
theory H8State
  imports Prelude
begin

text \<open>
  The state of the emulated H8S/2246 (\<open>class H8CPU\<close> of \<open>emu2/H8CPU.h\<close>) and the interfaces
  of the devices attached to it.  The nested classes \<open>DMAChannel\<close>, \<open>IOPort\<close>, \<open>TPU\<close>,
  \<open>Timer\<close> and \<open>Serial\<close> are records; their \<open>index\<close> member is the position of the object
  in the array of the CPU that holds it.  An array of the C++ class is a function from its
  index; an access the C++ code could make out of bounds is checked where it is made.
\<close>

section \<open>Interrupt sources and register bits\<close>

text \<open>\<open>enum class InterruptSource\<close>: the vector numbers, on which the code computes.\<close>

type_synonym source = nat

abbreviation IS_NMI :: source where "IS_NMI \<equiv> 7"
abbreviation IS_IRQ0 :: source where "IS_IRQ0 \<equiv> 16"
abbreviation IS_ADI :: source where "IS_ADI \<equiv> 28"
abbreviation IS_TGI0A :: source where "IS_TGI0A \<equiv> 32"
abbreviation IS_TGI0B :: source where "IS_TGI0B \<equiv> 33"
abbreviation IS_TGI0C :: source where "IS_TGI0C \<equiv> 34"
abbreviation IS_TGI0D :: source where "IS_TGI0D \<equiv> 35"
abbreviation IS_TGI0V :: source where "IS_TGI0V \<equiv> 36"
abbreviation IS_TGI1A :: source where "IS_TGI1A \<equiv> 40"
abbreviation IS_TGI1B :: source where "IS_TGI1B \<equiv> 41"
abbreviation IS_TGI1V :: source where "IS_TGI1V \<equiv> 42"
abbreviation IS_TGI2A :: source where "IS_TGI2A \<equiv> 44"
abbreviation IS_TGI2B :: source where "IS_TGI2B \<equiv> 45"
abbreviation IS_TGI2V :: source where "IS_TGI2V \<equiv> 46"
abbreviation IS_TGI3A :: source where "IS_TGI3A \<equiv> 48"
abbreviation IS_TGI3B :: source where "IS_TGI3B \<equiv> 49"
abbreviation IS_TGI3C :: source where "IS_TGI3C \<equiv> 50"
abbreviation IS_TGI3D :: source where "IS_TGI3D \<equiv> 51"
abbreviation IS_TGI3V :: source where "IS_TGI3V \<equiv> 52"
abbreviation IS_TGI4A :: source where "IS_TGI4A \<equiv> 56"
abbreviation IS_TGI4B :: source where "IS_TGI4B \<equiv> 57"
abbreviation IS_TGI4V :: source where "IS_TGI4V \<equiv> 58"
abbreviation IS_TGI5A :: source where "IS_TGI5A \<equiv> 60"
abbreviation IS_TGI5B :: source where "IS_TGI5B \<equiv> 61"
abbreviation IS_TGI5V :: source where "IS_TGI5V \<equiv> 62"
abbreviation IS_CMIA0 :: source where "IS_CMIA0 \<equiv> 64"
abbreviation IS_CMIB0 :: source where "IS_CMIB0 \<equiv> 65"
abbreviation IS_OVI0 :: source where "IS_OVI0 \<equiv> 66"
abbreviation IS_CMIA1 :: source where "IS_CMIA1 \<equiv> 68"
abbreviation IS_CMIB1 :: source where "IS_CMIB1 \<equiv> 69"
abbreviation IS_OVI1 :: source where "IS_OVI1 \<equiv> 70"
abbreviation IS_DEND0A :: source where "IS_DEND0A \<equiv> 72"
abbreviation IS_DEND0B :: source where "IS_DEND0B \<equiv> 73"
abbreviation IS_DEND1A :: source where "IS_DEND1A \<equiv> 74"
abbreviation IS_DEND1B :: source where "IS_DEND1B \<equiv> 75"
abbreviation IS_RXI0 :: source where "IS_RXI0 \<equiv> 81"
abbreviation IS_TXI0 :: source where "IS_TXI0 \<equiv> 82"
abbreviation IS_TEI0 :: source where "IS_TEI0 \<equiv> 83"
abbreviation IS_RXI1 :: source where "IS_RXI1 \<equiv> 85"
abbreviation IS_TXI1 :: source where "IS_TXI1 \<equiv> 86"
abbreviation IS_RXI2 :: source where "IS_RXI2 \<equiv> 89"
abbreviation IS_TXI2 :: source where "IS_TXI2 \<equiv> 90"

text \<open>The bits of \<open>emu2/Registers.h\<close> the CPU tests.\<close>

abbreviation MSTPCR_SCI0 :: u16 where "MSTPCR_SCI0 \<equiv> bitv 5"
abbreviation MSTPCR_SCI1 :: u16 where "MSTPCR_SCI1 \<equiv> bitv 6"
abbreviation MSTPCR_SCI2 :: u16 where "MSTPCR_SCI2 \<equiv> bitv 7"
abbreviation MSTPCR_A2D :: u16 where "MSTPCR_A2D \<equiv> bitv 9"
abbreviation MSTPCR_Timer8b :: u16 where "MSTPCR_Timer8b \<equiv> bitv 12"
abbreviation MSTPCR_TPU :: u16 where "MSTPCR_TPU \<equiv> bitv 13"
abbreviation MSTPCR_DTC :: u16 where "MSTPCR_DTC \<equiv> bitv 14"
abbreviation MSTPCR_DMAC :: u16 where "MSTPCR_DMAC \<equiv> bitv 15"

abbreviation SMR_MP :: u8 where "SMR_MP \<equiv> 4"
abbreviation SMR_STOP :: u8 where "SMR_STOP \<equiv> 8"
abbreviation SMR_PE :: u8 where "SMR_PE \<equiv> 32"
abbreviation SMR_CHR :: u8 where "SMR_CHR \<equiv> 64"
abbreviation SMR_CA :: u8 where "SMR_CA \<equiv> 128"

abbreviation SCR_TEIE :: u8 where "SCR_TEIE \<equiv> 4"
abbreviation SCR_MPIE :: u8 where "SCR_MPIE \<equiv> 8"
abbreviation SCR_RE :: u8 where "SCR_RE \<equiv> 16"
abbreviation SCR_TE :: u8 where "SCR_TE \<equiv> 32"
abbreviation SCR_RIE :: u8 where "SCR_RIE \<equiv> 64"
abbreviation SCR_TIE :: u8 where "SCR_TIE \<equiv> 128"

abbreviation SSR_TEND :: u8 where "SSR_TEND \<equiv> 4"
abbreviation SSR_ORER :: u8 where "SSR_ORER \<equiv> 32"
abbreviation SSR_RDRF :: u8 where "SSR_RDRF \<equiv> 64"
abbreviation SSR_TDRE :: u8 where "SSR_TDRE \<equiv> 128"

section \<open>The device interfaces\<close>

text \<open>
  A device is a pointer, a number; all devices together are a value of the type \<open>'d\<close>.
  \<open>'d devices\<close> is the table of the virtual functions: \<open>ext_*\<close> of
  \<open>ExternalAddressDevice\<close>, \<open>io_*\<close> of \<open>IODevice\<close>, \<open>ser_*\<close> of \<open>SerialDevice\<close>.  A bus access
  also returns the numbers of the \<open>externalInterrupt\<close> calls the device makes.
  \<open>ext_getPtr\<close> is the mask when \<open>getPtr\<close> returns the device's memory; \<open>ext_ptrRead\<close> reads
  through that pointer.
\<close>

record 'd devices =
  ext_read :: "nat \<Rightarrow> u32 \<Rightarrow> 'd \<Rightarrow> (u8 \<times> nat list \<times> 'd) option"
  ext_write :: "nat \<Rightarrow> u32 \<Rightarrow> u8 \<Rightarrow> 'd \<Rightarrow> (nat list \<times> 'd) option"
  ext_getPtr :: "nat \<Rightarrow> 'd \<Rightarrow> u32 option"
  ext_ptrRead :: "nat \<Rightarrow> u32 \<Rightarrow> 'd \<Rightarrow> u8 option"
  io_read :: "nat \<Rightarrow> u32 \<Rightarrow> 'd \<Rightarrow> (u8 \<times> 'd) option"
  io_write :: "nat \<Rightarrow> u8 \<Rightarrow> u32 \<Rightarrow> 'd \<Rightarrow> 'd option"
  io_setDirection :: "nat \<Rightarrow> u8 \<Rightarrow> u32 \<Rightarrow> 'd \<Rightarrow> 'd option"
  ser_read :: "nat \<Rightarrow> 'd \<Rightarrow> (u8 \<times> 'd) option"
  ser_write :: "nat \<Rightarrow> u8 \<Rightarrow> 'd \<Rightarrow> 'd option"
  ser_canRead :: "nat \<Rightarrow> 'd \<Rightarrow> bool"

section \<open>The peripherals\<close>

record dma_channel =
  memAddrA :: u32
  memAddrB :: u32
  ioAddrA :: u16
  ioAddrB :: u16
  countA :: u16
  countB :: u16
  dma_control :: u16
  bandControl :: u16

record io_port =
  port_data :: u8
  direction :: u8
  port_devices :: "nat list"

record tpu =
  tpu_clockDiv :: int
  clockShift :: int
  tpu_lastUpdateCycle :: u32
  tpu_nextUpdateCycle :: u32
  nextUpdate :: int
  clearOn :: int
  ioState :: u8
  ioMask :: u8
  tpu_mode :: u8
  ioControl :: u16
  interruptEnable :: u8
  tpu_status :: u8
  tpu_counter :: u16
  general :: "nat \<Rightarrow> u16"

record timer =
  timer_control :: u8
  controlStatus :: u8
  constantA :: u8
  constantB :: u8
  timer_counter :: u8
  timer_lastUpdateCycle :: u32
  timer_clockDiv :: int
  frac :: int

record serial =
  serial_mode :: u8
  bitRate :: u8
  serial_control :: u8
  serial_status :: u8
  smartCardMode :: u8
  txData :: u8
  rxData :: u8
  serial_device :: "nat option"
  serial_lastUpdateCycle :: u32
  serial_nextUpdateCycle :: u32
  cyclesPerChar :: int
  txCycles :: u32
  rxCycles :: u32
  delayedInterrupts :: int

section \<open>The CPU\<close>

record 'd cpu =
  er :: "nat \<Rightarrow> u32"
  pc :: u32
  ccr :: u8
  areaPtrs :: "nat \<Rightarrow> nat option"
  areaMasks :: "nat \<Rightarrow> u32"
  areaAccessCycles8 :: "nat \<Rightarrow> int"
  areaAccessCycles16 :: "nat \<Rightarrow> int"
  rom :: "nat \<Rightarrow> u8"
  ram :: "nat \<Rightarrow> u8"
  externalAreas :: "nat \<Rightarrow> nat option"
  busWidthControl :: u8
  busWaitControl :: u8
  busWaits :: u16
  irqEnable :: u8
  irqStatus :: u8
  requestedInterrupts :: "nat \<Rightarrow> u64"
  mstpcr :: u16
  dmaChannels :: "nat \<Rightarrow> dma_channel"
  dtcEnable :: "nat \<Rightarrow> u8"
  ioPorts :: "nat \<Rightarrow> io_port"
  tpuChannels :: "nat \<Rightarrow> tpu"
  tpuStart :: u8
  tpuInterruptEnable :: u8
  timers :: "nat \<Rightarrow> timer"
  serialPorts :: "nat \<Rightarrow> serial"
  a2dControlStatus :: u8
  a2dConversionTime :: int
  a2dConvCounter :: int
  a2dChannel :: int
  a2dEndChannel :: int
  a2dData :: "nat \<Rightarrow> u16"
  a2dValues :: "nat \<Rightarrow> u16"
  sleeping :: bool
  clock :: u32
  world :: 'd

text \<open>Updating one element of an array of the CPU.\<close>

definition upd_tpu :: "nat \<Rightarrow> (tpu \<Rightarrow> tpu) \<Rightarrow> 'd cpu \<Rightarrow> 'd cpu" where
  "upd_tpu i f c = c\<lparr>tpuChannels := (tpuChannels c)(i := f (tpuChannels c i))\<rparr>"

definition upd_timer :: "nat \<Rightarrow> (timer \<Rightarrow> timer) \<Rightarrow> 'd cpu \<Rightarrow> 'd cpu" where
  "upd_timer i f c = c\<lparr>timers := (timers c)(i := f (timers c i))\<rparr>"

definition upd_serial :: "nat \<Rightarrow> (serial \<Rightarrow> serial) \<Rightarrow> 'd cpu \<Rightarrow> 'd cpu" where
  "upd_serial i f c = c\<lparr>serialPorts := (serialPorts c)(i := f (serialPorts c i))\<rparr>"

definition upd_dma :: "nat \<Rightarrow> (dma_channel \<Rightarrow> dma_channel) \<Rightarrow> 'd cpu \<Rightarrow> 'd cpu" where
  "upd_dma i f c = c\<lparr>dmaChannels := (dmaChannels c)(i := f (dmaChannels c i))\<rparr>"

definition upd_port :: "nat \<Rightarrow> (io_port \<Rightarrow> io_port) \<Rightarrow> 'd cpu \<Rightarrow> 'd cpu" where
  "upd_port i f c = c\<lparr>ioPorts := (ioPorts c)(i := f (ioPorts c i))\<rparr>"

section \<open>Construction\<close>

text \<open>The member initialisers of the nested classes and of the CPU.\<close>

definition init_dma :: dma_channel where
  "init_dma = \<lparr>memAddrA = 0, memAddrB = 0, ioAddrA = 0, ioAddrB = 0, countA = 0, countB = 0,
     dma_control = 0, bandControl = 0\<rparr>"

definition init_port :: io_port where
  "init_port = \<lparr>port_data = 0, direction = 0, port_devices = []\<rparr>"

text \<open>\<open>general[4]{0xFFFF}\<close> initialises the first element; the others are 0.\<close>

definition init_tpu :: tpu where
  "init_tpu = \<lparr>tpu_clockDiv = 0, clockShift = 0, tpu_lastUpdateCycle = 0,
     tpu_nextUpdateCycle = 0, nextUpdate = 0, clearOn = 0, ioState = 0, ioMask = 0,
     tpu_mode = 0, ioControl = 0, interruptEnable = 0, tpu_status = 0, tpu_counter = 0,
     general = (\<lambda>i. if i = 0 then 0xFFFF else 0)\<rparr>"

definition init_timer :: timer where
  "init_timer = \<lparr>timer_control = 0, controlStatus = 0, constantA = 0, constantB = 0,
     timer_counter = 0, timer_lastUpdateCycle = 0, timer_clockDiv = 0, frac = 0\<rparr>"

definition init_serial :: serial where
  "init_serial = \<lparr>serial_mode = 0, bitRate = 0, serial_control = 0, serial_status = 0x84,
     smartCardMode = 0, txData = 0, rxData = 0, serial_device = None,
     serial_lastUpdateCycle = 0, serial_nextUpdateCycle = 0, cyclesPerChar = 1,
     txCycles = 0, rxCycles = 0, delayedInterrupts = 0\<rparr>"

text \<open>
  The constructor.  \<open>irqEnable\<close>, \<open>irqStatus\<close>, \<open>dtcEnable\<close>, \<open>a2dValues\<close> and the two tables of
  access times are left uninitialised by C++ and set by \<open>reset\<close>; they are arguments here,
  as are the attached devices.
\<close>

definition init_cpu :: "u8 \<Rightarrow> u8 \<Rightarrow> (nat \<Rightarrow> u8) \<Rightarrow> (nat \<Rightarrow> u16) \<Rightarrow> (nat \<Rightarrow> int) \<Rightarrow> (nat \<Rightarrow> int)
    \<Rightarrow> 'd \<Rightarrow> 'd cpu" where
  "init_cpu ie is de av t8 t16 w =
    \<lparr>er = (\<lambda>_. 0), pc = 0, ccr = 0, areaPtrs = (\<lambda>_. None),
     areaMasks = (\<lambda>i. if i = 0 then 0x1FFFFF else 0),
     areaAccessCycles8 = t8, areaAccessCycles16 = t16, rom = (\<lambda>_. 0), ram = (\<lambda>_. 0),
     externalAreas = (\<lambda>_. None), busWidthControl = 0xFF, busWaitControl = 0xFF,
     busWaits = 0xFFFF, irqEnable = ie, irqStatus = is, requestedInterrupts = (\<lambda>_. 0),
     mstpcr = 0x3FFF, dmaChannels = (\<lambda>_. init_dma), dtcEnable = de,
     ioPorts = (\<lambda>_. init_port), tpuChannels = (\<lambda>_. init_tpu), tpuStart = 0,
     tpuInterruptEnable = 0, timers = (\<lambda>_. init_timer), serialPorts = (\<lambda>_. init_serial),
     a2dControlStatus = 0, a2dConversionTime = 266, a2dConvCounter = 266, a2dChannel = 0,
     a2dEndChannel = 0, a2dData = (\<lambda>_. 0), a2dValues = av, sleeping = False, clock = 0,
     world = w\<rparr>"

section \<open>Raising interrupts\<close>

text \<open>\<open>H8CPU::interrupt\<close>: a request bit per source, in two 64-bit words.\<close>

definition interrupt :: "source \<Rightarrow> 'd cpu \<Rightarrow> 'd cpu" where
  "interrupt src c =
     (if src < 64
      then c\<lparr>requestedInterrupts := (requestedInterrupts c)
               (0 := requestedInterrupts c 0 OR bitv src)\<rparr>
      else c\<lparr>requestedInterrupts := (requestedInterrupts c)
               (1 := requestedInterrupts c 1 OR bitv (src - 64))\<rparr>)"

definition externalInterrupt :: "int \<Rightarrow> 'd cpu \<Rightarrow> 'd cpu" where
  "externalInterrupt num c =
     (if num < 0 \<or> num > 7 then c
      else let c = c\<lparr>irqStatus := irqStatus c OR bitv (nat num)\<rparr>
           in if tst (irqEnable c) (bitv (nat num)) then interrupt (IS_IRQ0 + nat num) c else c)"

text \<open>The \<open>externalInterrupt\<close> calls of a device during a bus access.\<close>

definition raise_irqs :: "nat list \<Rightarrow> 'd cpu \<Rightarrow> 'd cpu" where
  "raise_irqs ns c = fold (\<lambda>n. externalInterrupt (int n)) ns c"

definition pending :: "source \<Rightarrow> 'd cpu \<Rightarrow> bool" where
  "pending src c \<longleftrightarrow> bit (requestedInterrupts c (src div 64)) (src mod 64)"

section \<open>A CPU with nothing attached\<close>

text \<open>The state after construction of a CPU without devices, on which examples are evaluated.\<close>

definition bare_devices :: "unit devices" where
  "bare_devices = \<lparr>ext_read = (\<lambda>_ _ _. None), ext_write = (\<lambda>_ _ _ _. None),
     ext_getPtr = (\<lambda>_ _. None), ext_ptrRead = (\<lambda>_ _ _. None), io_read = (\<lambda>_ _ _. None),
     io_write = (\<lambda>_ _ _ _. None), io_setDirection = (\<lambda>_ _ _ _. None),
     ser_read = (\<lambda>_ _. None), ser_write = (\<lambda>_ _ _. None), ser_canRead = (\<lambda>_ _. False)\<rparr>"

definition bare_cpu :: "unit cpu" where
  "bare_cpu = init_cpu 0 0 (\<lambda>_. 0) (\<lambda>_. 0x1FF) (\<lambda>_. 6) (\<lambda>_. 12) ()"

end
