(* ===== verification/H8Ports.thy ===== *)
theory H8Ports
  imports H8State
begin

text \<open>
  The I/O ports (\<open>H8CPU::IOPort\<close>) and the coupling of the timer pulse unit to ports 1 and 2
  (\<open>H8CPU::updateTPUIO\<close>).
\<close>

section \<open>IOPort\<close>

text \<open>\<open>IOPort::read\<close>: the OR of what the attached devices drive.\<close>

fun port_read_devs :: "'d devices \<Rightarrow> nat list \<Rightarrow> u32 \<Rightarrow> u8 \<Rightarrow> 'd \<Rightarrow> (u8 \<times> 'd) option" where
  "port_read_devs D [] time ret w = Some (ret, w)"
| "port_read_devs D (dev # devs) time ret w =
     do { (v, w) \<leftarrow> io_read D dev time w; port_read_devs D devs time (ret OR v) w }"

definition IOPort_read :: "'d devices \<Rightarrow> nat \<Rightarrow> u32 \<Rightarrow> 'd cpu \<Rightarrow> (u8 \<times> 'd cpu) option" where
  "IOPort_read D p time c =
     do { (v, w) \<leftarrow> port_read_devs D (port_devices (ioPorts c p)) time 0 (world c);
          Some (v, c\<lparr>world := w\<rparr>) }"

fun port_write_devs :: "'d devices \<Rightarrow> nat list \<Rightarrow> u8 \<Rightarrow> u32 \<Rightarrow> 'd \<Rightarrow> 'd option" where
  "port_write_devs D [] val time w = Some w"
| "port_write_devs D (dev # devs) val time w =
     do { w \<leftarrow> io_write D dev val time w; port_write_devs D devs val time w }"

definition IOPort_write :: "'d devices \<Rightarrow> nat \<Rightarrow> u8 \<Rightarrow> u32 \<Rightarrow> bool \<Rightarrow> 'd cpu \<Rightarrow> 'd cpu option" where
  "IOPort_write D p val time save c =
     do { w \<leftarrow> port_write_devs D (port_devices (ioPorts c p)) val time (world c);
          let c = c\<lparr>world := w\<rparr>;
          Some (if save then upd_port p (\<lambda>q. q\<lparr>port_data := val\<rparr>) c else c) }"

definition IOPort_getWrittenData :: "nat \<Rightarrow> 'd cpu \<Rightarrow> u8" where
  "IOPort_getWrittenData p c = port_data (ioPorts c p)"

fun port_setDirection_devs :: "'d devices \<Rightarrow> nat list \<Rightarrow> u8 \<Rightarrow> u32 \<Rightarrow> 'd \<Rightarrow> 'd option" where
  "port_setDirection_devs D [] dir time w = Some w"
| "port_setDirection_devs D (dev # devs) dir time w =
     do { w \<leftarrow> io_setDirection D dev dir time w; port_setDirection_devs D devs dir time w }"

definition IOPort_setDirection :: "'d devices \<Rightarrow> nat \<Rightarrow> u8 \<Rightarrow> u32 \<Rightarrow> 'd cpu \<Rightarrow> 'd cpu option" where
  "IOPort_setDirection D p dir time c =
     do { w \<leftarrow> port_setDirection_devs D (port_devices (ioPorts c p)) dir time (world c);
          Some (upd_port p (\<lambda>q. q\<lparr>direction := dir\<rparr>) (c\<lparr>world := w\<rparr>)) }"

definition IOPort_getDirection :: "nat \<Rightarrow> 'd cpu \<Rightarrow> u8" where
  "IOPort_getDirection p c = direction (ioPorts c p)"

definition IOPort_addDevice :: "nat \<Rightarrow> nat \<Rightarrow> 'd cpu \<Rightarrow> 'd cpu" where
  "IOPort_addDevice p dev c = upd_port p (\<lambda>q. q\<lparr>port_devices := port_devices q @ [dev]\<rparr>) c"

section \<open>Timer outputs on the port pins\<close>

text \<open>
  Channels 0 to 2 drive port 1, channels 3 to 5 port 2; the first channel of a group has
  four pins, the others two.
\<close>

definition tpuPins :: "(tpu \<Rightarrow> u8) \<Rightarrow> nat \<Rightarrow> 'd cpu \<Rightarrow> u8" where
  "tpuPins f tpuBase c =
     f (tpuChannels c tpuBase) OR push_bit 4 (f (tpuChannels c (tpuBase + 1)))
       OR push_bit 6 (f (tpuChannels c (tpuBase + 2)))"

definition updateTPUIO :: "'d devices \<Rightarrow> nat \<Rightarrow> u32 \<Rightarrow> 'd cpu \<Rightarrow> 'd cpu option" where
  "updateTPUIO D i time c =
     (let tpuBase = (if i < 3 then 0 else 3);
          port = (if i < 3 then 0 else 1);
          ioVal = IOPort_getWrittenData port c;
          tpuVal = tpuPins ioState tpuBase c;
          tpuMask = tpuPins ioMask tpuBase c
      in IOPort_write D port ((ioVal AND NOT tpuMask) OR (tpuVal AND tpuMask)) time False c)"

end
