(* ===== verification/H8TPU.thy ===== *)
theory H8TPU
  imports H8Ports
begin

text \<open>
  The 16-bit timer pulse unit (\<open>H8CPU::TPU\<close>): the register file of a channel, the catch-up
  of its counter to the CPU clock and the compare matches and overflow on the way.
\<close>

section \<open>Registers\<close>

definition TPU_getReg :: "nat \<Rightarrow> tpu \<Rightarrow> u8" where
  "TPU_getReg reg t =
     (if reg = 4 then interruptEnable t
      else if reg = 5 then tpu_status t
      else if reg = 6 then ucast (drop_bit 8 (tpu_counter t))
      else if reg = 7 then ucast (tpu_counter t AND 0xFF)
      else if reg = 8 \<or> reg = 10 \<or> reg = 12 \<or> reg = 14
        then ucast (drop_bit 8 (general t ((reg div 2) mod 4)))
      else if reg = 9 \<or> reg = 11 \<or> reg = 13 \<or> reg = 15
        then ucast (general t ((reg div 2) mod 4) AND 0xFF)
      else 0)"

text \<open>\<open>calcNextUpdate\<close>: the nearest general register above the counter, or the overflow.\<close>

definition numGen :: "nat \<Rightarrow> nat" where
  "numGen i = (if i = 0 \<or> i = 3 then 4 else 2)"

definition firstMatch :: "nat \<Rightarrow> tpu \<Rightarrow> int" where
  "firstMatch i t =
     fold (\<lambda>k next. if general t k > tpu_counter t \<and> uint (general t k) < next
                    then uint (general t k) else next) [0..<numGen i] 0x10000"

definition TPU_calcNextUpdate :: "nat \<Rightarrow> tpu \<Rightarrow> tpu" where
  "TPU_calcNextUpdate i t =
     (let next = firstMatch i t
      in t\<lparr>nextUpdate := next,
           tpu_nextUpdateCycle := tpu_lastUpdateCycle t + word_of_int (next * tpu_clockDiv t)\<rparr>)"

text \<open>
  The TCR case: \<open>1 << clockShift\<close> with a negative shift other than -1 has no defined value.
\<close>

definition TPU_setTCR :: "nat \<Rightarrow> u8 \<Rightarrow> tpu \<Rightarrow> tpu option" where
  "TPU_setTCR i val t =
     (let edge = unat (drop_bit 3 val AND 3);
          tpsc = unat (val AND 7);
          sh = (if tpsc < 4 then int tpsc * 2
                else if tpsc = 6 \<and> (i = 1 \<or> i = 3 \<or> i = 5) then 8
                else -1);
          sh = (if edge = 2 \<and> sh \<noteq> 0 then sh - 1 else sh)
      in if sh < -1 then None
         else Some (TPU_calcNextUpdate i
                (t\<lparr>clockShift := sh, tpu_clockDiv := (if sh = -1 then 0 else 2 ^ nat sh),
                   clearOn := uint (drop_bit 5 val)\<rparr>)))"

definition TPU_setReg :: "nat \<Rightarrow> nat \<Rightarrow> u8 \<Rightarrow> tpu \<Rightarrow> tpu option" where
  "TPU_setReg i reg val t =
     (let four = (i = 0 \<or> i = 3)
      in if reg = 0 then TPU_setTCR i val t
      else if reg = 1 then Some (t\<lparr>tpu_mode := val\<rparr>)
      else if reg = 2 then
        (if four
         then Some (t\<lparr>ioControl := (ioControl t AND 0xFF) OR push_bit 8 (ucast val)\<rparr>)
         else let io = (ucast val :: u16);
                  enableA = (tst io 0x03 \<and> \<not> tst io 0x08);
                  enableB = (tst io 0x30 \<and> \<not> tst io 0x80)
              in Some (t\<lparr>ioControl := io,
                         ioMask := (if enableA then 1 else 0) OR (if enableB then 2 else 0)\<rparr>))
      else if reg = 3 then
        (if four
         then let io = (ioControl t AND 0xFF00) OR ucast val;
                  enableA = (tst io 0x0003 \<and> \<not> tst io 0x0008);
                  enableB = (tst io 0x0030 \<and> \<not> tst io 0x0080);
                  enableC = (tst io 0x0300 \<and> \<not> tst io 0x0800);
                  enableD = (tst io 0x3000 \<and> \<not> tst io 0x8000)
              in Some (t\<lparr>ioControl := io,
                         ioMask := (if enableA then 1 else 0) OR (if enableB then 2 else 0)
                                OR (if enableC then 4 else 0) OR (if enableD then 8 else 0)\<rparr>)
         else Some t)
      else if reg = 4 then Some (t\<lparr>interruptEnable := val\<rparr>)
      else if reg = 5 then Some (t\<lparr>tpu_status := tpu_status t AND val\<rparr>)
      else if reg = 6 then
        Some (TPU_calcNextUpdate i
          (t\<lparr>tpu_counter := push_bit 8 (ucast val) OR (tpu_counter t AND 0xFF)\<rparr>))
      else if reg = 7 then
        Some (TPU_calcNextUpdate i
          (t\<lparr>tpu_counter := ucast val OR (tpu_counter t AND 0xFF00)\<rparr>))
      else if reg = 8 \<or> reg = 10 \<or> reg = 12 \<or> reg = 14 then
        (let k = (reg div 2) mod 4
         in Some (TPU_calcNextUpdate i
              (t\<lparr>general := (general t)(k := push_bit 8 (ucast val) OR (general t k AND 0xFF))\<rparr>)))
      else if reg = 9 \<or> reg = 11 \<or> reg = 13 \<or> reg = 15 then
        (let k = (reg div 2) mod 4
         in Some (TPU_calcNextUpdate i
              (t\<lparr>general := (general t)(k := ucast val OR (general t k AND 0xFF00))\<rparr>)))
      else Some t)"

section \<open>Output pins\<close>

definition TPU_setIO :: "'d devices \<Rightarrow> nat \<Rightarrow> nat \<Rightarrow> bool \<Rightarrow> 'd cpu \<Rightarrow> 'd cpu option" where
  "TPU_setIO D i ioIndex value c =
     (let c = upd_tpu i (\<lambda>t. t\<lparr>ioState := (if value then ioState t OR bitv ioIndex
                                            else ioState t AND NOT (bitv ioIndex))\<rparr>) c
      in updateTPUIO D i (tpu_lastUpdateCycle (tpuChannels c i)) c)"

text \<open>The initial output levels of pins A and B, as \<open>setEnabled\<close> and PWM clearing set them.\<close>

definition TPU_initialOutputs :: "'d devices \<Rightarrow> nat \<Rightarrow> 'd cpu \<Rightarrow> 'd cpu option" where
  "TPU_initialOutputs D i c =
     do { c \<leftarrow> (if tst (ioControl (tpuChannels c i)) 0x03
                then TPU_setIO D i 0 (tst (ioControl (tpuChannels c i)) 0x04) c else Some c);
          if tst (ioControl (tpuChannels c i)) 0x30
          then TPU_setIO D i 1 (tst (ioControl (tpuChannels c i)) 0x40) c else Some c }"

text \<open>\<open>setEnabled\<close> does not use its argument \<open>enabled\<close>.\<close>

definition TPU_setEnabled :: "'d devices \<Rightarrow> nat \<Rightarrow> bool \<Rightarrow> 'd cpu \<Rightarrow> 'd cpu option" where
  "TPU_setEnabled D i enabled c = TPU_initialOutputs D i c"

text \<open>The \<open>clear\<close> closure of \<open>update\<close>; mode 3 is PWM mode 2.\<close>

definition TPU_clear :: "'d devices \<Rightarrow> nat \<Rightarrow> 'd cpu \<Rightarrow> 'd cpu option" where
  "TPU_clear D i c =
     (let c = upd_tpu i (\<lambda>t. t\<lparr>tpu_counter := 0\<rparr>) c
      in if tpu_mode (tpuChannels c i) AND 0xF = 3 then TPU_initialOutputs D i c else Some c)"

section \<open>Counting\<close>

definition TGI_V :: "nat \<Rightarrow> source" where
  "TGI_V i = [IS_TGI0V, IS_TGI1V, IS_TGI2V, IS_TGI3V, IS_TGI4V, IS_TGI5V] ! i"

definition TGI_A :: "nat \<Rightarrow> source" where
  "TGI_A i = [IS_TGI0A, IS_TGI1A, IS_TGI2A, IS_TGI3A, IS_TGI4A, IS_TGI5A] ! i"

definition TGI_B :: "nat \<Rightarrow> source" where
  "TGI_B i = [IS_TGI0B, IS_TGI1B, IS_TGI2B, IS_TGI3B, IS_TGI4B, IS_TGI5B] ! i"

text \<open>Setting a status flag and raising its interrupt when it is enabled.\<close>

definition TPU_flag :: "nat \<Rightarrow> nat \<Rightarrow> 'd cpu \<Rightarrow> 'd cpu" where
  "TPU_flag i k c = upd_tpu i (\<lambda>t. t\<lparr>tpu_status := tpu_status t OR bitv k\<rparr>) c"

definition TPU_irq :: "nat \<Rightarrow> nat \<Rightarrow> source \<Rightarrow> 'd cpu \<Rightarrow> 'd cpu" where
  "TPU_irq i k src c =
     (if tst (interruptEnable (tpuChannels c i)) (bitv k) then interrupt src c else c)"

text \<open>A match of the output compare pin \<open>k\<close> whose two control bits are \<open>sel\<close>.\<close>

definition TPU_matchPin :: "'d devices \<Rightarrow> nat \<Rightarrow> nat \<Rightarrow> 'd cpu \<Rightarrow> 'd cpu option" where
  "TPU_matchPin D i k c =
     (let t = tpuChannels c i; io = drop_bit (4 * k) (ioControl t); sel = io AND 0x03
      in if sel \<noteq> 0 \<and> \<not> tst io 0x08
         then TPU_setIO D i k (if sel = 1 then False else if sel = 2 then True
                               else \<not> tst (ioState t) (bitv k)) c
         else Some c)"

definition TPU_overflow :: "nat \<Rightarrow> 'd cpu \<Rightarrow> 'd cpu" where
  "TPU_overflow i c =
     (if tpu_counter (tpuChannels c i) = 0 then TPU_irq i 4 (TGI_V i) (TPU_flag i 4 c) else c)"

definition TPU_matchA :: "'d devices \<Rightarrow> nat \<Rightarrow> 'd cpu \<Rightarrow> 'd cpu option" where
  "TPU_matchA D i c =
     (if tpu_counter (tpuChannels c i) = general (tpuChannels c i) 0
      then do { let c = TPU_flag i 0 c;
                c \<leftarrow> (if clearOn (tpuChannels c i) = 1 then TPU_clear D i c else Some c);
                TPU_matchPin D i 0 (TPU_irq i 0 (TGI_A i) c) }
      else Some c)"

definition TPU_matchB :: "'d devices \<Rightarrow> nat \<Rightarrow> 'd cpu \<Rightarrow> 'd cpu option" where
  "TPU_matchB D i c =
     (if tpu_counter (tpuChannels c i) = general (tpuChannels c i) 1
      then do { let c = TPU_flag i 1 c;
                c \<leftarrow> (if clearOn (tpuChannels c i) = 2 then TPU_clear D i c else Some c);
                TPU_matchPin D i 1 (TPU_irq i 1 (TGI_B i) c) }
      else Some c)"

definition TPU_matchC :: "'d devices \<Rightarrow> nat \<Rightarrow> 'd cpu \<Rightarrow> 'd cpu option" where
  "TPU_matchC D i c =
     (if tpu_counter (tpuChannels c i) = general (tpuChannels c i) 2
      then do { let c = TPU_flag i 2 c;
                c \<leftarrow> (if clearOn (tpuChannels c i) = 5 then TPU_clear D i c else Some c);
                Some (TPU_irq i 2 (if i = 0 then IS_TGI0C else IS_TGI3C) c) }
      else Some c)"

definition TPU_matchD :: "'d devices \<Rightarrow> nat \<Rightarrow> 'd cpu \<Rightarrow> 'd cpu option" where
  "TPU_matchD D i c =
     (if tpu_counter (tpuChannels c i) = general (tpuChannels c i) 3
      then do { let c = TPU_flag i 3 c;
                c \<leftarrow> (if clearOn (tpuChannels c i) = 6 then TPU_clear D i c else Some c);
                Some (TPU_irq i 3 (if i = 0 then IS_TGI0D else IS_TGI3D) c) }
      else Some c)"

text \<open>One round of the loop of \<open>update\<close>: advance to the next event, then handle it.\<close>

definition TPU_advance :: "nat \<Rightarrow> int \<Rightarrow> 'd cpu \<Rightarrow> 'd cpu" where
  "TPU_advance i step c =
     upd_tpu i (\<lambda>t. t\<lparr>tpu_counter := tpu_counter t + word_of_int step,
                      tpu_lastUpdateCycle := tpu_lastUpdateCycle t
                        + word_of_int (step * 2 ^ nat (clockShift t))\<rparr>) c"

definition TPU_round :: "'d devices \<Rightarrow> nat \<Rightarrow> int \<Rightarrow> 'd cpu \<Rightarrow> (int \<times> 'd cpu) option" where
  "TPU_round D i inc c =
     do { let t = tpuChannels c i;
          let step = min inc (nextUpdate t - uint (tpu_counter t));
          let c = TPU_overflow i (TPU_advance i step c);
          c \<leftarrow> TPU_matchA D i c;
          c \<leftarrow> TPU_matchB D i c;
          c \<leftarrow> (if i \<noteq> 0 \<and> i \<noteq> 3 then Some c
                else do { c \<leftarrow> TPU_matchC D i c; TPU_matchD D i c });
          Some (inc - step, upd_tpu i (TPU_calcNextUpdate i) c) }"

text \<open>
  The loop runs while \<open>inc\<close> is not zero.  The fuel is the initial \<open>inc\<close>, one unit per round.  It never
  runs out where the stored next event is the one of the counter and the registers (\<open>loop_ticks\<close> in
  \<open>H8Ticks\<close>), which is what \<open>calcNextUpdate\<close> establishes.
\<close>

fun TPU_loop :: "'d devices \<Rightarrow> nat \<Rightarrow> nat \<Rightarrow> int \<Rightarrow> 'd cpu \<Rightarrow> 'd cpu option" where
  "TPU_loop D 0 i inc c = (if inc = 0 then Some c else None)"
| "TPU_loop D (Suc fuel) i inc c =
     (if inc = 0 then Some c
      else do { (inc, c) \<leftarrow> TPU_round D i inc c; TPU_loop D fuel i inc c })"

definition TPU_update :: "'d devices \<Rightarrow> nat \<Rightarrow> 'd cpu \<Rightarrow> 'd cpu option" where
  "TPU_update D i c =
     (let t = tpuChannels c i
      in if tpu_clockDiv t = 0 \<or> \<not> tst (tpuStart c) (bitv i)
         then Some (upd_tpu i (\<lambda>t. t\<lparr>tpu_lastUpdateCycle := clock c\<rparr>) c)
         else let elapsed = sint (clock c - tpu_lastUpdateCycle t);
                  inc = drop_bit (nat (clockShift t)) elapsed;
                  incCounter = uint (tpu_counter t) + inc
              in if incCounter < nextUpdate t
                 then Some (upd_tpu i (\<lambda>t. t\<lparr>tpu_counter := word_of_int incCounter,
                        tpu_lastUpdateCycle := tpu_lastUpdateCycle t
                          + word_of_int (inc * 2 ^ nat (clockShift t))\<rparr>) c)
                 else TPU_loop D (nat inc) i inc c)"

definition TPU_updateForInterrupts :: "'d devices \<Rightarrow> nat \<Rightarrow> 'd cpu \<Rightarrow> 'd cpu option" where
  "TPU_updateForInterrupts D i c =
     (let t = tpuChannels c i;
          elapsed = sint (clock c - tpu_lastUpdateCycle t);
          toNext = sint (tpu_nextUpdateCycle t - tpu_lastUpdateCycle t)
      in if interruptEnable t \<noteq> 0 \<and> elapsed \<ge> toNext then TPU_update D i c else Some c)"

end
