(* ===== verification/H8Timer.thy ===== *)
theory H8Timer
  imports H8State
begin

text \<open>The two 8-bit timers (\<open>H8CPU::Timer\<close>).\<close>

definition Timer_getReg :: "nat \<Rightarrow> timer \<Rightarrow> u8" where
  "Timer_getReg reg t =
     (if reg = 0 then timer_control t
      else if reg = 1 then controlStatus t
      else if reg = 2 then constantA t
      else if reg = 3 then constantB t
      else if reg = 4 then timer_counter t
      else 0)"

definition Timer_setReg :: "nat \<Rightarrow> u8 \<Rightarrow> timer \<Rightarrow> timer" where
  "Timer_setReg reg val t =
     (if reg = 0 then
        (let t = t\<lparr>timer_control := val\<rparr>;
             clockSel = timer_control t AND 0x7
         in t\<lparr>timer_clockDiv := (if clockSel = 1 then 8
                                else if clockSel = 2 then 64
                                else if clockSel = 3 then 8192
                                else 0)\<rparr>)
      else if reg = 1 then t\<lparr>controlStatus := val\<rparr>
      else if reg = 2 then t\<lparr>constantA := val\<rparr>
      else if reg = 3 then t\<lparr>constantB := val\<rparr>
      else if reg = 4 then t\<lparr>timer_counter := val\<rparr>
      else t)"

text \<open>\<open>update\<close> counts at most one tick; the rest stays in \<open>frac\<close>.\<close>

definition Timer_update :: "nat \<Rightarrow> 'd cpu \<Rightarrow> 'd cpu" where
  "Timer_update i c =
     (let t = timers c i
      in if timer_clockDiv t = 0
         then upd_timer i (\<lambda>t. t\<lparr>timer_lastUpdateCycle := clock c\<rparr>) c
         else let clocks = clock c - timer_lastUpdateCycle t;
                  fr = int32 (frac t + uint clocks);
                  t = t\<lparr>timer_lastUpdateCycle := clock c, frac := fr\<rparr>
              in if fr < timer_clockDiv t then upd_timer i (\<lambda>_. t) c
                 else let t = t\<lparr>frac := fr - timer_clockDiv t,
                                timer_counter := timer_counter t + 1\<rparr>
                      in if timer_counter t = 0
                         then let t = t\<lparr>controlStatus := controlStatus t OR bitv 5\<rparr>;
                                  c = upd_timer i (\<lambda>_. t) c
                              in if tst (timer_control t) 0x20
                                 then interrupt (if i = 0 then IS_OVI0 else IS_OVI1) c else c
                         else upd_timer i (\<lambda>_. t) c)"

definition Timer_updateForInterrupts :: "nat \<Rightarrow> 'd cpu \<Rightarrow> 'd cpu" where
  "Timer_updateForInterrupts i c =
     (let t = timers c i;
          elapsed = sint (clock c - timer_lastUpdateCycle t)
      in if elapsed \<ge> timer_clockDiv t - frac t then Timer_update i c else c)"

end
