(* ===== verification/H8Serial.thy ===== *)
theory H8Serial
  imports H8State
begin

text \<open>
  The three serial communication interfaces (\<open>H8CPU::Serial\<close>): the register file, the
  transmit and receive shift clocks and the interrupts that are delayed because a
  transmission can be started from a DMA transfer.
\<close>

section \<open>Registers and the bit clock\<close>

definition Serial_getReg :: "nat \<Rightarrow> serial \<Rightarrow> u8" where
  "Serial_getReg addr s =
     (if addr = 0 then serial_mode s
      else if addr = 1 then bitRate s
      else if addr = 2 then serial_control s
      else if addr = 3 then txData s
      else if addr = 4 then serial_status s
      else if addr = 5 then rxData s
      else if addr = 6 then smartCardMode s
      else 0)"

definition Serial_canRead :: "'d devices \<Rightarrow> nat \<Rightarrow> 'd cpu \<Rightarrow> bool" where
  "Serial_canRead D i c =
     (case serial_device (serialPorts c i) of None \<Rightarrow> False | Some dev \<Rightarrow> ser_canRead D dev (world c))"

definition Serial_calcNextUpdate :: "'d devices \<Rightarrow> nat \<Rightarrow> 'd cpu \<Rightarrow> 'd cpu" where
  "Serial_calcNextUpdate D i c =
     (let s = serialPorts c i
      in if delayedInterrupts s \<noteq> 0
         then upd_serial i (\<lambda>s. s\<lparr>serial_nextUpdateCycle := serial_lastUpdateCycle s\<rparr>) c
         else if rxCycles s = 0 \<and> \<not> tst (serial_mode s) SMR_CA \<and> Serial_canRead D i c
         then upd_serial i (\<lambda>s. s\<lparr>serial_nextUpdateCycle := serial_lastUpdateCycle s\<rparr>) c
         else let next = (word_of_int (cyclesPerChar s) :: u32);
                  next = (if txCycles s \<noteq> 0 \<and> txCycles s < next then txCycles s else next);
                  next = (if rxCycles s \<noteq> 0 \<and> rxCycles s < next then rxCycles s else next)
              in upd_serial i
                   (\<lambda>s. s\<lparr>serial_nextUpdateCycle := serial_lastUpdateCycle s + next\<rparr>) c)"

text \<open>Cycles per character: bits per frame times clocks per bit.\<close>

definition charCycles :: "u8 \<Rightarrow> u8 \<Rightarrow> int" where
  "charCycles mode rate =
     (let clockDiv = ([1, 4, 16, 64] :: int list) ! unat (mode AND 3);
          bits = 8; clocksPerBit = 1;
          (bits, clocksPerBit) =
            (if \<not> tst mode SMR_CA then
               (let bits = bits + 2;
                    bits = (if tst mode SMR_STOP then bits + 1 else bits);
                    bits = (if tst mode SMR_PE then bits + 1
                            else if tst mode SMR_MP then bits + 1 else bits);
                    bits = (if tst mode SMR_CHR then bits - 1 else bits)
                in (bits + 1, clocksPerBit * 8))
             else (bits, clocksPerBit));
          clocksPerBit = clocksPerBit * (clockDiv * (uint rate + 1) * 4)
      in clocksPerBit * bits)"

definition Serial_updateClockDiv :: "'d devices \<Rightarrow> nat \<Rightarrow> 'd cpu \<Rightarrow> 'd cpu" where
  "Serial_updateClockDiv D i c =
     Serial_calcNextUpdate D i
       (upd_serial i (\<lambda>s. s\<lparr>cyclesPerChar := charCycles (serial_mode s) (bitRate s)\<rparr>) c)"

section \<open>Receiving and transmitting\<close>

text \<open>The part of \<open>doRX\<close> that talks to the device; \<open>Some\<close> of the byte received.\<close>

definition Serial_fetch :: "'d devices \<Rightarrow> nat \<Rightarrow> 'd cpu \<Rightarrow> 'd cpu option" where
  "Serial_fetch D i c =
     (case serial_device (serialPorts c i) of
        None \<Rightarrow> Some c
      | Some dev \<Rightarrow>
          do { let s = serialPorts c i;
               c \<leftarrow> (if tst (serial_mode s) SMR_CA \<and> \<not> tst (serial_control s) SCR_TE
                     then do { w \<leftarrow> ser_write D dev 0xFF (world c); Some (c\<lparr>world := w\<rparr>) }
                     else Some c);
               if ser_canRead D dev (world c)
               then do { (v, w) \<leftarrow> ser_read D dev (world c);
                         Some (upd_serial i (\<lambda>s. s\<lparr>rxData := v\<rparr>) (c\<lparr>world := w\<rparr>)) }
               else Some c })"

definition Serial_doRX :: "'d devices \<Rightarrow> nat \<Rightarrow> 'd cpu \<Rightarrow> 'd cpu option" where
  "Serial_doRX D i c =
     (if tst (serial_status (serialPorts c i)) SSR_RDRF
      then Some (upd_serial i (\<lambda>s. s\<lparr>serial_status := serial_status s OR SSR_ORER\<rparr>) c)
      else do { c \<leftarrow> Serial_fetch D i c;
                let c = upd_serial i (\<lambda>s. s\<lparr>serial_status := serial_status s OR SSR_RDRF\<rparr>) c;
                let c = (if tst (serial_control (serialPorts c i)) SCR_RIE
                         then upd_serial i (\<lambda>s. s\<lparr>delayedInterrupts :=
                                or (delayedInterrupts s) 2\<rparr>) c
                         else c);
                let c = (if \<not> tst (serial_mode (serialPorts c i)) SMR_CA
                         then upd_serial i (\<lambda>s. s\<lparr>rxCycles := word_of_int (cyclesPerChar s)\<rparr>) c
                         else c);
                Some (Serial_calcNextUpdate D i c) })"

definition Serial_doTX :: "'d devices \<Rightarrow> nat \<Rightarrow> 'd cpu \<Rightarrow> 'd cpu option" where
  "Serial_doTX D i c =
     do { c \<leftarrow> (case serial_device (serialPorts c i) of
                  None \<Rightarrow> Some c
                | Some dev \<Rightarrow> do { w \<leftarrow> ser_write D dev (txData (serialPorts c i)) (world c);
                                    Some (c\<lparr>world := w\<rparr>) });
          let c = upd_serial i (\<lambda>s. s\<lparr>serial_status := serial_status s OR SSR_TDRE\<rparr>) c;
          let c = (if tst (serial_control (serialPorts c i)) SCR_TIE
                   then upd_serial i (\<lambda>s. s\<lparr>delayedInterrupts := or (delayedInterrupts s) 1\<rparr>) c
                   else c);
          let c = upd_serial i (\<lambda>s. s\<lparr>txCycles := word_of_int (cyclesPerChar s)\<rparr>) c;
          let c = Serial_calcNextUpdate D i c;
          if tst (serial_mode (serialPorts c i)) SMR_CA \<and>
             tst (serial_control (serialPorts c i)) SCR_RE
          then Serial_doRX D i c else Some c }"

section \<open>Register writes\<close>

definition Serial_setSCR :: "nat \<Rightarrow> u8 \<Rightarrow> 'd cpu \<Rightarrow> 'd cpu" where
  "Serial_setSCR i val c =
     (let s = serialPorts c i;
          changed = val XOR serial_control s;
          c = (if tst (changed AND val) SCR_TIE \<and> tst val SCR_TE \<and> tst (serial_status s) SSR_TDRE
               then interrupt (IS_TXI0 + i * 4) c else c);
          c = (if tst (changed AND val) SCR_RE \<and> \<not> tst val SCR_TE \<and>
                  tst (serial_mode s) SMR_CA \<and> txCycles s = 0
               then upd_serial i (\<lambda>s. s\<lparr>txCycles := word_of_int (cyclesPerChar s)\<rparr>) c else c)
      in upd_serial i (\<lambda>s. s\<lparr>serial_control := val\<rparr>) c)"

definition Serial_setSSR :: "'d devices \<Rightarrow> nat \<Rightarrow> u8 \<Rightarrow> 'd cpu \<Rightarrow> 'd cpu option" where
  "Serial_setSSR D i val c =
     (let s = serialPorts c i;
          changed = val XOR serial_status s;
          cleared = changed AND serial_status s;
          c = upd_serial i (\<lambda>s. s\<lparr>serial_status :=
                ((val AND serial_status s) AND 0xF8) OR (serial_status s AND 0x6)
                OR (val AND 1)\<rparr>) c
      in if tst cleared SSR_TDRE \<and> tst (serial_control s) SCR_TE
         then let c = upd_serial i (\<lambda>s. s\<lparr>serial_status := serial_status s AND NOT SSR_TEND\<rparr>) c
              in if txCycles (serialPorts c i) = 0 then Serial_doTX D i c else Some c
         else Some c)"

definition Serial_setReg :: "'d devices \<Rightarrow> nat \<Rightarrow> nat \<Rightarrow> u8 \<Rightarrow> 'd cpu \<Rightarrow> 'd cpu option" where
  "Serial_setReg D i addr val c =
     do { c \<leftarrow> (if addr = 0
                then Some (Serial_updateClockDiv D i (upd_serial i (\<lambda>s. s\<lparr>serial_mode := val\<rparr>) c))
                else if addr = 1
                then Some (Serial_updateClockDiv D i (upd_serial i (\<lambda>s. s\<lparr>bitRate := val\<rparr>) c))
                else if addr = 2 then Some (Serial_setSCR i val c)
                else if addr = 3 then Some (upd_serial i (\<lambda>s. s\<lparr>txData := val\<rparr>) c)
                else if addr = 4 then Serial_setSSR D i val c
                else if addr = 6 then Some (upd_serial i (\<lambda>s. s\<lparr>smartCardMode := val\<rparr>) c)
                else Some c);
          Some (if \<not> tst (serial_control (serialPorts c i)) SCR_TE
                then upd_serial i (\<lambda>s. s\<lparr>serial_status :=
                       serial_status s OR (SSR_TDRE OR SSR_TEND)\<rparr>) c
                else c) }"

section \<open>Catching up with the clock\<close>

definition Serial_raiseDelayed :: "nat \<Rightarrow> 'd cpu \<Rightarrow> 'd cpu" where
  "Serial_raiseDelayed i c =
     (let d = delayedInterrupts (serialPorts c i)
      in if d \<noteq> 0
         then let c = (if bit d 0 then interrupt (IS_TXI0 + i * 4) c else c);
                  c = (if bit d 1 then interrupt (IS_RXI0 + i * 4) c else c)
              in upd_serial i (\<lambda>s. s\<lparr>delayedInterrupts := 0\<rparr>) c
         else c)"

text \<open>The next event of the shift clocks within \<open>elapsed\<close> cycles.\<close>

definition Serial_step :: "u32 \<Rightarrow> serial \<Rightarrow> u32" where
  "Serial_step elapsed s =
     (let step = elapsed;
          step = (if txCycles s \<noteq> 0 \<and> txCycles s < step then txCycles s else step)
      in if rxCycles s \<noteq> 0 \<and> rxCycles s < step then rxCycles s else step)"

text \<open>The transmit side of one round, when its shift clock runs.\<close>

definition Serial_txDone :: "'d devices \<Rightarrow> nat \<Rightarrow> 'd cpu \<Rightarrow> 'd cpu option" where
  "Serial_txDone D i c =
     do { let s = serialPorts c i;
          c \<leftarrow> (if \<not> tst (serial_status s) SSR_TDRE \<and> tst (serial_control s) SCR_TE
                then Serial_doTX D i c
                else if tst (serial_control s) SCR_TE
                then let c = upd_serial i (\<lambda>s. s\<lparr>serial_status := serial_status s OR SSR_TEND\<rparr>) c
                     in Some (if tst (serial_control s) SCR_TEIE
                              then interrupt (IS_TEI0 + i * 4) c else c)
                else Some c);
          let s = serialPorts c i;
          if tst (serial_control s) SCR_RE \<and> \<not> tst (serial_control s) SCR_TE \<and>
             tst (serial_mode s) SMR_CA
          then do { c \<leftarrow> (if serial_device s \<noteq> None then Serial_doRX D i c else Some c);
                    Some (upd_serial i (\<lambda>s. s\<lparr>txCycles := word_of_int (cyclesPerChar s)\<rparr>) c) }
          else Some c }"

definition Serial_round :: "'d devices \<Rightarrow> nat \<Rightarrow> u32 \<Rightarrow> 'd cpu \<Rightarrow> (u32 \<times> 'd cpu) option" where
  "Serial_round D i elapsed c =
     do { let step = Serial_step elapsed (serialPorts c i);
          c \<leftarrow> (if txCycles (serialPorts c i) \<noteq> 0
                then let c = upd_serial i (\<lambda>s. s\<lparr>txCycles := txCycles s - step\<rparr>) c
                     in if txCycles (serialPorts c i) = 0 then Serial_txDone D i c else Some c
                else Some c);
          let c = (if rxCycles (serialPorts c i) \<noteq> 0
                   then upd_serial i (\<lambda>s. s\<lparr>rxCycles := rxCycles s - step\<rparr>) c else c);
          let s = serialPorts c i;
          c \<leftarrow> (if rxCycles s = 0 \<and> tst (serial_control s) SCR_RE \<and>
                   \<not> tst (serial_status s) SSR_RDRF \<and> \<not> tst (serial_mode s) SMR_CA \<and>
                   Serial_canRead D i c
                then Serial_doRX D i c else Some c);
          Some (elapsed - step, Serial_calcNextUpdate D i c) }"

text \<open>
  The loop runs while \<open>elapsed\<close> is not zero.  A round uses up at least one cycle, so a fuel of
  \<open>elapsed\<close> is enough (\<open>Serial_step_pos\<close>, \<open>Serial_loop_enough\<close> and \<open>Serial_loop_unfold\<close> in \<open>H8Ticks\<close>).
\<close>

fun Serial_loop :: "'d devices \<Rightarrow> nat \<Rightarrow> nat \<Rightarrow> u32 \<Rightarrow> 'd cpu \<Rightarrow> 'd cpu option" where
  "Serial_loop D 0 i elapsed c = (if elapsed = 0 then Some c else None)"
| "Serial_loop D (Suc fuel) i elapsed c =
     (if elapsed = 0 then Some c
      else do { (elapsed, c) \<leftarrow> Serial_round D i elapsed c; Serial_loop D fuel i elapsed c })"

definition Serial_update :: "'d devices \<Rightarrow> nat \<Rightarrow> 'd cpu \<Rightarrow> 'd cpu option" where
  "Serial_update D i c =
     (let c = Serial_raiseDelayed i c;
          elapsed = clock c - serial_lastUpdateCycle (serialPorts c i);
          c = upd_serial i (\<lambda>s. s\<lparr>serial_lastUpdateCycle := clock c\<rparr>) c
      in Serial_loop D (unat elapsed) i elapsed c)"

definition Serial_updateForInterrupts :: "'d devices \<Rightarrow> nat \<Rightarrow> 'd cpu \<Rightarrow> 'd cpu option" where
  "Serial_updateForInterrupts D i c =
     (let s = serialPorts c i
      in if \<not> tst (serial_control s) (SCR_TEIE OR SCR_MPIE OR SCR_RIE OR SCR_TIE) then Some c
         else let elapsed = clock c - serial_lastUpdateCycle s;
                  toNext = serial_nextUpdateCycle s - serial_lastUpdateCycle s
              in if elapsed \<ge> toNext then Serial_update D i c else Some c)"

definition Serial_setDevice :: "nat \<Rightarrow> nat \<Rightarrow> 'd cpu \<Rightarrow> 'd cpu" where
  "Serial_setDevice i dev c = upd_serial i (\<lambda>s. s\<lparr>serial_device := Some dev\<rparr>) c"

end
