(* ===== verification/H8DMARegs.thy ===== *)
theory H8DMARegs
  imports H8State
begin

text \<open>The register file of a DMA channel (\<open>H8CPU::DMAChannel::getReg\<close> and \<open>setReg\<close>).\<close>

definition DMA_getReg :: "nat \<Rightarrow> dma_channel \<Rightarrow> u8" where
  "DMA_getReg addr d =
     (if addr = 0x0 then ucast (drop_bit 24 (memAddrA d))
      else if addr = 0x1 then ucast (drop_bit 16 (memAddrA d))
      else if addr = 0x2 then ucast (drop_bit 8 (memAddrA d))
      else if addr = 0x3 then ucast (memAddrA d AND 0xFF)
      else if addr = 0x4 then ucast (drop_bit 8 (ioAddrA d))
      else if addr = 0x5 then ucast (ioAddrA d AND 0xFF)
      else if addr = 0x6 then ucast (drop_bit 8 (countA d))
      else if addr = 0x7 then ucast (countA d AND 0xFF)
      else if addr = 0x8 then ucast (drop_bit 24 (memAddrB d))
      else if addr = 0x9 then ucast (drop_bit 16 (memAddrB d))
      else if addr = 0xA then ucast (drop_bit 8 (memAddrB d))
      else if addr = 0xB then ucast (memAddrB d AND 0xFF)
      else if addr = 0xC then ucast (drop_bit 8 (ioAddrB d))
      else if addr = 0xD then ucast (ioAddrB d AND 0xFF)
      else if addr = 0xE then ucast (drop_bit 8 (countB d))
      else if addr = 0xF then ucast (countB d AND 0xFF)
      else if addr = 0x10 then ucast (drop_bit 8 (dma_control d))
      else if addr = 0x11 then ucast (dma_control d AND 0xFF)
      else if addr = 0x12 then ucast (drop_bit 8 (bandControl d))
      else if addr = 0x13 then ucast (bandControl d AND 0xFF)
      else 0)"

text \<open>Storing a byte of a register: \<open>(val << n) | (old & ~(0xFF << n))\<close>.\<close>

definition setByte32 :: "nat \<Rightarrow> u8 \<Rightarrow> u32 \<Rightarrow> u32" where
  "setByte32 n val old = push_bit n (ucast val) OR (old AND NOT (push_bit n 0xFF))"

definition setByte16 :: "nat \<Rightarrow> u8 \<Rightarrow> u16 \<Rightarrow> u16" where
  "setByte16 n val old = push_bit n (ucast val) OR (old AND NOT (push_bit n 0xFF))"

definition DMA_setReg :: "nat \<Rightarrow> u8 \<Rightarrow> dma_channel \<Rightarrow> dma_channel" where
  "DMA_setReg addr val d =
     (if addr = 0x0 then d\<lparr>memAddrA := setByte32 24 val (memAddrA d)\<rparr>
      else if addr = 0x1 then d\<lparr>memAddrA := setByte32 16 val (memAddrA d)\<rparr>
      else if addr = 0x2 then d\<lparr>memAddrA := setByte32 8 val (memAddrA d)\<rparr>
      else if addr = 0x3 then d\<lparr>memAddrA := setByte32 0 val (memAddrA d)\<rparr>
      else if addr = 0x4 then d\<lparr>ioAddrA := setByte16 8 val (ioAddrA d)\<rparr>
      else if addr = 0x5 then d\<lparr>ioAddrA := setByte16 0 val (ioAddrA d)\<rparr>
      else if addr = 0x6 then d\<lparr>countA := setByte16 8 val (countA d)\<rparr>
      else if addr = 0x7 then d\<lparr>countA := setByte16 0 val (countA d)\<rparr>
      else if addr = 0x8 then d\<lparr>memAddrB := setByte32 24 val (memAddrB d)\<rparr>
      else if addr = 0x9 then d\<lparr>memAddrB := setByte32 16 val (memAddrB d)\<rparr>
      else if addr = 0xA then d\<lparr>memAddrB := setByte32 8 val (memAddrB d)\<rparr>
      else if addr = 0xB then d\<lparr>memAddrB := setByte32 0 val (memAddrB d)\<rparr>
      else if addr = 0xC then d\<lparr>ioAddrB := setByte16 8 val (ioAddrB d)\<rparr>
      else if addr = 0xD then d\<lparr>ioAddrB := setByte16 0 val (ioAddrB d)\<rparr>
      else if addr = 0xE then d\<lparr>countB := setByte16 8 val (countB d)\<rparr>
      else if addr = 0xF then d\<lparr>countB := setByte16 0 val (countB d)\<rparr>
      else if addr = 0x10 then d\<lparr>dma_control := setByte16 8 val (dma_control d)\<rparr>
      else if addr = 0x11 then d\<lparr>dma_control := setByte16 0 val (dma_control d)\<rparr>
      else if addr = 0x12 then d\<lparr>bandControl := setByte16 8 val (bandControl d)\<rparr>
      else if addr = 0x13 then d\<lparr>bandControl := setByte16 0 val (bandControl d)\<rparr>
      else d)"

end
