(* ===== verification/H8Bus.thy ===== *)
theory H8Bus
  imports H8TPU H8Timer H8Serial H8DMARegs
begin

text \<open>
  The bus of the CPU: access times, the on-chip register file, and byte, word and long
  accesses to ROM, RAM, on-chip registers and external devices.
\<close>

section \<open>Access times\<close>

definition area_of :: "u32 \<Rightarrow> nat" where
  "area_of addr = unat (drop_bit 21 addr AND 7)"

definition byteAccessTiming :: "u32 \<Rightarrow> 'd cpu \<Rightarrow> int" where
  "byteAccessTiming addr c =
     (if addr < 0x10000 then 1
      else if area_of addr < 7 then areaAccessCycles8 c (area_of addr)
      else if addr \<ge> 0xFFDC00 \<and> addr < 0xFFFC00 then 1
      else if (addr \<ge> 0xFFFE50 \<and> addr < 0xFFFF08) \<or> addr \<ge> 0xFFFF28 then 2
      else areaAccessCycles8 c 7)"

definition wordAccessTiming :: "u32 \<Rightarrow> 'd cpu \<Rightarrow> int" where
  "wordAccessTiming addr c =
     (if addr < 0x10000 then 1
      else if area_of addr < 7 then areaAccessCycles16 c (area_of addr)
      else if addr \<ge> 0xFFDC00 \<and> addr < 0xFFFC00 then 1
      else if (addr \<ge> 0xFFFE50 \<and> addr < 0xFFFF08) \<or> addr \<ge> 0xFFFF28 then 2
      else areaAccessCycles16 c 7)"

definition fetchTiming :: "int \<Rightarrow> 'd cpu \<Rightarrow> int" where
  "fetchTiming len c = wordAccessTiming (pc c) c * len"

text \<open>\<open>updateBusTimings\<close>: the loop over the eight areas, as a function of the area.\<close>

definition busTiming8 :: "'d cpu \<Rightarrow> nat \<Rightarrow> int" where
  "busTiming8 c i = (if tst (busWaitControl c) (bitv i)
                     then 3 + uint (drop_bit (i * 2) (busWaits c) AND 3) else 2)"

definition busTiming16 :: "'d cpu \<Rightarrow> nat \<Rightarrow> int" where
  "busTiming16 c i = (if tst (busWidthControl c) (bitv i)
                      then busTiming8 c i * 2 else busTiming8 c i)"

definition updateBusTimings :: "'d cpu \<Rightarrow> 'd cpu" where
  "updateBusTimings c =
     c\<lparr>areaAccessCycles8 := (\<lambda>i. if i < 8 then busTiming8 c i else areaAccessCycles8 c i),
       areaAccessCycles16 := (\<lambda>i. if i < 8 then busTiming16 c i else areaAccessCycles16 c i)\<rparr>"

section \<open>Reading on-chip registers\<close>

definition readTPUReg :: "'d devices \<Rightarrow> nat \<Rightarrow> nat \<Rightarrow> 'd cpu \<Rightarrow> (u8 \<times> 'd cpu) option" where
  "readTPUReg D chan reg c =
     do { c \<leftarrow> TPU_update D chan c; Some (TPU_getReg reg (tpuChannels c chan), c) }"

definition readSerialReg :: "'d devices \<Rightarrow> nat \<Rightarrow> nat \<Rightarrow> 'd cpu \<Rightarrow> (u8 \<times> 'd cpu) option" where
  "readSerialReg D i reg c =
     do { c \<leftarrow> Serial_update D i c; Some (Serial_getReg reg (serialPorts c i), c) }"

text \<open>The \<open>switch\<close> of \<open>readIOReg\<close>, for the registers outside the decoded ranges.\<close>

definition readIOReg_switch :: "'d devices \<Rightarrow> u32 \<Rightarrow> 'd cpu \<Rightarrow> (u8 \<times> 'd cpu) option" where
  "readIOReg_switch D addr c =
     (let lo = unat (addr AND 0xF); r = unat (addr AND 0x7); k = unat (drop_bit 1 addr AND 3)
      in if addr = 0xED7 then Some (0, c)
      else if addr = 0xF06 then
        Some ((DMA_getReg 0x12 (dmaChannels c 0) AND 0x53)
              OR (DMA_getReg 0x12 (dmaChannels c 1) AND 0xAC), c)
      else if addr = 0xF07 then
        Some ((DMA_getReg 0x13 (dmaChannels c 0) AND 0x33)
              OR (DMA_getReg 0x13 (dmaChannels c 1) AND 0xCC), c)
      else if addr = 0xF2E then Some (irqEnable c, c)
      else if addr = 0xF2F then Some (irqStatus c, c)
      else if 0xF30 \<le> addr \<and> addr \<le> 0xF35 then Some (dtcEnable c lo, c)
      else if addr = 0xF3C then Some (ucast (drop_bit 8 (mstpcr c)), c)
      else if addr = 0xF3D then Some (ucast (mstpcr c AND 0xFF), c)
      else if 0xF78 \<le> addr \<and> addr \<le> 0xF7E then readSerialReg D 0 r c
      else if 0xF80 \<le> addr \<and> addr \<le> 0xF86 then readSerialReg D 1 r c
      else if 0xF88 \<le> addr \<and> addr \<le> 0xF8E then readSerialReg D 2 r c
      else if addr = 0xF90 \<or> addr = 0xF92 \<or> addr = 0xF94 \<or> addr = 0xF96
        then Some (ucast (drop_bit 8 (a2dData c k)), c)
      else if addr = 0xF91 \<or> addr = 0xF93 \<or> addr = 0xF95 \<or> addr = 0xF97
        then Some (ucast (a2dData c k AND 0xFF), c)
      else if addr = 0xF98 then Some (a2dControlStatus c, c)
      else if addr = 0xFC0 then Some (tpuStart c, c)
      else Some (0, c))"

definition readIOReg :: "'d devices \<Rightarrow> u32 \<Rightarrow> 'd cpu \<Rightarrow> (u8 \<times> 'd cpu) option" where
  "readIOReg D address c =
     (let addr = address AND 0xFFF; lo = unat (addr AND 0xF)
      in if addr \<ge> 0xE80 \<and> addr \<le> 0xEAB
         then readTPUReg D (unat ((addr - 0xE80) div 16) + 3) lo c
         else if addr \<ge> 0xEE0 \<and> addr \<le> 0xEFF
         then Some (DMA_getReg lo (dmaChannels c (unat (drop_bit 4 (addr AND 0x10)))), c)
         else if addr AND 0xFF0 = 0xEB0 then Some (IOPort_getDirection lo c, c)
         else if addr \<ge> 0xFB0 \<and> addr \<le> 0xFB9
         then let i = unat (addr AND 1); c = Timer_update i c
              in Some (Timer_getReg (unat ((addr - 0xFB0) div 2)) (timers c i), c)
         else if addr AND 0xFF0 = 0xF50 then IOPort_read D lo (clock c) c
         else if addr AND 0xFF0 = 0xF60 then Some (IOPort_getWrittenData lo c, c)
         else if addr \<ge> 0xFD0 \<and> addr \<le> 0xFFB
         then readTPUReg D (unat ((addr - 0xFD0) div 16)) lo c
         else readIOReg_switch D addr c)"

section \<open>Writing on-chip registers\<close>

definition writeTPUReg :: "'d devices \<Rightarrow> nat \<Rightarrow> nat \<Rightarrow> u8 \<Rightarrow> 'd cpu \<Rightarrow> 'd cpu option" where
  "writeTPUReg D chan reg val c =
     do { c \<leftarrow> TPU_update D chan c;
          let c = (if reg = 4
                   then (if val \<noteq> 0
                         then c\<lparr>tpuInterruptEnable := tpuInterruptEnable c OR bitv chan\<rparr>
                         else c\<lparr>tpuInterruptEnable := tpuInterruptEnable c AND NOT (bitv chan)\<rparr>)
                   else c);
          t \<leftarrow> TPU_setReg chan reg val (tpuChannels c chan);
          Some (upd_tpu chan (\<lambda>_. t) c) }"

definition writeSerialReg :: "'d devices \<Rightarrow> nat \<Rightarrow> nat \<Rightarrow> u8 \<Rightarrow> 'd cpu \<Rightarrow> 'd cpu option" where
  "writeSerialReg D i reg val c =
     do { c \<leftarrow> Serial_update D i c; Serial_setReg D i reg val c }"

text \<open>The IER case: requests for the newly unmasked external interrupts.\<close>

definition writeIER :: "u8 \<Rightarrow> 'd cpu \<Rightarrow> 'd cpu" where
  "writeIER val c =
     (let c = c\<lparr>irqEnable := val\<rparr>;
          servicable = irqEnable c AND irqStatus c
      in if servicable \<noteq> 0
         then fold (\<lambda>i c. if tst servicable (bitv i) then interrupt (IS_IRQ0 + i) c else c)
                [0..<8] c
         else c)"

text \<open>The ADCSR case.  The index into \<open>convTimes\<close> is 2 or 3.\<close>

definition writeADCSR :: "u8 \<Rightarrow> 'd cpu \<Rightarrow> 'd cpu" where
  "writeADCSR val c =
     (let c = c\<lparr>a2dControlStatus := val AND (0x7F OR a2dControlStatus c)\<rparr>;
          clk = 2 + (if bit (a2dControlStatus c) 3 then 1 else 0);
          convTime = [530, 68, 266, 134] ! clk;
          channel = uint (val AND 0x7);
          start = (if tst val (bitv 4) then uint (val AND 0x4) else channel)
      in c\<lparr>a2dConversionTime := convTime, a2dConvCounter := convTime,
           a2dEndChannel := channel, a2dChannel := start\<rparr>)"

text \<open>The TSTR case: channels that start or stop are brought up to date first.\<close>

fun writeTSTR_loop :: "'d devices \<Rightarrow> nat list \<Rightarrow> u8 \<Rightarrow> u8 \<Rightarrow> 'd cpu \<Rightarrow> 'd cpu option" where
  "writeTSTR_loop D [] changed val c = Some c"
| "writeTSTR_loop D (i # is) changed val c =
     (if tst changed (bitv i)
      then do { c \<leftarrow> TPU_update D i c;
                c \<leftarrow> TPU_setEnabled D i (tst val (bitv i)) c;
                writeTSTR_loop D is changed val c }
      else writeTSTR_loop D is changed val c)"

definition writeTSTR :: "'d devices \<Rightarrow> u8 \<Rightarrow> 'd cpu \<Rightarrow> 'd cpu option" where
  "writeTSTR D val c =
     do { c \<leftarrow> writeTSTR_loop D [0..<6] (tpuStart c XOR val) val c;
          Some (c\<lparr>tpuStart := val\<rparr>) }"

text \<open>The \<open>switch\<close> of \<open>writeIOReg\<close>.\<close>

definition writeIOReg_switch :: "'d devices \<Rightarrow> u32 \<Rightarrow> u8 \<Rightarrow> 'd cpu \<Rightarrow> 'd cpu option" where
  "writeIOReg_switch D addr val c =
     (let lo = unat (addr AND 0xF); r = unat (addr AND 0x7)
      in if addr = 0xED0 then Some (updateBusTimings (c\<lparr>busWidthControl := val\<rparr>))
      else if addr = 0xED1 then Some (updateBusTimings (c\<lparr>busWaitControl := val\<rparr>))
      else if addr = 0xED2 then
        Some (updateBusTimings (c\<lparr>busWaits := (busWaits c AND 0xFF) OR push_bit 8 (ucast val)\<rparr>))
      else if addr = 0xED3 then
        Some (updateBusTimings (c\<lparr>busWaits := (busWaits c AND 0xFF00) OR ucast val\<rparr>))
      else if addr = 0xF02 \<or> addr = 0xF03 then
        Some (upd_dma 0 (DMA_setReg (unat (addr - 0xEF2)) val) c)
      else if addr = 0xF04 \<or> addr = 0xF05 then
        Some (upd_dma 1 (DMA_setReg (unat (addr - 0xEF4)) val) c)
      else if addr = 0xF06 \<or> addr = 0xF07 then
        Some (upd_dma 1 (DMA_setReg (unat (addr - 0xEF4)) val)
               (upd_dma 0 (DMA_setReg (unat (addr - 0xEF4)) val) c))
      else if 0xF30 \<le> addr \<and> addr \<le> 0xF35 then
        Some (c\<lparr>dtcEnable := (dtcEnable c)(lo := val)\<rparr>)
      else if addr = 0xF2E then Some (writeIER val c)
      else if addr = 0xF2F then Some (c\<lparr>irqStatus := irqStatus c AND val\<rparr>)
      else if addr = 0xF3C then
        Some (c\<lparr>mstpcr := push_bit 8 (ucast val) OR (mstpcr c AND 0xFF)\<rparr>)
      else if addr = 0xF3D then Some (c\<lparr>mstpcr := ucast val OR (mstpcr c AND 0xFF00)\<rparr>)
      else if 0xF78 \<le> addr \<and> addr \<le> 0xF7E then writeSerialReg D 0 r val c
      else if 0xF80 \<le> addr \<and> addr \<le> 0xF86 then writeSerialReg D 1 r val c
      else if 0xF88 \<le> addr \<and> addr \<le> 0xF8E then writeSerialReg D 2 r val c
      else if addr = 0xF98 then Some (writeADCSR val c)
      else if addr = 0xFC0 then writeTSTR D val c
      else Some c)"

text \<open>PxDR: the timer channels that drive the port are brought up to date first.\<close>

definition writePxDR :: "'d devices \<Rightarrow> nat \<Rightarrow> u8 \<Rightarrow> 'd cpu \<Rightarrow> 'd cpu option" where
  "writePxDR D port val c =
     do { c \<leftarrow> (if port = 0
                then do { c \<leftarrow> TPU_update D 0 c; c \<leftarrow> TPU_update D 1 c; TPU_update D 2 c }
                else if port = 1
                then do { c \<leftarrow> TPU_update D 3 c; c \<leftarrow> TPU_update D 4 c; TPU_update D 5 c }
                else Some c);
          IOPort_write D port val (clock c) True c }"

definition writeIOReg :: "'d devices \<Rightarrow> u32 \<Rightarrow> u8 \<Rightarrow> 'd cpu \<Rightarrow> 'd cpu option" where
  "writeIOReg D address val c =
     (let addr = address AND 0xFFF; lo = unat (addr AND 0xF)
      in if addr \<ge> 0xE80 \<and> addr \<le> 0xEAB
         then writeTPUReg D (unat ((addr - 0xE80) div 16) + 3) lo val c
         else if addr \<ge> 0xEE0 \<and> addr \<le> 0xEFF
         then Some (upd_dma (unat (drop_bit 4 (addr AND 0x10))) (DMA_setReg lo val) c)
         else if addr AND 0xFF0 = 0xEB0 then IOPort_setDirection D lo val (clock c) c
         else if addr \<ge> 0xFB0 \<and> addr \<le> 0xFB9
         then let i = unat (addr AND 1); c = Timer_update i c
              in Some (upd_timer i (Timer_setReg (unat ((addr - 0xFB0) div 2)) val) c)
         else if addr AND 0xFF0 = 0xF60 then writePxDR D lo val c
         else if addr \<ge> 0xFD0 \<and> addr \<le> 0xFFB
         then writeTPUReg D (unat ((addr - 0xFD0) div 16)) lo val c
         else writeIOReg_switch D addr val c)"

section \<open>Memory accesses\<close>

definition inRAM :: "u32 \<Rightarrow> bool" where
  "inRAM addr \<longleftrightarrow> addr \<ge> 0xFFDC00 \<and> addr < 0xFFFC00"

definition readByte :: "'d devices \<Rightarrow> u32 \<Rightarrow> 'd cpu \<Rightarrow> (u8 \<times> 'd cpu) option" where
  "readByte D address c =
     (let area = area_of address
      in case areaPtrs c area of
           Some p \<Rightarrow> do { v \<leftarrow> ext_ptrRead D p (address AND areaMasks c area) (world c);
                          Some (v, c) }
         | None \<Rightarrow>
             (let addr = address AND 0xFFFFFF
              in if addr < 0x10000 then Some (rom c (unat addr), c)
                 else if inRAM addr then Some (ram c (unat (addr - 0xFFDC00)), c)
                 else if (addr \<ge> 0xFFFE50 \<and> addr < 0xFFFF08) \<or> (addr \<ge> 0xFFFF28 \<and> addr \<le> 0xFFFFFF)
                 then readIOReg D addr c
                 else case externalAreas c area of
                        Some dev \<Rightarrow>
                          do { (v, irqs, w) \<leftarrow> ext_read D dev addr (world c);
                               Some (v, raise_irqs irqs (c\<lparr>world := w\<rparr>)) }
                      | None \<Rightarrow> Some (0xFF, c)))"

text \<open>
  The operands of \<open>|\<close> in \<open>readWord\<close> and \<open>readLong\<close> are evaluated from left to right here; C++
  leaves the order of the two reads open.
\<close>

definition readWord :: "'d devices \<Rightarrow> u32 \<Rightarrow> 'd cpu \<Rightarrow> (u16 \<times> 'd cpu) option" where
  "readWord D addr c =
     do { (h, c) \<leftarrow> readByte D addr c;
          (l, c) \<leftarrow> readByte D (addr + 1) c;
          Some (push_bit 8 (ucast h) OR ucast l, c) }"

definition readLong :: "'d devices \<Rightarrow> u32 \<Rightarrow> 'd cpu \<Rightarrow> (u32 \<times> 'd cpu) option" where
  "readLong D addr c =
     (if addr = 0xFFFFFFFC \<and> pc c = 0x4a274a then Some (0, c)
      else do { (b3, c) \<leftarrow> readByte D addr c;
                (b2, c) \<leftarrow> readByte D (addr + 1) c;
                (b1, c) \<leftarrow> readByte D (addr + 2) c;
                (b0, c) \<leftarrow> readByte D (addr + 3) c;
                Some (push_bit 24 (ucast b3) OR push_bit 16 (ucast b2)
                      OR push_bit 8 (ucast b1) OR ucast b0, c) })"

definition readAddr16 :: "'d devices \<Rightarrow> u32 \<Rightarrow> 'd cpu \<Rightarrow> (u32 \<times> 'd cpu) option" where
  "readAddr16 D addr c =
     do { (w, c) \<leftarrow> readWord D addr c;
          let ret = (ucast w :: u32);
          Some (if tst ret 0x8000 then ret OR 0xFF0000 else ret, c) }"

definition readDisp16 :: "'d devices \<Rightarrow> u32 \<Rightarrow> 'd cpu \<Rightarrow> (u32 \<times> 'd cpu) option" where
  "readDisp16 D addr c =
     do { (w, c) \<leftarrow> readWord D addr c;
          let ret = (ucast w :: u32);
          Some (if tst ret 0x8000 then ret OR 0xFFFF0000 else ret, c) }"

definition writeByte :: "'d devices \<Rightarrow> u32 \<Rightarrow> u8 \<Rightarrow> 'd cpu \<Rightarrow> 'd cpu option" where
  "writeByte D address val c =
     (let addr = address AND 0xFFFFFF
      in if addr < 0x10000 then Some c
         else if inRAM addr then Some (c\<lparr>ram := (ram c)(unat (addr - 0xFFDC00) := val)\<rparr>)
         else if (addr \<ge> 0xFFFE50 \<and> addr < 0xFFFF08) \<or> addr \<ge> 0xFFFF28 then writeIOReg D addr val c
         else case externalAreas c (unat (addr div 0x200000)) of
                Some dev \<Rightarrow>
                  do { (irqs, w) \<leftarrow> ext_write D dev (addr AND 0x1FFFFF) val (world c);
                       Some (raise_irqs irqs (c\<lparr>world := w\<rparr>)) }
              | None \<Rightarrow> Some c)"

definition writeWord :: "'d devices \<Rightarrow> u32 \<Rightarrow> u16 \<Rightarrow> 'd cpu \<Rightarrow> 'd cpu option" where
  "writeWord D addr val c =
     do { c \<leftarrow> writeByte D addr (ucast (drop_bit 8 val)) c;
          writeByte D (addr + 1) (ucast (val AND 0xFF)) c }"

definition writeLong :: "'d devices \<Rightarrow> u32 \<Rightarrow> u32 \<Rightarrow> 'd cpu \<Rightarrow> 'd cpu option" where
  "writeLong D addr val c =
     do { c \<leftarrow> writeByte D addr (ucast (drop_bit 24 val)) c;
          c \<leftarrow> writeByte D (addr + 1) (ucast (drop_bit 16 val AND 0xFF)) c;
          c \<leftarrow> writeByte D (addr + 2) (ucast (drop_bit 8 val AND 0xFF)) c;
          writeByte D (addr + 3) (ucast (val AND 0xFF)) c }"

section \<open>Attaching devices, loading and reset\<close>

definition setExternalArea :: "'d devices \<Rightarrow> nat \<Rightarrow> nat \<Rightarrow> 'd cpu \<Rightarrow> 'd cpu" where
  "setExternalArea D area dev c =
     (let c = c\<lparr>externalAreas := (externalAreas c)(area := Some dev)\<rparr>
      in if area \<noteq> 0 \<and> area \<noteq> 7
         then (case ext_getPtr D dev (world c) of
                 None \<Rightarrow> c\<lparr>areaPtrs := (areaPtrs c)(area := None)\<rparr>
               | Some m \<Rightarrow> c\<lparr>areaPtrs := (areaPtrs c)(area := Some dev),
                             areaMasks := (areaMasks c)(area := m)\<rparr>)
         else c)"

definition setADCValue :: "nat \<Rightarrow> u16 \<Rightarrow> 'd cpu \<Rightarrow> 'd cpu" where
  "setADCValue channel val c =
     (if channel < 8 then c\<lparr>a2dValues := (a2dValues c)(channel := val)\<rparr> else c)"

definition getTPUStarted :: "nat \<Rightarrow> 'd cpu \<Rightarrow> bool" where
  "getTPUStarted i c = tst (tpuStart c) (bitv i)"

text \<open>\<open>loadROM\<close>: the contents of the file, \<open>None\<close> when it does not open.\<close>

definition loadROM :: "u8 list option \<Rightarrow> 'd cpu \<Rightarrow> bool \<times> 'd cpu" where
  "loadROM file c =
     (case file of
        None \<Rightarrow> (False, c)
      | Some bs \<Rightarrow> (True, c\<lparr>rom := (\<lambda>i. if i < length bs \<and> i < 0x10000 then bs ! i else rom c i)\<rparr>))"

definition reset :: "'d cpu \<Rightarrow> 'd cpu" where
  "reset c =
     (let c = c\<lparr>pc := push_bit 24 (ucast (rom c 0)) OR push_bit 16 (ucast (rom c 1))
                     OR push_bit 8 (ucast (rom c 2)) OR ucast (rom c 3),
                ccr := ccr c OR 0x80, sleeping := False,
                irqEnable := 0, irqStatus := 0,
                dtcEnable := (\<lambda>i. if i < 6 then 0 else dtcEnable c i),
                busWaitControl := 0xFF, busWidthControl := 0xFF, busWaits := 0xFFFF\<rparr>;
          c = updateBusTimings c
      in c\<lparr>a2dValues := (\<lambda>i. if i < 8 then 0x1FF else a2dValues c i)\<rparr>)"

end
