(* ===== verification/H8Regs.thy ===== *)
theory H8Regs
  imports H8ALU H8Bus
begin

text \<open>
  The general registers as bytes, words and longs.  The C++ code reads the array \<open>er[8]\<close> of
  32-bit registers through pointers to bytes and to words, on a little endian host; an
  index past the array has no defined value.
\<close>

section \<open>Register access\<close>

text \<open>\<open>reinterpret_cast<uint8_t *>(er + (r & 7))[(r >> 3) ^ 1]\<close>: the offset in bytes.\<close>

definition byteOffset :: "nat \<Rightarrow> nat" where
  "byteOffset r = 4 * (r mod 8) + ((r div 8) XOR 1)"

definition regB :: "nat \<Rightarrow> 'd cpu \<Rightarrow> u8 option" where
  "regB r c =
     (let off = byteOffset r
      in if off < 32 then Some (ucast (drop_bit (8 * (off mod 4)) (er c (off div 4)))) else None)"

definition er_upd :: "nat \<Rightarrow> u32 \<Rightarrow> 'd cpu \<Rightarrow> 'd cpu" where
  "er_upd r v c = c\<lparr>er := (er c)(r := v)\<rparr>"

definition setB :: "nat \<Rightarrow> u8 \<Rightarrow> 'd cpu \<Rightarrow> 'd cpu option" where
  "setB r v c =
     (let off = byteOffset r; k = 8 * (off mod 4); i = off div 4
      in if off < 32
         then Some (er_upd i ((er c i AND NOT (push_bit k 0xFF)) OR push_bit k (ucast v)) c)
         else None)"

text \<open>\<open>reinterpret_cast<uint16_t *>(er + (r & 7))[r >> 3]\<close>: the offset in words.\<close>

definition wordOffset :: "nat \<Rightarrow> nat" where
  "wordOffset r = 2 * (r mod 8) + r div 8"

definition regW :: "nat \<Rightarrow> 'd cpu \<Rightarrow> u16 option" where
  "regW r c =
     (let off = wordOffset r
      in if off < 16 then Some (ucast (drop_bit (16 * (off mod 2)) (er c (off div 2)))) else None)"

definition setW :: "nat \<Rightarrow> u16 \<Rightarrow> 'd cpu \<Rightarrow> 'd cpu option" where
  "setW r v c =
     (let off = wordOffset r; k = 16 * (off mod 2); i = off div 2
      in if off < 16
         then Some (er_upd i ((er c i AND NOT (push_bit k 0xFFFF)) OR push_bit k (ucast v)) c)
         else None)"

definition regL :: "nat \<Rightarrow> 'd cpu \<Rightarrow> u32 option" where
  "regL r c = (if r < 8 then Some (er c r) else None)"

definition setL :: "nat \<Rightarrow> u32 \<Rightarrow> 'd cpu \<Rightarrow> 'd cpu option" where
  "setL r v c = (if r < 8 then Some (er_upd r v c) else None)"

section \<open>ALU operations on a register\<close>

text \<open>A template applied to a register reference: \<open>doADD(a, reg<B>(r))\<close> is \<open>unB (doADD a) r\<close>.\<close>

definition unB :: "(u8 \<Rightarrow> u8 \<Rightarrow> u8 \<times> u8) \<Rightarrow> nat \<Rightarrow> 'd cpu \<Rightarrow> 'd cpu option" where
  "unB f r c = do { v \<leftarrow> regB r c; let (v, cc) = f v (ccr c); setB r v (c\<lparr>ccr := cc\<rparr>) }"

definition unW :: "(u16 \<Rightarrow> u8 \<Rightarrow> u16 \<times> u8) \<Rightarrow> nat \<Rightarrow> 'd cpu \<Rightarrow> 'd cpu option" where
  "unW f r c = do { v \<leftarrow> regW r c; let (v, cc) = f v (ccr c); setW r v (c\<lparr>ccr := cc\<rparr>) }"

definition unL :: "(u32 \<Rightarrow> u8 \<Rightarrow> u32 \<times> u8) \<Rightarrow> nat \<Rightarrow> 'd cpu \<Rightarrow> 'd cpu option" where
  "unL f r c = do { v \<leftarrow> regL r c; let (v, cc) = f v (ccr c); setL r v (c\<lparr>ccr := cc\<rparr>) }"

text \<open>\<open>doMOV(v)\<close> for its effect on the flags.\<close>

definition movFlags :: "'a::len word \<Rightarrow> 'd cpu \<Rightarrow> 'd cpu" where
  "movFlags v c = c\<lparr>ccr := doMOV v (ccr c)\<rparr>"

definition setFlag :: "u8 \<Rightarrow> bool \<Rightarrow> 'd cpu \<Rightarrow> 'd cpu" where
  "setFlag flag on c = c\<lparr>ccr := updateFlag flag on (ccr c)\<rparr>"

definition setFlags :: "'a::len word \<Rightarrow> 'd cpu \<Rightarrow> 'd cpu" where
  "setFlags v c = c\<lparr>ccr := updateFlags v (ccr c)\<rparr>"

definition pc_add :: "u32 \<Rightarrow> 'd cpu \<Rightarrow> 'd cpu" where
  "pc_add n c = c\<lparr>pc := pc c + n\<rparr>"

text \<open>\<open>setPC\<close>; the call and return flags only feed a tracing macro.\<close>

definition setPC :: "u32 \<Rightarrow> 'd cpu \<Rightarrow> 'd cpu" where
  "setPC addr c = c\<lparr>pc := addr\<rparr>"

text \<open>\<open>return fetchTiming(n) + extra\<close>.\<close>

definition fetched :: "int \<Rightarrow> int \<Rightarrow> 'd cpu \<Rightarrow> (int \<times> 'd cpu) option" where
  "fetched n extra c = Some (fetchTiming n c + extra, c)"

section \<open>Loads, stores and the stack\<close>

definition loadB :: "'d devices \<Rightarrow> u32 \<Rightarrow> nat \<Rightarrow> 'd cpu \<Rightarrow> 'd cpu option" where
  "loadB D addr r c = do { (v, c) \<leftarrow> readByte D addr c; setB r v (movFlags v c) }"

definition loadW :: "'d devices \<Rightarrow> u32 \<Rightarrow> nat \<Rightarrow> 'd cpu \<Rightarrow> 'd cpu option" where
  "loadW D addr r c = do { (v, c) \<leftarrow> readWord D addr c; setW r v (movFlags v c) }"

definition loadL :: "'d devices \<Rightarrow> u32 \<Rightarrow> nat \<Rightarrow> 'd cpu \<Rightarrow> 'd cpu option" where
  "loadL D addr r c = do { (v, c) \<leftarrow> readLong D addr c; setL r v (movFlags v c) }"

definition storeB :: "'d devices \<Rightarrow> u32 \<Rightarrow> nat \<Rightarrow> 'd cpu \<Rightarrow> 'd cpu option" where
  "storeB D addr r c = do { v \<leftarrow> regB r c; writeByte D addr v (movFlags v c) }"

definition storeW :: "'d devices \<Rightarrow> u32 \<Rightarrow> nat \<Rightarrow> 'd cpu \<Rightarrow> 'd cpu option" where
  "storeW D addr r c = do { v \<leftarrow> regW r c; writeWord D addr v (movFlags v c) }"

definition storeL :: "'d devices \<Rightarrow> u32 \<Rightarrow> nat \<Rightarrow> 'd cpu \<Rightarrow> 'd cpu option" where
  "storeL D addr r c = do { v \<leftarrow> regL r c; writeLong D addr v (movFlags v c) }"

text \<open>\<open>er[7] -= 4; writeLong(er[7], val)\<close>.\<close>

definition pushLong :: "'d devices \<Rightarrow> u32 \<Rightarrow> 'd cpu \<Rightarrow> 'd cpu option" where
  "pushLong D val c = (let c = er_upd 7 (er c 7 - 4) c in writeLong D (er c 7) val c)"

end
