(* ===== verification/H8Exec.thy ===== *)
theory H8Exec
  imports H8Regs "HOL-Library.Signed_Division"
begin

text \<open>
  The instruction set: the handlers of the longer encodings and
  \<open>H8CPU::executeInstruction\<close>, whose \<open>switch\<close> is divided by the high nibble of the first
  byte.  An instruction returns its number of states, 0 for an invalid encoding, and the
  new state; \<open>None\<close> is a failed assertion or an access outside the register array.
\<close>

definition invalid :: "'d cpu \<Rightarrow> (int \<times> 'd cpu) option" where
  "invalid c = Some (0, c)"

definition cmpB :: "u8 \<Rightarrow> nat \<Rightarrow> 'd cpu \<Rightarrow> 'd cpu option" where
  "cmpB a r c = do { b \<leftarrow> regB r c; Some (c\<lparr>ccr := doCMP a b (ccr c)\<rparr>) }"

definition cmpW :: "u16 \<Rightarrow> nat \<Rightarrow> 'd cpu \<Rightarrow> 'd cpu option" where
  "cmpW a r c = do { b \<leftarrow> regW r c; Some (c\<lparr>ccr := doCMP a b (ccr c)\<rparr>) }"

definition cmpL :: "u32 \<Rightarrow> nat \<Rightarrow> 'd cpu \<Rightarrow> 'd cpu option" where
  "cmpL a r c = do { b \<leftarrow> regL r c; Some (c\<lparr>ccr := doCMP a b (ccr c)\<rparr>) }"

section \<open>Bit operations\<close>

text \<open>The new carry of \<open>bor\<close>, \<open>bxor\<close>, \<open>band\<close> and \<open>bld\<close> and their inverted forms.\<close>

definition bitCarry :: "u8 \<Rightarrow> nat \<Rightarrow> u8 \<Rightarrow> bool \<Rightarrow> bool" where
  "bitCarry op bitVal byte c =
     (let v = tst byte (bitv (bitVal mod 8));
          v = (if bitVal \<ge> 8 then \<not> v else v)
      in if op = 0x74 then v \<or> c
         else if op = 0x75 then v \<noteq> c
         else if op = 0x76 then v \<and> c
         else v)"

definition handleBitFlags :: "'d devices \<Rightarrow> u8 \<Rightarrow> u32 \<Rightarrow> nat \<Rightarrow> 'd cpu \<Rightarrow> (bool \<times> 'd cpu) option" where
  "handleBitFlags D op addr bitVal c =
     (if op = 0x63 then
        do { b \<leftarrow> regB bitVal c;
             (v, c) \<leftarrow> readByte D addr c;
             Some (True, setFlag CC_Z (\<not> tst v (bitv (unat (b AND 7)))) c) }
      else if op = 0x73 then
        do { (v, c) \<leftarrow> readByte D addr c;
             Some (True, setFlag CC_Z (\<not> tst v (bitv bitVal)) c) }
      else if op = 0x74 \<or> op = 0x75 \<or> op = 0x76 \<or> op = 0x77 then
        do { (v, c) \<leftarrow> readByte D addr c;
             Some (True, setFlag CC_C (bitCarry op bitVal v (tst (ccr c) CC_C)) c) }
      else Some (False, c))"

text \<open>Storing a bit: the new byte of \<open>bset\<close>, \<open>bnot\<close>, \<open>bclr\<close> and of \<open>bst\<close>, \<open>bist\<close>.\<close>

definition storeBit :: "nat \<Rightarrow> bool \<Rightarrow> u8 \<Rightarrow> u8" where
  "storeBit bitVal carry byte =
     (let v = (if bitVal \<ge> 8 then \<not> carry else carry)
      in if v then byte OR bitv (bitVal mod 8) else byte AND NOT (bitv (bitVal mod 8)))"

definition modifyByte :: "'d devices \<Rightarrow> u32 \<Rightarrow> (u8 \<Rightarrow> u8) \<Rightarrow> 'd cpu \<Rightarrow> (bool \<times> 'd cpu) option" where
  "modifyByte D addr f c =
     do { (v, c) \<leftarrow> readByte D addr c; c \<leftarrow> writeByte D addr (f v) c; Some (True, c) }"

definition handleBitValue :: "'d devices \<Rightarrow> u8 \<Rightarrow> u32 \<Rightarrow> nat \<Rightarrow> 'd cpu \<Rightarrow> (bool \<times> 'd cpu) option" where
  "handleBitValue D op addr bitVal c =
     (if op = 0x60 then
        do { b \<leftarrow> regB bitVal c; modifyByte D addr (\<lambda>v. v OR bitv (unat (b AND 7))) c }
      else if op = 0x61 then
        do { b \<leftarrow> regB bitVal c; modifyByte D addr (\<lambda>v. v XOR bitv (unat (b AND 7))) c }
      else if op = 0x62 then
        do { b \<leftarrow> regB bitVal c; modifyByte D addr (\<lambda>v. v AND NOT (bitv (unat (b AND 7)))) c }
      else if op = 0x67 then modifyByte D addr (storeBit bitVal (tst (ccr c) CC_C)) c
      else if op = 0x70 then modifyByte D addr (\<lambda>v. v OR bitv bitVal) c
      else if op = 0x71 then modifyByte D addr (\<lambda>v. v XOR bitv bitVal) c
      else if op = 0x72 then modifyByte D addr (\<lambda>v. v AND NOT (bitv bitVal)) c
      else Some (False, c))"

section \<open>Longer encodings\<close>

definition movL_0100_6B :: "'d devices \<Rightarrow> u8 \<Rightarrow> 'd cpu \<Rightarrow> (int \<times> 'd cpu) option" where
  "movL_0100_6B D b3 c =
     (let r = lo4 b3; h = hi4 b3
      in if h = 0 then
           do { (addr, c) \<leftarrow> readAddr16 D (pc c) c; c \<leftarrow> loadL D addr r c; let c = pc_add 2 c;
                fetched 3 (wordAccessTiming addr c * 2) c }
         else if h = 2 then
           do { (addr, c) \<leftarrow> readLong D (pc c) c; c \<leftarrow> loadL D addr r c; let c = pc_add 4 c;
                fetched 4 (wordAccessTiming addr c * 2) c }
         else if h = 8 then
           do { (addr, c) \<leftarrow> readAddr16 D (pc c) c; c \<leftarrow> storeL D addr r c; let c = pc_add 2 c;
                fetched 3 (wordAccessTiming addr c * 2) c }
         else if h = 0xA then
           do { (addr, c) \<leftarrow> readLong D (pc c) c; c \<leftarrow> storeL D addr r c; let c = pc_add 4 c;
                fetched 4 (wordAccessTiming addr c * 2) c }
         else invalid c)"

definition handleLongMOV0100 :: "'d devices \<Rightarrow> 'd cpu \<Rightarrow> (int \<times> 'd cpu) option" where
  "handleLongMOV0100 D c =
     do { (b2, c) \<leftarrow> readByte D (pc c) c;
          (b3, c) \<leftarrow> readByte D (pc c + 1) c;
          let c = pc_add 2 c;
          let regA = unat (drop_bit 4 (b3 AND 0x70));
          let regB = lo4 b3;
          if b2 = 0x69 then
            do { c \<leftarrow> (if tst b3 0x80 then storeL D (er c regA) regB c
                       else loadL D (er c regA) regB c);
                 fetched 2 (wordAccessTiming (er c regA) c * 2) c }
          else if b2 = 0x6B then movL_0100_6B D b3 c
          else if b2 = 0x6D then
            do { c \<leftarrow> (if tst b3 0x80
                       then let c = er_upd regA (er c regA - 4) c
                            in storeL D (er c regA) regB c
                       else do { (val, c) \<leftarrow> readLong D (er c regA) c;
                                 let c = movFlags val c;
                                 let c = er_upd regA (er c regA + 4) c;
                                 setL regB val c });
                 fetched 2 (wordAccessTiming (er c regA) c * 2 + 1) c }
          else if b2 = 0x6F then
            do { (disp, c) \<leftarrow> readDisp16 D (pc c) c;
                 let addr = er c regA + disp;
                 c \<leftarrow> (if tst b3 0x80 then storeL D addr regB c else loadL D addr regB c);
                 let c = pc_add 2 c;
                 fetched 3 (wordAccessTiming addr c * 2) c }
          else if b2 = 0x78 then
            do { (b4, c) \<leftarrow> readByte D (pc c) c;
                 if b4 = 0x6B then
                   do { (b5, c) \<leftarrow> readByte D (pc c + 1) c;
                        let regB = lo4 b5;
                        if hi4 b5 = 0x2 then
                          do { (off, c) \<leftarrow> readLong D (pc c + 2) c;
                               let addr = er c regA + off;
                               c \<leftarrow> loadL D addr regB c;
                               let c = pc_add 6 c;
                               fetched 5 (wordAccessTiming addr c * 2) c }
                        else if hi4 b5 = 0xA then
                          do { (off, c) \<leftarrow> readLong D (pc c + 2) c;
                               let addr = er c regA + off;
                               c \<leftarrow> storeL D addr regB c;
                               let c = pc_add 6 c;
                               fetched 5 (wordAccessTiming addr c * 2) c }
                        else invalid c }
                 else invalid c }
          else invalid c }"

text \<open>
  The addressing modes of \<open>ldc.w\<close> and \<open>stc.w\<close>: the address, the states of the fetch and
  whether it is a store.
\<close>

definition ldcstc_operand :: "'d devices \<Rightarrow> u8 \<Rightarrow> u8 \<Rightarrow> 'd cpu
    \<Rightarrow> ((u32 \<times> int \<times> bool) \<times> 'd cpu) option" where
  "ldcstc_operand D b2 b3 c =
     (let r = unat (drop_bit 4 b3 AND 7)
      in if b2 = 0x69 then
           Some ((er c r, fetchTiming 2 c, tst b3 0x80), pc_add 2 c)
         else if b2 = 0x6B then
           (if b3 AND 0x7F = 0 then
              do { (addr, c) \<leftarrow> readAddr16 D (pc c + 2) c;
                   Some ((addr, fetchTiming 3 c, tst b3 0x80), pc_add 4 c) }
            else if b3 AND 0x7F = 0x20 then
              do { (addr, c) \<leftarrow> readLong D (pc c + 2) c;
                   Some ((addr, fetchTiming 4 c, tst b3 0x80), pc_add 6 c) }
            else None)
         else if b2 = 0x6D then
           (let addr = er c r; timing = fetchTiming 2 c; isStore = tst b3 0x80; c = pc_add 2 c
            in if isStore then let addr = addr - 2 in Some ((addr, timing, isStore), er_upd r addr c)
               else Some ((addr, timing, isStore), er_upd r (er c r + 2) c))
         else if b2 = 0x6F then
           do { (disp, c) \<leftarrow> readDisp16 D (pc c + 2) c;
                Some ((er c r + disp, fetchTiming 3 c, tst b3 0x80), pc_add 4 c) }
         else if b2 = 0x78 then
           do { (b5, c) \<leftarrow> readByte D (pc c + 3) c;
                (off, c) \<leftarrow> readLong D (pc c + 4) c;
                let addr = er c r + off;
                (b4, c) \<leftarrow> readByte D (pc c + 2) c;
                _ \<leftarrow> asserting (b4 = 0x6B);
                _ \<leftarrow> asserting (b5 AND 0x7F = 0x20);
                Some ((addr, fetchTiming 5 c, tst b5 0x80), pc_add 8 c) }
         else None)"

definition handleWordLDCSTC :: "'d devices \<Rightarrow> 'd cpu \<Rightarrow> (int \<times> 'd cpu) option" where
  "handleWordLDCSTC D c =
     do { (b2, c) \<leftarrow> readByte D (pc c) c;
          (b3, c) \<leftarrow> readByte D (pc c + 1) c;
          _ \<leftarrow> asserting (b3 AND 0xF = 0);
          ((addr, timing, isStore), c) \<leftarrow> ldcstc_operand D b2 b3 c;
          c \<leftarrow> (if isStore
                then writeWord D addr (push_bit 8 (ucast (ccr c)) OR ucast (ccr c)) c
                else do { (w, c) \<leftarrow> readWord D addr c; Some (c\<lparr>ccr := ucast (drop_bit 8 w)\<rparr>) });
          Some (timing + wordAccessTiming addr c, c) }"

definition handleLong01F0 :: "'d devices \<Rightarrow> 'd cpu \<Rightarrow> (int \<times> 'd cpu) option" where
  "handleLong01F0 D c =
     do { (b2, c) \<leftarrow> readByte D (pc c) c;
          (b3, c) \<leftarrow> readByte D (pc c + 1) c;
          let c = pc_add 2 c;
          a \<leftarrow> regL (hi4 b3) c;
          c \<leftarrow> (if b2 = 0x64 then unL (doOR a) (lo4 b3) c
                else if b2 = 0x65 then unL (doXOR a) (lo4 b3) c
                else if b2 = 0x66 then unL (doAND a) (lo4 b3) c
                else None);
          fetched 2 0 c }"

definition handleADDSINC :: "u8 \<Rightarrow> 'd cpu \<Rightarrow> (int \<times> 'd cpu) option" where
  "handleADDSINC b1 c =
     (let r = lo4 b1; h = hi4 b1
      in do { c \<leftarrow> (if h = 0 then do { v \<leftarrow> regL r c; setL r (v + 1) c }
                    else if h = 5 then unW (doINC 1) r c
                    else if h = 7 then unL (doINC 1) (unat (b1 AND 0x7)) c
                    else if h = 8 then do { v \<leftarrow> regL r c; setL r (v + 2) c }
                    else if h = 9 then do { v \<leftarrow> regL r c; setL r (v + 4) c }
                    else if h = 0xD then unW (doINC 2) r c
                    else if h = 0xF then unL (doINC 2) r c
                    else None);
              fetched 1 0 c })"

definition handleSUBSDEC :: "u8 \<Rightarrow> 'd cpu \<Rightarrow> (int \<times> 'd cpu) option" where
  "handleSUBSDEC b1 c =
     (let r = lo4 b1; h = hi4 b1
      in do { c \<leftarrow> (if h = 0 then do { v \<leftarrow> regL r c; setL r (v - 1) c }
                    else if h = 5 then unW (doDEC 1) r c
                    else if h = 7 then unL (doDEC 1) r c
                    else if h = 8 then do { v \<leftarrow> regL r c; setL r (v - 2) c }
                    else if h = 9 then do { v \<leftarrow> regL r c; setL r (v - 4) c }
                    else if h = 0xD then unW (doDEC 2) r c
                    else if h = 0xF then unL (doDEC 2) r c
                    else None);
              fetched 1 0 c })"

section \<open>Shifts and rotates\<close>

definition handleLeftShift :: "u8 \<Rightarrow> 'd cpu \<Rightarrow> (int \<times> 'd cpu) option" where
  "handleLeftShift b1 c =
     (let r = lo4 b1; h = hi4 b1
      in do { c \<leftarrow> (if h = 0x0 then unB (doSHLL 1) r c
                    else if h = 0x1 then unW (doSHLL 1) r c
                    else if h = 0x3 then unL (doSHLL 1) r c
                    else if h = 0x4 then unB (doSHLL 2) r c
                    else if h = 0x5 then unW (doSHLL 2) r c
                    else if h = 0x7 then unL (doSHLL 2) r c
                    else if h = 0x8 then unB (doSHAL 1) r c
                    else if h = 0x9 then unW (doSHAL 1) r c
                    else if h = 0xB then unL (doSHAL 1) r c
                    else if h = 0xC then unB (doSHAL 2) r c
                    else if h = 0xD then unW (doSHAL 2) r c
                    else if h = 0xF then unL (doSHAL 2) r c
                    else None);
              fetched 1 0 c })"

definition handleRightShift :: "u8 \<Rightarrow> 'd cpu \<Rightarrow> (int \<times> 'd cpu) option" where
  "handleRightShift b1 c =
     (let r = lo4 b1; h = hi4 b1
      in do { c \<leftarrow> (if h = 0x0 then unB (doSHLR 1) r c
                    else if h = 0x1 then unW (doSHLR 1) r c
                    else if h = 0x3 then unL (doSHLR 1) r c
                    else if h = 0x4 then unB (doSHLR 2) r c
                    else if h = 0x5 then unW (doSHLR 2) r c
                    else if h = 0x7 then unL (doSHLR 2) r c
                    else if h = 0x8 then unB (doSHAR 1) r c
                    else if h = 0x9 then unW (doSHAR 1) r c
                    else if h = 0xB then unL (doSHAR 1) r c
                    else if h = 0xC then unB (doSHAR 2) r c
                    else if h = 0xD then unW (doSHAR 2) r c
                    else if h = 0xF then unL (doSHAR 2) r c
                    else None);
              fetched 1 0 c })"

definition handleLeftRotate :: "u8 \<Rightarrow> 'd cpu \<Rightarrow> (int \<times> 'd cpu) option" where
  "handleLeftRotate b1 c =
     (let r = lo4 b1; h = hi4 b1
      in do { c \<leftarrow> (if h = 0x0 then unB (doROTXL 1) r c
                    else if h = 0x1 then unW (doROTXL 1) r c
                    else if h = 0x3 then unL (doROTXL 1) r c
                    else if h = 0x4 then unB (doROTXL 2) r c
                    else if h = 0x5 then unW (doROTXL 2) r c
                    else if h = 0x7 then unL (doROTXL 2) r c
                    else if h = 0x8 then unB (doROTL 1) r c
                    else if h = 0x9 then unW (doROTL 1) r c
                    else if h = 0xB then unL (doROTL 1) r c
                    else if h = 0xC then unB (doROTL 2) r c
                    else if h = 0xD then unW (doROTL 2) r c
                    else if h = 0xF then unL (doROTL 2) r c
                    else None);
              fetched 1 0 c })"

definition handleRightRotate :: "u8 \<Rightarrow> 'd cpu \<Rightarrow> (int \<times> 'd cpu) option" where
  "handleRightRotate b1 c =
     (let r = lo4 b1; h = hi4 b1
      in do { c \<leftarrow> (if h = 0x0 then unB (doROTXR 1) r c
                    else if h = 0x1 then unW (doROTXR 1) r c
                    else if h = 0x3 then unL (doROTXR 1) r c
                    else if h = 0x4 then unB (doROTXR 2) r c
                    else if h = 0x5 then unW (doROTXR 2) r c
                    else if h = 0x7 then unL (doROTXR 2) r c
                    else if h = 0x8 then unB (doROTR 1) r c
                    else if h = 0x9 then unW (doROTR 1) r c
                    else if h = 0xB then unL (doROTR 1) r c
                    else if h = 0xC then unB (doROTR 2) r c
                    else if h = 0xD then unW (doROTR 2) r c
                    else if h = 0xF then unL (doROTR 2) r c
                    else None);
              fetched 1 0 c })"

text \<open>\<open>not\<close>, \<open>extu\<close> and \<open>exts\<close> set N and Z from the result and clear V.\<close>

definition resultFlags :: "'a::len word \<Rightarrow> u8 \<Rightarrow> 'a word \<times> u8" where
  "resultFlags res cc = (res, updateFlag CC_V False (updateFlags res cc))"

definition handleNOTEXTNEG :: "u8 \<Rightarrow> 'd cpu \<Rightarrow> (int \<times> 'd cpu) option" where
  "handleNOTEXTNEG b1 c =
     (let r = lo4 b1; h = hi4 b1
      in do { c \<leftarrow> (if h = 0x0 then unB (\<lambda>v. resultFlags (NOT v)) r c
                    else if h = 0x1 then unW (\<lambda>v. resultFlags (NOT v)) r c
                    else if h = 0x3 then unL (\<lambda>v. resultFlags (NOT v)) r c
                    else if h = 0x5 then unW (\<lambda>v. resultFlags (v AND 0xFF)) r c
                    else if h = 0x7 then unL (\<lambda>v. resultFlags (v AND 0xFFFF)) r c
                    else if h = 0x8 then unB doNEG r c
                    else if h = 0x9 then unW doNEG r c
                    else if h = 0xB then unL doNEG r c
                    else if h = 0xD then unW (\<lambda>v. resultFlags (scast (ucast v :: u8))) r c
                    else if h = 0xF then unL (\<lambda>v. resultFlags (scast (ucast v :: u16))) r c
                    else None);
              fetched 1 0 c })"

section \<open>Branches\<close>

definition handleBranch :: "nat \<Rightarrow> int \<Rightarrow> 'd cpu \<Rightarrow> (int \<times> 'd cpu) option" where
  "handleBranch conditionCode offset c =
     do { condition \<leftarrow> branchCondition conditionCode (ccr c);
          let c = (if condition then pc_add (word_of_int offset) c else c);
          fetched 2 0 c }"

section \<open>The 6A, 6B, 78, 79 and 7A encodings\<close>

text \<open>A bit instruction on an absolute address, with its failed decoding an assertion.\<close>

definition bitAbs6A :: "'d devices \<Rightarrow> u8 \<Rightarrow> u8 \<Rightarrow> u8 \<Rightarrow> u8 \<Rightarrow> u32 \<Rightarrow> int \<Rightarrow> 'd cpu
    \<Rightarrow> (int \<times> 'd cpu) option" where
  "bitAbs6A D b1 base op bits addr words c =
     (if b1 = base then
        do { (ok, c) \<leftarrow> handleBitFlags D op addr (hi4 bits) c;
             _ \<leftarrow> asserting ok;
             fetched words (byteAccessTiming addr c) c }
      else if b1 = base + 8 then
        do { (ok, c) \<leftarrow> handleBitValue D op addr (hi4 bits) c;
             _ \<leftarrow> asserting ok;
             fetched words (byteAccessTiming addr c * 2) c }
      else invalid c)"

definition handle6A :: "'d devices \<Rightarrow> u8 \<Rightarrow> 'd cpu \<Rightarrow> (int \<times> 'd cpu) option" where
  "handle6A D b1 c =
     (let r = lo4 b1; h = hi4 b1
      in if h = 0x0 then
           do { (addr, c) \<leftarrow> readAddr16 D (pc c) c; c \<leftarrow> loadB D addr r c; let c = pc_add 2 c;
                fetched 2 (byteAccessTiming addr c) c }
         else if h = 0x1 then
           do { (addr, c) \<leftarrow> readAddr16 D (pc c) c;
                (b4, c) \<leftarrow> readByte D (pc c + 2) c;
                (b5, c) \<leftarrow> readByte D (pc c + 3) c;
                let c = pc_add 4 c;
                bitAbs6A D b1 0x10 b4 b5 addr 3 c }
         else if h = 0x2 then
           do { (addr, c) \<leftarrow> readLong D (pc c) c; c \<leftarrow> loadB D addr r c; let c = pc_add 4 c;
                fetched 3 (byteAccessTiming addr c) c }
         else if h = 0x3 then
           do { (addr, c) \<leftarrow> readLong D (pc c) c;
                (b6, c) \<leftarrow> readByte D (pc c + 4) c;
                (b7, c) \<leftarrow> readByte D (pc c + 5) c;
                let c = pc_add 6 c;
                bitAbs6A D b1 0x30 b6 b7 addr 4 c }
         else if h = 0x8 then
           do { (addr, c) \<leftarrow> readAddr16 D (pc c) c; c \<leftarrow> storeB D addr r c; let c = pc_add 2 c;
                fetched 2 (byteAccessTiming addr c) c }
         else if h = 0xA then
           do { (addr, c) \<leftarrow> readLong D (pc c) c; c \<leftarrow> storeB D addr r c; let c = pc_add 4 c;
                fetched 3 (byteAccessTiming addr c) c }
         else invalid c)"

definition handle6B :: "'d devices \<Rightarrow> u8 \<Rightarrow> 'd cpu \<Rightarrow> (int \<times> 'd cpu) option" where
  "handle6B D b1 c =
     (let r = lo4 b1; h = hi4 b1
      in if h = 0x0 then
           do { (addr, c) \<leftarrow> readAddr16 D (pc c) c; c \<leftarrow> loadW D addr r c; let c = pc_add 2 c;
                fetched 2 (wordAccessTiming addr c) c }
         else if h = 0x2 then
           do { (addr, c) \<leftarrow> readLong D (pc c) c; c \<leftarrow> loadW D addr r c; let c = pc_add 4 c;
                fetched 3 (wordAccessTiming addr c) c }
         else if h = 0x8 then
           do { (addr, c) \<leftarrow> readAddr16 D (pc c) c; c \<leftarrow> storeW D addr r c; let c = pc_add 2 c;
                fetched 2 (wordAccessTiming addr c) c }
         else if h = 0xA then
           do { (addr, c) \<leftarrow> readLong D (pc c) c; c \<leftarrow> storeW D addr r c; let c = pc_add 4 c;
                fetched 3 (wordAccessTiming addr c) c }
         else None)"

definition handleMOV78 :: "'d devices \<Rightarrow> u8 \<Rightarrow> 'd cpu \<Rightarrow> (int \<times> 'd cpu) option" where
  "handleMOV78 D b1 c =
     do { (b2, c) \<leftarrow> readByte D (pc c) c;
          (b3, c) \<leftarrow> readByte D (pc c + 1) c;
          (off, c) \<leftarrow> readLong D (pc c + 2) c;
          let c = pc_add 6 c;
          let h = hi4 b3;
          let r = lo4 b3;
          let regA = hi4 b1;
          base \<leftarrow> regL regA c;
          if b2 = 0x6A \<and> h = 0x2 then
            do { c \<leftarrow> loadB D (base + off) r c; fetched 4 (byteAccessTiming (er c regA + off) c) c }
          else if b2 = 0x6A \<and> h = 0xA then
            do { c \<leftarrow> storeB D (base + off) r c; fetched 4 (byteAccessTiming (er c regA + off) c) c }
          else if b2 = 0x6B \<and> h = 0x2 then
            do { c \<leftarrow> loadW D (base + off) r c; fetched 4 (wordAccessTiming (er c regA + off) c) c }
          else if b2 = 0x6B \<and> h = 0xA then
            do { c \<leftarrow> storeW D (base + off) r c; fetched 4 (wordAccessTiming (er c regA + off) c) c }
          else None }"

definition handleWord79 :: "'d devices \<Rightarrow> u8 \<Rightarrow> 'd cpu \<Rightarrow> (int \<times> 'd cpu) option" where
  "handleWord79 D b1 c =
     do { let r = lo4 b1;
          let h = hi4 b1;
          (imm, c) \<leftarrow> readWord D (pc c) c;
          let c = pc_add 2 c;
          c \<leftarrow> (if h = 0x0 then setW r imm (movFlags imm c)
                else if h = 0x1 then unW (doADD imm) r c
                else if h = 0x2 then cmpW imm r c
                else if h = 0x3 then unW (doSUB imm) r c
                else if h = 0x4 then unW (doOR imm) r c
                else if h = 0x5 then unW (doXOR imm) r c
                else if h = 0x6 then unW (doAND imm) r c
                else None);
          fetched 2 0 c }"

definition handleLong7A :: "'d devices \<Rightarrow> u8 \<Rightarrow> 'd cpu \<Rightarrow> (int \<times> 'd cpu) option" where
  "handleLong7A D b1 c =
     do { let r = lo4 b1;
          let h = hi4 b1;
          (imm, c) \<leftarrow> readLong D (pc c) c;
          let c = pc_add 4 c;
          c \<leftarrow> (if h = 0x0 then setL r imm (movFlags imm c)
                else if h = 0x1 then unL (doADD imm) r c
                else if h = 0x2 then cmpL imm r c
                else if h = 0x3 then unL (doSUB imm) r c
                else if h = 0x4 then unL (doOR imm) r c
                else if h = 0x5 then unL (doXOR imm) r c
                else if h = 0x6 then unL (doAND imm) r c
                else None);
          fetched 3 0 c }"

section \<open>Instructions with an 8-bit immediate or address\<close>

definition exec_imm8 :: "'d devices \<Rightarrow> u8 \<Rightarrow> u8 \<Rightarrow> 'd cpu \<Rightarrow> (int \<times> 'd cpu) option" where
  "exec_imm8 D b0 b1 c =
     (let h = hi4 b0; r = lo4 b0; addr = (ucast b1 :: u32) OR 0xFFFF00
      in if h = 0x2 then
           do { c \<leftarrow> loadB D addr r c; fetched 1 (byteAccessTiming addr c) c }
         else if h = 0x3 then
           do { c \<leftarrow> storeB D addr r c; fetched 1 (byteAccessTiming addr c) c }
         else if h = 0x4 then handleBranch r (sint b1) c
         else if h = 0x8 then do { c \<leftarrow> unB (doADD b1) r c; fetched 1 0 c }
         else if h = 0x9 then do { c \<leftarrow> unB (doADDX b1) r c; fetched 1 0 c }
         else if h = 0xA then do { c \<leftarrow> cmpB b1 r c; fetched 1 0 c }
         else if h = 0xB then do { c \<leftarrow> unB (doSUBX b1) r c; fetched 1 0 c }
         else if h = 0xC then do { c \<leftarrow> unB (doOR b1) r c; Some (1, c) }
         else if h = 0xD then do { c \<leftarrow> unB (doXOR b1) r c; Some (1, c) }
         else if h = 0xE then do { c \<leftarrow> unB (doAND b1) r c; fetched 1 0 c }
         else do { c \<leftarrow> setB r b1 (movFlags b1 c); fetched 1 0 c })"

section \<open>First byte 01\<close>

fun stm_regs :: "'d devices \<Rightarrow> nat list \<Rightarrow> 'd cpu \<Rightarrow> 'd cpu option" where
  "stm_regs D [] c = Some c"
| "stm_regs D (r # rs) c =
     do { let c = er_upd 7 (er c 7 - 4) c;
          v \<leftarrow> regL r c;
          c \<leftarrow> writeLong D (er c 7) v c;
          stm_regs D rs c }"

fun ldm_regs :: "'d devices \<Rightarrow> int list \<Rightarrow> 'd cpu \<Rightarrow> 'd cpu option" where
  "ldm_regs D [] c = Some c"
| "ldm_regs D (r # rs) c =
     do { (v, c) \<leftarrow> readLong D (er c 7) c;
          c \<leftarrow> (if r < 0 then None else setL (nat r) v c);
          let c = er_upd 7 (er c 7 + 4) c;
          ldm_regs D rs c }"

definition exec_ldmstm :: "'d devices \<Rightarrow> u8 \<Rightarrow> 'd cpu \<Rightarrow> (int \<times> 'd cpu) option" where
  "exec_ldmstm D b1 c =
     do { (b3, c) \<leftarrow> readByte D (pc c + 1) c;
          _ \<leftarrow> asserting (lo4 b1 = 0);
          (b2, c) \<leftarrow> readByte D (pc c) c;
          _ \<leftarrow> asserting (b2 = 0x6D);
          _ \<leftarrow> asserting (b3 AND 0x70 = 0x70);
          let startReg = lo4 b3;
          let numRegs = hi4 b1 + 1;
          let c = pc_add 2 c;
          c \<leftarrow> (if tst b3 0x80
                then stm_regs D (map (\<lambda>i. startReg + i) [0..<numRegs]) c
                else ldm_regs D (map (\<lambda>i. int startReg - int i) [0..<numRegs]) c);
          fetched 2 (wordAccessTiming (er c 7) c * int numRegs * 2 + 1) c }"

definition exec_mulxs :: "'d devices \<Rightarrow> 'd cpu \<Rightarrow> (int \<times> 'd cpu) option" where
  "exec_mulxs D c =
     do { (b2, c) \<leftarrow> readByte D (pc c) c;
          (b3, c) \<leftarrow> readByte D (pc c + 1) c;
          let c = pc_add 2 c;
          if b2 = 0x50 then
            do { w \<leftarrow> regW (lo4 b3) c;
                 b \<leftarrow> regB (hi4 b3) c;
                 let res = (word_of_int (sint (ucast w :: u8) * sint b) :: u16);
                 c \<leftarrow> setW (lo4 b3) res c;
                 fetched 2 11 (setFlags res c) }
          else if b2 = 0x52 then
            do { let dest = unat (b3 AND 0x7);
                 b \<leftarrow> regW (hi4 b3) c;
                 let res = (word_of_int (sint (ucast (er c dest) :: u16) * sint b) :: u32);
                 fetched 2 19 (setFlags res (er_upd dest res c)) }
          else None }"

text \<open>The quotient and remainder of \<open>divxs\<close>, where \<open>least\<close> is the least dividend.\<close>

definition divxs :: "int \<Rightarrow> int \<Rightarrow> int \<Rightarrow> int \<Rightarrow> int \<times> int" where
  "divxs least hiHalf dividend divisor =
     (if divisor = -1 \<and> dividend = least then (-1, -1)
      else if divisor \<noteq> 0 then (dividend sdiv divisor, dividend smod divisor)
      else if hiHalf < 0 then (hiHalf + 1, dividend)
      else (hiHalf, dividend))"

definition divxsFlags :: "int \<Rightarrow> int \<Rightarrow> u8 \<Rightarrow> u8" where
  "divxsFlags dividend divisor cc =
     updateFlag CC_N ((dividend < 0) \<noteq> (divisor < 0)) (updateFlag CC_Z (divisor = 0) cc)"

definition exec_divxs :: "'d devices \<Rightarrow> 'd cpu \<Rightarrow> (int \<times> 'd cpu) option" where
  "exec_divxs D c =
     do { (b2, c) \<leftarrow> readByte D (pc c) c;
          (b3, c) \<leftarrow> readByte D (pc c + 1) c;
          let c = pc_add 2 c;
          if b2 = 0x51 then
            do { w \<leftarrow> regW (lo4 b3) c;
                 b \<leftarrow> regB (hi4 b3) c;
                 let (quot, rem) = divxs (-32768) (sint w div 256) (sint w) (sint b);
                 let c = c\<lparr>ccr := divxsFlags (sint w) (sint b) (ccr c)\<rparr>;
                 c \<leftarrow> setW (lo4 b3) (push_bit 8 (word_of_int rem AND 0xFF)
                                     OR (word_of_int quot AND 0xFF)) c;
                 fetched 2 11 c }
          else if b2 = 0x53 then
            do { let dest = unat (b3 AND 0x7);
                 b \<leftarrow> regW (hi4 b3) c;
                 let l = er c dest;
                 let (quot, rem) = divxs (-2147483648) (sint l div 65536) (sint l) (sint b);
                 let c = c\<lparr>ccr := divxsFlags (sint l) (sint b) (ccr c)\<rparr>;
                 fetched 2 19 (er_upd dest (push_bit 16 (word_of_int rem AND 0xFFFF)
                                            OR (word_of_int quot AND 0xFFFF)) c) }
          else None }"

definition exec_tas :: "'d devices \<Rightarrow> 'd cpu \<Rightarrow> (int \<times> 'd cpu) option" where
  "exec_tas D c =
     do { (b2, c) \<leftarrow> readByte D (pc c) c;
          (b3, c) \<leftarrow> readByte D (pc c + 1) c;
          let c = pc_add 2 c;
          _ \<leftarrow> asserting (b2 = 0x7B);
          _ \<leftarrow> asserting (b3 AND 0xF = 0xC);
          let r = unat (drop_bit 4 b3 AND 0x7);
          (val, c) \<leftarrow> readByte D (er c r) c;
          let c = setFlag CC_V False (setFlags val c);
          c \<leftarrow> writeByte D (er c r) (val OR 0x80) c;
          fetched 2 (byteAccessTiming (er c r) c * 2) c }"

definition exec_01 :: "'d devices \<Rightarrow> u8 \<Rightarrow> 'd cpu \<Rightarrow> (int \<times> 'd cpu) option" where
  "exec_01 D b1 c =
     (let h = hi4 b1; l0 = asserting (lo4 b1 = 0)
      in if h = 0x0 then do { _ \<leftarrow> l0; handleLongMOV0100 D c }
         else if h = 0x1 \<or> h = 0x2 \<or> h = 0x3 then exec_ldmstm D b1 c
         else if h = 0x4 then handleWordLDCSTC D c
         else if h = 0x8 then do { _ \<leftarrow> l0; fetched 1 1 (c\<lparr>sleeping := True\<rparr>) }
         else if h = 0xC then do { _ \<leftarrow> l0; exec_mulxs D c }
         else if h = 0xD then do { _ \<leftarrow> l0; exec_divxs D c }
         else if h = 0xE then do { _ \<leftarrow> l0; exec_tas D c }
         else if h = 0xF then do { _ \<leftarrow> l0; handleLong01F0 D c }
         else invalid c)"

section \<open>First byte 02 to 0F and 10 to 1F\<close>

definition exec_0x :: "'d devices \<Rightarrow> nat \<Rightarrow> u8 \<Rightarrow> 'd cpu \<Rightarrow> (int \<times> 'd cpu) option" where
  "exec_0x D op b1 c =
     (let b1h = hi4 b1; b1l = lo4 b1
      in if op = 0x0 then do { _ \<leftarrow> asserting (b1 = 0); fetched 1 0 c }
         else if op = 0x1 then exec_01 D b1 c
         else if op = 0x2 then do { c \<leftarrow> setB (unat b1) (ccr c) c; fetched 1 0 c }
         else if op = 0x3 then do { v \<leftarrow> regB (unat b1) c; fetched 1 0 (c\<lparr>ccr := v\<rparr>) }
         else if op = 0x4 then fetched 1 0 (c\<lparr>ccr := ccr c OR b1\<rparr>)
         else if op = 0x5 then fetched 1 0 (c\<lparr>ccr := ccr c XOR b1\<rparr>)
         else if op = 0x6 then fetched 1 0 (c\<lparr>ccr := ccr c AND b1\<rparr>)
         else if op = 0x7 then fetched 1 0 (c\<lparr>ccr := b1\<rparr>)
         else if op = 0x8 then do { a \<leftarrow> regB b1h c; c \<leftarrow> unB (doADD a) b1l c; fetched 1 0 c }
         else if op = 0x9 then do { a \<leftarrow> regW b1h c; c \<leftarrow> unW (doADD a) b1l c; fetched 1 0 c }
         else if op = 0xA then
           (if tst b1 0x80
            then do { a \<leftarrow> regL (b1h mod 8) c; c \<leftarrow> unL (doADD a) b1l c; fetched 1 0 c }
            else do { c \<leftarrow> unB (doINC 1) b1l c; fetched 1 0 c })
         else if op = 0xB then handleADDSINC b1 c
         else if op = 0xC then do { v \<leftarrow> regB b1h c; c \<leftarrow> setB b1l v (movFlags v c); fetched 1 0 c }
         else if op = 0xD then do { v \<leftarrow> regW b1h c; c \<leftarrow> setW b1l v (movFlags v c); fetched 1 0 c }
         else if op = 0xE then do { a \<leftarrow> regB b1h c; c \<leftarrow> unB (doADDX a) b1l c; fetched 1 0 c }
         else if tst b1 0x80
           then do { v \<leftarrow> regL (b1h mod 8) c; c \<leftarrow> setL b1l v (movFlags v c); fetched 1 0 c }
           else do { c \<leftarrow> unB doDAA b1l c; fetched 1 0 c })"

definition exec_1x :: "'d devices \<Rightarrow> nat \<Rightarrow> u8 \<Rightarrow> 'd cpu \<Rightarrow> (int \<times> 'd cpu) option" where
  "exec_1x D op b1 c =
     (let b1h = hi4 b1; b1l = lo4 b1
      in if op = 0x0 then handleLeftShift b1 c
         else if op = 0x1 then handleRightShift b1 c
         else if op = 0x2 then handleLeftRotate b1 c
         else if op = 0x3 then handleRightRotate b1 c
         else if op = 0x4 then do { a \<leftarrow> regB b1h c; c \<leftarrow> unB (doOR a) b1l c; fetched 1 0 c }
         else if op = 0x5 then do { a \<leftarrow> regB b1h c; c \<leftarrow> unB (doXOR a) b1l c; fetched 1 0 c }
         else if op = 0x6 then do { a \<leftarrow> regB b1h c; c \<leftarrow> unB (doAND a) b1l c; fetched 1 0 c }
         else if op = 0x7 then handleNOTEXTNEG b1 c
         else if op = 0x8 then do { a \<leftarrow> regB b1h c; c \<leftarrow> unB (doSUB a) b1l c; fetched 1 0 c }
         else if op = 0x9 then do { a \<leftarrow> regW b1h c; c \<leftarrow> unW (doSUB a) b1l c; fetched 1 0 c }
         else if op = 0xA then
           (if tst b1 0x80
            then do { a \<leftarrow> regL (b1h mod 8) c; c \<leftarrow> unL (doSUB a) b1l c; fetched 1 0 c }
            else do { c \<leftarrow> unB (doDEC 1) b1l c; fetched 1 0 c })
         else if op = 0xB then handleSUBSDEC b1 c
         else if op = 0xC then do { a \<leftarrow> regB b1h c; c \<leftarrow> cmpB a b1l c; fetched 1 0 c }
         else if op = 0xD then do { a \<leftarrow> regW b1h c; c \<leftarrow> cmpW a b1l c; fetched 1 0 c }
         else if op = 0xE then do { a \<leftarrow> regB b1h c; c \<leftarrow> unB (doSUBX a) b1l c; fetched 1 0 c }
         else if tst b1 0x80
           then do { a \<leftarrow> regL (b1h mod 8) c; c \<leftarrow> cmpL a b1l c; fetched 1 0 c }
           else do { c \<leftarrow> unB doDAS b1l c; fetched 1 0 c })"

section \<open>First byte 50 to 5F\<close>

text \<open>\<open>divxu\<close>: the quotient and remainder of a dividend whose high half is \<open>hiHalf\<close>.\<close>

definition divxu :: "nat \<Rightarrow> nat \<Rightarrow> nat \<Rightarrow> nat \<times> nat" where
  "divxu hiHalf dividend divisor =
     (if divisor \<noteq> 0 then (dividend div divisor, dividend mod divisor) else (hiHalf, dividend))"

definition exec_muldiv :: "nat \<Rightarrow> u8 \<Rightarrow> 'd cpu \<Rightarrow> (int \<times> 'd cpu) option" where
  "exec_muldiv op b1 c =
     (let b1h = hi4 b1; b1l = lo4 b1
      in if op = 0x0 then
           do { w \<leftarrow> regW b1l c; b \<leftarrow> regB b1h c;
                c \<leftarrow> setW b1l ((w AND 0xFF) * ucast b) c;
                fetched 1 11 c }
         else if op = 0x1 then
           do { divisor \<leftarrow> regB b1h c; dividend \<leftarrow> regW b1l c;
                let c = setFlags divisor c;
                let (quot, rem) = divxu (unat (drop_bit 8 dividend)) (unat dividend) (unat divisor);
                c \<leftarrow> setW b1l (push_bit 8 (of_nat rem AND 0xFF) OR (of_nat quot AND 0xFF)) c;
                fetched 1 11 c }
         else if op = 0x2 then
           do { l \<leftarrow> regL b1l c; w \<leftarrow> regW b1h c;
                c \<leftarrow> setL b1l ((l AND 0xFFFF) * ucast w) c;
                fetched 1 19 c }
         else
           do { divisor \<leftarrow> regW b1h c; l \<leftarrow> regL b1l c;
                let c = setFlags divisor c;
                let (quot, rem) = divxu (unat (drop_bit 16 l)) (unat l) (unat divisor);
                c \<leftarrow> setL b1l (push_bit 16 (of_nat rem AND 0xFFFF) OR (of_nat quot AND 0xFFFF)) c;
                fetched 1 19 c })"

definition exec_rts :: "'d devices \<Rightarrow> u8 \<Rightarrow> 'd cpu \<Rightarrow> (int \<times> 'd cpu) option" where
  "exec_rts D b1 c =
     do { _ \<leftarrow> asserting (b1 = 0x70);
          (val, c) \<leftarrow> readLong D (er c 7) c;
          let c = er_upd 7 (er c 7 + 4) (setPC (val AND 0xFFFFFF) c);
          fetched 2 (wordAccessTiming (er c 7) c * 2 + 1) c }"

definition exec_rte :: "'d devices \<Rightarrow> u8 \<Rightarrow> 'd cpu \<Rightarrow> (int \<times> 'd cpu) option" where
  "exec_rte D b1 c =
     do { _ \<leftarrow> asserting (b1 = 0x70);
          (val, c) \<leftarrow> readLong D (er c 7) c;
          let c = setPC (val AND 0xFFFFFF) c;
          let c = c\<lparr>ccr := ucast (drop_bit 24 val)\<rparr>;
          let c = er_upd 7 (er c 7 + 4) c;
          fetched 2 (wordAccessTiming (er c 7) c * 2 + 1) c }"

text \<open>57 (\<open>trapa\<close>), 5B and 5F (memory indirect jumps) are not decoded.\<close>

definition exec_5x :: "'d devices \<Rightarrow> nat \<Rightarrow> u8 \<Rightarrow> 'd cpu \<Rightarrow> (int \<times> 'd cpu) option" where
  "exec_5x D op b1 c =
     (let b1h = hi4 b1
      in if op \<le> 0x3 then exec_muldiv op b1 c
         else if op = 0x4 then exec_rts D b1 c
         else if op = 0x5 then
           do { c \<leftarrow> pushLong D (pc c) c;
                let c = setPC (pc c + scast b1) c;
                fetched 2 (wordAccessTiming (er c 7) c * 2) c }
         else if op = 0x6 then exec_rte D b1 c
         else if op = 0x8 then
           do { let c = pc_add 2 c;
                (disp, c) \<leftarrow> readWord D (pc c - 2) c;
                (n, c) \<leftarrow> handleBranch b1h (sint disp) c;
                Some (n + 1, c) }
         else if op = 0x9 then
           do { addr \<leftarrow> regL b1h c; fetched 2 0 (setPC addr c) }
         else if op = 0xA then
           do { (w, c) \<leftarrow> readWord D (pc c) c;
                fetched 2 1 (setPC (ucast w OR push_bit 16 (ucast b1)) c) }
         else if op = 0xC then
           do { let c = pc_add 2 c;
                c \<leftarrow> pushLong D (pc c) c;
                (disp, c) \<leftarrow> readWord D (pc c - 2) c;
                let c = setPC (pc c + scast disp) c;
                fetched 2 (wordAccessTiming (er c 7) c * 2 + 1) c }
         else if op = 0xD then
           do { c \<leftarrow> pushLong D (pc c) c;
                addr \<leftarrow> regL b1h c;
                let c = setPC addr c;
                fetched 2 (wordAccessTiming (er c 7) c * 2) c }
         else if op = 0xE then
           do { (w, c) \<leftarrow> readWord D (pc c) c;
                let addr = ucast w OR push_bit 16 (ucast b1);
                let c = pc_add 2 c;
                c \<leftarrow> pushLong D (pc c) c;
                let c = setPC addr c;
                fetched 2 (wordAccessTiming (er c 7) c * 2 + 1) c }
         else invalid c)"

section \<open>First byte 60 to 6F\<close>

definition exec_6x :: "'d devices \<Rightarrow> nat \<Rightarrow> u8 \<Rightarrow> 'd cpu \<Rightarrow> (int \<times> 'd cpu) option" where
  "exec_6x D op b1 c =
     (let b1h = hi4 b1; b1l = lo4 b1; regA = hi4 b1 mod 8; store = tst b1 0x80
      in if op \<le> 0x3 then
           do { b \<leftarrow> regB b1h c;
                let m = bitv (unat (b AND 7));
                v \<leftarrow> regB b1l c;
                c \<leftarrow> (if op = 0x0 then setB b1l (v OR m) c
                      else if op = 0x1 then setB b1l (v XOR m) c
                      else if op = 0x2 then setB b1l (v AND NOT m) c
                      else Some (setFlag CC_Z (\<not> tst v m) c));
                fetched 1 0 c }
         else if op = 0x4 then do { a \<leftarrow> regW b1h c; c \<leftarrow> unW (doOR a) b1l c; fetched 1 0 c }
         else if op = 0x5 then do { a \<leftarrow> regW b1h c; c \<leftarrow> unW (doXOR a) b1l c; fetched 1 0 c }
         else if op = 0x6 then do { a \<leftarrow> regW b1h c; c \<leftarrow> unW (doAND a) b1l c; fetched 1 0 c }
         else if op = 0x7 then
           do { v \<leftarrow> regB b1l c;
                c \<leftarrow> setB b1l (storeBit b1h (tst (ccr c) CC_C) v) c;
                fetched 1 0 c }
         else if op = 0x8 then
           do { c \<leftarrow> (if store then storeB D (er c regA) b1l c else loadB D (er c regA) b1l c);
                fetched 1 (byteAccessTiming (er c regA) c) c }
         else if op = 0x9 then
           do { c \<leftarrow> (if store then storeW D (er c regA) b1l c else loadW D (er c regA) b1l c);
                fetched 1 (wordAccessTiming (er c regA) c) c }
         else if op = 0xA then handle6A D b1 c
         else if op = 0xB then handle6B D b1 c
         else if op = 0xC then
           do { c \<leftarrow> (if store
                      then let c = er_upd regA (er c regA - 1) c in storeB D (er c regA) b1l c
                      else do { (val, c) \<leftarrow> readByte D (er c regA) c;
                                let c = movFlags val c;
                                let c = er_upd regA (er c regA + 1) c;
                                setB b1l val c });
                fetched 1 (byteAccessTiming (er c regA) c + 1) c }
         else if op = 0xD then
           do { c \<leftarrow> (if store
                      then let c = er_upd regA (er c regA - 2) c in storeW D (er c regA) b1l c
                      else do { (val, c) \<leftarrow> readWord D (er c regA) c;
                                let c = movFlags val c;
                                let c = er_upd regA (er c regA + 2) c;
                                setW b1l val c });
                fetched 1 (wordAccessTiming (er c regA) c + 1) c }
         else if op = 0xE then
           do { (disp, c) \<leftarrow> readDisp16 D (pc c) c;
                let addr = er c regA + disp;
                c \<leftarrow> (if store then storeB D addr b1l c else loadB D addr b1l c);
                let c = pc_add 2 c;
                fetched 2 (byteAccessTiming addr c) c }
         else
           do { (disp, c) \<leftarrow> readDisp16 D (pc c) c;
                let addr = er c regA + disp;
                c \<leftarrow> (if store then storeW D addr b1l c else loadW D addr b1l c);
                let c = pc_add 2 c;
                fetched 2 (wordAccessTiming addr c) c })"

section \<open>First byte 70 to 7F\<close>

fun eepmov_loop :: "'d devices \<Rightarrow> nat \<Rightarrow> 'd cpu \<Rightarrow> 'd cpu option" where
  "eepmov_loop D 0 c = Some c"
| "eepmov_loop D (Suc len) c =
     do { let src = er c 5;
          let dst = er c 6;
          let c = er_upd 5 (src + 1) (er_upd 6 (dst + 1) c);
          (v, c) \<leftarrow> readByte D src c;
          c \<leftarrow> writeByte D dst v c;
          eepmov_loop D len c }"

definition exec_eepmov :: "'d devices \<Rightarrow> u8 \<Rightarrow> 'd cpu \<Rightarrow> (int \<times> 'd cpu) option" where
  "exec_eepmov D b1 c =
     do { (b2, c) \<leftarrow> readByte D (pc c) c;
          _ \<leftarrow> asserting (b2 = 0x59);
          (b3, c) \<leftarrow> readByte D (pc c + 1) c;
          _ \<leftarrow> asserting (b3 = 0x8F);
          _ \<leftarrow> asserting (b1 = 0x5C \<or> b1 = 0xD4);
          let c = pc_add 2 c;
          let len = unat (er c 4 AND (if b1 = 0xD4 then 0xFFFF else 0xFF));
          let states = fetchTiming 2 c + byteAccessTiming (er c 6) c * int len
                         + byteAccessTiming (er c 5) c * (int len + 1);
          c \<leftarrow> eepmov_loop D len c;
          Some (states, er_upd 4 (er c 4 AND (if b1 = 0xD4 then 0xFFFF0000 else 0xFFFFFF00)) c) }"

text \<open>7C and 7E only test the bit, 7D and 7F change it.\<close>

definition exec_bitMem :: "'d devices \<Rightarrow> nat \<Rightarrow> u8 \<Rightarrow> 'd cpu \<Rightarrow> (int \<times> 'd cpu) option" where
  "exec_bitMem D op b1 c =
     do { (b2, c) \<leftarrow> readByte D (pc c) c;
          (b3, c) \<leftarrow> readByte D (pc c + 1) c;
          let c = pc_add 2 c;
          addr \<leftarrow> (if op = 0xC \<or> op = 0xD then regL (hi4 b1) c
                   else Some (ucast b1 OR 0xFFFF00));
          if op = 0xC \<or> op = 0xE then
            do { (ok, c) \<leftarrow> handleBitFlags D b2 addr (hi4 b3) c;
                 if ok then fetched 2 (byteAccessTiming addr c) c else invalid c }
          else
            do { (ok, c) \<leftarrow> handleBitValue D b2 addr (hi4 b3) c;
                 if ok then fetched 2 (byteAccessTiming addr c * 2) c else invalid c } }"

definition exec_7x :: "'d devices \<Rightarrow> nat \<Rightarrow> u8 \<Rightarrow> 'd cpu \<Rightarrow> (int \<times> 'd cpu) option" where
  "exec_7x D op b1 c =
     (let b1h = hi4 b1; b1l = lo4 b1; m = bitv b1h
      in if op = 0x0 then do { v \<leftarrow> regB b1l c; c \<leftarrow> setB b1l (v OR m) c; fetched 1 0 c }
         else if op = 0x1 then do { v \<leftarrow> regB b1l c; c \<leftarrow> setB b1l (v XOR m) c; fetched 1 0 c }
         else if op = 0x2 then do { v \<leftarrow> regB b1l c; c \<leftarrow> setB b1l (v AND NOT m) c; fetched 1 0 c }
         else if op = 0x3 then
           do { v \<leftarrow> regB b1l c; fetched 1 0 (setFlag CC_Z (\<not> tst v m) c) }
         else if op \<le> 0x7 then
           do { v \<leftarrow> regB b1l c;
                fetched 1 0 (setFlag CC_C (bitCarry (0x70 + of_nat op) b1h v (tst (ccr c) CC_C)) c) }
         else if op = 0x8 then handleMOV78 D b1 c
         else if op = 0x9 then handleWord79 D b1 c
         else if op = 0xA then handleLong7A D b1 c
         else if op = 0xB then exec_eepmov D b1 c
         else exec_bitMem D op b1 c)"

section \<open>One instruction\<close>

definition executeInstruction :: "'d devices \<Rightarrow> 'd cpu \<Rightarrow> (int \<times> 'd cpu) option" where
  "executeInstruction D c =
     do { (b0, c) \<leftarrow> readByte D (pc c) c;
          (b1, c) \<leftarrow> readByte D (pc c + 1) c;
          let c = pc_add 2 c;
          let h = hi4 b0;
          if h = 0x0 then exec_0x D (lo4 b0) b1 c
          else if h = 0x1 then exec_1x D (lo4 b0) b1 c
          else if h = 0x5 then exec_5x D (lo4 b0) b1 c
          else if h = 0x6 then exec_6x D (lo4 b0) b1 c
          else if h = 0x7 then exec_7x D (lo4 b0) b1 c
          else exec_imm8 D b0 b1 c }"

end
