(* ===== verification/H8System.thy ===== *)
theory H8System
  imports H8Exec
begin

text \<open>
  What happens between instructions: the DMA controller, the data transfer controller, the
  A/D converter, interrupt entry, and the main loop \<open>H8CPU::executeCycles\<close>.
\<close>

section \<open>The DMA controller\<close>

text \<open>The two halves of a channel in short address mode; \<open>True\<close> is half B.\<close>

definition dma_memAddr :: "bool \<Rightarrow> dma_channel \<Rightarrow> u32" where
  "dma_memAddr h d = (if h then memAddrB d else memAddrA d)"

definition dma_setMemAddr :: "bool \<Rightarrow> u32 \<Rightarrow> dma_channel \<Rightarrow> dma_channel" where
  "dma_setMemAddr h v d = (if h then d\<lparr>memAddrB := v\<rparr> else d\<lparr>memAddrA := v\<rparr>)"

definition dma_count :: "bool \<Rightarrow> dma_channel \<Rightarrow> u16" where
  "dma_count h d = (if h then countB d else countA d)"

definition dma_setCount :: "bool \<Rightarrow> u16 \<Rightarrow> dma_channel \<Rightarrow> dma_channel" where
  "dma_setCount h v d = (if h then d\<lparr>countB := v\<rparr> else d\<lparr>countA := v\<rparr>)"

text \<open>Clearing the transfer enable bit (\<open>bandControl &= ~(0x10 << shift)\<close>).\<close>

definition dma_disable :: "nat \<Rightarrow> dma_channel \<Rightarrow> dma_channel" where
  "dma_disable shift d = d\<lparr>bandControl := bandControl d AND NOT (bitv (4 + shift))\<rparr>"

text \<open>Copying one byte (\<open>sz = 1\<close>) or one word (\<open>sz = 2\<close>).\<close>

definition copyUnit :: "'d devices \<Rightarrow> nat \<Rightarrow> u32 \<Rightarrow> u32 \<Rightarrow> 'd cpu \<Rightarrow> 'd cpu option" where
  "copyUnit D sz src dst c =
     (if sz = 2
      then do { (v, c) \<leftarrow> readWord D src c; writeWord D dst v c }
      else do { (v, c) \<leftarrow> readByte D src c; writeByte D dst v c })"

text \<open>One transfer of the DMA controller; the states it takes are computed before it.\<close>

definition dma_move :: "'d devices \<Rightarrow> nat \<Rightarrow> u32 \<Rightarrow> u32 \<Rightarrow> 'd cpu \<Rightarrow> (int \<times> 'd cpu) option" where
  "dma_move D sz src dst c =
     (let cycles = (if sz = 2 then wordAccessTiming src c + wordAccessTiming dst c
                    else byteAccessTiming src c + byteAccessTiming dst c)
      in do { c \<leftarrow> copyUnit D sz src dst c; Some (cycles, c) })"

text \<open>Full address mode: source A, destination B, auto request, no block transfers.\<close>

definition dma_full :: "'d devices \<Rightarrow> nat \<Rightarrow> 'd cpu \<Rightarrow> (int \<times> 'd cpu) option" where
  "dma_full D ch c =
     (let d = dmaChannels c ch;
          enableMask = push_bit (2 * ch) (0x30 :: u16);
          sz = (if tst (dma_control d) (bitv 15) then 2 else 1 :: nat)
      in if bandControl d AND enableMask \<noteq> enableMask then Some (0, c)
         else if dma_control d AND 0xE \<noteq> 0x6 then Some (0, c)
         else if tst (dma_control d) (bitv 11) then Some (0, c)
         else do { (cycles, c) \<leftarrow> dma_move D sz (memAddrA d) (memAddrB d) c;
                   let c = upd_dma ch (\<lambda>d. d\<lparr>countA := countA d - 1\<rparr>) c;
                   let c = (if countA (dmaChannels c ch) = 0
                            then upd_dma ch (dma_disable (ch * 2)) c else c);
                   let ctl = dma_control (dmaChannels c ch);
                   let c = (if tst ctl (bitv 5)
                            then upd_dma ch (\<lambda>d. d\<lparr>memAddrB :=
                                   (if tst ctl (bitv 6) then memAddrB d - of_nat sz
                                    else memAddrB d + of_nat sz)\<rparr>) c
                            else c);
                   let c = (if tst ctl (bitv 13)
                            then upd_dma ch (\<lambda>d. d\<lparr>memAddrA :=
                                   (if tst ctl (bitv 14) then memAddrA d - of_nat sz
                                    else memAddrA d + of_nat sz)\<rparr>) c
                            else c);
                   Some (cycles, c) })"

text \<open>The activation source of a half channel: only TXI1 (6) and RXI1 (7) are handled.\<close>

definition dma_trigger :: "u8 \<Rightarrow> source option" where
  "dma_trigger chanControl =
     (if chanControl AND 0xF = 6 then Some IS_TXI1
      else if chanControl AND 0xF = 7 then Some IS_RXI1
      else None)"

definition clearRequest :: "source \<Rightarrow> 'd cpu \<Rightarrow> 'd cpu" where
  "clearRequest src c =
     c\<lparr>requestedInterrupts := (requestedInterrupts c)
         (src div 64 := requestedInterrupts c (src div 64) AND NOT (bitv (src mod 64)))\<rparr>"

text \<open>\<open>serialPorts[i].setReg(4, serialPorts[i].getReg(4) & ~flag, cpu)\<close>.\<close>

definition clearSSR :: "'d devices \<Rightarrow> nat \<Rightarrow> u8 \<Rightarrow> 'd cpu \<Rightarrow> 'd cpu option" where
  "clearSSR D i flag c =
     Serial_setReg D i 4 (Serial_getReg 4 (serialPorts c i) AND NOT flag) c"

text \<open>What follows a transfer of a half channel.\<close>

definition dma_subFinish :: "'d devices \<Rightarrow> nat \<Rightarrow> bool \<Rightarrow> u8 \<Rightarrow> u32 \<Rightarrow> u32 \<Rightarrow> bool \<Rightarrow> source
    \<Rightarrow> 'd cpu \<Rightarrow> 'd cpu option" where
  "dma_subFinish D ch h chanControl src dst endIrq irq c =
     (let shift = ch * 2 + (if h then 1 else 0);
          c = upd_dma ch (\<lambda>d. dma_setCount h (dma_count h d - 1) d) c;
          c = (if dma_count h (dmaChannels c ch) = 0
               then let c = upd_dma ch (dma_disable shift) c
                    in if endIrq then interrupt irq c else c
               else c);
          c = (if \<not> tst chanControl (bitv 5)
               then upd_dma ch (\<lambda>d. dma_setMemAddr h
                      (if tst chanControl (bitv 6) then dma_memAddr h d - 1
                       else dma_memAddr h d + 1) d) c
               else c)
      in do { c \<leftarrow> (if dst = 0xFFFF83 \<and> chanControl AND 0xF = 6
                    then clearSSR D 1 SSR_TDRE c else Some c);
              if src = 0xFFFF85 \<and> chanControl AND 0xF = 7
              then clearSSR D 1 SSR_RDRF c else Some c })"

definition dma_sub :: "'d devices \<Rightarrow> nat \<Rightarrow> bool \<Rightarrow> u8 \<Rightarrow> u16 \<Rightarrow> source \<Rightarrow> 'd cpu
    \<Rightarrow> (int \<times> 'd cpu) option" where
  "dma_sub D ch h chanControl ioAddr irq c =
     (let d = dmaChannels c ch;
          shift = ch * 2 + (if h then 1 else 0);
          repEnable = tst chanControl (bitv 5);
          endIrq = tst (bandControl d) (bitv shift);
          sz = (if tst chanControl (bitv 7) then 2 else 1 :: nat);
          clear = tst (bandControl d) (bitv (8 + shift))
      in if \<not> tst (bandControl d) (bitv (4 + shift)) then Some (0, c)
         else if dma_count h d = 0 then Some (0, upd_dma ch (dma_disable shift) c)
         else if repEnable \<and> \<not> endIrq then Some (0, c)
         else case dma_trigger chanControl of
                None \<Rightarrow> Some (0, upd_dma ch (dma_disable shift) c)
              | Some trig \<Rightarrow>
                  if \<not> tst (requestedInterrupts c 1) (bitv (trig - 64)) then Some (0, c)
                  else do { let c = (if clear then clearRequest trig c else c);
                            let io = (ucast ioAddr :: u32) OR 0xFF0000;
                            let (src, dst) = (if tst chanControl (bitv 4)
                                              then (io, dma_memAddr h (dmaChannels c ch))
                                              else (dma_memAddr h (dmaChannels c ch), io));
                            (cycles, c) \<leftarrow> dma_move D sz src dst c;
                            c \<leftarrow> dma_subFinish D ch h chanControl src dst endIrq irq c;
                            Some (cycles, c) })"

definition DMA_transfer :: "'d devices \<Rightarrow> nat \<Rightarrow> 'd cpu \<Rightarrow> (int \<times> 'd cpu) option" where
  "DMA_transfer D ch c =
     (let d = dmaChannels c ch
      in if tst (bandControl d) (bitv (14 + ch)) then dma_full D ch c
         else if tst (bandControl d) (bitv (12 + ch)) then Some (0, c)
         else do { (n, c) \<leftarrow> dma_sub D ch False (ucast (drop_bit 8 (dma_control d))) (ioAddrA d)
                               (if ch \<noteq> 0 then IS_DEND1A else IS_DEND0A) c;
                   let d = dmaChannels c ch;
                   (m, c) \<leftarrow> dma_sub D ch True (ucast (dma_control d AND 0xFF)) (ioAddrB d)
                               (if ch \<noteq> 0 then IS_DEND1B else IS_DEND0B) c;
                   Some (n + m, c) })"

section \<open>Interrupt entry\<close>

definition enterInterrupt :: "'d devices \<Rightarrow> source \<Rightarrow> 'd cpu \<Rightarrow> 'd cpu option" where
  "enterInterrupt D i c =
     do { (addr, c) \<leftarrow> readLong D (of_nat (i * 4)) c;
          c \<leftarrow> pushLong D (pc c OR push_bit 24 (ucast (ccr c))) c;
          Some (clearRequest i (c\<lparr>pc := addr, ccr := ccr c OR CC_I, sleeping := False\<rparr>)) }"

text \<open>\<open>checkInterruptMask\<close>: the first request of a mask, numbered from \<open>i\<close>.\<close>

fun firstRequest :: "nat \<Rightarrow> u64 \<Rightarrow> nat \<Rightarrow> nat option" where
  "firstRequest 0 interrupts i = None"
| "firstRequest (Suc n) interrupts i =
     (if interrupts = 0 then None
      else if bit interrupts 0 then Some i
      else firstRequest n (drop_bit 1 interrupts) (i + 1))"

definition checkInterruptMask :: "'d devices \<Rightarrow> u64 \<Rightarrow> nat \<Rightarrow> 'd cpu \<Rightarrow> (bool \<times> 'd cpu) option" where
  "checkInterruptMask D interrupts i c =
     (case firstRequest 64 interrupts i of
        None \<Rightarrow> Some (False, c)
      | Some k \<Rightarrow> do { c \<leftarrow> enterInterrupt D k c; Some (True, c) })"

definition serviceInterrupt :: "'d devices \<Rightarrow> 'd cpu \<Rightarrow> 'd cpu option" where
  "serviceInterrupt D c =
     (if requestedInterrupts c 0 = 0 \<and> requestedInterrupts c 1 = 0 then Some c
      else let nmi = tst (requestedInterrupts c 0) (bitv IS_NMI)
           in if bit (ccr c) 7 \<and> \<not> nmi then Some c
              else if nmi then Some c
              else do { (found, c) \<leftarrow> checkInterruptMask D (requestedInterrupts c 0) 0 c;
                        if found then Some c
                        else do { (_, c) \<leftarrow> checkInterruptMask D (requestedInterrupts c 1) 64 c;
                                  Some c } })"

section \<open>The data transfer controller\<close>

text \<open>The interrupt sources of the enable registers DTCERA to DTCERF, bit 0 first.\<close>

definition dtc_sources :: "source option list list" where
  "dtc_sources =
     [[Some 23, Some 22, Some 21, Some 20, Some 19, Some 18, Some 17, Some 16],
      [Some IS_TGI1B, Some IS_TGI1A, Some IS_TGI0D, Some IS_TGI0C, Some IS_TGI0B, Some IS_TGI0A,
       Some IS_ADI, None],
      [Some IS_TGI4B, Some IS_TGI4A, Some IS_TGI3D, Some IS_TGI3C, Some IS_TGI3B, Some IS_TGI3A,
       Some IS_TGI2B, Some IS_TGI2A],
      [Some IS_CMIB1, Some IS_CMIA1, Some IS_CMIB0, Some IS_CMIA0, Some IS_TGI5B, Some IS_TGI5A,
       None, None],
      [Some IS_TXI1, Some IS_RXI1, Some IS_TXI0, Some IS_RXI0, Some IS_DEND1B, Some IS_DEND1A,
       Some IS_DEND0B, Some IS_DEND0A],
      [None, None, None, None, None, None, Some IS_TXI2, Some IS_RXI2]]"

datatype dtc_scan = DTC_Nothing | DTC_Blocked | DTC_Found nat nat source

text \<open>A row of the scan; \<open>i\<close> is the enable register and \<open>j\<close> the bit.\<close>

fun dtc_scanRow :: "(nat \<Rightarrow> u64) \<Rightarrow> nat \<Rightarrow> nat \<Rightarrow> u8 \<Rightarrow> source option list \<Rightarrow> dtc_scan" where
  "dtc_scanRow req i j enabled [] = DTC_Nothing"
| "dtc_scanRow req i j enabled (s # ss) =
     (if enabled = 0 then DTC_Nothing
      else let next = dtc_scanRow req i (j + 1) (drop_bit 1 enabled) ss
           in case s of
                None \<Rightarrow> next
              | Some src \<Rightarrow>
                  if \<not> bit enabled 0 then next
                  else if \<not> tst (req (src div 64)) (bitv (src mod 64)) then next
                  else if tst (req (src div 64)) (bitv (src mod 64) - 1) then DTC_Blocked
                  else DTC_Found i j src)"

fun dtc_scanRows :: "(nat \<Rightarrow> u64) \<Rightarrow> (nat \<Rightarrow> u8) \<Rightarrow> nat \<Rightarrow> source option list list \<Rightarrow> dtc_scan" where
  "dtc_scanRows req en i [] = DTC_Nothing"
| "dtc_scanRows req en i (r # rs) =
     (case dtc_scanRow req i 0 (en i) r of
        DTC_Nothing \<Rightarrow> dtc_scanRows req en (i + 1) rs
      | s \<Rightarrow> s)"

text \<open>The transfers of one register set: as many as \<open>n\<close>, with the addresses after them.\<close>

definition dtc_step :: "bool \<Rightarrow> bool \<Rightarrow> nat \<Rightarrow> u32 \<Rightarrow> u32" where
  "dtc_step change down sz a =
     (if change then if down then a - of_nat sz else a + of_nat sz else a)"

fun dtc_copies :: "'d devices \<Rightarrow> u8 \<Rightarrow> nat \<Rightarrow> nat \<Rightarrow> u32 \<Rightarrow> u32 \<Rightarrow> 'd cpu
    \<Rightarrow> (u32 \<times> u32 \<times> 'd cpu) option" where
  "dtc_copies D modeA sz 0 src dst c = Some (src, dst, c)"
| "dtc_copies D modeA sz (Suc n) src dst c =
     do { c \<leftarrow> copyUnit D sz src dst c;
          dtc_copies D modeA sz n (dtc_step (tst modeA (bitv 7)) (tst modeA (bitv 6)) sz src)
            (dtc_step (tst modeA (bitv 5)) (tst modeA (bitv 4)) sz dst) c }"

definition setRam :: "nat \<Rightarrow> u8 \<Rightarrow> 'd cpu \<Rightarrow> 'd cpu" where
  "setRam a v c = c\<lparr>ram := (ram c)(a := v)\<rparr>"

definition ramAddr24 :: "nat \<Rightarrow> 'd cpu \<Rightarrow> u32" where
  "ramAddr24 a c = push_bit 16 (ucast (ram c a)) OR push_bit 8 (ucast (ram c (a + 1)))
     OR ucast (ram c (a + 2))"

definition ramWord :: "nat \<Rightarrow> 'd cpu \<Rightarrow> u16" where
  "ramWord a c = push_bit 8 (ucast (ram c a)) OR ucast (ram c (a + 1))"

definition setRamAddr24 :: "nat \<Rightarrow> u32 \<Rightarrow> 'd cpu \<Rightarrow> 'd cpu" where
  "setRamAddr24 a v c = setRam (a + 2) (ucast v) (setRam (a + 1) (ucast (drop_bit 8 v))
     (setRam a (ucast (drop_bit 16 v)) c))"

text \<open>
  Storing the count after the transfers: the count is an \<open>int\<close>, and the flag \<open>end\<close>, which
  C++ declares without a value, is \<open>None\<close> until it is assigned.
\<close>

definition dtc_reload :: "u8 \<Rightarrow> nat \<Rightarrow> u32 \<Rightarrow> u32 \<Rightarrow> u32 \<Rightarrow> u32 \<times> u32" where
  "dtc_reload modeA sz count src dst =
     (let d = count * of_nat sz; srcBlock = tst modeA (bitv 1)
      in if srcBlock \<and> tst modeA (bitv 7)
         then (if tst modeA (bitv 6) then src + d else src - d, dst)
         else if \<not> srcBlock \<and> tst modeA (bitv 5)
         then (src, if tst modeA (bitv 4) then dst + d else dst - d)
         else (src, dst))"

definition dtc_storeCount :: "nat \<Rightarrow> u8 \<Rightarrow> u16 \<Rightarrow> int \<Rightarrow> bool option \<Rightarrow> u32 \<Rightarrow> u32 \<Rightarrow> 'd cpu
    \<Rightarrow> bool option \<times> u32 \<times> u32 \<times> 'd cpu" where
  "dtc_storeCount vec modeA cntA count ended src dst c =
     (let mode = drop_bit 2 (modeA AND 0xC); sz = unat (modeA AND 1) + 1
      in if mode = 0
         then (Some (count = 0), src, dst,
               setRam (vec + 9) (word_of_int count) (setRam (vec + 8) (word_of_int (count div 256)) c))
         else if count = 0
         then let top8 = ucast (drop_bit 8 cntA) :: u8;
                  (ended, c) =
                    (if mode = 2
                     then let b = ramWord (vec + 10) c - 1
                          in (Some (b = 0), setRam (vec + 11) (ucast b)
                                (setRam (vec + 10) (ucast (drop_bit 8 b)) c))
                     else (Some False, c));
                  (src, dst) = dtc_reload modeA sz (ucast top8) src dst
              in (ended, src, dst, setRam (vec + 9) top8 c)
         else (ended, src, dst, setRam (vec + 9) (word_of_int count) c))"

text \<open>Writing the addresses back, and the end of a chain.\<close>

definition dtc_writeBack :: "nat \<Rightarrow> u8 \<Rightarrow> u32 \<Rightarrow> u32 \<Rightarrow> 'd cpu \<Rightarrow> 'd cpu" where
  "dtc_writeBack vec modeA src dst c =
     (let c = (if tst modeA (bitv 7) then setRamAddr24 (vec + 1) src c else c)
      in if tst modeA (bitv 5) then setRamAddr24 (vec + 5) dst c else c)"

definition dtc_finish :: "nat \<Rightarrow> nat \<Rightarrow> source \<Rightarrow> u8 \<Rightarrow> bool \<Rightarrow> 'd cpu \<Rightarrow> 'd cpu" where
  "dtc_finish i j src modeB ended c =
     (if tst modeB (bitv 6) \<or> ended
      then c\<lparr>dtcEnable := (dtcEnable c)(i := dtcEnable c i AND NOT (bitv j))\<rparr>
      else clearRequest src c)"

text \<open>
  One register set, at offset \<open>vec\<close> of the on-chip RAM.  A block transfer with a count of 0
  counts down through the negative numbers, and is \<open>None\<close>.
\<close>

definition dtc_link :: "'d devices \<Rightarrow> nat \<Rightarrow> bool option \<Rightarrow> 'd cpu
    \<Rightarrow> (bool option \<times> u32 \<times> u32 \<times> 'd cpu) option" where
  "dtc_link D vec ended c =
     (let modeA = ram c vec;
          cntA = ramWord (vec + 8) c;
          mode = drop_bit 2 (modeA AND 0xC);
          sz = unat (modeA AND 1) + 1;
          count = (if mode = 0 then uint cntA else uint (cntA AND 0xFF));
          n = (if mode = 2 then nat count else 1)
      in if mode = 2 \<and> count = 0 then None
         else if mode = 2 \<and> 0x2000 \<le> vec + 11 then None
         else do { (src, dst, c) \<leftarrow> dtc_copies D modeA sz n (ramAddr24 (vec + 1) c)
                                    (ramAddr24 (vec + 5) c) c;
                   let (ended, src, dst, c) =
                     dtc_storeCount vec modeA cntA (count - int n) ended src dst c;
                   Some (ended, src, dst, dtc_writeBack vec modeA src dst c) })"

text \<open>
  The chain of register sets.  \<open>vec\<close> grows by 12 each time, and a set that is not inside the
  on-chip RAM is an access out of bounds, so the chain ends.
\<close>

function dtc_chain :: "'d devices \<Rightarrow> nat \<Rightarrow> nat \<Rightarrow> source \<Rightarrow> nat \<Rightarrow> bool option \<Rightarrow> 'd cpu
    \<Rightarrow> (bool \<times> u32 \<times> u32 \<times> 'd cpu) option" where
  "dtc_chain D i j irq vec ended c =
     (if 0x2000 \<le> vec + 9 then None
      else do { let modeB = ram c (vec + 4);
                (ended, src, dst, c) \<leftarrow> dtc_link D vec ended c;
                if tst modeB (bitv 7) then dtc_chain D i j irq (vec + 12) ended c
                else do { e \<leftarrow> ended; Some (e, src, dst, dtc_finish i j irq modeB e c) } })"
  by pat_completeness auto
termination dtc_chain
  by (relation "measure (\<lambda>(D, i, j, irq, vec, ended, c). 0x2000 - vec)") auto

text \<open>The status flags a transfer from or to a serial port or the A/D converter clears.\<close>

definition dtc_clearFlags :: "'d devices \<Rightarrow> u32 \<Rightarrow> u32 \<Rightarrow> 'd cpu \<Rightarrow> 'd cpu option" where
  "dtc_clearFlags D src dst c =
     do { c \<leftarrow> (if dst = 0xFFFF7B then clearSSR D 0 SSR_TDRE c
               else if dst = 0xFFFF83 then clearSSR D 1 SSR_TDRE c
               else if dst = 0xFFFF8B then clearSSR D 2 SSR_TDRE c
               else Some c);
          c \<leftarrow> (if src = 0xFFFF7D then clearSSR D 0 SSR_RDRF c
               else if src = 0xFFFF85 then clearSSR D 1 SSR_RDRF c
               else if src = 0xFFFF8D then clearSSR D 2 SSR_RDRF c
               else Some c);
          Some (if 0xFFFF90 \<le> src \<and> src < 0xFFFF98
                then c\<lparr>a2dControlStatus := a2dControlStatus c AND NOT (bitv 7)\<rparr> else c) }"

definition updateDTC :: "'d devices \<Rightarrow> 'd cpu \<Rightarrow> (bool \<times> 'd cpu) option" where
  "updateDTC D c =
     (if requestedInterrupts c 0 = 0 \<and> requestedInterrupts c 1 = 0 then Some (False, c)
      else case dtc_scanRows (requestedInterrupts c) (dtcEnable c) 0 dtc_sources of
             DTC_Nothing \<Rightarrow> Some (False, c)
           | DTC_Blocked \<Rightarrow> Some (False, c)
           | DTC_Found i j irq \<Rightarrow>
               do { (v, c) \<leftarrow> readWord D (of_nat (0x400 + irq * 2)) c;
                    if v < 0xDC00 then None
                    else do { (ended, src, dst, c) \<leftarrow> dtc_chain D i j irq (unat (v - 0xDC00)) None c;
                              if ended then Some (False, c)
                              else do { c \<leftarrow> dtc_clearFlags D src dst c; Some (True, c) } } })"

section \<open>The A/D converter\<close>

definition updateADC :: "int \<Rightarrow> 'd cpu \<Rightarrow> 'd cpu option" where
  "updateADC cycles c =
     (if \<not> tst (a2dControlStatus c) (bitv 5) then Some c
      else let c = c\<lparr>a2dConvCounter := a2dConvCounter c - cycles\<rparr>
           in if a2dConvCounter c > 0 then Some c
              else if a2dChannel c < 0 \<or> a2dChannel c > 7 then None
              else
                let ch = nat (a2dChannel c);
                    c = c\<lparr>a2dData := (a2dData c)(ch mod 4 := push_bit 6 (a2dValues c ch))\<rparr>;
                    irq = (\<lambda>c. if tst (a2dControlStatus c) (bitv 6) then interrupt IS_ADI c else c);
                    c = (if tst (a2dControlStatus c) (bitv 4)
                         then let c = c\<lparr>a2dChannel := a2dChannel c + 1\<rparr>
                              in if a2dChannel c > a2dEndChannel c
                                 then irq (c\<lparr>a2dChannel := and (a2dEndChannel c) 4,
                                             a2dControlStatus := a2dControlStatus c OR bitv 7\<rparr>)
                                 else c
                         else irq (c\<lparr>a2dControlStatus :=
                                (a2dControlStatus c OR bitv 7) AND NOT (bitv 5)\<rparr>))
                in Some (c\<lparr>a2dConvCounter := a2dConvCounter c + a2dConversionTime c\<rparr>))"

section \<open>The main loop\<close>

text \<open>Before an instruction: the DMA controller, the data transfer controller, an interrupt.\<close>

definition run_dmac :: "'d devices \<Rightarrow> 'd cpu \<Rightarrow> (int \<times> 'd cpu) option" where
  "run_dmac D c =
     (if tst (mstpcr c) MSTPCR_DMAC then Some (0, c)
      else do { (n, c) \<leftarrow> (if tst (bandControl (dmaChannels c 0)) 0x30
                           then DMA_transfer D 0 c else Some (0, c));
                (m, c) \<leftarrow> (if tst (bandControl (dmaChannels c 0)) 0xC0
                           then DMA_transfer D 1 c else Some (0, c));
                Some (n + m, c) })"

definition run_interrupts :: "'d devices \<Rightarrow> 'd cpu \<Rightarrow> 'd cpu option" where
  "run_interrupts D c =
     do { (triggered, c) \<leftarrow> (if tst (mstpcr c) MSTPCR_DTC then Some (False, c) else updateDTC D c);
          if triggered then Some c else serviceInterrupt D c }"

text \<open>
  After it: the peripherals that are not stopped.  \<open>tpuChannels\<close> has six elements, so a start
  bit 6 or 7 is an access out of bounds.
\<close>

fun each_tpu :: "(nat \<Rightarrow> 'd cpu \<Rightarrow> 'd cpu option) \<Rightarrow> nat list \<Rightarrow> u8 \<Rightarrow> 'd cpu \<Rightarrow> 'd cpu option" where
  "each_tpu f [] m c = Some c"
| "each_tpu f (i # is) m c =
     (if bit m i
      then if i < 6 then do { c \<leftarrow> f i c; each_tpu f is m c } else None
      else each_tpu f is m c)"

definition update_tpus :: "'d devices \<Rightarrow> 'd cpu \<Rightarrow> 'd cpu option" where
  "update_tpus D c =
     (if tst (mstpcr c) MSTPCR_TPU then Some c
      else each_tpu (TPU_updateForInterrupts D) [0..<8] (tpuInterruptEnable c AND tpuStart c) c)"

definition update_timers :: "'d cpu \<Rightarrow> 'd cpu" where
  "update_timers c =
     (if tst (mstpcr c) MSTPCR_Timer8b then c
      else Timer_updateForInterrupts 1 (Timer_updateForInterrupts 0 c))"

definition update_serials :: "'d devices \<Rightarrow> 'd cpu \<Rightarrow> 'd cpu option" where
  "update_serials D c =
     do { c \<leftarrow> (if tst (mstpcr c) MSTPCR_SCI0 then Some c else Serial_updateForInterrupts D 0 c);
          c \<leftarrow> (if tst (mstpcr c) MSTPCR_SCI1 then Some c else Serial_updateForInterrupts D 1 c);
          if tst (mstpcr c) MSTPCR_SCI2 then Some c else Serial_updateForInterrupts D 2 c }"

definition update_peripherals :: "'d devices \<Rightarrow> int \<Rightarrow> 'd cpu \<Rightarrow> 'd cpu option" where
  "update_peripherals D executed c =
     do { c \<leftarrow> update_tpus D c;
          c \<leftarrow> update_serials D (update_timers c);
          if tst (mstpcr c) MSTPCR_A2D then Some c else updateADC executed c }"

text \<open>
  One round of the loop: the states it took, or no number when the instruction is not a
  valid one and \<open>executeCycles\<close> returns false.
\<close>

definition cpu_round :: "'d devices \<Rightarrow> 'd cpu \<Rightarrow> (int option \<times> 'd cpu) option" where
  "cpu_round D c =
     do { (n, c) \<leftarrow> run_dmac D c;
          c \<leftarrow> run_interrupts D c;
          (m, c) \<leftarrow> (if sleeping c then Some (1, c) else executeInstruction D c);
          if m = 0 then Some (None, c)
          else do { let executed = n + m;
                    let c = c\<lparr>clock := clock c + word_of_int executed\<rparr>;
                    c \<leftarrow> update_peripherals D executed c;
                    Some (Some executed, c) } }"

text \<open>Every round takes at least one state, so \<open>cycles\<close> rounds are enough (\<open>cpu_loop_enough\<close>).\<close>

fun cpu_loop :: "nat \<Rightarrow> 'd devices \<Rightarrow> int \<Rightarrow> 'd cpu \<Rightarrow> (bool \<times> 'd cpu) option" where
  "cpu_loop fuel D cycles c =
     (if cycles \<le> 0 then Some (True, c)
      else case fuel of
             0 \<Rightarrow> None
           | Suc f \<Rightarrow>
               do { (r, c) \<leftarrow> cpu_round D c;
                    case r of None \<Rightarrow> Some (False, c)
                    | Some n \<Rightarrow> cpu_loop f D (cycles - n) c })"

definition sync_tpus :: "'d devices \<Rightarrow> 'd cpu \<Rightarrow> 'd cpu option" where
  "sync_tpus D c =
     (if tst (mstpcr c) MSTPCR_TPU then Some c
      else each_tpu (TPU_update D) [0..<8] (tpuStart c) c)"

definition executeCycles :: "'d devices \<Rightarrow> int \<Rightarrow> 'd cpu \<Rightarrow> (bool \<times> 'd cpu) option" where
  "executeCycles D cycles c =
     do { (ok, c) \<leftarrow> cpu_loop (nat cycles) D cycles c;
          if ok then do { c \<leftarrow> sync_tpus D c; Some (True, c) } else Some (False, c) }"

end
