(* ===== verification/H8ALUSpec.thy ===== *)
theory H8ALUSpec
  imports H8ALU
begin

text \<open>
  What the arithmetic and logic unit computes.  The values are those of the mathematical
  operation, reduced to the operand size; the flags say what the reduction lost: C and V are
  the unsigned and the signed overflow, and the branch conditions read after a comparison
  are the orders of the words.  Chains of \<open>addx\<close> and \<open>subx\<close> compute on numbers of any length,
  and \<open>daa\<close> turns the sum of packed decimal bytes into the decimal sum.
\<close>

section \<open>Addition, subtraction and comparison\<close>

lemma doSUB_value [simp]: "fst (doSUB a b ccr) = b - a" by (simp add: doSUB_def Let_def)
lemma doADD_value [simp]: "fst (doADD a b ccr) = a + b" by (simp add: doADD_def Let_def)

text \<open>
  C4: \<open>doADD\<close>, the addition of every \<open>add\<close> instruction: the value is the sum modulo the
  operand size, C the unsigned and V the signed overflow, H the carry into the top four bits,
  Z and N the zero and the sign of the result, and the other bits of the register are kept.
\<close>

theorem doADD_correct:
  assumes "opSize LENGTH('a::len)"
  shows "fst (doADD (a :: 'a word) b ccr) = a + b \<and> addFlagsOK a b ccr (snd (doADD a b ccr))"
  using doADD_flags [OF assms] by simp

theorem doADD_correct_witness:
  "fst (doADD (0x7F :: u8) 1 0) = 0x80 \<and> addFlagsOK (0x7F :: u8) 1 0 (snd (doADD (0x7F :: u8) 1 0))"
  using doADD_correct [where 'a = 8, of "0x7F" 1 0] by (simp add: opSize_def)

text \<open>
  C5: \<open>doSUB\<close> and \<open>doCMP\<close>, for \<open>sub\<close> and \<open>cmp\<close>: the value is the difference modulo the operand
  size, C the unsigned borrow, V the signed overflow, H the borrow from the top four bits;
  a comparison leaves the flags of the subtraction.
\<close>

theorem doSUB_correct:
  assumes "opSize LENGTH('a::len)"
  shows "fst (doSUB (a :: 'a word) b ccr) = b - a \<and> subFlagsOK a b ccr (snd (doSUB a b ccr))
       \<and> doCMP a b ccr = snd (doSUB a b ccr)"
  using doSUB_flags [OF assms] by (simp add: doCMP_def)

theorem doSUB_correct_witness:
  "fst (doSUB (1 :: u16) 0x8000 0) = 0x7FFF \<and> subFlagsOK (1 :: u16) 0x8000 0 (snd (doSUB (1 :: u16) 0x8000 0))"
  using doSUB_correct [where 'a = 16, of 1 "0x8000" 0] by (simp add: opSize_def)

lemma signed_lt_flags:
  fixes a b :: "'a::len word"
  assumes "v \<longleftrightarrow> sint (b - a) \<noteq> sint b - sint a"
  shows "((sint (b - a) < 0) \<noteq> v) \<longleftrightarrow> sint b < sint a"
proof -
  let ?n = "LENGTH('a) - 1"
  have ranges: "- (2 ^ ?n) \<le> sint a" "sint a < 2 ^ ?n" "- (2 ^ ?n) \<le> sint b" "sint b < 2 ^ ?n"
    by (rule sint_ge sint_lt)+
  have diff: "sint (b - a) = signed_take_bit ?n (sint b - sint a)"
    by (rule sint_word_diff)
  show ?thesis
  proof (cases v)
    case False
    with assms show ?thesis by auto
  next
    case True
    with assms have ne: "sint (b - a) \<noteq> sint b - sint a" by simp
    consider "sint b - sint a < - (2 ^ ?n)" | "2 ^ ?n \<le> sint b - sint a"
      | "- (2 ^ ?n) \<le> sint b - sint a" "sint b - sint a < 2 ^ ?n" by linarith
    then show ?thesis
    proof cases
      case 1
      then have "sint b - sint a + 2 ^ Suc ?n \<le> sint (b - a)"
        unfolding diff by (rule signed_take_bit_int_greater_eq)
      then have "sint b - sint a + 2 * 2 ^ ?n \<le> sint (b - a)" by (simp only: power_Suc)
      with 1 ranges have "0 \<le> sint (b - a)" "sint b < sint a" by linarith+
      with True show ?thesis by simp
    next
      case 2
      then have "sint (b - a) \<le> sint b - sint a - 2 ^ Suc ?n"
        unfolding diff by (rule signed_take_bit_int_less_eq)
      then have "sint (b - a) \<le> sint b - sint a - 2 * 2 ^ ?n" by (simp only: power_Suc)
      with 2 ranges have "sint (b - a) < 0" "sint a \<le> sint b" by linarith+
      with True show ?thesis by simp
    next
      case 3
      then have "sint (b - a) = sint b - sint a"
        unfolding diff by (simp add: signed_take_bit_int_eq_self_iff)
      with ne show ?thesis by simp
    qed
  qed
qed

lemma doCMP_bits:
  assumes "opSize LENGTH('a::len)"
  shows "tst (doCMP a b ccr) CC_C \<longleftrightarrow> b < (a :: 'a word)"
    and "tst (doCMP a b ccr) CC_Z \<longleftrightarrow> b = a"
    and "((\<not> tst (doCMP a b ccr) CC_N) \<noteq> (\<not> tst (doCMP a b ccr) CC_V)) \<longleftrightarrow> b <s a"
proof -
  note f = doSUB_flags [OF assms, of a b ccr, unfolded subFlagsOK_def]
  show "tst (doCMP a b ccr) CC_C \<longleftrightarrow> b < a" "tst (doCMP a b ccr) CC_Z \<longleftrightarrow> b = a"
    using f unfolding doCMP_def by (blast intro: word_less_nat_alt [THEN iffD2] dest: word_less_nat_alt [THEN iffD1])+
  show "((\<not> tst (doCMP a b ccr) CC_N) \<noteq> (\<not> tst (doCMP a b ccr) CC_V)) \<longleftrightarrow> b <s a"
    using f signed_lt_flags [of "tst (doCMP a b ccr) CC_V" b a] unfolding doCMP_def word_sless_alt by blast
qed

lemma sint_inject: "sint (a :: 'a::len word) = sint b \<longleftrightarrow> a = b"
  by (auto intro: signed_word_eqI [where ?'a = int])

text \<open>
  C6: the branch conditions after a comparison.  \<open>cmp a, b\<close> followed by \<open>bhi\<close>, \<open>bls\<close>, \<open>bcc\<close>,
  \<open>bcs\<close>, \<open>bne\<close>, \<open>beq\<close>, \<open>bge\<close>, \<open>blt\<close>, \<open>bgt\<close> or \<open>ble\<close> branches exactly when the unsigned or the
  signed order of the operands says so, whatever the operand size.
\<close>

theorem compare_branch:
  assumes "opSize LENGTH('a::len)"
  shows "branchCondition 0x2 (doCMP (a :: 'a word) b ccr) = Some (a < b) \<and>
    branchCondition 0x3 (doCMP a b ccr) = Some (b \<le> a) \<and>
    branchCondition 0x4 (doCMP a b ccr) = Some (a \<le> b) \<and>
    branchCondition 0x5 (doCMP a b ccr) = Some (b < a) \<and>
    branchCondition 0x6 (doCMP a b ccr) = Some (b \<noteq> a) \<and>
    branchCondition 0x7 (doCMP a b ccr) = Some (b = a) \<and>
    branchCondition 0xC (doCMP a b ccr) = Some (a \<le>s b) \<and>
    branchCondition 0xD (doCMP a b ccr) = Some (b <s a) \<and>
    branchCondition 0xE (doCMP a b ccr) = Some (a <s b) \<and>
    branchCondition 0xF (doCMP a b ccr) = Some (b \<le>s a)"
  using doCMP_bits [OF assms, of a b ccr] sint_inject [of a b] sint_inject [of b a]
  by (auto simp: branchCondition_def Let_def not_less word_sless_alt word_sle_eq
      simp del: tst_1 tst_2 tst_4 tst_8)

theorem compare_branch_witness:
  "branchCondition 0xD (doCMP (1 :: u8) 0xFF 0) = Some True"
  using compare_branch [where 'a = 8, of 1 "0xFF" 0] by (simp add: opSize_def word_sless_alt)

section \<open>Numbers of several bytes\<close>

definition carry :: "u8 \<Rightarrow> int" where
  "carry cc = (if tst cc CC_C then 1 else 0)"

lemma carry_range: "0 \<le> carry cc" "carry cc \<le> 1" by (simp_all add: carry_def)

lemma u8_range: "0 \<le> uint (x :: u8)" "uint (x :: u8) < 256"
  using unsigned_less [of x, where ?'a = int] by simp_all

lemma mod_wrap:
  "256 \<le> s \<Longrightarrow> s < 512 \<Longrightarrow> (s :: int) mod 256 = s - 256"
  "- 256 \<le> s \<Longrightarrow> s < 0 \<Longrightarrow> (s :: int) mod 256 = s + 256"
  by presburger+

lemma uint_u8_of_int: "uint (word_of_int k :: u8) = k mod 256"
  by (simp add: uint_word_of_int)

lemma doADDX_value:
  "uint (fst (doADDX a b cc)) + 256 * carry (snd (doADDX a b cc)) = uint a + uint b + carry cc"
proof -
  define s where "s = uint a + uint b + carry cc"
  define r where "r = fst (doADDX a b cc)"
  have "r = word_of_int s"
    by (simp add: r_def s_def doADDX_def Let_def carry_def)
  then have r: "uint r = s mod 256" by (simp only: uint_u8_of_int)
  have cf: "carry (snd (doADDX a b cc)) = (if uint r < uint b + carry cc then 1 else 0)"
    by (simp add: r_def doADDX_def Let_def carry_def flag_simps)
  have range: "0 \<le> s" "s < 512" unfolding s_def
    using carry_range [of cc] u8_range [of a] u8_range [of b] by linarith+
  show ?thesis
  proof (cases "s < 256")
    case True
    with range r have v: "uint r = s" by simp
    then have "\<not> uint r < uint b + carry cc" using u8_range [of a] by (simp add: s_def)
    with cf v show ?thesis by (simp add: r_def s_def)
  next
    case False
    with range r have v: "uint r = s - 256" by (simp add: mod_wrap)
    then have "uint r < uint b + carry cc" using u8_range [of a] by (simp add: s_def)
    with cf v show ?thesis by (simp add: r_def s_def)
  qed
qed

lemma doSUBX_value:
  "uint (fst (doSUBX a b cc)) - 256 * carry (snd (doSUBX a b cc)) = uint b - uint a - carry cc"
proof -
  define s where "s = uint b - uint a - carry cc"
  define r where "r = fst (doSUBX a b cc)"
  have "r = word_of_int s"
    by (simp add: r_def s_def doSUBX_def Let_def carry_def)
  then have r: "uint r = s mod 256" by (simp only: uint_u8_of_int)
  have cf: "carry (snd (doSUBX a b cc)) = (if uint b - carry cc < uint r then 1 else 0)"
    by (simp add: r_def doSUBX_def Let_def carry_def flag_simps)
  have range: "- 256 \<le> s" "s < 256" unfolding s_def
    using carry_range [of cc] u8_range [of a] u8_range [of b] by linarith+
  show ?thesis
  proof (cases "0 \<le> s")
    case True
    with range r have v: "uint r = s" by simp
    then have "\<not> uint b - carry cc < uint r" using u8_range [of a] by (simp add: s_def)
    with cf v show ?thesis by (simp add: r_def s_def)
  next
    case False
    with range r have v: "uint r = s + 256" by (simp add: mod_wrap)
    then have "uint b - carry cc < uint r" using u8_range [of a] by (simp add: s_def)
    with cf v show ?thesis by (simp add: r_def s_def)
  qed
qed

text \<open>
  An instruction applied to two operands of several bytes, from the least significant byte,
  as the loop of \<open>addx\<close> or \<open>subx\<close> instructions of a program does.
\<close>

fun chain :: "(u8 \<Rightarrow> u8 \<Rightarrow> u8 \<Rightarrow> u8 \<times> u8) \<Rightarrow> u8 list \<Rightarrow> u8 list \<Rightarrow> u8 \<Rightarrow> u8 list \<times> u8" where
  "chain f (a # as) (b # bs) cc =
     (let (r, cc) = f a b cc; (rs, cc) = chain f as bs cc in (r # rs, cc))"
| "chain f _ _ cc = ([], cc)"

fun le_value :: "u8 list \<Rightarrow> int" where
  "le_value [] = 0"
| "le_value (x # xs) = uint x + 256 * le_value xs"

text \<open>
  C7: a sequence of \<open>addx\<close> instructions adds numbers of any length: the result bytes with the
  final carry are the sum of the two numbers and the initial carry.
\<close>

theorem addx_chain:
  "length xs = length ys \<Longrightarrow>
   le_value (fst (chain doADDX xs ys cc)) + 256 ^ length xs * carry (snd (chain doADDX xs ys cc))
     = le_value xs + le_value ys + carry cc"
proof (induction doADDX xs ys cc rule: chain.induct)
  case (1 a as b bs cc)
  obtain r cc' where s: "doADDX a b cc = (r, cc')" by force
  obtain rs cc'' where t: "chain doADDX as bs cc' = (rs, cc'')" by force
  from 1 s t have "le_value rs + 256 ^ length as * carry cc'' = le_value as + le_value bs + carry cc'"
    by simp
  with doADDX_value [of a b cc] s t show ?case by (simp add: algebra_simps)
qed auto

theorem addx_chain_witness:
  "le_value (fst (chain doADDX [0xFF, 0x01] [0x01, 0x02] 0))
     + 65536 * carry (snd (chain doADDX [0xFF, 0x01] [0x01, 0x02] 0)) = 0x400"
  using addx_chain [of "[0xFF, 0x01]" "[0x01, 0x02]" 0] by (simp add: carry_def del: chain.simps)

text \<open>
  a sequence of \<open>subx\<close> instructions subtracts numbers of any length: the result bytes less
  the final borrow are the difference of the two numbers and the initial borrow.
\<close>

theorem subx_chain:
  "length xs = length ys \<Longrightarrow>
   le_value (fst (chain doSUBX xs ys cc)) - 256 ^ length xs * carry (snd (chain doSUBX xs ys cc))
     = le_value ys - le_value xs - carry cc"
proof (induction doSUBX xs ys cc rule: chain.induct)
  case (1 a as b bs cc)
  obtain r cc' where s: "doSUBX a b cc = (r, cc')" by force
  obtain rs cc'' where t: "chain doSUBX as bs cc' = (rs, cc'')" by force
  from 1 s t have "le_value rs - 256 ^ length as * carry cc'' = le_value bs - le_value as - carry cc'"
    by simp
  with doSUBX_value [of a b cc] s t show ?case by (simp add: algebra_simps)
qed auto

theorem subx_chain_witness:
  "le_value (fst (chain doSUBX [0x01, 0x00] [0x00, 0x02] 0))
     - 65536 * carry (snd (chain doSUBX [0x01, 0x00] [0x00, 0x02] 0)) = 0x1FF"
  using subx_chain [of "[0x01, 0x00]" "[0x00, 0x02]" 0] by (simp add: carry_def del: chain.simps)

section \<open>Decimal addition\<close>

definition bcd_ok :: "u8 \<Rightarrow> bool" where
  "bcd_ok x \<longleftrightarrow> x div 16 < 10 \<and> x mod 16 < 10"

definition bcd_val :: "u8 \<Rightarrow> int" where
  "bcd_val x = 10 * (uint x div 16) + uint x mod 16"

lemma u8_add_num:
  "uint ((x :: u8) + 0x60) = (uint x + 0x60) mod 256" "uint (x + 6) = (uint x + 6) mod 256"
  "uint (x + 102) = (uint x + 102) mod 256"
  by (simp_all add: uint_word_ariths)

lemma doDAA_int:
  "uint (fst (doDAA v cc)) =
     (let x = uint v;
          y = (if tst cc CC_C \<or> x > 0x99 then (x + 0x60) mod 256 else x)
      in if tst cc CC_H \<or> y mod 16 > 9 then (y + 6) mod 256 else y)"
  "tst (snd (doDAA v cc)) CC_C = (tst cc CC_C \<or> uint v > 0x99)"
proof -
  have a: "uint (x AND 0xF :: u8) = uint x mod 16" for x :: u8
    using take_bit_eq_mask [of 4 "uint x"] by (simp add: uint_and mask_numeral take_bit_eq_mod)
  have l: "(9 < (x AND 0xF :: u8)) = (9 < uint x mod 16)" for x :: u8
    by (simp add: word_less_def a)
  have m: "(0x99 < v) = (0x99 < uint v)" by (simp add: word_less_def)
  have x: "uint (102 + v) = ((uint v + 96) mod 256 + 6) mod 256"
    using u8_add_num(3) [of v] by (simp add: mod_simps add.commute)
  show "uint (fst (doDAA v cc)) =
     (let x = uint v;
          y = (if tst cc CC_C \<or> x > 0x99 then (x + 0x60) mod 256 else x)
      in if tst cc CC_H \<or> y mod 16 > 9 then (y + 6) mod 256 else y)"
    by (simp add: doDAA_def Let_def l m x u8_add_num flag_simps bit_or_iff)
  show "tst (snd (doDAA v cc)) CC_C = (tst cc CC_C \<or> uint v > 0x99)"
    by (simp add: doDAA_def Let_def l m x u8_add_num flag_simps bit_or_iff)
qed

lemma digits_of_sum:
  fixes h l :: int
  assumes r: "0 \<le> h" "h \<le> 18" "0 \<le> l" "l \<le> 19"
    and k: "k = (if 10 \<le> l then 1 else 0)" and m: "m = (if 10 \<le> h + k then 1 else 0)"
  defines "z \<equiv> (16 * h + l + 96 * m + 6 * k) mod 256"
  shows "z div 16 = h + k - 10 * m" "z mod 16 = l - 10 * k"
proof -
  have km: "k = 0 \<and> l < 10 \<or> k = 1 \<and> 10 \<le> l" "m = 0 \<and> h + k < 10 \<or> m = 1 \<and> 10 \<le> h + k"
    using k m by simp_all
  define d where "d = 16 * (h + k - 10 * m) + (l - 10 * k)"
  have "16 * h + l + 96 * m + 6 * k = d + m * 256" by (simp add: d_def)
  then have "z = d mod 256" unfolding z_def by (simp only: mod_mult_self1)
  moreover have lo: "0 \<le> l - 10 * k" "l - 10 * k < 10" using km(1) r by linarith+
  moreover have hi: "0 \<le> h + k - 10 * m" "h + k - 10 * m < 10" using km r by linarith+
  ultimately have "z = d" by (simp add: d_def)
  then have eq: "z = 16 * (h + k - 10 * m) + (l - 10 * k)" by (simp only: d_def)
  have "l - 10 * k < 16" using lo by linarith
  with lo(1) show "z div 16 = h + k - 10 * m" "z mod 16 = l - 10 * k"
    by (rule int_div_pos_eq [OF eq], rule int_mod_pos_eq [OF eq])
qed

lemma adjust_conditions:
  fixes h l :: int
  assumes r: "0 \<le> h" "h \<le> 18" "0 \<le> l" "l \<le> 19"
    and k: "k = (if 10 \<le> l then 1 else 0)"
  shows "256 \<le> 16 * h + l \<or> 0x99 < (16 * h + l) mod 256 \<longleftrightarrow> 10 \<le> h + k"
    and "16 \<le> l \<or> 9 < l mod 16 \<longleftrightarrow> 10 \<le> l"
proof -
  have km: "k = 0 \<and> l < 10 \<or> k = 1 \<and> 10 \<le> l" using k by simp
  show "256 \<le> 16 * h + l \<or> 0x99 < (16 * h + l) mod 256 \<longleftrightarrow> 10 \<le> h + k"
  proof (cases "16 * h + l < 256")
    case True
    then have "(16 * h + l) mod 256 = 16 * h + l" using r by simp
    then show ?thesis using True km r by auto
  next
    case False
    then have "9 \<le> h" using r by linarith
    with False km show ?thesis by auto
  qed
  show "16 \<le> l \<or> 9 < l mod 16 \<longleftrightarrow> 10 \<le> l"
    using r by (cases "l < 16") auto
qed

definition daa_int :: "bool \<Rightarrow> bool \<Rightarrow> int \<Rightarrow> int" where
  "daa_int C H x =
     (let y = (if C \<or> x > 0x99 then (x + 0x60) mod 256 else x)
      in if H \<or> y mod 16 > 9 then (y + 6) mod 256 else y)"

lemma daa_int_eq:
  fixes h l :: int
  assumes r: "0 \<le> h" "h \<le> 18" "0 \<le> l" "l \<le> 19"
    and k: "k = (if 10 \<le> l then 1 else 0)" and m: "m = (if 10 \<le> h + k then 1 else 0)"
  shows "daa_int (256 \<le> 16 * h + l) (16 \<le> l) ((16 * h + l) mod 256)
     = (16 * h + l + 96 * m + 6 * k) mod 256"
proof -
  define y where "y = (16 * h + l + 96 * m) mod 256"
  have y: "(if 256 \<le> 16 * h + l \<or> (16 * h + l) mod 256 > 0x99
             then ((16 * h + l) mod 256 + 0x60) mod 256 else (16 * h + l) mod 256) = y"
    unfolding adjust_conditions(1) [OF r k] y_def m by (simp add: mod_simps)
  have "y mod 16 = (l + 16 * (h + 6 * m)) mod 16"
    unfolding y_def by (subst mod_mod_cancel) (simp_all add: algebra_simps)
  then have "y mod 16 = l mod 16" by (simp only: mod_mult_self2)
  then have c: "16 \<le> l \<or> y mod 16 > 9 \<longleftrightarrow> 10 \<le> l" using adjust_conditions(2) [OF r k] by simp
  show ?thesis
    unfolding daa_int_def y Let_def c by (auto simp: y_def k mod_simps)
qed

definition bcd_added :: "u8 \<Rightarrow> u8 \<Rightarrow> int \<Rightarrow> u8 \<times> u8 \<Rightarrow> bool" where
  "bcd_added a b c p \<longleftrightarrow>
     bcd_ok (fst p) \<and> bcd_val (fst p) + 100 * carry (snd p) = bcd_val a + bcd_val b + c"

lemma bcd_nibbles:
  "bcd_ok x \<Longrightarrow> 0 \<le> uint x div 16 \<and> uint x div 16 < 10 \<and> 0 \<le> uint x mod 16 \<and> uint x mod 16 < 10"
  by (simp add: bcd_ok_def word_less_def uint_div uint_mod pos_imp_zdiv_nonneg_iff)

lemma daa_adjusts:
  assumes ok: "bcd_ok a" "bcd_ok b" and c: "0 \<le> c" "c \<le> 1"
    and v: "uint v = (uint a + uint b + c) mod 256"
    and C: "tst cc CC_C \<longleftrightarrow> 256 \<le> uint a + uint b + c"
    and H: "tst cc CC_H \<longleftrightarrow> 16 \<le> uint a mod 16 + uint b mod 16 + c"
  shows "bcd_added a b c (doDAA v cc)"
proof -
  define h where "h = uint a div 16 + uint b div 16"
  define l where "l = uint a mod 16 + uint b mod 16 + c"
  define k where "k = (if 10 \<le> l then 1 else 0 :: int)"
  define m where "m = (if 10 \<le> h + k then 1 else 0 :: int)"
  have r: "0 \<le> h" "h \<le> 18" "0 \<le> l" "l \<le> 19"
    using bcd_nibbles [OF ok(1)] bcd_nibbles [OF ok(2)] c by (simp_all add: h_def l_def)
  have s: "uint a + uint b + c = 16 * h + l"
    by (simp add: h_def l_def distrib_left)
  note conds = adjust_conditions [OF r k_def]
  have z: "uint (fst (doDAA v cc)) = (16 * h + l + 96 * m + 6 * k) mod 256"
    using daa_int_eq [OF r k_def m_def] unfolding doDAA_int daa_int_def v C H s Let_def l_def [symmetric] .
  have cy: "carry (snd (doDAA v cc)) = m"
    unfolding carry_def doDAA_int C v s using conds(1) by (simp add: m_def)
  have "bcd_val (fst (doDAA v cc)) + 100 * m = bcd_val a + bcd_val b + c"
    unfolding bcd_val_def z digits_of_sum [OF r k_def m_def] by (simp add: h_def l_def)
  moreover have "bcd_ok (fst (doDAA v cc))"
  proof -
    have "h + k - 10 * m < 10" "l - 10 * k < 10" using r by (auto simp: k_def m_def)
    then show ?thesis
      by (simp add: bcd_ok_def word_less_def uint_div uint_mod z digits_of_sum [OF r k_def m_def])
  qed
  ultimately show ?thesis by (simp add: bcd_added_def cy)
qed

lemma uint_low4: "uint (x AND 0xF :: u8) = uint x mod 16"
  using take_bit_eq_mask [of 4 "uint x"] by (simp add: uint_and mask_numeral take_bit_eq_mod)

lemma doADDX_half:
  "tst (snd (doADDX a b cc)) CC_H \<longleftrightarrow> 16 \<le> uint a mod 16 + uint b mod 16 + carry cc"
proof -
  define s where "s = uint a mod 16 + uint b mod 16 + carry cc"
  have m: "hMask = (0xF :: u8)" by (simp add: hMask_def)
  have "uint (fst (doADDX a b cc)) = (uint a + uint b + carry cc) mod 256"
    by (simp add: doADDX_def Let_def carry_def flip: uint_u8_of_int)
  then have "uint (fst (doADDX a b cc)) mod 16 = (uint a + uint b + carry cc) mod 16"
    by (simp add: mod_mod_cancel)
  also have "uint a + uint b + carry cc = s + 16 * (uint a div 16 + uint b div 16)"
    by (simp add: s_def distrib_left)
  also have "\<dots> mod 16 = s mod 16" by (simp only: mod_mult_self2)
  finally have r: "uint (fst (doADDX a b cc)) mod 16 = s mod 16" .
  have f: "tst (snd (doADDX a b cc)) CC_H \<longleftrightarrow> s mod 16 < uint b mod 16 + carry cc"
    unfolding r [symmetric]
    by (simp add: doADDX_def Let_def flag_simps m uint_low4 carry_def)
  have range: "0 \<le> s" "s < 32" "uint a mod 16 < 16" "0 \<le> uint a mod 16" using carry_range [of cc]
    unfolding s_def by (simp_all add: add_strict_mono add_less_le_mono)
  show ?thesis
  proof (cases "s < 16")
    case True
    with f range show ?thesis by (simp add: s_def)
  next
    case False
    with range(1,2) have "s mod 16 = s - 16" by presburger
    with False f range show ?thesis by (simp add: s_def)
  qed
qed

text \<open>
  C8: \<open>daa\<close> after \<open>add\<close> or \<open>addx\<close> of two packed decimal bytes gives the packed decimal sum,
  with C the decimal carry.
\<close>

theorem daa_decimal_sum:
  assumes "bcd_ok a" "bcd_ok b"
  shows "bcd_added a b 0 (case doADD a b cc of (v, cc) \<Rightarrow> doDAA v cc) \<and>
    bcd_added a b (carry cc) (case doADDX a b cc of (v, cc) \<Rightarrow> doDAA v cc)"
proof
  have os: "opSize LENGTH(8)" by (simp add: opSize_def)
  note f = doADD_flags [where 'a = 8, OF os, of a b cc, unfolded addFlagsOK_def]
  have C: "tst (snd (doADD a b cc)) CC_C \<longleftrightarrow> 256 \<le> uint a + uint b + 0"
  proof -
    have "256 \<le> uint a + uint b + 0 \<longleftrightarrow> 256 \<le> int (unat a + unat b)" by simp
    also have "\<dots> \<longleftrightarrow> 2 ^ LENGTH(8) \<le> unat a + unat b" by (simp del: of_nat_add)
    finally show ?thesis using f by blast
  qed
  have H: "tst (snd (doADD a b cc)) CC_H \<longleftrightarrow> 16 \<le> uint a mod 16 + uint b mod 16 + 0"
  proof -
    have "16 \<le> uint a mod 16 + uint b mod 16 + 0 \<longleftrightarrow> 16 \<le> int (unat a mod 16 + unat b mod 16)"
      by (simp add: of_nat_mod)
    also have "\<dots> \<longleftrightarrow> 2 ^ (LENGTH(8) - 4) \<le> unat a mod 2 ^ (LENGTH(8) - 4) + unat b mod 2 ^ (LENGTH(8) - 4)"
      by (simp del: of_nat_add)
    finally show ?thesis using f by blast
  qed
  have v: "uint (fst (doADD a b cc)) = (uint a + uint b + 0) mod 256"
    by (simp add: uint_word_ariths)
  have "bcd_added a b 0 (doDAA (fst (doADD a b cc)) (snd (doADD a b cc)))"
    by (rule daa_adjusts [OF assms _ _ v C H]) simp_all
  then show "bcd_added a b 0 (case doADD a b cc of (v, cc) \<Rightarrow> doDAA v cc)"
    by (simp add: case_prod_beta)
next
  have v: "uint (fst (doADDX a b cc)) = (uint a + uint b + carry cc) mod 256"
    by (simp add: doADDX_def Let_def carry_def flip: uint_u8_of_int)
  have C: "tst (snd (doADDX a b cc)) CC_C \<longleftrightarrow> 256 \<le> uint a + uint b + carry cc"
  proof -
    have "carry (snd (doADDX a b cc)) = 1 \<longleftrightarrow> 256 \<le> uint a + uint b + carry cc"
      using doADDX_value [of a b cc] u8_range [of "fst (doADDX a b cc)"]
        carry_range [of "snd (doADDX a b cc)"] by linarith
    then show ?thesis unfolding carry_def [of "snd (doADDX a b cc)"] by (cases "tst (snd (doADDX a b cc)) CC_C") simp_all
  qed
  have "bcd_added a b (carry cc) (doDAA (fst (doADDX a b cc)) (snd (doADDX a b cc)))"
    using v C doADDX_half carry_range by (intro daa_adjusts [OF assms]) auto
  then show "bcd_added a b (carry cc) (case doADDX a b cc of (v, cc) \<Rightarrow> doDAA v cc)"
    by (simp add: case_prod_beta)
qed

theorem daa_decimal_sum_witness:
  "bcd_added 0x58 0x67 0 (case doADD 0x58 0x67 0 of (v, cc) \<Rightarrow> doDAA v cc)"
  using daa_decimal_sum [of "0x58" "0x67" 0] by (simp add: bcd_ok_def)

section \<open>Increment, decrement and negation\<close>

lemma word_of_int_sint_iff:
  fixes r :: "'a::len word"
  assumes "LENGTH('a) = Suc n" "- (2 ^ n) \<le> k" "k < 2 ^ n"
  shows "r = word_of_int k \<longleftrightarrow> sint r = k"
proof -
  have "sint (word_of_int k :: 'a word) = k"
    using assms by (simp add: sint_sbintrunc' signed_take_bit_int_eq_self_iff)
  then show ?thesis using word_eq_iff_signed [of r "word_of_int k", where ?'a = int] by auto
qed

lemma signed_take_bit_neq_iff:
  "signed_take_bit n (k :: int) \<noteq> k \<longleftrightarrow> \<not> (- (2 ^ n) \<le> k \<and> k < 2 ^ n)"
  by (simp add: signed_take_bit_int_eq_self_iff)

lemma opSize_pow:
  assumes "opSize LENGTH('a::len)"
  obtains n where "LENGTH('a) = Suc n" "(128::int) \<le> 2 ^ n"
  using assms that [of 7] that [of 15] that [of 31] by (auto simp: opSize_def)

lemma sint_range:
  fixes r :: "'a::len word"
  assumes "LENGTH('a) = Suc n"
  shows "- (2 ^ n) \<le> sint r" "sint r < 2 ^ n"
  using sint_ge [of r] sint_lt [of r] assms by simp_all

lemma sint_of_nat12:
  assumes "LENGTH('a::len) = Suc m" "(128::int) \<le> 2 ^ m" "n = 1 \<or> n = 2"
  shows "sint (of_nat n :: 'a word) = int n"
proof -
  have "(of_nat n :: 'a word) = word_of_int (int n)" by simp
  then show ?thesis
    using assms(2,3) word_of_int_sint_iff [OF assms(1), of "int n" "of_nat n"] by fastforce
qed

lemma doINC_correct:
  assumes "opSize LENGTH('a::len)" "n = 1 \<or> n = 2"
  shows "fst (doINC n (r :: 'a word) cc) = r + of_nat n \<and>
     (tst (snd (doINC n r cc)) CC_V \<longleftrightarrow> sint (r + of_nat n) \<noteq> sint r + int n)"
proof -
  obtain m where L: "LENGTH('a) = Suc m" and pow: "(128::int) \<le> 2 ^ m"
    using opSize_pow [OF assms(1)] by blast
  have top: "r = 2 ^ m - 1 \<longleftrightarrow> sint r = 2 ^ m - 1" "r = 2 ^ m - 2 \<longleftrightarrow> sint r = 2 ^ m - 2"
    using word_of_int_sint_iff [OF L, of "2 ^ m - 1" r] word_of_int_sint_iff [OF L, of "2 ^ m - 2" r] pow
    by simp_all
  have "tst (snd (doINC n r cc)) CC_V \<longleftrightarrow> sint r = 2 ^ m - 1 \<or> n = 2 \<and> sint r = 2 ^ m - 2"
    by (simp add: doINC_def Let_def flag_simps L flip: top)
  moreover have "sint (r + of_nat n) \<noteq> sint r + int n \<longleftrightarrow> 2 ^ m \<le> sint r + int n"
    using sint_range [OF L, of r]
    by (auto simp: sint_word_add sint_of_nat12 [OF L pow assms(2)] L signed_take_bit_neq_iff not_le)
  ultimately show ?thesis
    using sint_range [OF L, of r] assms(2) by (auto simp: doINC_def Let_def)
qed

lemma minus_top:
  assumes "LENGTH('a) = Suc m"
  shows "- (2 ^ m) = (2 ^ m :: 'a::len word)"
proof -
  have "(2 ^ m :: 'a word) + 2 ^ m = 2 ^ LENGTH('a)" unfolding assms by simp
  also have "\<dots> = 0" by (rule word_exp_length_eq_0)
  finally show ?thesis by (rule minus_unique)
qed

lemma doDEC_correct:
  assumes "opSize LENGTH('a::len)" "n = 1 \<or> n = 2"
  shows "fst (doDEC n (r :: 'a word) cc) = r - of_nat n \<and>
     (tst (snd (doDEC n r cc)) CC_V \<longleftrightarrow> sint (r - of_nat n) \<noteq> sint r - int n)"
proof -
  obtain m where L: "LENGTH('a) = Suc m" and pow: "(128::int) \<le> 2 ^ m"
    using opSize_pow [OF assms(1)] by blast
  have one_minus: "1 - 2 ^ m = (2 ^ m + 1 :: 'a word)"
    using minus_top [OF L] by (metis diff_conv_add_uminus add.commute)
  have top: "r = 2 ^ m \<longleftrightarrow> sint r = - (2 ^ m)" "r = 2 ^ m + 1 \<longleftrightarrow> sint r = - (2 ^ m) + 1"
    using word_of_int_sint_iff [OF L, of "- (2 ^ m)" r] word_of_int_sint_iff [OF L, of "- (2 ^ m) + 1" r] pow
    by (simp_all add: minus_top [OF L] one_minus)
  have "tst (snd (doDEC n r cc)) CC_V \<longleftrightarrow> sint r = - (2 ^ m) \<or> n = 2 \<and> sint r = - (2 ^ m) + 1"
    using top by (simp add: doDEC_def Let_def flag_simps L)
  moreover have "sint (r - of_nat n) \<noteq> sint r - int n \<longleftrightarrow> sint r - int n < - (2 ^ m)"
    using sint_range [OF L, of r]
    by (auto simp: sint_word_diff sint_of_nat12 [OF L pow assms(2)] L signed_take_bit_neq_iff not_le)
  ultimately show ?thesis
    using sint_range [OF L, of r] assms(2) by (auto simp: doDEC_def Let_def)
qed

text \<open>
  \<open>inc\<close> and \<open>dec\<close> by 1 or 2 wrap at the operand size, and V is the signed overflow.
\<close>

theorem inc_dec_correct:
  assumes "opSize LENGTH('a::len)" "n = 1 \<or> n = 2"
  shows "fst (doINC n (r :: 'a word) cc) = r + of_nat n \<and>
     (tst (snd (doINC n r cc)) CC_V \<longleftrightarrow> sint (r + of_nat n) \<noteq> sint r + int n) \<and>
     fst (doDEC n r cc) = r - of_nat n \<and>
     (tst (snd (doDEC n r cc)) CC_V \<longleftrightarrow> sint (r - of_nat n) \<noteq> sint r - int n)"
  using doINC_correct [OF assms] doDEC_correct [OF assms] by blast

theorem inc_dec_correct_witness:
  "tst (snd (doINC 2 (0x7FFF :: u16) 0)) CC_V"
  using inc_dec_correct [where 'a = 16, of 2 "0x7FFF" 0] by (simp add: opSize_def)

lemma neg_overflow:
  assumes L: "LENGTH('a) = Suc m"
  shows "- (v :: 'a::len word) = 2 ^ m \<longleftrightarrow> bit v m \<and> bit (- v) m"
proof
  assume "- v = 2 ^ m"
  moreover from this have "v = 2 ^ m"
    using minus_top [OF L] by (metis minus_equation_iff)
  moreover have "bit (2 ^ m :: 'a word) m" by (simp add: bit_exp_iff L)
  ultimately show "bit v m \<and> bit (- v) m" by metis
next
  assume "bit v m \<and> bit (- v) m"
  then have neg: "sint v < 0" "sint (- v) < 0"
    using sign_bit_iff [of v] sign_bit_iff [of "- v"] by (simp_all add: L)
  show "- v = 2 ^ m"
  proof (cases "sint v = - (2 ^ m)")
    case True
    then have "v = word_of_int (- (2 ^ m))" by (subst word_of_int_sint_iff [OF L]) auto
    then show ?thesis by simp
  next
    case False
    with sint_range [OF L, of v] neg(1) have "sint (- v) = - sint v"
      by (simp add: sint_word_minus L signed_take_bit_int_eq_self_iff)
    with neg show ?thesis by simp
  qed
qed

text \<open>
  \<open>neg\<close> is the subtraction from zero, in its value and in all its flags: V is set exactly
  for the least number, C exactly for a number other than zero.
\<close>

theorem doNEG_sub: "doNEG (v :: 'a::len word) cc = doSUB v 0 cc"
proof -
  obtain m where L: "LENGTH('a) = Suc m" by (metis len_gt_0 gr0_conv_Suc)
  show ?thesis
    by (simp add: doNEG_def doSUB_def Let_def L signBit_def neg_overflow [OF L], rule u8_eqI)
      (simp_all add: flag_simps L)
qed

section \<open>Shifts and rotates\<close>

lemmas shift_bits = bit_or_iff bit_and_iff bit_xor_iff bit_push_bit_iff bit_drop_bit_eq possible_bit_word o_def

lemma bit_high: "LENGTH('a) \<le> n \<Longrightarrow> \<not> bit (x :: 'a::len word) n"
  using bit_imp_le_length by fastforce

lemma fst_rot:
  "fst (doROTL s (r :: 'a::len word) cc) = push_bit s r OR drop_bit (LENGTH('a) - s) r"
  "fst (doROTR s r cc) = drop_bit s r OR push_bit (LENGTH('a) - s) r"
  by (simp_all add: doROTL_def doROTR_def Let_def del: push_bit_of_1)

lemma rot_carry:
  assumes "s = 1 \<or> s = 2"
  shows "tst (snd (doROTL s (r :: 'a::len word) cc)) CC_C = bit r (LENGTH('a) - s)"
  "tst (snd (doROTR s r cc)) CC_C = bit r (s - 1)"
  "tst (snd (doROTXL s r cc)) CC_C = bit r (LENGTH('a) - s)"
  "tst (snd (doROTXR s r cc)) CC_C = bit r (s - 1)"
  using assms
  by (auto simp: doROTL_def doROTR_def doROTXL_def doROTXR_def Let_def flag_simps)

text \<open>
  \<open>g\<close> is \<open>f\<close>, a sequence of \<open>n\<close> bits, rotated left by \<open>s\<close> places; \<open>withCarry\<close> is the sequence
  of the bits of the operand with C on top of them.
\<close>

definition rotatedLeft :: "nat \<Rightarrow> nat \<Rightarrow> (nat \<Rightarrow> bool) \<Rightarrow> (nat \<Rightarrow> bool) \<Rightarrow> bool" where
  "rotatedLeft n s f g \<longleftrightarrow> (\<forall>k \<in> {..<n}. g k = (if k < s then f (k + n - s) else f (k - s)))"

definition withCarry :: "'a::len word \<times> u8 \<Rightarrow> nat \<Rightarrow> bool" where
  "withCarry p k = (if k = LENGTH('a) then tst (snd p) CC_C else bit (fst p) k)"

lemma doROTL_rotates:
  assumes "s \<le> LENGTH('a::len)"
  shows "rotatedLeft LENGTH('a) s (bit (r :: 'a word)) (bit (fst (doROTL s r cc)))"
  unfolding rotatedLeft_def fst_rot
proof
  fix k assume "k \<in> {..<LENGTH('a)}"
  then show "bit (push_bit s r OR drop_bit (LENGTH('a) - s) r) k =
      (if k < s then bit r (k + LENGTH('a) - s) else bit r (k - s))"
    using assms by (auto simp: shift_bits bit_high add.commute)
qed

lemma doROTR_rotates:
  assumes "s \<le> LENGTH('a::len)"
  shows "rotatedLeft LENGTH('a) s (bit (fst (doROTR s r cc))) (bit (r :: 'a word))"
  unfolding rotatedLeft_def fst_rot
proof
  fix k assume "k \<in> {..<LENGTH('a)}"
  then show "bit r k = (if k < s then bit (drop_bit s r OR push_bit (LENGTH('a) - s) r) (k + LENGTH('a) - s) 
      else bit (drop_bit s r OR push_bit (LENGTH('a) - s) r) (k - s))"
    using assms by (auto simp: shift_bits bit_high)
qed

lemma fst_rotx:
  "fst (doROTXL 1 (r :: 'a::len word) cc) = push_bit 1 r OR (if tst cc CC_C then 1 else 0)"
  "fst (doROTXL 2 r cc) = (push_bit 2 r OR drop_bit (LENGTH('a) - 1) r) OR (if tst cc CC_C then 2 else 0)"
  "fst (doROTXR 1 r cc) = drop_bit 1 r OR (if tst cc CC_C then bitv (LENGTH('a) - 1) else 0)"
  "fst (doROTXR 2 r cc) = (drop_bit 2 r OR push_bit (LENGTH('a) - 1) r) OR (if tst cc CC_C then bitv (LENGTH('a) - 2) else 0)"
  by (simp_all add: doROTXL_def doROTXR_def Let_def del: push_bit_of_1)

lemma bit_low:
  "bit (2 :: 'a::len word) k \<longleftrightarrow> k = 1 \<and> 1 < LENGTH('a)"
  "bit (1 :: 'a word) k \<longleftrightarrow> k = 0"
  using bit_exp_iff [of 1 k, where 'a = "'a word"] by (auto simp: bit_1_iff)

lemma bit_double: "bit (r * 2 :: 'a::len word) k \<longleftrightarrow> 0 < k \<and> k < LENGTH('a) \<and> bit r (k - 1)"
proof -
  have "r * 2 = push_bit 1 r" by (simp add: push_bit_eq_mult)
  then show ?thesis by (simp only: shift_bits) auto
qed

lemma doROTXL_rotates:
  assumes "2 < LENGTH('a::len)" "s = 1 \<or> s = 2"
  shows "rotatedLeft (Suc LENGTH('a)) s (withCarry (r :: 'a word, cc)) (withCarry (doROTXL s r cc))"
  unfolding rotatedLeft_def
proof
  fix k assume "k \<in> {..<Suc LENGTH('a)}"
  then have k: "k \<le> LENGTH('a)" by simp
  have "bit (fst (doROTXL s r cc)) k = (if k < s then withCarry (r, cc) (k + Suc LENGTH('a) - s) else bit r (k - s))"
    if "k < LENGTH('a)"
    using assms(2)
  proof
    assume s: "s = 1"
    then show ?thesis using that unfolding s fst_rotx by (auto simp: shift_bits bit_low bit_double withCarry_def)
  next
    assume s: "s = 2"
    have "bit (if tst cc CC_C then 2 else 0 :: 'a word) k \<longleftrightarrow> tst cc CC_C \<and> k = 1"
    proof (cases "tst cc CC_C")
      case True
      with assms(1) show ?thesis by (simp only: if_True bit_low) auto
    qed simp
    moreover have "bit (drop_bit (LENGTH('a) - 1) r) k \<longleftrightarrow> k = 0 \<and> bit r (LENGTH('a) - 1)"
      by (cases "k = 0") (auto simp: bit_drop_bit_eq bit_high)
    moreover have "k < 2 \<longleftrightarrow> k = 0 \<or> k = 1" by auto
    ultimately show ?thesis using that assms(1) unfolding s fst_rotx
      by (auto simp: bit_or_iff bit_push_bit_iff withCarry_def)
  qed
  then show "withCarry (doROTXL s r cc) k =
      (if k < s then withCarry (r, cc) (k + Suc LENGTH('a) - s) else withCarry (r, cc) (k - s))"
    using k assms rot_carry(3) [OF assms(2), of r cc] by (auto simp: withCarry_def)
qed

lemma doROTXR_rotates:
  assumes "2 < LENGTH('a::len)" "s = 1 \<or> s = 2"
  shows "rotatedLeft (Suc LENGTH('a)) s (withCarry (doROTXR s r cc)) (withCarry (r :: 'a word, cc))"
  unfolding rotatedLeft_def
proof
  fix k assume "k \<in> {..<Suc LENGTH('a)}"
  then have k: "k \<le> LENGTH('a)" by simp
  have low: "bit (fst (doROTXR s r cc)) (k - s) = withCarry (r, cc) k" if "s \<le> k"
    using assms(2)
  proof
    assume s: "s = 1"
    then show ?thesis using that k unfolding s fst_rotx by (auto simp: shift_bits bit_exp_iff withCarry_def bit_high push_bit_of_1)
  next
    assume s: "s = 2"
    obtain j where "k = 2 + j" using \<open>s \<le> k\<close> s le_Suc_ex by blast
    then show ?thesis using that k assms(1) unfolding s fst_rotx
      by (auto simp: shift_bits bit_exp_iff withCarry_def bit_high push_bit_of_1)
  qed
  have high: "withCarry (doROTXR s r cc) (k + Suc LENGTH('a) - s) = bit r k" if "k < s"
    using assms(2)
  proof
    assume s: "s = 1"
    then show ?thesis using that rot_carry(4) [OF assms(2), of r cc] by (simp add: s withCarry_def)
  next
    assume s: "s = 2"
    then show ?thesis using that assms(1) rot_carry(4) [OF assms(2), of r cc]
      by (cases "k = 0") (auto simp: s fst_rotx shift_bits bit_exp_iff withCarry_def bit_high push_bit_of_1 less_2_cases_iff)
  qed
  show "withCarry (r, cc) k = (if k < s then withCarry (doROTXR s r cc) (k + Suc LENGTH('a) - s) 
     else withCarry (doROTXR s r cc) (k - s))"
    using k assms low high by (auto simp: withCarry_def)
qed

text \<open>
  C9: \<open>rotl\<close> and \<open>rotr\<close> by one or two places rotate the operand, and C is the bit that moved
  last over its end; \<open>rotxl\<close> and \<open>rotxr\<close> rotate the operand together with C.
\<close>

theorem rotates_correct:
  assumes "2 < LENGTH('a::len)" "s = 1 \<or> s = 2"
  shows "rotatedLeft LENGTH('a) s (bit (r :: 'a word)) (bit (fst (doROTL s r cc))) \<and>
    (tst (snd (doROTL s r cc)) CC_C \<longleftrightarrow> bit r (LENGTH('a) - s)) \<and>
    rotatedLeft LENGTH('a) s (bit (fst (doROTR s r cc))) (bit r) \<and>
    (tst (snd (doROTR s r cc)) CC_C \<longleftrightarrow> bit r (s - 1)) \<and>
    rotatedLeft (Suc LENGTH('a)) s (withCarry (r, cc)) (withCarry (doROTXL s r cc)) \<and>
    rotatedLeft (Suc LENGTH('a)) s (withCarry (doROTXR s r cc)) (withCarry (r, cc))"
proof -
  have "s \<le> LENGTH('a)" using assms by auto
  then show ?thesis
    using doROTL_rotates doROTR_rotates rot_carry(1,2) [OF assms(2)]
      doROTXL_rotates [OF assms] doROTXR_rotates [OF assms] by blast
qed

theorem rotates_correct_witness:
  "rotatedLeft 8 2 (bit (0x81 :: u8)) (bit (fst (doROTL 2 (0x81 :: u8) 0)))"
  using rotates_correct [where 'a = 8, of 2 "0x81" 0] by simp

lemma sint_push_iff:
  fixes r :: "'a::len word"
  assumes L: "LENGTH('a) = Suc (m + s)"
  shows "sint (push_bit s r) = sint r * 2 ^ s \<longleftrightarrow> (\<forall>k \<in> {m..m + s}. bit r k = bit r (m + s))"
proof -
  have p: "sint r * 2 ^ s = push_bit s (sint r)" by (simp add: push_bit_eq_mult)
  have "sint (push_bit s r) = sint r * 2 ^ s \<longleftrightarrow>
      (\<forall>k. bit (sint (push_bit s r)) k = bit (push_bit s (sint r)) k)"
    unfolding p by (simp add: bit_eq_iff)
  moreover have "bit (sint (push_bit s r)) k = bit (push_bit s (sint r)) k \<longleftrightarrow>
      (m + s < k \<longrightarrow> bit r m = bit r (min (k - s) (m + s)))" for k
  proof (cases "m + s < k")
    case True
    then have "bit (sint (push_bit s r)) k = bit r m"
      using L by (simp add: bit_sint_iff bit_push_bit_iff)
    moreover have "bit (push_bit s (sint r)) k = bit r (min (k - s) (m + s))"
      using True L by (auto simp: bit_sint_iff bit_push_bit_iff min_def not_le dest: bit_imp_le_length)
    ultimately show ?thesis using True by simp
  next
    case False
    then show ?thesis using L by (auto simp: bit_sint_iff bit_push_bit_iff)
  qed
  ultimately have "sint (push_bit s r) = sint r * 2 ^ s \<longleftrightarrow>
      (\<forall>k. m + s < k \<longrightarrow> bit r m = bit r (min (k - s) (m + s)))"
    by simp
  also have "\<dots> \<longleftrightarrow> (\<forall>k \<in> {m..m + s}. bit r k = bit r (m + s))"
  proof
    assume all: "\<forall>k. m + s < k \<longrightarrow> bit r m = bit r (min (k - s) (m + s))"
    have "bit r k = bit r m" if "k \<in> {m..m + s}" for k
      using all [rule_format, of "k + s"] that by (cases "k = m") auto
    from this [of "m + s"] this show "\<forall>k \<in> {m..m + s}. bit r k = bit r (m + s)"
      by (metis atLeastAtMost_iff le_add1 order_refl)
  next
    assume all: "\<forall>k \<in> {m..m + s}. bit r k = bit r (m + s)"
    have "bit r m = bit r (min (k - s) (m + s))" if "m + s < k" for k
    proof -
      have "m \<in> {m..m + s}" "min (k - s) (m + s) \<in> {m..m + s}" using that by auto
      with all show ?thesis by blast
    qed
    then show "\<forall>k. m + s < k \<longrightarrow> bit r m = bit r (min (k - s) (m + s))" by blast
  qed
  finally show ?thesis .
qed

lemma tst_double_exp: "tst (x :: 'a::len word) (2 * 2 ^ m) \<longleftrightarrow> bit x (Suc m)"
  using tst_exp [of x "Suc m"] by simp

text \<open>
  C10: \<open>shal\<close> by one or two places multiplies by 2 or 4: V is set exactly when the signed product
  does not fit, C is the bit shifted out last, Z and N describe the result.
\<close>

theorem doSHAL_correct:
  assumes "2 < LENGTH('a::len)" "s = 1 \<or> s = 2"
  shows "fst (doSHAL s (r :: 'a word) cc) = r * 2 ^ s \<and>
    (tst (snd (doSHAL s r cc)) CC_V \<longleftrightarrow> sint (r * 2 ^ s) \<noteq> sint r * 2 ^ s) \<and>
    (tst (snd (doSHAL s r cc)) CC_C \<longleftrightarrow> bit r (LENGTH('a) - s)) \<and>
    (tst (snd (doSHAL s r cc)) CC_Z \<longleftrightarrow> r * 2 ^ s = 0) \<and>
    (tst (snd (doSHAL s r cc)) CC_N \<longleftrightarrow> sint (r * 2 ^ s) < 0)"
proof -
  obtain m where L: "LENGTH('a) = Suc (m + s)"
  proof -
    from assms have "s < LENGTH('a)" by auto
    then obtain m where "LENGTH('a) = Suc (s + m)" using less_imp_Suc_add by blast
    with that [of m] show thesis by (simp add: add.commute)
  qed
  have p: "r * 2 ^ s = push_bit s r" by (simp add: push_bit_eq_mult)
  have ivl: "{m..m + 1} = {m, m + 1}" "{m..m + 2} = {m, m + 1, m + 2}" by auto
  have v: "fst (doSHAL s r cc) = push_bit s r" by (simp add: doSHAL_def Let_def)
  have f: "tst (snd (doSHAL s r cc)) CC_C \<longleftrightarrow> bit r (LENGTH('a) - s)"
    "tst (snd (doSHAL s r cc)) CC_Z \<longleftrightarrow> push_bit s r = 0"
    "tst (snd (doSHAL s r cc)) CC_N \<longleftrightarrow> bit (push_bit s r) (LENGTH('a) - 1)"
    by (auto simp: doSHAL_def Let_def flag_simps)
  have V: "tst (snd (doSHAL s r cc)) CC_V \<longleftrightarrow> \<not> (\<forall>k \<in> {m..m + s}. bit r k = bit r (m + s))"
    using assms(2)
  proof
    assume s: "s = 1"
    show ?thesis unfolding s ivl using L s assms(1)
      by (simp add: doSHAL_def Let_def flag_simps bit_xor_iff bit_double) blast
  next
    assume s: "s = 2"
    show ?thesis unfolding s ivl using L s assms(1)
      by (simp add: doSHAL_def Let_def flag_simps bit_push_bit_iff tst_double_exp del: push_bit_numeral) blast
  qed
  show ?thesis
    unfolding p sint_push_iff [OF L] v f V sign_bit_iff [symmetric] by simp
qed

theorem doSHAL_correct_witness:
  "tst (snd (doSHAL 2 (0x30 :: u8) 0)) CC_V"
  using doSHAL_correct [where 'a = 8, of 2 "0x30" 0] by simp

end
