(* ===== verification/H8RegFile.thy ===== *)
theory H8RegFile
  imports H8Regs
begin

text \<open>
  The general registers as three overlapping register files.  Each view, of bytes, words and
  longs, meets the contract \<open>register_view\<close>; the theorems after it say how the views alias.
\<close>

section \<open>The contract of a register view\<close>

text \<open>
  A numbered set of registers of one size: reading after writing, the frame of a write, and
  the application of an operation of the arithmetic unit to a register.
\<close>

locale register_view =
  fixes get :: "nat \<Rightarrow> 'd cpu \<Rightarrow> 'a::len word option"
    and put :: "nat \<Rightarrow> 'a word \<Rightarrow> 'd cpu \<Rightarrow> 'd cpu option"
    and un :: "('a word \<Rightarrow> u8 \<Rightarrow> 'a word \<times> u8) \<Rightarrow> nat \<Rightarrow> 'd cpu \<Rightarrow> 'd cpu option"
    and count :: nat
  assumes get_defined: "r < count \<Longrightarrow> \<exists>v. get r c = Some v"
    and put_defined: "r < count \<Longrightarrow> \<exists>c'. put r v c = Some c'"
    and get_put: "r < count \<Longrightarrow> s < count \<Longrightarrow> put r v c = Some c' \<Longrightarrow>
        get s c' = (if s = r then Some v else get s c)"
    and put_frame: "put r v c = Some c' \<Longrightarrow> c'\<lparr>er := er c\<rparr> = c"
    and get_er: "get r (c\<lparr>ccr := x\<rparr>) = get r c"
    and un_eq: "un f r c = do { v \<leftarrow> get r c; let (v, cc) = f v (ccr c); put r v (c\<lparr>ccr := cc\<rparr>) }"
begin

lemma un_correct:
  assumes "r < count"
  shows "\<exists>v c'. get r c = Some v \<and> un f r c = Some c' \<and> get r c' = Some (fst (f v (ccr c))) \<and>
     ccr c' = snd (f v (ccr c)) \<and> pc c' = pc c \<and> ram c' = ram c \<and>
     (\<forall>s. s < count \<longrightarrow> s \<noteq> r \<longrightarrow> get s c' = get s c)"
proof -
  obtain v where v: "get r c = Some v" using get_defined [OF assms] by blast
  obtain w cc where f: "f v (ccr c) = (w, cc)" by force
  obtain c' where c': "put r w (c\<lparr>ccr := cc\<rparr>) = Some c'" using put_defined [OF assms] by blast
  have "c'\<lparr>er := er c\<rparr> = c\<lparr>ccr := cc\<rparr>" using put_frame [OF c'] by simp
  then have "ccr c' = cc" "pc c' = pc c" "ram c' = ram c"
    by (cases c'; cases c; simp)+
  moreover have "un f r c = Some c'" using v f c' by (simp add: un_eq)
  ultimately show ?thesis
    using v f get_put [OF assms _ c'] get_er assms by (intro exI [of _ v] exI [of _ c']) simp
qed

end

section \<open>The byte, word and long registers\<close>

lemma reg_number: "r < 16 \<Longrightarrow> r div 8 = (if r < 8 then 0 else 1 :: nat)"
  by auto

lemma byteOffset_parts:
  assumes "r < 16"
  shows "byteOffset r < 32" "byteOffset r div 4 = r mod 8"
    "byteOffset r mod 4 = (if r < 8 then 1 else 0)"
proof -
  have "byteOffset r = 4 * (r mod 8) + (if r < 8 then 1 else 0)"
    unfolding byteOffset_def reg_number [OF assms] by simp
  moreover have "r mod 8 < 8" by simp
  ultimately show "byteOffset r < 32" "byteOffset r div 4 = r mod 8"
    "byteOffset r mod 4 = (if r < 8 then 1 else 0)" by (auto split: if_splits)
qed

lemma wordOffset_parts:
  assumes "r < 16"
  shows "wordOffset r < 16" "wordOffset r div 2 = r mod 8"
    "wordOffset r mod 2 = (if r < 8 then 0 else 1)"
proof -
  have "wordOffset r = 2 * (r mod 8) + (if r < 8 then 0 else 1)"
    unfolding wordOffset_def reg_number [OF assms] by simp
  moreover have "r mod 8 < 8" by simp
  ultimately show "wordOffset r < 16" "wordOffset r div 2 = r mod 8"
    "wordOffset r mod 2 = (if r < 8 then 0 else 1)" by (auto split: if_splits)
qed

text \<open>Replacing \<open>k\<close> bits at offset \<open>o\<close> of a register.\<close>

definition field_set :: "nat \<Rightarrow> 'a::len word \<Rightarrow> u32 \<Rightarrow> u32" where
  "field_set k v x = (x AND NOT (push_bit k (mask LENGTH('a)))) OR push_bit k (ucast v)"

lemma bit_field_set:
  fixes v :: "'a::len word"
  shows "bit (field_set k v x) n \<longleftrightarrow>
    (if k \<le> n \<and> n < k + LENGTH('a) then n < 32 \<and> bit v (n - k) else bit x n)"
  by (auto simp: field_set_def bit_simps dest: bit_imp_le_length)

lemma field_get_set:
  fixes v :: "'a::len word"
  assumes "k + LENGTH('a) \<le> 32"
  shows "(ucast (drop_bit k (field_set k v x)) :: 'a word) = v"
  by (rule bit_word_eqI) (use assms in \<open>simp add: bit_unsigned_iff bit_drop_bit_eq bit_field_set\<close>)

lemma field_get_other:
  fixes v :: "'a::len word"
  assumes "j + LENGTH('b) \<le> k \<or> k + LENGTH('a) \<le> j"
  shows "(ucast (drop_bit j (field_set k v x)) :: 'b::len word) = ucast (drop_bit j x)"
  by (rule bit_word_eqI) (use assms in \<open>auto simp: bit_unsigned_iff bit_drop_bit_eq bit_field_set\<close>)

lemma field_get_part:
  fixes v :: "'a::len word"
  assumes "j + LENGTH('b) \<le> LENGTH('a)" "LENGTH('a) \<le> 32"
  shows "(ucast (drop_bit j (field_set 0 v x)) :: 'b::len word) = ucast (drop_bit j v)"
  by (rule bit_word_eqI) (use assms in \<open>auto simp: bit_unsigned_iff bit_drop_bit_eq bit_field_set\<close>)

lemma field_get_0:
  fixes v :: "'a::len word"
  shows "LENGTH('a) \<le> 32 \<Longrightarrow> (ucast (field_set 0 v x) :: 'a word) = v"
    "LENGTH('b) \<le> k \<Longrightarrow> (ucast (field_set k v x) :: 'b::len word) = ucast x"
    "LENGTH('b) \<le> LENGTH('a) \<Longrightarrow> LENGTH('a) \<le> 32 \<Longrightarrow> (ucast (field_set 0 v x) :: 'b word) = ucast v"
  using field_get_set [of 0 v x] field_get_other [where 'b = 'b, of 0 k v x]
    field_get_part [where 'b = 'b, of 0 v x] by simp_all

lemma regB_field: "r < 16 \<Longrightarrow> regB r c = Some (ucast (drop_bit (if r < 8 then 8 else 0) (er c (r mod 8))))"
  by (simp add: regB_def byteOffset_parts)

lemma setB_field: "r < 16 \<Longrightarrow> setB r v c =
   Some (er_upd (r mod 8) (field_set (if r < 8 then 8 else 0) v (er c (r mod 8))) c)"
  by (simp add: setB_def byteOffset_parts field_set_def mask_numeral Let_def)

lemma regW_field: "r < 16 \<Longrightarrow> regW r c = Some (ucast (drop_bit (if r < 8 then 0 else 16) (er c (r mod 8))))"
  by (simp add: regW_def wordOffset_parts)

lemma setW_field: "r < 16 \<Longrightarrow> setW r v c =
   Some (er_upd (r mod 8) (field_set (if r < 8 then 0 else 16) v (er c (r mod 8))) c)"
  by (simp add: setW_def wordOffset_parts field_set_def mask_numeral Let_def)

lemma mod8_cases:
  assumes "r < 16" "s < 16" "r mod 8 = s mod 8" "(r < 8) = (s < 8)"
  shows "r = (s :: nat)"
  using assms div_mult_mod_eq [of r 8] div_mult_mod_eq [of s 8] reg_number [of r] reg_number [of s] by simp

lemma er_upd_frame: "(er_upd i x c)\<lparr>er := er c\<rparr> = c"
  by (simp add: er_upd_def)

lemma setB_frame: "setB r v c = Some c' \<Longrightarrow> c'\<lparr>er := er c\<rparr> = c"
  by (auto simp: setB_def Let_def er_upd_frame split: if_splits)

lemma setW_frame: "setW r v c = Some c' \<Longrightarrow> c'\<lparr>er := er c\<rparr> = c"
  by (auto simp: setW_def Let_def er_upd_frame split: if_splits)

lemma setL_frame: "setL r v c = Some c' \<Longrightarrow> c'\<lparr>er := er c\<rparr> = c"
  by (auto simp: setL_def er_upd_frame split: if_splits)

lemma get_ccr: "regB r (c\<lparr>ccr := x\<rparr>) = regB r c" "regW r (c\<lparr>ccr := x\<rparr>) = regW r c"
  by (simp_all add: regB_def regW_def Let_def)

interpretation bytes: register_view regB setB unB 16
proof
  fix r s :: nat and v and c c' :: "'d cpu"
  assume r: "r < 16" "s < 16" and p: "setB r v c = Some c'"
  show "regB s c' = (if s = r then Some v else regB s c)"
    using p r mod8_cases [OF r]
    by (auto simp: setB_field regB_field er_upd_def field_get_set field_get_other field_get_0)
qed (auto simp: regB_field setB_field setB_frame unB_def get_ccr)

interpretation wds: register_view regW setW unW 16
proof
  fix r s :: nat and v and c c' :: "'d cpu"
  assume r: "r < 16" "s < 16" and p: "setW r v c = Some c'"
  show "regW s c' = (if s = r then Some v else regW s c)"
    using p r mod8_cases [OF r]
    by (auto simp: setW_field regW_field er_upd_def field_get_set field_get_other field_get_0)
qed (auto simp: regW_field setW_field setW_frame unW_def get_ccr)

interpretation longs: register_view regL setL unL 8
  by unfold_locales (auto simp: regL_def setL_def setL_frame unL_def er_upd_def)

section \<open>Aliasing of the views\<close>

lemma low_word_bytes:
  "(ucast x :: u16) = push_bit 8 (ucast (ucast (drop_bit 8 x) :: u8)) OR ucast (ucast (x :: u32) :: u8)"
  by (rule bit_word_eqI) (auto simp: bit_simps)

text \<open>
  the views of a general register.  A long register is its extended half over its low
  word, and the low word is its high byte over its low byte; \<open>r\<close> and \<open>r + 8\<close> are the numbers
  the instructions use for the two halves.
\<close>

theorem register_views:
  assumes "r < 8"
  shows "regL r c = Some (er c r) \<and>
    (\<exists>e w h l. regW (r + 8) c = Some e \<and> regW r c = Some w \<and> regB r c = Some h \<and> regB (r + 8) c = Some l \<and>
       er c r = push_bit 16 (ucast e) OR ucast w \<and> w = push_bit 8 (ucast h) OR ucast l)"
proof -
  have "er c r = push_bit 16 (ucast (ucast (drop_bit 16 (er c r)) :: u16)) OR ucast (ucast (er c r) :: u16)"
    by (rule bit_word_eqI) (auto simp: bit_simps)
  moreover note low_word_bytes [of "er c r"]
  ultimately show ?thesis
    using assms by (simp add: regL_def regW_field regB_field)
qed

theorem register_views_witness: "regB 9 (bare_cpu\<lparr>er := (\<lambda>_. 0x12345678)\<rparr>) = Some 0x78"
  using register_views [of 1 "bare_cpu\<lparr>er := (\<lambda>_. 0x12345678)\<rparr>"]
  by (auto simp: regB_field)

text \<open>
  Writing a byte register changes that byte only: it is read back, the other fifteen
  byte registers, the extended halves and everything else of the CPU keep their values.
\<close>

theorem setB_correct:
  assumes "r < 16"
  shows "\<exists>c'. setB r v c = Some c' \<and> regB r c' = Some v \<and>
    (\<forall>s \<in> {..<16}. s \<noteq> r \<longrightarrow> regB s c' = regB s c) \<and>
    (\<forall>s \<in> {8..<16}. regW s c' = regW s c) \<and> c'\<lparr>er := er c\<rparr> = c"
proof -
  obtain c' where p: "setB r v c = Some c'" using bytes.put_defined [OF assms] by blast
  have "regW s c' = regW s c" if "s \<in> {8..<16}" for s
    using that p assms by (auto simp: regW_field setB_field er_upd_def field_get_other field_get_0)
  with p show ?thesis
    using bytes.get_put [OF assms _ p] assms setB_frame [OF p] by auto
qed

theorem setB_correct_witness:
  "\<exists>c'. setB 3 0xAB bare_cpu = Some c' \<and> regB 3 c' = Some 0xAB"
  using setB_correct [of 3 "0xAB" bare_cpu] by auto

text \<open>
  Writing a word register changes that word only: it is read back and the other fifteen
  words keep their values.  A low word is written through to its two byte registers, an
  extended half leaves all byte registers alone.
\<close>

theorem setW_correct:
  assumes "r < 16"
  shows "\<exists>c'. setW r v c = Some c' \<and> regW r c' = Some v \<and>
    (\<forall>s \<in> {..<16}. s \<noteq> r \<longrightarrow> regW s c' = regW s c) \<and>
    (if r < 8 then regB r c' = Some (ucast (drop_bit 8 v)) \<and> regB (r + 8) c' = Some (ucast v)
     else (\<forall>s \<in> {..<16}. regB s c' = regB s c)) \<and> c'\<lparr>er := er c\<rparr> = c"
proof -
  obtain c' where p: "setW r v c = Some c'" using wds.put_defined [OF assms] by blast
  have "if r < 8 then regB r c' = Some (ucast (drop_bit 8 v)) \<and> regB (r + 8) c' = Some (ucast v)
     else (\<forall>s \<in> {..<16}. regB s c' = regB s c)"
    using p assms
    by (auto simp: regB_field setW_field er_upd_def field_get_other field_get_0 field_get_part)
  with p show ?thesis
    using wds.get_put [OF assms _ p] assms setW_frame [OF p] by auto
qed

theorem setW_correct_witness:
  "\<exists>c'. setW 2 0xAB bare_cpu = Some c' \<and> regB 2 c' = Some 0 \<and> regB 10 c' = Some 0xAB"
  using setW_correct [of 2 "0xAB" bare_cpu] by simp blast

section \<open>Operations on registers\<close>

text \<open>\<open>x'\<close> is \<open>x\<close> with the field at bit \<open>off\<close>, which was \<open>v\<close>, replaced by \<open>w\<close>.\<close>

definition field_changed :: "nat \<Rightarrow> 'a::len word \<Rightarrow> 'a word \<Rightarrow> u32 \<Rightarrow> u32 \<Rightarrow> bool" where
  "field_changed off v w x x' \<longleftrightarrow>
     (\<forall>n < 32. if off \<le> n \<and> n < off + LENGTH('a) then bit x n = bit v (n - off) \<and> bit x' n = bit w (n - off)
              else bit x' n = bit x n)"

lemma field_set_changed: "v = ucast (drop_bit off x) \<Longrightarrow> field_changed off v w x (field_set off w x)"
  by (auto simp: field_changed_def bit_field_set bit_unsigned_iff bit_drop_bit_eq)

lemma unB_field:
  assumes "r < 16" "off = (if r < 8 then 8 else 0)" "v = ucast (drop_bit off (er c (r mod 8)))"
  shows "unB f r c = Some (c\<lparr>ccr := snd (f v (ccr c)), er := (er c)(r mod 8 := field_set off (fst (f v (ccr c))) (er c (r mod 8)))\<rparr>)"
proof -
  have "regB r c = Some v" using assms(2,3) by (simp add: regB_field [OF assms(1)])
  then show ?thesis
    unfolding unB_def assms(2) by (cases "f v (ccr c)") (simp add: setB_field [OF assms(1)] er_upd_def)
qed

lemma unW_field:
  assumes "r < 16" "off = (if r < 8 then 0 else 16)" "v = ucast (drop_bit off (er c (r mod 8)))"
  shows "unW f r c = Some (c\<lparr>ccr := snd (f v (ccr c)), er := (er c)(r mod 8 := field_set off (fst (f v (ccr c))) (er c (r mod 8)))\<rparr>)"
proof -
  have "regW r c = Some v" using assms(2,3) by (simp add: regW_field [OF assms(1)])
  then show ?thesis
    unfolding unW_def assms(2) by (cases "f v (ccr c)") (simp add: setW_field [OF assms(1)] er_upd_def)
qed

text \<open>
  C11: the arithmetic instructions on a register.  Applying an operation of the arithmetic unit
  to a byte, word or long register always succeeds.  The operand is the field of the 32-bit register that
  the number of the register stands for (a high byte is bits 8 to 15, a low byte bits 0 to 7, an extended
  word bits 16 to 31); the value of the operation replaces this field, its flags
  replace the condition code register, and every other bit of the register, every other register and
  the rest of the state of the CPU are as before.
\<close>

theorem register_operation:
  "(\<forall>r \<in> {..<16}. \<exists>v x. regB r c = Some v \<and> field_changed (if r < 8 then 8 else 0) v (fst (f v (ccr c))) (er c (r mod 8)) x \<and>
      unB f r c = Some (c\<lparr>ccr := snd (f v (ccr c)), er := (er c)(r mod 8 := x)\<rparr>)) \<and>
   (\<forall>r \<in> {..<16}. \<exists>v x. regW r c = Some v \<and> field_changed (if r < 8 then 0 else 16) v (fst (g v (ccr c))) (er c (r mod 8)) x \<and>
      unW g r c = Some (c\<lparr>ccr := snd (g v (ccr c)), er := (er c)(r mod 8 := x)\<rparr>)) \<and>
   (\<forall>r \<in> {..<8}. regL r c = Some (er c r) \<and>
      unL h r c = Some (c\<lparr>ccr := snd (h (er c r) (ccr c)), er := (er c)(r := fst (h (er c r) (ccr c)))\<rparr>))"
proof (intro conjI ballI)
  fix r :: nat assume "r \<in> {..<16}"
  then have r: "r < 16" by simp
  show "\<exists>v x. regB r c = Some v \<and> field_changed (if r < 8 then 8 else 0) v (fst (f v (ccr c))) (er c (r mod 8)) x \<and>
      unB f r c = Some (c\<lparr>ccr := snd (f v (ccr c)), er := (er c)(r mod 8 := x)\<rparr>)"
    using regB_field [OF r, of c] unB_field [OF r refl refl] field_set_changed [OF refl] by blast
  show "\<exists>v x. regW r c = Some v \<and> field_changed (if r < 8 then 0 else 16) v (fst (g v (ccr c))) (er c (r mod 8)) x \<and>
      unW g r c = Some (c\<lparr>ccr := snd (g v (ccr c)), er := (er c)(r mod 8 := x)\<rparr>)"
    using regW_field [OF r, of c] unW_field [OF r refl refl] field_set_changed [OF refl] by blast
next
  fix r :: nat assume "r \<in> {..<8}"
  then show "regL r c = Some (er c r)"
    "unL h r c = Some (c\<lparr>ccr := snd (h (er c r) (ccr c)), er := (er c)(r := fst (h (er c r) (ccr c)))\<rparr>)"
    by (cases "h (er c r) (ccr c)"; simp add: unL_def regL_def setL_def er_upd_def)+
qed

theorem register_operation_witness:
  "\<exists>x. unB (doADD 1) 9 bare_cpu = Some (bare_cpu\<lparr>ccr := snd (doADD 1 (0 :: u8) 0), er := (er bare_cpu)(1 := x)\<rparr>) \<and>
    field_changed 0 0 (fst (doADD 1 (0 :: u8) 0)) 0 x"
proof -
  have b: "er bare_cpu = (\<lambda>_. 0)" "ccr bare_cpu = 0" by (simp_all add: bare_cpu_def init_cpu_def)
  have "regB 9 bare_cpu = Some 0" by (simp add: regB_field b)
  then show ?thesis
    using register_operation [of bare_cpu "doADD 1" "doADD 1" "doADD 1", THEN conjunct1, THEN bspec, of 9] by (auto simp: b)
qed
end
