(* ===== verification/H8Memory.thy ===== *)
theory H8Memory
  imports H8RegFile H8System
begin

text \<open>
  Memory as a program sees it: the contract of a memory on the bus, its proof for the on-chip
  RAM, and what rests on it, the round trips of calls and of interrupts through the stack.
\<close>

section \<open>Bytes of words\<close>

lemma word_of_bytes:
  "push_bit 8 (ucast (ucast (drop_bit 8 v) :: u8)) OR ucast (ucast (v AND 0xFF) :: u8) = (v :: u16)"
proof -
  have m: "(0xFF :: u16) = mask 8" by (simp add: mask_numeral)
  show ?thesis unfolding m by (rule bit_word_eqI) (auto simp: bit_simps)
qed

lemma byte_position:
  fixes n :: nat
  assumes "n < 32"
  obtains "n < 8" | k where "n = 8 + k" "k < 8" | k where "n = 16 + k" "k < 8"
    | k where "n = 24 + k" "k < 8"
proof -
  consider "n < 8" | "8 \<le> n \<and> n < 16" | "16 \<le> n \<and> n < 24" | "24 \<le> n" by linarith
  then show thesis
  proof cases
    case 1 then show thesis by (rule that(1))
  next
    case 2 then show thesis using that(2) [of "n - 8"] by auto
  next
    case 3 then show thesis using that(3) [of "n - 16"] by auto
  next
    case 4 then show thesis using that(4) [of "n - 24"] assms by auto
  qed
qed

lemma long_of_bytes:
  "push_bit 24 (ucast (ucast (drop_bit 24 v) :: u8)) OR push_bit 16 (ucast (ucast (drop_bit 16 v AND 0xFF) :: u8))
     OR push_bit 8 (ucast (ucast (drop_bit 8 v AND 0xFF) :: u8)) OR ucast (ucast (v AND 0xFF) :: u8) = (v :: u32)"
    (is "?l = v")
proof -
  have m: "(0xFF :: u32) = mask 8" by (simp add: mask_numeral)
  show ?thesis
  proof (rule bit_word_eqI)
    fix n assume "n < LENGTH(32)"
    then have "n < 32" by simp
    then show "bit ?l n = bit v n"
      unfolding m by (cases rule: byte_position) (simp_all add: bit_simps)
  qed
qed

section \<open>The contract of a memory\<close>

text \<open>
  A memory on the bus: in a state that is \<open>ready\<close>, the addresses of a region name cells;
  reading a byte returns the cell and changes nothing, writing a byte changes the cell.  What
  follows holds for every memory that meets the contract: longs are read back as written, and
  a long pushed on a stack inside the memory is on its top.
\<close>

lemma low24_distinct:
  assumes "d \<in> {1, 2, 3 :: u32}"
  shows "(a + d) AND 0xFFFFFF \<noteq> (a :: u32) AND 0xFFFFFF"
proof
  assume "(a + d) AND 0xFFFFFF = a AND 0xFFFFFF"
  then have "((a + d) AND 0xFFFFFF) AND 3 = (a AND 0xFFFFFF) AND 3" by simp
  then have eq: "(a + d) AND 3 = a AND 3" by (simp add: and.assoc)
  have low: "uint (x AND 3 :: u32) = uint x mod 4" for x :: u32
    using take_bit_eq_mask [of 2 "uint x"] by (simp add: uint_and mask_numeral take_bit_eq_mod)
  have "uint (a + d) mod 4 = (uint a + uint d) mod 4"
    by (simp add: uint_word_ariths mod_mod_cancel)
  with eq low [of "a + d"] low [of a] have "(uint a + uint d) mod 4 = uint a mod 4" by simp
  moreover have "uint d = 1 \<or> uint d = 2 \<or> uint d = 3" using assms by auto
  ultimately show False by presburger
qed

locale byte_memory =
  fixes D :: "'d devices"
    and ready :: "'d cpu \<Rightarrow> bool"
    and region :: "u32 \<Rightarrow> bool"
    and slot :: "u32 \<Rightarrow> nat"
    and cell :: "'d cpu \<Rightarrow> nat \<Rightarrow> u8"
  assumes rd: "ready c \<Longrightarrow> region a \<Longrightarrow> readByte D a c = Some (cell c (slot a), c)"
    and wr: "ready c \<Longrightarrow> region a \<Longrightarrow>
      \<exists>c'. writeByte D a v c = Some c' \<and> ready c' \<and> cell c' = (cell c)(slot a := v) \<and>
         er c' = er c \<and> pc c' = pc c \<and> ccr c' = ccr c"
    and slot_inj: "region a \<Longrightarrow> region b \<Longrightarrow> slot a = slot b \<Longrightarrow> a AND 0xFFFFFF = b AND 0xFFFFFF"
    and not_patched: "\<not> region 0xFFFFFFFC"
    and cell_regs: "cell (c\<lparr>er := e\<rparr>) = cell c" "cell (c\<lparr>pc := p\<rparr>) = cell c" "cell (c\<lparr>ccr := x\<rparr>) = cell c"
      "cell (c\<lparr>sleeping := s\<rparr>) = cell c" "cell (c\<lparr>requestedInterrupts := q\<rparr>) = cell c"
    and ready_regs: "ready (c\<lparr>er := e\<rparr>) = ready c" "ready (c\<lparr>pc := p\<rparr>) = ready c" "ready (c\<lparr>ccr := x\<rparr>) = ready c"
      "ready (c\<lparr>sleeping := s\<rparr>) = ready c" "ready (c\<lparr>requestedInterrupts := q\<rparr>) = ready c"
begin

definition region4 :: "u32 \<Rightarrow> bool" where
  "region4 a \<longleftrightarrow> region a \<and> region (a + 1) \<and> region (a + 2) \<and> region (a + 3)"

lemma slots_distinct:
  assumes "region4 a"
  shows "slot a \<noteq> slot (a + 1)" "slot a \<noteq> slot (a + 2)" "slot a \<noteq> slot (a + 3)"
    "slot (a + 1) \<noteq> slot (a + 2)" "slot (a + 1) \<noteq> slot (a + 3)" "slot (a + 2) \<noteq> slot (a + 3)"
proof -
  have ne: "slot x \<noteq> slot (x + d)" if "region x" "region (x + d)" "d \<in> {1, 2, 3}" for x d
    using slot_inj [OF that(1,2)] low24_distinct [OF that(3), of x] by metis
  have sums: "a + 1 + 1 = a + 2" "a + 1 + 2 = a + 3" "a + 2 + 1 = a + 3" by simp_all
  show "slot a \<noteq> slot (a + 1)" "slot a \<noteq> slot (a + 2)" "slot a \<noteq> slot (a + 3)"
    "slot (a + 1) \<noteq> slot (a + 2)" "slot (a + 1) \<noteq> slot (a + 3)" "slot (a + 2) \<noteq> slot (a + 3)"
    using assms ne [of a 1] ne [of a 2] ne [of a 3] ne [of "a + 1" 1, unfolded sums]
      ne [of "a + 1" 2, unfolded sums] ne [of "a + 2" 1, unfolded sums]
    by (simp_all add: region4_def)
qed

lemma readLong_cells:
  assumes "ready c" "region4 a"
  shows "readLong D a c = Some (push_bit 24 (ucast (cell c (slot a))) OR push_bit 16 (ucast (cell c (slot (a + 1))))
     OR push_bit 8 (ucast (cell c (slot (a + 2)))) OR ucast (cell c (slot (a + 3))), c)"
proof -
  have "a \<noteq> 0xFFFFFFFC" using assms(2) not_patched by (auto simp: region4_def)
  then show ?thesis
    using assms by (simp add: readLong_def region4_def rd)
qed

lemma writeLong_cells:
  assumes "ready c" "region4 a"
  shows "\<exists>c'. writeLong D a v c = Some c' \<and> ready c' \<and> er c' = er c \<and> pc c' = pc c \<and> ccr c' = ccr c \<and>
     cell c' = (cell c)(slot a := ucast (drop_bit 24 v), slot (a + 1) := ucast (drop_bit 16 v AND 0xFF),
       slot (a + 2) := ucast (drop_bit 8 v AND 0xFF), slot (a + 3) := ucast (v AND 0xFF))"
proof -
  note reg = assms(2) [unfolded region4_def]
  obtain c1 where c1: "writeByte D a (ucast (drop_bit 24 v)) c = Some c1" "ready c1"
      "cell c1 = (cell c)(slot a := ucast (drop_bit 24 v))" "er c1 = er c" "pc c1 = pc c" "ccr c1 = ccr c"
    using wr [OF assms(1), of a] reg by blast
  obtain c2 where c2: "writeByte D (a + 1) (ucast (drop_bit 16 v AND 0xFF)) c1 = Some c2" "ready c2"
      "cell c2 = (cell c1)(slot (a + 1) := ucast (drop_bit 16 v AND 0xFF))" "er c2 = er c" "pc c2 = pc c" "ccr c2 = ccr c"
    using wr [OF c1(2), of "a + 1"] reg c1 by metis
  obtain c3 where c3: "writeByte D (a + 2) (ucast (drop_bit 8 v AND 0xFF)) c2 = Some c3" "ready c3"
      "cell c3 = (cell c2)(slot (a + 2) := ucast (drop_bit 8 v AND 0xFF))" "er c3 = er c" "pc c3 = pc c" "ccr c3 = ccr c"
    using wr [OF c2(2), of "a + 2"] reg c2 by metis
  obtain c4 where c4: "writeByte D (a + 3) (ucast (v AND 0xFF)) c3 = Some c4" "ready c4"
      "cell c4 = (cell c3)(slot (a + 3) := ucast (v AND 0xFF))" "er c4 = er c" "pc c4 = pc c" "ccr c4 = ccr c"
    using wr [OF c3(2), of "a + 3"] reg c3 by metis
  have "writeLong D a v c = Some c4"
    by (simp only: writeLong_def c1 c2 c3 c4 bind.bind_lunit)
  with c4 show ?thesis unfolding c3(3) c2(3) c1(3) by blast
qed

lemma readLong_writeLong:
  assumes "ready c" "region4 a"
  shows "\<exists>c'. writeLong D a v c = Some c' \<and> readLong D a c' = Some (v, c') \<and> ready c' \<and>
     er c' = er c \<and> pc c' = pc c \<and> ccr c' = ccr c \<and>
     (\<forall>b. region b \<longrightarrow> b AND 0xFFFFFF \<notin> {a AND 0xFFFFFF, (a + 1) AND 0xFFFFFF, (a + 2) AND 0xFFFFFF, (a + 3) AND 0xFFFFFF}
        \<longrightarrow> cell c' (slot b) = cell c (slot b))"
proof -
  note w = writeLong_cells [OF assms, of v]
  then obtain c' where c': "writeLong D a v c = Some c'" "ready c'" "er c' = er c" "pc c' = pc c" "ccr c' = ccr c"
     "cell c' = (cell c)(slot a := ucast (drop_bit 24 v), slot (a + 1) := ucast (drop_bit 16 v AND 0xFF),
       slot (a + 2) := ucast (drop_bit 8 v AND 0xFF), slot (a + 3) := ucast (v AND 0xFF))" by blast
  note reg = assms(2) [unfolded region4_def]
  have "readLong D a c' = Some (v, c')"
    unfolding readLong_cells [OF c'(2) assms(2)] c'(6)
    using slots_distinct [OF assms(2)] long_of_bytes [of v] by simp
  moreover have "cell c' (slot b) = cell c (slot b)"
    if b: "region b" "b AND 0xFFFFFF \<notin> {a AND 0xFFFFFF, (a + 1) AND 0xFFFFFF, (a + 2) AND 0xFFFFFF, (a + 3) AND 0xFFFFFF}" for b
  proof -
    have "slot b \<noteq> slot x" if "region x" "b AND 0xFFFFFF \<noteq> x AND 0xFFFFFF" for x
      using slot_inj [OF b(1) that(1)] that(2) by blast
    with reg b(2) have "slot b \<noteq> slot a" "slot b \<noteq> slot (a + 1)" "slot b \<noteq> slot (a + 2)" "slot b \<noteq> slot (a + 3)"
      by blast+
    then show ?thesis unfolding c'(6) by simp
  qed
  ultimately show ?thesis using c' by blast
qed

text \<open>Pushing a long and reading it back from the stack.\<close>

lemma pushLong_readLong:
  assumes "ready c" "region4 (er c 7 - 4)"
  shows "\<exists>c'. pushLong D v c = Some c' \<and> readLong D (er c' 7) c' = Some (v, c') \<and> ready c' \<and>
     er c' = (er c)(7 := er c 7 - 4) \<and> pc c' = pc c \<and> ccr c' = ccr c"
proof -
  have "ready (er_upd 7 (er c 7 - 4) c)" using assms(1) by (simp add: er_upd_def ready_regs)
  from readLong_writeLong [OF this assms(2), of v] show ?thesis
    by (auto simp: pushLong_def er_upd_def Let_def)
qed

end

section \<open>The on-chip RAM\<close>

definition ram_ready :: "'d cpu \<Rightarrow> bool" where
  "ram_ready c \<longleftrightarrow> areaPtrs c 7 = None"

definition ram_region :: "u32 \<Rightarrow> bool" where
  "ram_region a \<longleftrightarrow> inRAM (a AND 0xFFFFFF)"

definition ram_slot :: "u32 \<Rightarrow> nat" where
  "ram_slot a = unat ((a AND 0xFFFFFF) - 0xFFDC00)"

lemma low24_area: "drop_bit 21 (a AND 0xFFFFFF) = drop_bit 21 (a :: u32) AND 7"
proof -
  have m: "(0xFFFFFF :: u32) = mask 24" "(7 :: u32) = mask 3" by (simp_all add: mask_numeral)
  show ?thesis unfolding m by (rule bit_word_eqI) (auto simp: bit_simps)
qed

lemma ram_area: assumes "ram_region a" shows "area_of a = 7"
proof -
  define x where "x = a AND 0xFFFFFF"
  have "0xFFDC00 \<le> x" "x < 0xFFFC00" using assms by (simp_all add: ram_region_def inRAM_def x_def)
  then have "0xFFDC00 \<le> unat x" "unat x < 0xFFFC00" by (simp_all add: word_le_nat_alt word_less_nat_alt)
  then have "unat x div 2 ^ 21 = 7" by (intro div_nat_eqI) simp_all
  moreover have "unat (drop_bit 21 x) = unat x div 2 ^ 21"
    by (simp only: drop_bit_eq_div unat_div) simp
  ultimately have "unat (drop_bit 21 x) = 7" by simp
  then show ?thesis by (simp only: area_of_def low24_area [symmetric] x_def)
qed


lemma ram_not_rom: "ram_region a \<Longrightarrow> \<not> a AND 0xFFFFFF < 0x10000"
  by (auto simp: ram_region_def inRAM_def word_less_nat_alt word_le_nat_alt)

lemma ram_read:
  "ram_ready c \<Longrightarrow> ram_region a \<Longrightarrow> readByte D a c = Some (ram c (ram_slot a), c)"
  using ram_not_rom [of a] ram_area [of a]
  by (simp add: readByte_def ram_ready_def Let_def ram_slot_def ram_region_def)

lemma ram_write:
  "ram_region a \<Longrightarrow> writeByte D a v c = Some (c\<lparr>ram := (ram c)(ram_slot a := v)\<rparr>)"
  using ram_not_rom [of a]
  by (simp add: writeByte_def Let_def ram_slot_def ram_region_def)

interpretation onchip: byte_memory D ram_ready ram_region ram_slot ram for D
proof
  show "ram_slot a = ram_slot b \<Longrightarrow> a AND 0xFFFFFF = b AND 0xFFFFFF" for a b
    by (auto simp: ram_slot_def dest!: unsigned_word_eqI)
qed (auto simp: ram_read ram_write ram_ready_def, simp add: ram_region_def inRAM_def)

section \<open>Round trips through the stack\<close>

definition stack_ok :: "'d cpu \<Rightarrow> bool" where
  "stack_ok c \<longleftrightarrow> ram_ready c \<and> onchip.region4 (er c 7 - 4)"

lemma stack_ok_eq: "stack_ok c \<longleftrightarrow> areaPtrs c 7 = None \<and>
   (\<forall>d \<in> {1, 2, 3, 4}. inRAM ((er c 7 - d) AND 0xFFFFFF))"
proof -
  have "er c 7 - 4 + 1 = er c 7 - 3" "er c 7 - 4 + 2 = er c 7 - 2" "er c 7 - 4 + 3 = er c 7 - 1" by simp_all
  then show ?thesis by (auto simp: stack_ok_def ram_ready_def onchip.region4_def ram_region_def)
qed

text \<open>
  C12: \<open>jsr @er\<close> and \<open>rts\<close>, with the stack in the on-chip RAM: the call continues at the address in
  the register, and the return restores the program counter, reduced to 24 bits, all general
  registers and the flags.
\<close>

theorem jsr_rts:
  assumes "areaPtrs c 7 = None" "\<forall>d \<in> {1, 2, 3, 4}. inRAM ((er c 7 - d) AND 0xFFFFFF)" "hi4 b1 < 8"
  shows "\<exists>n c1 m c2. exec_5x D 0xD b1 c = Some (n, c1) \<and>
    pc c1 = (if hi4 b1 = 7 then er c 7 - 4 else er c (hi4 b1)) \<and>
    exec_5x D 0x4 0x70 c1 = Some (m, c2) \<and> pc c2 = pc c AND 0xFFFFFF \<and> er c2 = er c \<and> ccr c2 = ccr c"
proof -
  have ok: "ram_ready c" "onchip.region4 (er c 7 - 4)"
    using stack_ok_eq [of c] assms by (simp_all add: stack_ok_def)
  obtain c' where c': "pushLong D (pc c) c = Some c'" "readLong D (er c' 7) c' = Some (pc c, c')" "ram_ready c'"
     "er c' = (er c)(7 := er c 7 - 4)" "pc c' = pc c" "ccr c' = ccr c"
    using onchip.pushLong_readLong [OF ok, of D "pc c"] by blast
  have "readLong D (er c 7 - 4) (c'\<lparr>pc := p\<rparr>) = Some (pc c, c'\<lparr>pc := p\<rparr>)" for p
    using c'(2) onchip.readLong_cells [OF c'(3) ok(2), of D]
      onchip.readLong_cells [of "c'\<lparr>pc := p\<rparr>", OF _ ok(2), of D] c'(3,4)
    by (simp add: onchip.ready_regs)
  then show ?thesis using c' assms(3)
    by (auto simp: exec_5x_def exec_rts_def regL_def fetched_def setPC_def er_upd_def Let_def)
qed

theorem jsr_rts_witness:
  "\<exists>n c1 m c2. exec_5x bare_devices 0xD 0x10 (bare_cpu\<lparr>er := (\<lambda>r. if r = 7 then 0xFFF000 else 0x4000), pc := 0x1002\<rparr>)
       = Some (n, c1) \<and> pc c1 = 0x4000 \<and> exec_5x bare_devices 0x4 0x70 c1 = Some (m, c2) \<and> pc c2 = 0x1002"
  using jsr_rts [of "bare_cpu\<lparr>er := (\<lambda>r. if r = 7 then 0xFFF000 else 0x4000), pc := 0x1002\<rparr>" "0x10" bare_devices]
  by (fastforce simp: bare_cpu_def init_cpu_def inRAM_def)

lemma low24_self:
  assumes "a < (0x1000000 :: u32)"
  shows "a AND 0xFFFFFF = a"
proof -
  have "uint (a AND 0xFFFFFF) = uint a AND mask 24" by (simp add: uint_and mask_numeral)
  also have "\<dots> = take_bit 24 (uint a)" by (simp only: take_bit_eq_mask)
  also have "\<dots> = uint a"
    using assms by (simp add: take_bit_int_eq_self_iff word_less_def)
  finally show ?thesis by (rule unsigned_word_eqI)
qed

lemma rom_read:
  assumes "areaPtrs c 0 = None" "a < 0x10000"
  shows "readByte D a c = Some (rom c (unat a), c)"
proof -
  have ua: "unat a < 0x10000" using assms(2) by (simp add: word_less_nat_alt)
  have "unat (drop_bit 21 a) = unat a div 2 ^ 21" by (simp only: drop_bit_eq_div unat_div) simp
  also have "\<dots> = 0" using ua by simp
  finally have "drop_bit 21 a = 0" by (simp add: unsigned_eq_0_iff)
  then have ar: "area_of a = 0" by (simp add: area_of_def)
  have "a < 0x1000000" using assms(2) by (rule less_trans) simp
  then have "a AND 0xFFFFFF = a" by (rule low24_self)
  with ar assms show ?thesis by (simp add: readByte_def Let_def)
qed

lemma stacked_pc:
  fixes p :: u32
  assumes "p < 0x1000000"
  shows "(p OR push_bit 24 (ucast (x :: u8))) AND 0xFFFFFF = p"
    "(ucast (drop_bit 24 (p OR push_bit 24 (ucast x))) :: u8) = x"
proof -
  have m: "(0xFFFFFF :: u32) = mask 24" by (simp add: mask_numeral)
  have "p AND mask 24 = p" using low24_self [OF assms] by (simp only: m)
  then have hi: "n < 24" if "bit p n" for n using that by (metis bit_and_iff bit_mask_iff)
  show "(p OR push_bit 24 (ucast x)) AND 0xFFFFFF = p"
    unfolding m by (rule bit_word_eqI) (use hi in \<open>auto simp: bit_simps\<close>)
  show "(ucast (drop_bit 24 (p OR push_bit 24 (ucast x))) :: u8) = x"
    by (rule bit_word_eqI) (auto simp: bit_simps dest: hi)
qed


lemma vector_read:
  assumes "areaPtrs c 0 = None" "i < 128"
  shows "readLong D (of_nat (i * 4)) c = Some (push_bit 24 (ucast (rom c (4 * i))) OR push_bit 16 (ucast (rom c (4 * i + 1)))
      OR push_bit 8 (ucast (rom c (4 * i + 2))) OR ucast (rom c (4 * i + 3)), c)"
proof -
  have u: "unat (of_nat n :: u32) = n" if "n < 0x10000" for n
    using that by (simp add: unat_of_nat)
  have r: "readByte D (of_nat (4 * i + k)) c = Some (rom c (4 * i + k), c)" if "k < 4" for k
    using rom_read [of c "of_nat (4 * i + k)"] u [of "4 * i + k"] assms that
    by (simp add: word_less_nat_alt del: of_nat_add of_nat_mult)
  have np: "(of_nat (i * 4) :: u32) \<noteq> 0xFFFFFFFC"
  proof
    assume "(of_nat (i * 4) :: u32) = 0xFFFFFFFC"
    then have "unat (of_nat (i * 4) :: u32) = 0xFFFFFFFC" by (simp only:) simp
    with u [of "i * 4"] assms(2) show False by simp
  qed
  define a where "a = (of_nat (i * 4) :: u32)"
  have eq: "of_nat (4 * i + k) = a + of_nat k" for k by (simp add: a_def)
  have R: "readByte D (a + of_nat k) c = Some (rom c (4 * i + k), c)" if "k < 4" for k
    using r [OF that] by (simp only: eq)
  have b: "readByte D a c = Some (rom c (4 * i), c)"
    "readByte D (a + 1) c = Some (rom c (4 * i + 1), c)" "readByte D (a + 2) c = Some (rom c (4 * i + 2), c)"
    "readByte D (a + 3) c = Some (rom c (4 * i + 3), c)"
    using R [of 0] R [of 1] R [of 2] R [of 3] by simp_all
  then show ?thesis using np unfolding a_def [symmetric] by (simp add: readLong_def)
qed

text \<open>
  C13: interrupt entry and \<open>rte\<close>, with the stack in the on-chip RAM and the vectors in ROM: entry
  goes to the address in the vector of the source, masks further interrupts, wakes the CPU and
  clears the request; the return restores program counter, registers and flags.
\<close>

theorem interrupt_rte:
  assumes "areaPtrs c 7 = None" "\<forall>d \<in> {1, 2, 3, 4}. inRAM ((er c 7 - d) AND 0xFFFFFF)"
    "areaPtrs c 0 = None" "i < 128" "pc c < 0x1000000"
  shows "\<exists>c1 n c2. enterInterrupt D i c = Some c1 \<and>
    pc c1 = push_bit 24 (ucast (rom c (4 * i))) OR push_bit 16 (ucast (rom c (4 * i + 1)))
      OR push_bit 8 (ucast (rom c (4 * i + 2))) OR ucast (rom c (4 * i + 3)) \<and>
    bit (ccr c1) 7 \<and> \<not> pending i c1 \<and> \<not> sleeping c1 \<and>
    exec_5x D 0x6 0x70 c1 = Some (n, c2) \<and> pc c2 = pc c \<and> er c2 = er c \<and> ccr c2 = ccr c"
proof -
  have ok: "ram_ready c" "onchip.region4 (er c 7 - 4)"
    using stack_ok_eq [of c] assms by (simp_all add: stack_ok_def)
  obtain c' where c': "pushLong D (pc c OR push_bit 24 (ucast (ccr c))) c = Some c'"
     "readLong D (er c' 7) c' = Some (pc c OR push_bit 24 (ucast (ccr c)), c')" "ram_ready c'"
     "er c' = (er c)(7 := er c 7 - 4)" "pc c' = pc c" "ccr c' = ccr c"
    using onchip.pushLong_readLong [OF ok] by blast
  have rd: "readLong D (er c 7 - 4) (c'\<lparr>pc := p, ccr := x, sleeping := s, requestedInterrupts := q\<rparr>)
      = Some (pc c OR push_bit 24 (ucast (ccr c)), c'\<lparr>pc := p, ccr := x, sleeping := s, requestedInterrupts := q\<rparr>)" for p x s q
    using c'(2) onchip.readLong_cells [OF c'(3) ok(2), of D]
      onchip.readLong_cells [of "c'\<lparr>pc := p, ccr := x, sleeping := s, requestedInterrupts := q\<rparr>", OF _ ok(2), of D] c'(3,4)
    by (simp add: onchip.ready_regs)
  note st = stacked_pc [OF assms(5), of "ccr c", unfolded drop_bit_or]
  let ?v = "push_bit 24 (ucast (rom c (4 * i))) OR push_bit 16 (ucast (rom c (4 * i + 1)))
      OR push_bit 8 (ucast (rom c (4 * i + 2))) OR ucast (rom c (4 * i + 3)) :: u32"
  let ?c1 = "clearRequest i (c'\<lparr>pc := ?v, ccr := ccr c' OR CC_I, sleeping := False\<rparr>)"
  have "enterInterrupt D i c = Some ?c1"
    unfolding enterInterrupt_def vector_read [OF assms(3,4)] by (simp add: c'(1))
  moreover have "bit (ccr ?c1) 7" "\<not> pending i ?c1" "\<not> sleeping ?c1" "pc ?c1 = ?v"
    by (simp_all add: clearRequest_def pending_def bit_simps)
  moreover have "readLong D (er ?c1 7) ?c1 = Some (pc c OR push_bit 24 (ucast (ccr c)), ?c1)"
    using rd c'(4) by (simp add: clearRequest_def)
  then have "\<exists>n c2. exec_5x D 0x6 0x70 ?c1 = Some (n, c2) \<and> pc c2 = pc c \<and> er c2 = er c \<and> ccr c2 = ccr c"
    using c'(4) by (auto simp: exec_5x_def exec_rte_def fetched_def setPC_def er_upd_def Let_def st clearRequest_def)
  ultimately show ?thesis by blast
qed

theorem interrupt_rte_witness:
  "\<exists>c1 n c2. enterInterrupt bare_devices 16 (bare_cpu\<lparr>er := (\<lambda>_. 0xFFF000), pc := 0x1002, ccr := 5\<rparr>) = Some c1 \<and>
     exec_5x bare_devices 0x6 0x70 c1 = Some (n, c2) \<and> pc c2 = 0x1002 \<and> ccr c2 = 5"
  using interrupt_rte [of "bare_cpu\<lparr>er := (\<lambda>_. 0xFFF000), pc := 0x1002, ccr := 5\<rparr>" 16 bare_devices]
  by (fastforce simp: bare_cpu_def init_cpu_def inRAM_def)

section \<open>Longs in the on-chip RAM\<close>

text \<open>
  C14: a long written to the on-chip RAM, at any address, aligned or not, is read back as it was
  written; registers and the bytes of the RAM outside it keep their values.
\<close>

theorem ram_long_roundtrip:
  assumes "areaPtrs c 7 = None" "\<forall>d \<in> {0, 1, 2, 3}. inRAM ((a + d) AND 0xFFFFFF)"
  shows "\<exists>c'. writeLong D a v c = Some c' \<and> readLong D a c' = Some (v, c') \<and>
     er c' = er c \<and> pc c' = pc c \<and> ccr c' = ccr c \<and>
     (\<forall>b. inRAM (b AND 0xFFFFFF) \<and> (\<forall>d \<in> {0, 1, 2, 3}. b AND 0xFFFFFF \<noteq> (a + d) AND 0xFFFFFF) \<longrightarrow>
        readByte D b c' = Some (ram c (ram_slot b), c'))"
proof -
  have ok: "ram_ready c" "onchip.region4 a"
    using assms by (simp_all add: ram_ready_def onchip.region4_def ram_region_def)
  obtain c' where c': "writeLong D a v c = Some c'" "readLong D a c' = Some (v, c')" "ram_ready c'"
     "er c' = er c" "pc c' = pc c" "ccr c' = ccr c"
     and frame: "\<forall>b. ram_region b \<longrightarrow> b AND 0xFFFFFF \<notin> {a AND 0xFFFFFF, (a + 1) AND 0xFFFFFF, (a + 2) AND 0xFFFFFF,
        (a + 3) AND 0xFFFFFF} \<longrightarrow> ram c' (ram_slot b) = ram c (ram_slot b)"
    using onchip.readLong_writeLong [OF ok, of D v] by blast
  have "readByte D b c' = Some (ram c (ram_slot b), c')"
    if b: "inRAM (b AND 0xFFFFFF)" "\<forall>d \<in> {0, 1, 2, 3}. b AND 0xFFFFFF \<noteq> (a + d) AND 0xFFFFFF" for b
  proof -
    have "ram_region b" using b(1) by (simp add: ram_region_def)
    moreover from this b(2) frame have "ram c' (ram_slot b) = ram c (ram_slot b)" by simp
    ultimately show ?thesis using ram_read [OF c'(3)] by metis
  qed
  with c' show ?thesis by blast
qed

theorem ram_long_roundtrip_witness:
  "\<exists>c'. writeLong bare_devices 0xFFE001 0x12345678 bare_cpu = Some c' \<and>
     readLong bare_devices 0xFFE001 c' = Some (0x12345678, c')"
  using ram_long_roundtrip [of bare_cpu "0xFFE001" bare_devices "0x12345678"]
  by (fastforce simp: bare_cpu_def init_cpu_def inRAM_def)

section \<open>Interrupt priorities\<close>

lemma firstRequest_first:
  "bit w k \<Longrightarrow> \<forall>j<k. \<not> bit w j \<Longrightarrow> k < n \<Longrightarrow> firstRequest n w i = Some (i + k)"
proof (induction n arbitrary: w k i)
  case (Suc n)
  show ?case
  proof (cases k)
    case 0
    with Suc.prems show ?thesis by auto
  next
    case (Suc k')
    have "bit (drop_bit 1 w) k'" "\<forall>j<k'. \<not> bit (drop_bit 1 w) j" "k' < n"
      using Suc.prems Suc by (auto simp: bit_drop_bit_eq)
    from Suc.IH [OF this, of "i + 1"] show ?thesis
      using Suc.prems Suc by auto
  qed
qed simp

lemma firstRequest_none: "firstRequest n 0 i = None"
  by (cases n) simp_all

text \<open>
  C15: interrupt acceptance.  With no request, or with the mask bit set and no NMI requested,
  nothing happens; otherwise the pending source of the lowest number is entered.
\<close>

theorem serviceInterrupt_priority:
  assumes "\<not> pending 7 c"
  shows "(bit (ccr c) 7 \<longrightarrow> serviceInterrupt D c = Some c) \<and>
    ((\<forall>i \<in> {..<128}. \<not> pending i c) \<longrightarrow> serviceInterrupt D c = Some c) \<and>
    (\<forall>i \<in> {..<128}. \<not> bit (ccr c) 7 \<and> pending i c \<and> (\<forall>j<i. \<not> pending j c) \<longrightarrow>
       serviceInterrupt D c = enterInterrupt D i c)"
proof (intro conjI impI ballI)
  have nmi: "\<not> tst (requestedInterrupts c 0) (bitv IS_NMI)" using assms by (simp add: pending_def)
  show "serviceInterrupt D c = Some c" if "bit (ccr c) 7"
    using that nmi by (simp add: serviceInterrupt_def Let_def)
  show "serviceInterrupt D c = Some c" if none: "\<forall>i \<in> {..<128}. \<not> pending i c"
  proof -
    have "requestedInterrupts c 0 = 0"
    proof (rule bit_word_eqI)
      fix n assume "n < LENGTH(64)"
      then show "bit (requestedInterrupts c 0) n = bit 0 n"
        using none [rule_format, of n] by (simp add: pending_def)
    qed
    moreover have "requestedInterrupts c 1 = 0"
    proof (rule bit_word_eqI)
      fix n assume "n < LENGTH(64)"
      then show "bit (requestedInterrupts c 1) n = bit 0 n"
        using none [rule_format, of "64 + n"] by (simp add: pending_def div_add_self1)
    qed
    ultimately  show ?thesis by (simp add: serviceInterrupt_def)
  qed
  fix i assume i: "i \<in> {..<128}" and c: "\<not> bit (ccr c) 7 \<and> pending i c \<and> (\<forall>j<i. \<not> pending j c)"
  show "serviceInterrupt D c = enterInterrupt D i c"
  proof (cases "i < 64")
    case True
    have "firstRequest 64 (requestedInterrupts c 0) 0 = Some (0 + i)"
      using c True by (intro firstRequest_first) (auto simp: pending_def)
    then show ?thesis
      using c True nmi by (cases "enterInterrupt D i c")
        (auto simp: serviceInterrupt_def checkInterruptMask_def pending_def)
  next
    case False
    then have k: "i = 64 + (i - 64)" "i - 64 < 64" using i by auto
    have z: "requestedInterrupts c 0 = 0"
    proof (rule bit_word_eqI)
      fix n assume "n < LENGTH(64)"
      then have "\<not> pending n c" using c False by auto
      with \<open>n < LENGTH(64)\<close> show "bit (requestedInterrupts c 0) n = bit 0 n" by (simp add: pending_def)
    qed
    have idx: "pending (64 + j) c \<longleftrightarrow> bit (requestedInterrupts c 1) j" if "j < 64" for j
      using that by (simp add: pending_def div_add_self1)
    have "bit (requestedInterrupts c 1) (i - 64)" using c k idx by metis
    moreover have "\<forall>j<i - 64. \<not> bit (requestedInterrupts c 1) j"
      using c k idx by (metis less_diff_conv add.commute less_trans)
    ultimately have "firstRequest 64 (requestedInterrupts c 1) 64 = Some (64 + (i - 64))"
      using k(2) by (rule firstRequest_first)
    then have f: "firstRequest 64 (requestedInterrupts c 1) 64 = Some i" using k(1) by simp
    have "requestedInterrupts c 1 \<noteq> 0" using \<open>bit (requestedInterrupts c 1) (i - 64)\<close> by auto
    then show ?thesis
      using c nmi by (cases "enterInterrupt D i c")
        (simp_all add: serviceInterrupt_def checkInterruptMask_def f [unfolded One_nat_def] z firstRequest_none)
  qed
qed

theorem serviceInterrupt_priority_witness:
  "serviceInterrupt bare_devices (interrupt IS_RXI0 (interrupt IS_IRQ0 bare_cpu))
     = enterInterrupt bare_devices IS_IRQ0 (interrupt IS_RXI0 (interrupt IS_IRQ0 bare_cpu))"
proof -
  let ?c = "interrupt IS_RXI0 (interrupt IS_IRQ0 bare_cpu)"
  have r: "requestedInterrupts ?c = (\<lambda>_. 0)(0 := 2 ^ 16, 1 := 2 ^ 17)" "ccr ?c = 0"
    by (simp_all add: interrupt_def bare_cpu_def init_cpu_def fun_eq_iff)
  have e: "bit (65536 :: u64) j \<longleftrightarrow> j = 16" "bit (131072 :: u64) j \<longleftrightarrow> j = 17" for j
    using bit_exp_iff [of 16 j, where 'a = u64] bit_exp_iff [of 17 j, where 'a = u64] by auto
  have p: "pending i ?c \<longleftrightarrow> i = 16 \<or> i = 81" if "i < 128" for i
  proof (cases "i < 64")
    case True
    then show ?thesis using e(1) [of i] by (simp add: pending_def r)
  next
    case False
    then have "i div 64 = 1" "i mod 64 = i - 64" using that by (simp_all add: div_nat_eqI mod_if)
    with False that show ?thesis unfolding pending_def r using e [of "i - 64"] by auto
  qed
  have "\<not> pending 7 ?c" "pending 16 ?c" "\<forall>j<16. \<not> pending j ?c" using p by auto
  then show ?thesis
    using serviceInterrupt_priority [of ?c bare_devices] r(2) by auto
qed

end
