(* ===== verification/H8Invariant.thy ===== *)
theory H8Invariant
  imports H8System
begin

text \<open>
  What every operation of the CPU keeps.  The locale \<open>cpu_invariant\<close> says which updates of the state and which
  calls of the devices an invariant has to survive; it is then proved once for the accesses of the bus, the
  modules on the chip, interrupts and the transfers, and in \<open>H8StepInvariant\<close> for the instructions and the loop.
\<close>

section \<open>Rules for runs\<close>

named_theorems runs \<open>what the operations of the emulator keep\<close>
named_theorems keeps \<open>updates that keep the invariant\<close>

lemma holds_let: "(\<And>x. x = t \<Longrightarrow> holds P (f x)) \<Longrightarrow> holds P (Let t f)"
  by simp

lemma holds_SomeI: "P x \<Longrightarrow> holds P (Some x)"
  by simp

section \<open>Invariants of the CPU\<close>

locale cpu_invariant =
  fixes D :: "'d devices" and I :: "'d cpu \<Rightarrow> bool"
  assumes core: "I c \<Longrightarrow> I (c\<lparr>er := a\<rparr>)" "I c \<Longrightarrow> I (c\<lparr>pc := b\<rparr>)" "I c \<Longrightarrow> I (c\<lparr>ccr := d\<rparr>)"
      "I c \<Longrightarrow> I (c\<lparr>sleeping := e\<rparr>)" "I c \<Longrightarrow> I (c\<lparr>ram := r\<rparr>)" "I c \<Longrightarrow> I (c\<lparr>clock := k\<rparr>)"
    and requests: "I c \<Longrightarrow> I (c\<lparr>requestedInterrupts := q\<rparr>)" "I c \<Longrightarrow> I (c\<lparr>irqEnable := ie\<rparr>)"
      "I c \<Longrightarrow> I (c\<lparr>irqStatus := is\<rparr>)" "I c \<Longrightarrow> I (c\<lparr>mstpcr := m\<rparr>)" "I c \<Longrightarrow> I (c\<lparr>dtcEnable := de\<rparr>)"
    and peripherals: "I c \<Longrightarrow> I (c\<lparr>dmaChannels := dc\<rparr>)" "I c \<Longrightarrow> I (c\<lparr>tpuChannels := tc\<rparr>)"
      "I c \<Longrightarrow> I (c\<lparr>tpuStart := ts\<rparr>)" "I c \<Longrightarrow> I (c\<lparr>tpuInterruptEnable := ti\<rparr>)"
      "I c \<Longrightarrow> I (c\<lparr>timers := tm\<rparr>)" "I c \<Longrightarrow> I (c\<lparr>serialPorts := sp\<rparr>)" "I c \<Longrightarrow> I (c\<lparr>ioPorts := io\<rparr>)"
    and bus: "I c \<Longrightarrow> I (updateBusTimings (c\<lparr>busWidthControl := bw\<rparr>))"
      "I c \<Longrightarrow> I (updateBusTimings (c\<lparr>busWaitControl := bt\<rparr>))"
      "I c \<Longrightarrow> I (updateBusTimings (c\<lparr>busWaits := bs\<rparr>))"
    and adc: "I c \<Longrightarrow> I (writeADCSR av c)" "I c \<Longrightarrow> holds I (updateADC n c)"
      "I c \<Longrightarrow> I (c\<lparr>a2dControlStatus := a2dControlStatus c AND NOT (bitv 7)\<rparr>)"
    and device: "I c \<Longrightarrow> ext_read D x addr (world c) = Some (v, irqs, w) \<Longrightarrow> I (c\<lparr>world := w\<rparr>)"
      "I c \<Longrightarrow> ext_write D x addr v (world c) = Some (irqs, w) \<Longrightarrow> I (c\<lparr>world := w\<rparr>)"
      "I c \<Longrightarrow> io_read D x time (world c) = Some (v, w) \<Longrightarrow> I (c\<lparr>world := w\<rparr>)"
      "I c \<Longrightarrow> io_write D x v time (world c) = Some w \<Longrightarrow> I (c\<lparr>world := w\<rparr>)"
      "I c \<Longrightarrow> io_setDirection D x v time (world c) = Some w \<Longrightarrow> I (c\<lparr>world := w\<rparr>)"
      "I c \<Longrightarrow> ser_read D x (world c) = Some (v, w) \<Longrightarrow> I (c\<lparr>world := w\<rparr>)"
      "I c \<Longrightarrow> ser_write D x v (world c) = Some w \<Longrightarrow> I (c\<lparr>world := w\<rparr>)"
    and times: "I c \<Longrightarrow> 0 \<le> byteAccessTiming addr c" "I c \<Longrightarrow> 0 \<le> wordAccessTiming addr c"
begin

lemmas closed [intro!, simp] = core requests peripherals bus adc

text \<open>A run that keeps the invariant, with a value, and with a number of states.\<close>

abbreviation keepsI :: "'d cpu option \<Rightarrow> bool" where
  "keepsI m \<equiv> holds I m"

abbreviation keepsV :: "('v \<times> 'd cpu) option \<Rightarrow> bool" where
  "keepsV m \<equiv> holds (\<lambda>(v, c). I c) m"

abbreviation keepsN :: "(int \<times> 'd cpu) option \<Rightarrow> bool" where
  "keepsN m \<equiv> holds (\<lambda>(n, c). 0 \<le> n \<and> I c) m"

text \<open>The decomposition of a run into its operations.\<close>

lemma bind_state: "keepsI m \<Longrightarrow> (\<And>c. I c \<Longrightarrow> holds P (f c)) \<Longrightarrow> holds P (m \<bind> f)"
  by (rule holds_bind)

lemma bind_value: "keepsV m \<Longrightarrow> (\<And>v c. I c \<Longrightarrow> holds P (f v c)) \<Longrightarrow> holds P (m \<bind> case_prod f)"
  by (erule holds_bind) auto

lemma bind_states: "keepsN m \<Longrightarrow> (\<And>n c. 0 \<le> n \<Longrightarrow> I c \<Longrightarrow> holds P (f n c)) \<Longrightarrow> holds P (m \<bind> case_prod f)"
  by (erule holds_bind) auto

lemma let_state: "I t \<Longrightarrow> (\<And>c. I c \<Longrightarrow> holds P (f c)) \<Longrightarrow> holds P (Let t f)"
  by simp

lemmas steps = bind_state bind_value let_state holds_let holds_if holds_case_option holds_case_prod

subsection \<open>Interrupt requests\<close>

lemma interrupt_keeps [intro!, simp]: "I c \<Longrightarrow> I (interrupt s c)"
  by (simp add: interrupt_def)

lemma externalInterrupt_keeps [intro!, simp]: "I c \<Longrightarrow> I (externalInterrupt n c)"
  by (simp add: externalInterrupt_def Let_def)

lemma raise_irqs_keeps [intro!, simp]: "I c \<Longrightarrow> I (raise_irqs ns c)"
  unfolding raise_irqs_def by (induction ns arbitrary: c) simp_all

lemma upd_keeps [intro!, simp]:
  "I c \<Longrightarrow> I (upd_tpu i f c)" "I c \<Longrightarrow> I (upd_timer i g c)" "I c \<Longrightarrow> I (upd_serial i h c)"
  "I c \<Longrightarrow> I (upd_dma i k c)" "I c \<Longrightarrow> I (upd_port i l c)"
  by (simp_all add: upd_tpu_def upd_timer_def upd_serial_def upd_dma_def upd_port_def)

subsection \<open>Ports and timers\<close>

lemma port_read_keeps:
  "I c \<Longrightarrow> holds (\<lambda>(v, w). I (c\<lparr>world := w\<rparr>)) (port_read_devs D ds time r (world c))"
proof (induction ds arbitrary: r c)
  case (Cons d ds)
  show ?case
  proof (cases "io_read D d time (world c)")
    case (Some p)
    then obtain v w where p: "io_read D d time (world c) = Some (v, w)" by (cases p) auto
    have "I (c\<lparr>world := w\<rparr>)" using device(3) [OF Cons.prems p] .
    from Cons.IH [OF this, of "r OR v"] show ?thesis using p by simp
  qed simp
qed simp

lemma port_write_keeps:
  "I c \<Longrightarrow> holds (\<lambda>w. I (c\<lparr>world := w\<rparr>)) (port_write_devs D ds v time (world c))"
proof (induction ds arbitrary: c)
  case (Cons d ds)
  show ?case
  proof (cases "io_write D d v time (world c)")
    case (Some w)
    have "I (c\<lparr>world := w\<rparr>)" using device(4) [OF Cons.prems Some] .
    from Cons.IH [OF this] show ?thesis using Some by simp
  qed simp
qed simp

lemma port_direction_keeps:
  "I c \<Longrightarrow> holds (\<lambda>w. I (c\<lparr>world := w\<rparr>)) (port_setDirection_devs D ds v time (world c))"
proof (induction ds arbitrary: c)
  case (Cons d ds)
  show ?case
  proof (cases "io_setDirection D d v time (world c)")
    case (Some w)
    have "I (c\<lparr>world := w\<rparr>)" using device(5) [OF Cons.prems Some] .
    from Cons.IH [OF this] show ?thesis using Some by simp
  qed simp
qed simp

lemma IOPort_keeps [runs]:
  "I c \<Longrightarrow> keepsV (IOPort_read D p time c)"
  "I c \<Longrightarrow> keepsI (IOPort_write D p v time s c)"
  "I c \<Longrightarrow> keepsI (IOPort_setDirection D p v time c)"
proof -
  assume I: "I c"
  show "keepsV (IOPort_read D p time c)"
    unfolding IOPort_read_def by (rule holds_bind [OF port_read_keeps [OF I]]) auto
  show "keepsI (IOPort_write D p v time s c)"
    unfolding IOPort_write_def by (rule holds_bind [OF port_write_keeps [OF I]]) (simp add: Let_def)
  show "keepsI (IOPort_setDirection D p v time c)"
    unfolding IOPort_setDirection_def by (rule holds_bind [OF port_direction_keeps [OF I]]) simp
qed

lemma updateTPUIO_keeps [runs]: "I c \<Longrightarrow> keepsI (updateTPUIO D i time c)"
  by (simp add: updateTPUIO_def Let_def IOPort_keeps)

lemma Timer_keeps [intro!, simp]: "I c \<Longrightarrow> I (Timer_update i c)" "I c \<Longrightarrow> I (Timer_updateForInterrupts i c)"
  by (simp_all add: Timer_update_def Timer_updateForInterrupts_def Let_def)

subsection \<open>The timer pulse unit\<close>

lemma TPU_pin_keeps [runs]:
  "I c \<Longrightarrow> keepsI (TPU_setIO D i k v c)"
  by (simp add: TPU_setIO_def Let_def updateTPUIO_keeps)

lemma TPU_outputs_keep [runs]:
  "I c \<Longrightarrow> keepsI (TPU_initialOutputs D i c)" "I c \<Longrightarrow> keepsI (TPU_setEnabled D i v c)"
  unfolding TPU_initialOutputs_def TPU_setEnabled_def by (intro steps runs; simp)+

lemma TPU_clear_keeps [runs]: "I c \<Longrightarrow> keepsI (TPU_clear D i c)"
  unfolding TPU_clear_def by (intro steps runs; simp)

lemma TPU_flag_keeps [intro!, simp]: "I c \<Longrightarrow> I (TPU_flag i k c)" "I c \<Longrightarrow> I (TPU_irq i k s c)"
  "I c \<Longrightarrow> I (TPU_overflow i c)" "I c \<Longrightarrow> I (TPU_advance i n c)"
  by (simp_all add: TPU_flag_def TPU_irq_def TPU_overflow_def TPU_advance_def)

lemma TPU_matchPin_keeps [runs]: "I c \<Longrightarrow> keepsI (TPU_matchPin D i k c)"
  unfolding TPU_matchPin_def by (intro steps runs; simp)

lemma TPU_match_keeps [runs]:
  "I c \<Longrightarrow> keepsI (TPU_matchA D i c)" "I c \<Longrightarrow> keepsI (TPU_matchB D i c)"
  "I c \<Longrightarrow> keepsI (TPU_matchC D i c)" "I c \<Longrightarrow> keepsI (TPU_matchD D i c)"
  unfolding TPU_matchA_def TPU_matchB_def TPU_matchC_def TPU_matchD_def
  by (intro steps runs; simp)+

lemma TPU_round_keeps [runs]: "I c \<Longrightarrow> keepsV (TPU_round D i inc c)"
  unfolding TPU_round_def by (intro steps runs; simp)

lemma TPU_loop_keeps [runs]: "I c \<Longrightarrow> keepsI (TPU_loop D fuel i inc c)"
proof (induction fuel arbitrary: inc c)
  case (Suc fuel)
  show ?case unfolding TPU_loop.simps by (intro steps runs Suc; simp add: Suc.prems)
qed simp

lemma TPU_update_keeps [runs]:
  "I c \<Longrightarrow> keepsI (TPU_update D i c)" "I c \<Longrightarrow> keepsI (TPU_updateForInterrupts D i c)"
  unfolding TPU_update_def TPU_updateForInterrupts_def by (intro steps runs; simp)+

subsection \<open>The serial interfaces\<close>

lemma Serial_clock_keeps [intro!, simp]:
  "I c \<Longrightarrow> I (Serial_calcNextUpdate D i c)" "I c \<Longrightarrow> I (Serial_updateClockDiv D i c)"
  "I c \<Longrightarrow> I (Serial_raiseDelayed i c)" "I c \<Longrightarrow> I (Serial_setSCR i v c)"
  by (simp_all add: Serial_calcNextUpdate_def Serial_updateClockDiv_def Serial_raiseDelayed_def
      Serial_setSCR_def Let_def)

lemma ser_write_keeps:
  "I c \<Longrightarrow> holds (\<lambda>w. I (c\<lparr>world := w\<rparr>)) (ser_write D x v (world c))"
  using device(7) by (auto simp: holds_def)

lemma ser_read_keeps:
  "I c \<Longrightarrow> holds (\<lambda>(v, w). I (c\<lparr>world := w\<rparr>)) (ser_read D x (world c))"
  using device(6) by (auto simp: holds_def)

lemma Serial_fetch_keeps [runs]:
  assumes "I c" shows "keepsI (Serial_fetch D i c)"
proof (cases "serial_device (serialPorts c i)")
  case (Some dev)
  have w: "keepsI (do { w \<leftarrow> ser_write D dev v (world c); Some (c\<lparr>world := w\<rparr>) })" if "I c" for v c
    by (rule holds_bind [OF ser_write_keeps [OF that]]) simp
  have r: "keepsI (do { (v, w) \<leftarrow> ser_read D dev (world c);
      Some (upd_serial i (\<lambda>s. s\<lparr>rxData := v\<rparr>) (c\<lparr>world := w\<rparr>)) })" if "I c" for c
    by (rule holds_bind [OF ser_read_keeps [OF that]]) auto
  show ?thesis
    unfolding Serial_fetch_def Some option.case
    by (rule holds_let, rule bind_state) (use assms in \<open>simp_all add: w r\<close>)
qed (use assms in \<open>simp add: Serial_fetch_def\<close>)

lemma Serial_doRX_keeps [runs]: "I c \<Longrightarrow> keepsI (Serial_doRX D i c)"
  unfolding Serial_doRX_def by (intro steps runs; simp)

lemma Serial_send_keeps [runs]:
  assumes "I c"
  shows "keepsI (case serial_device (serialPorts c i) of None \<Rightarrow> Some c
     | Some dev \<Rightarrow> do { w \<leftarrow> ser_write D dev v (world c); Some (c\<lparr>world := w\<rparr>) })"
  using assms by (auto intro!: holds_case_option holds_bind [OF ser_write_keeps [OF assms]])

lemma Serial_doTX_keeps [runs]: "I c \<Longrightarrow> keepsI (Serial_doTX D i c)"
  unfolding Serial_doTX_def
  by (rule bind_state [OF Serial_send_keeps], assumption) (intro steps runs; simp)

lemma Serial_setReg_keeps [runs]:
  "I c \<Longrightarrow> keepsI (Serial_setSSR D i v c)" "I c \<Longrightarrow> keepsI (Serial_setReg D i r v c)"
proof -
  show s: "I c \<Longrightarrow> keepsI (Serial_setSSR D i v c)" for c v
    unfolding Serial_setSSR_def by (intro steps runs; simp)
  show "I c \<Longrightarrow> keepsI (Serial_setReg D i r v c)"
    unfolding Serial_setReg_def by (intro steps runs s; simp)
qed

lemma Serial_txDone_keeps [runs]: "I c \<Longrightarrow> keepsI (Serial_txDone D i c)"
  unfolding Serial_txDone_def by (intro steps runs; simp add: Let_def)

lemma Serial_round_keeps [runs]: "I c \<Longrightarrow> keepsV (Serial_round D i n c)"
  unfolding Serial_round_def by (intro steps runs; simp)

lemma Serial_loop_keeps [runs]: "I c \<Longrightarrow> keepsI (Serial_loop D fuel i n c)"
proof (induction fuel arbitrary: n c)
  case (Suc fuel)
  show ?case unfolding Serial_loop.simps by (intro steps runs Suc; simp add: Suc.prems)
qed simp

lemma Serial_update_keeps [runs]:
  "I c \<Longrightarrow> keepsI (Serial_update D i c)" "I c \<Longrightarrow> keepsI (Serial_updateForInterrupts D i c)"
  unfolding Serial_update_def Serial_updateForInterrupts_def by (intro steps runs; simp)+

subsection \<open>The bus\<close>

lemma readIO_keeps [runs]:
  "I c \<Longrightarrow> keepsV (readTPUReg D ch r c)" "I c \<Longrightarrow> keepsV (readSerialReg D i r c)"
  unfolding readTPUReg_def readSerialReg_def by (intro steps runs; simp)+

lemma readIOReg_keeps [runs]:
  "I c \<Longrightarrow> keepsV (readIOReg_switch D a c)" "I c \<Longrightarrow> keepsV (readIOReg D a c)"
proof -
  show s: "I c \<Longrightarrow> keepsV (readIOReg_switch D a c)" for c a
    unfolding readIOReg_switch_def by (intro steps runs; simp)
  show "I c \<Longrightarrow> keepsV (readIOReg D a c)"
    unfolding readIOReg_def by (intro steps runs s; simp)
qed

lemma writeIO_keeps [runs]:
  "I c \<Longrightarrow> keepsI (writeTPUReg D ch r v c)" "I c \<Longrightarrow> keepsI (writeSerialReg D i r v c)"
  unfolding writeTPUReg_def writeSerialReg_def
  by (intro steps runs holds_bind [where Q = "\<lambda>_. True"]; simp add: holds_def)+

lemma writeIER_keeps [intro!, simp]: "I c \<Longrightarrow> I (writeIER v c)"
proof -
  assume I: "I c"
  have l: "I c \<Longrightarrow> I (fold (\<lambda>i c. if tst s (bitv i) then interrupt (IS_IRQ0 + i) c else c) is c)" for s "is" c
    by (induction "is" arbitrary: c) simp_all
  show ?thesis
    unfolding writeIER_def Let_def by (rule if_split [THEN iffD2], intro conjI impI l) (simp_all add: I)
qed

lemma writeTSTR_keeps [runs]: "I c \<Longrightarrow> keepsI (writeTSTR D v c)"
proof -
  have l: "I c \<Longrightarrow> keepsI (writeTSTR_loop D is ch v c)" for "is" ch c
  proof (induction "is" arbitrary: c)
    case (Cons i "is")
    show ?case unfolding writeTSTR_loop.simps by (intro steps runs Cons; simp add: Cons.prems)
  qed simp
  show "I c \<Longrightarrow> keepsI (writeTSTR D v c)"
    unfolding writeTSTR_def by (intro steps l; simp)
qed

lemma writeIOReg_keeps [runs]:
  "I c \<Longrightarrow> keepsI (writeIOReg_switch D a v c)" "I c \<Longrightarrow> keepsI (writePxDR D p v c)"
  "I c \<Longrightarrow> keepsI (writeIOReg D a v c)"
proof -
  show s: "I c \<Longrightarrow> keepsI (writeIOReg_switch D a v c)" for c a v
    unfolding writeIOReg_switch_def by (intro steps runs; simp)
  show p: "I c \<Longrightarrow> keepsI (writePxDR D p v c)" for c p v
    unfolding writePxDR_def by (intro steps runs; simp)
  show "I c \<Longrightarrow> keepsI (writeIOReg D a v c)"
    unfolding writeIOReg_def by (intro steps runs s p; simp)
qed

lemma ext_read_keeps:
  "I c \<Longrightarrow> holds (\<lambda>(v, irqs, w). I (c\<lparr>world := w\<rparr>)) (ext_read D x a (world c))"
  using device(1) by (auto simp: holds_def)

lemma ext_write_keeps:
  "I c \<Longrightarrow> holds (\<lambda>(irqs, w). I (c\<lparr>world := w\<rparr>)) (ext_write D x a v (world c))"
  using device(2) by (auto simp: holds_def)

lemma ext_access_keeps:
  assumes "I c"
  shows "keepsV (do { (v, irqs, w) \<leftarrow> ext_read D x a (world c); Some (v, raise_irqs irqs (c\<lparr>world := w\<rparr>)) })"
    and "keepsI (do { (irqs, w) \<leftarrow> ext_write D x a v (world c); Some (raise_irqs irqs (c\<lparr>world := w\<rparr>)) })"
  by (rule holds_bind [OF ext_read_keeps [OF assms]], auto)
    (rule holds_bind [OF ext_write_keeps [OF assms]], auto)

lemma ptr_read_keeps:
  "I c \<Longrightarrow> keepsV (do { v \<leftarrow> ext_ptrRead D x a (world c); Some (v, c) })"
  by (rule holds_bind [where Q = "\<lambda>_. True"]) (simp_all add: holds_def)

lemma byte_keeps [runs]:
  "I c \<Longrightarrow> keepsV (readByte D a c)" "I c \<Longrightarrow> keepsI (writeByte D a v c)"
  unfolding readByte_def writeByte_def
  by (intro holds_let holds_if holds_case_option runs ptr_read_keeps ext_access_keeps; simp)+

lemma wide_keeps [runs]:
  "I c \<Longrightarrow> keepsV (readWord D a c)" "I c \<Longrightarrow> keepsV (readLong D a c)"
  "I c \<Longrightarrow> keepsI (writeWord D a w c)" "I c \<Longrightarrow> keepsI (writeLong D a l c)"
  unfolding readWord_def readLong_def writeWord_def writeLong_def by (intro steps runs; simp)+

lemma address_keeps [runs]:
  "I c \<Longrightarrow> keepsV (readAddr16 D a c)" "I c \<Longrightarrow> keepsV (readDisp16 D a c)"
  unfolding readAddr16_def readDisp16_def by (intro steps runs; simp)+

subsection \<open>Registers\<close>

lemma reg_updates [intro!, simp]:
  "I c \<Longrightarrow> I (er_upd r x c)" "I c \<Longrightarrow> I (movFlags v c)" "I c \<Longrightarrow> I (setFlag f on c)" "I c \<Longrightarrow> I (setFlags v c)"
  "I c \<Longrightarrow> I (pc_add n c)" "I c \<Longrightarrow> I (setPC p c)"
  by (simp_all add: er_upd_def movFlags_def setFlag_def setFlags_def pc_add_def setPC_def)

lemma set_keeps [runs]:
  "I c \<Longrightarrow> keepsI (setB r b c)" "I c \<Longrightarrow> keepsI (setW r w c)" "I c \<Longrightarrow> keepsI (setL r l c)"
  by (auto simp: setB_def setW_def setL_def Let_def)

text \<open>Reading a register has no effect: its value is arbitrary.\<close>

lemma bind_any: "(\<And>v. holds P (f v)) \<Longrightarrow> holds P (m \<bind> f)"
  by (cases m) auto

lemma un_keeps [runs]:
  "I c \<Longrightarrow> keepsI (unB f r c)" "I c \<Longrightarrow> keepsI (unW g r c)" "I c \<Longrightarrow> keepsI (unL h r c)"
  unfolding unB_def unW_def unL_def by (intro bind_any holds_let holds_case_prod runs; simp)+

lemma cmp_keeps [runs]:
  "I c \<Longrightarrow> keepsI (cmpB a r c)" "I c \<Longrightarrow> keepsI (cmpW b r c)" "I c \<Longrightarrow> keepsI (cmpL l r c)"
  unfolding cmpB_def cmpW_def cmpL_def by (intro bind_any; simp)+

lemma load_keeps [runs]:
  "I c \<Longrightarrow> keepsI (loadB D a r c)" "I c \<Longrightarrow> keepsI (loadW D a r c)" "I c \<Longrightarrow> keepsI (loadL D a r c)"
  unfolding loadB_def loadW_def loadL_def by (intro steps runs; simp)+

lemma store_keeps [runs]:
  "I c \<Longrightarrow> keepsI (storeB D a r c)" "I c \<Longrightarrow> keepsI (storeW D a r c)" "I c \<Longrightarrow> keepsI (storeL D a r c)"
  unfolding storeB_def storeW_def storeL_def by (intro bind_any runs; simp)+

lemma pushLong_keeps [runs]: "I c \<Longrightarrow> keepsI (pushLong D v c)"
  unfolding pushLong_def by (intro steps runs; simp)

lemma fetchTiming_nonneg [simp]: "I c \<Longrightarrow> 0 \<le> n \<Longrightarrow> 0 \<le> fetchTiming n c"
  by (simp add: fetchTiming_def times)

lemma fetched_states [runs]: "I c \<Longrightarrow> 0 \<le> n \<Longrightarrow> 0 \<le> k \<Longrightarrow> keepsN (fetched n k c)"
  by (simp add: fetched_def)

lemma invalid_states [runs]: "I c \<Longrightarrow> keepsN (invalid c)"
  by (simp add: invalid_def)

end

end
