(* ===== verification/H8StepInvariant.thy ===== *)
theory H8StepInvariant
  imports H8Invariant
begin

text \<open>The second part of the lemmas of \<open>cpu_invariant\<close>: the instructions, one round of the CPU and its loop.\<close>

declare cpu_loop.simps [simp del]

context cpu_invariant
begin

subsection \<open>Instructions\<close>

text \<open>
  Reading a register or a condition has no effect, so the value is arbitrary.
\<close>

lemma bind_reads:
  "(\<And>v. holds P (f v)) \<Longrightarrow> holds P (regB r c \<bind> f)"
  "(\<And>v. holds P (g v)) \<Longrightarrow> holds P (regW r c \<bind> g)"
  "(\<And>v. holds P (h v)) \<Longrightarrow> holds P (regL r c \<bind> h)"
  "(\<And>v. holds P (k v)) \<Longrightarrow> holds P (branchCondition i d \<bind> k)"
  "(\<And>u. holds P (a u)) \<Longrightarrow> holds P ((l :: unit option) \<bind> a)"
  by (rule bind_any, assumption)+

text \<open>
  Which encoding is taken does not matter either; without the conditions of the branches
  the goals stay small.
\<close>

lemma either: "holds P m \<Longrightarrow> holds P n \<Longrightarrow> holds P (if b then m else n)"
  by simp

lemma let_any: "(\<And>x. holds P (f x)) \<Longrightarrow> holds P (Let t f)"
  by simp

lemmas decode = bind_reads bind_state bind_value let_state let_any either holds_case_option holds_case_prod

lemma handleBit_keeps [runs]:
  "I c \<Longrightarrow> keepsV (handleBitFlags D op a b c)" "I c \<Longrightarrow> keepsV (modifyByte D a f c)"
  "I c \<Longrightarrow> keepsV (handleBitValue D op a b c)"
proof -
  show f: "I c \<Longrightarrow> keepsV (modifyByte D a f c)" for a f c
    unfolding modifyByte_def by (intro steps runs; simp)
  show "I c \<Longrightarrow> keepsV (handleBitFlags D op a b c)"
    unfolding handleBitFlags_def by (intro decode runs; simp)
  show "I c \<Longrightarrow> keepsV (handleBitValue D op a b c)"
    unfolding handleBitValue_def by (intro decode f; simp)
qed

lemma mov_states [runs]:
  "I c \<Longrightarrow> keepsN (movL_0100_6B D b3 c)"
  unfolding movL_0100_6B_def by (intro decode runs; simp add: times)

lemma handleLongMOV0100_states [runs]: "I c \<Longrightarrow> keepsN (handleLongMOV0100 D c)"
  unfolding handleLongMOV0100_def by (intro decode runs; simp add: times)

lemma handleLong01F0_states [runs]: "I c \<Longrightarrow> keepsN (handleLong01F0 D c)"
  unfolding handleLong01F0_def by (intro decode runs; simp)

lemma handleADDSINC_states [runs]: "I c \<Longrightarrow> keepsN (handleADDSINC b1 c)"
  unfolding handleADDSINC_def by (intro decode runs; simp)

lemma handleSUBSDEC_states [runs]: "I c \<Longrightarrow> keepsN (handleSUBSDEC b1 c)"
  unfolding handleSUBSDEC_def by (intro decode runs; simp)

lemma handleLeftShift_states [runs]: "I c \<Longrightarrow> keepsN (handleLeftShift b1 c)"
  unfolding handleLeftShift_def by (intro decode runs; simp)

lemma handleRightShift_states [runs]: "I c \<Longrightarrow> keepsN (handleRightShift b1 c)"
  unfolding handleRightShift_def by (intro decode runs; simp)

lemma handleLeftRotate_states [runs]: "I c \<Longrightarrow> keepsN (handleLeftRotate b1 c)"
  unfolding handleLeftRotate_def by (intro decode runs; simp)

lemma handleRightRotate_states [runs]: "I c \<Longrightarrow> keepsN (handleRightRotate b1 c)"
  unfolding handleRightRotate_def by (intro decode runs; simp)

lemma handleNOTEXTNEG_states [runs]: "I c \<Longrightarrow> keepsN (handleNOTEXTNEG b1 c)"
  unfolding handleNOTEXTNEG_def by (intro decode runs; simp)


lemma handleBranch_states [runs]: "I c \<Longrightarrow> keepsN (handleBranch b n c)"
  unfolding handleBranch_def by (intro decode runs; simp)

lemma ldcstc_operand_keeps:
  "I c \<Longrightarrow> holds (\<lambda>((a, n, s), c). 0 \<le> n \<and> I c) (ldcstc_operand D b2 b3 c)"
  unfolding ldcstc_operand_def by (intro bind_reads steps runs; simp)

lemma handleWordLDCSTC_states [runs]: "I c \<Longrightarrow> keepsN (handleWordLDCSTC D c)"
  unfolding handleWordLDCSTC_def
  by (intro decode runs holds_bind [OF ldcstc_operand_keeps]; auto intro!: decode runs simp: times)

lemma bitAbs6A_states [runs]: "I c \<Longrightarrow> 0 \<le> n \<Longrightarrow> keepsN (bitAbs6A D b1 x y z a n c)"
  unfolding bitAbs6A_def by (intro decode runs; simp add: times)

lemma handle6A_states [runs]: "I c \<Longrightarrow> keepsN (handle6A D b1 c)"
  unfolding handle6A_def by (intro decode runs; simp add: times)

lemma handle6B_states [runs]: "I c \<Longrightarrow> keepsN (handle6B D b1 c)"
  unfolding handle6B_def by (intro decode runs; simp add: times)

lemma handleMOV78_states [runs]: "I c \<Longrightarrow> keepsN (handleMOV78 D b1 c)"
  unfolding handleMOV78_def by (intro decode runs; simp add: times)

lemma handleWord79_states [runs]: "I c \<Longrightarrow> keepsN (handleWord79 D b1 c)"
  unfolding handleWord79_def by (intro decode runs; simp add: times)

lemma handleLong7A_states [runs]: "I c \<Longrightarrow> keepsN (handleLong7A D b1 c)"
  unfolding handleLong7A_def by (intro decode runs; simp add: times)

lemma exec_imm8_states [runs]: "I c \<Longrightarrow> keepsN (exec_imm8 D b0 b1 c)"
  unfolding exec_imm8_def by (intro decode runs; simp add: times)

lemma stm_keeps [runs]: "I c \<Longrightarrow> keepsI (stm_regs D rs c)" "I c \<Longrightarrow> keepsI (ldm_regs D is c)"
proof -
  show "I c \<Longrightarrow> keepsI (stm_regs D rs c)"
  proof (induction rs arbitrary: c)
    case (Cons r rs)
    show ?case unfolding stm_regs.simps by (intro decode runs Cons.IH; simp add: Cons.prems)
  qed simp
  show "I c \<Longrightarrow> keepsI (ldm_regs D is c)"
  proof (induction "is" arbitrary: c)
    case (Cons r "is")
    show ?case unfolding ldm_regs.simps by (intro decode runs Cons.IH; simp add: Cons.prems)
  qed simp
qed

lemma eepmov_keeps [runs]: "I c \<Longrightarrow> keepsI (eepmov_loop D n c)"
proof (induction n arbitrary: c)
  case (Suc n)
  show ?case unfolding eepmov_loop.simps by (intro decode runs Suc.IH; simp add: Suc.prems)
qed simp

lemma exec_ldmstm_states [runs]: "I c \<Longrightarrow> keepsN (exec_ldmstm D b1 c)"
  unfolding exec_ldmstm_def by (intro decode runs; simp add: times)

lemma exec_mulxs_states [runs]: "I c \<Longrightarrow> keepsN (exec_mulxs D c)"
  unfolding exec_mulxs_def by (intro decode runs; simp add: times)

lemma exec_divxs_states [runs]: "I c \<Longrightarrow> keepsN (exec_divxs D c)"
  unfolding exec_divxs_def by (intro decode runs; simp add: times)

lemma exec_tas_states [runs]: "I c \<Longrightarrow> keepsN (exec_tas D c)"
  unfolding exec_tas_def by (intro decode runs; simp add: times)

lemma exec_01_states [runs]: "I c \<Longrightarrow> keepsN (exec_01 D b1 c)"
  unfolding exec_01_def by (intro decode runs; simp add: times)

lemma exec_0x_states [runs]: "I c \<Longrightarrow> keepsN (exec_0x D op b1 c)"
  unfolding exec_0x_def by (intro decode runs; simp add: times)

lemma exec_1x_states [runs]: "I c \<Longrightarrow> keepsN (exec_1x D op b1 c)"
  unfolding exec_1x_def by (intro decode runs; simp add: times)

lemma exec_muldiv_states [runs]: "I c \<Longrightarrow> keepsN (exec_muldiv op b1 c)"
  unfolding exec_muldiv_def by (intro decode runs; simp add: times)

lemma exec_rts_states [runs]: "I c \<Longrightarrow> keepsN (exec_rts D b1 c)"
  unfolding exec_rts_def by (intro decode runs; simp add: times)

lemma exec_rte_states [runs]: "I c \<Longrightarrow> keepsN (exec_rte D b1 c)"
  unfolding exec_rte_def by (intro decode runs; simp add: times)

lemma add_states: "keepsN m \<Longrightarrow> holds (\<lambda>(n, c). 0 \<le> n \<and> I c) (m \<bind> (\<lambda>(n, c). Some (n + 1, c)))"
  by (rule bind_states) simp_all

lemma exec_5x_states [runs]: "I c \<Longrightarrow> keepsN (exec_5x D op b1 c)"
  unfolding exec_5x_def by (intro add_states decode runs; simp add: times)

lemma exec_6x_states [runs]: "I c \<Longrightarrow> keepsN (exec_6x D op b1 c)"
  unfolding exec_6x_def by (intro decode runs; simp add: times)

lemma exec_eepmov_states [runs]: "I c \<Longrightarrow> keepsN (exec_eepmov D b1 c)"
  unfolding exec_eepmov_def by (intro bind_reads steps runs; simp add: times)

lemma bind_addr: "(\<And>v. holds P (f v)) \<Longrightarrow> holds P ((if b then regL r c else Some a) \<bind> f)"
  by (rule bind_any)

lemma exec_bitMem_states [runs]: "I c \<Longrightarrow> keepsN (exec_bitMem D op b1 c)"
  unfolding exec_bitMem_def by (intro decode bind_addr runs; simp add: times)

lemma exec_7x_states [runs]: "I c \<Longrightarrow> keepsN (exec_7x D op b1 c)"
  unfolding exec_7x_def by (intro decode runs; simp add: times)

text \<open>An instruction keeps the invariant and takes at least 0 states.\<close>

lemma executeInstruction_states [runs]: "I c \<Longrightarrow> keepsN (executeInstruction D c)"
  unfolding executeInstruction_def by (intro decode runs; simp)

subsection \<open>DMA transfers, interrupts and the data transfer controller\<close>

lemma copyUnit_keeps [runs]: "I c \<Longrightarrow> keepsI (copyUnit D sz src dst c)"
  unfolding copyUnit_def by (intro decode runs; simp)

lemma dma_move_states [runs]: "I c \<Longrightarrow> keepsN (dma_move D sz src dst c)"
  unfolding dma_move_def by (intro bind_reads steps runs; simp add: times)

lemma dma_full_states [runs]: "I c \<Longrightarrow> keepsN (dma_full D ch c)"
  unfolding dma_full_def by (intro bind_states decode runs; simp)

lemma clearRequest_keeps [intro!, simp]: "I c \<Longrightarrow> I (clearRequest s c)"
  by (simp add: clearRequest_def)

lemma clearSSR_keeps [runs]: "I c \<Longrightarrow> keepsI (clearSSR D i f c)"
  unfolding clearSSR_def by (rule runs)

lemma dma_subFinish_keeps [runs]: "I c \<Longrightarrow> keepsI (dma_subFinish D ch h k src dst e irq c)"
  unfolding dma_subFinish_def by (intro decode runs; simp add: Let_def)

lemma dma_sub_states [runs]: "I c \<Longrightarrow> keepsN (dma_sub D ch h k a irq c)"
  unfolding dma_sub_def by (intro bind_states decode runs; simp)

lemma DMA_transfer_states [runs]: "I c \<Longrightarrow> keepsN (DMA_transfer D ch c)"
  unfolding DMA_transfer_def by (intro bind_states decode runs; simp)

lemma enterInterrupt_keeps [runs]: "I c \<Longrightarrow> keepsI (enterInterrupt D i c)"
  unfolding enterInterrupt_def by (intro decode runs; simp)

lemma serviceInterrupt_keeps [runs]:
  "I c \<Longrightarrow> keepsV (checkInterruptMask D m i c)" "I c \<Longrightarrow> keepsI (serviceInterrupt D c)"
proof -
  show v: "I c \<Longrightarrow> keepsV (checkInterruptMask D m i c)" for m i c
    unfolding checkInterruptMask_def by (intro decode runs; simp)
  show "I c \<Longrightarrow> keepsI (serviceInterrupt D c)"
    unfolding serviceInterrupt_def by (intro decode runs v; simp)
qed

lemma dtc_copies_keeps:
  "I c \<Longrightarrow> holds (\<lambda>(s, d, c). I c) (dtc_copies D m sz n src dst c)"
proof (induction n arbitrary: src dst c)
  case (Suc n)
  show ?case unfolding dtc_copies.simps by (intro decode runs Suc.IH; simp add: Suc.prems)
qed simp

lemma ram_keeps [intro!, simp]:
  "I c \<Longrightarrow> I (setRam a v c)" "I c \<Longrightarrow> I (setRamAddr24 a w c)" "I c \<Longrightarrow> I (dtc_writeBack n m s d c)"
  "I c \<Longrightarrow> I (dtc_finish i j q b e c)"
  by (simp_all add: setRam_def setRamAddr24_def dtc_writeBack_def dtc_finish_def Let_def)

lemma dtc_storeCount_keeps:
  "I c \<Longrightarrow> case dtc_storeCount vec m k n e src dst c of (e, s, d, c) \<Rightarrow> I c"
  by (simp add: dtc_storeCount_def Let_def split: prod.splits)

lemma dtc_link_keeps: "I c \<Longrightarrow> holds (\<lambda>(e, s, d, c). I c) (dtc_link D vec e c)"
  unfolding dtc_link_def
proof (intro let_any either holds_None holds_bind [OF dtc_copies_keeps], assumption, clarify)
  fix src dst :: u32 and c' vec m k n e
  assume "I c'"
  then show "holds (\<lambda>(e, s, d, c). I c)
      (let (e, s, d, c) = dtc_storeCount vec m k n e src dst c'
       in Some (e, s, d, dtc_writeBack vec m s d c))"
    using dtc_storeCount_keeps [of c' vec m k n e src dst] by (auto simp: Let_def split: prod.splits)
qed

lemma dtc_chain_keeps: "I c \<Longrightarrow> holds (\<lambda>(e, s, d, c). I c) (dtc_chain D i j irq vec ended c)"
proof (induction "0x2000 - vec" arbitrary: vec ended c rule: less_induct)
  case less
  show ?case
  proof (cases "0x2000 \<le> vec + 9")
    case False
    have next': "holds (\<lambda>(e, s, d, c). I c) (dtc_chain D i j irq (vec + 12) e c)" if "I c" for e c
      by (rule less.hyps) (use False that in simp_all)
    have "holds (\<lambda>(e, s, d, c). I c)
        (if tst b (bitv 7) then dtc_chain D i j irq (vec + 12) ended c
         else do { e \<leftarrow> ended; Some (e, src, dst, dtc_finish i j irq b e c) })"
      if "I c" for b ended c src dst
      by (intro either next' bind_any; simp add: that)
    then show ?thesis
      unfolding dtc_chain.simps [of D i j irq vec ended c]
      using False by (auto simp: Let_def intro!: holds_bind [OF dtc_link_keeps [OF less.prems]])
  qed simp
qed

lemma clear_ADF [simp]: "I c \<Longrightarrow> I (c\<lparr>a2dControlStatus := a2dControlStatus c AND - 129\<rparr>)"
  using adc(3) [of c] by simp

lemma dtc_clearFlags_keeps [runs]: "I c \<Longrightarrow> keepsI (dtc_clearFlags D s d c)"
  unfolding dtc_clearFlags_def by (intro decode runs; simp)

lemma updateDTC_keeps [runs]:
  assumes "I c" shows "keepsV (updateDTC D c)"
proof -
  have e: "keepsV (if e then Some (False, c) else do { c \<leftarrow> dtc_clearFlags D s d c; Some (True, c) })"
    if "I c" for e s d c
    by (intro decode runs; simp add: that)
  have "keepsV (do { (v, c) \<leftarrow> readWord D a c;
      if v < 0xDC00 then None
      else do { (ended, src, dst, c) \<leftarrow> dtc_chain D i j irq (unat (v - 0xDC00)) None c;
                if ended then Some (False, c)
                else do { c \<leftarrow> dtc_clearFlags D src dst c; Some (True, c) } } })"
    if "I c" for a i j irq c
    by (rule bind_value [OF wide_keeps(1) [OF that]], rule either, simp)
      (erule holds_bind [OF dtc_chain_keeps], auto intro!: e)
  with assms show ?thesis
    unfolding updateDTC_def by (auto split: dtc_scan.split)
qed

subsection \<open>The main loop\<close>

lemma run_keeps [runs]:
  "I c \<Longrightarrow> keepsN (run_dmac D c)" "I c \<Longrightarrow> keepsI (run_interrupts D c)"
  unfolding run_dmac_def run_interrupts_def by (intro bind_states decode runs; simp)+

lemma each_tpu_keeps:
  "(\<And>i c. I c \<Longrightarrow> keepsI (f i c)) \<Longrightarrow> I c \<Longrightarrow> keepsI (each_tpu f is m c)"
proof (induction "is" arbitrary: c)
  case (Cons i "is")
  show ?case unfolding each_tpu.simps by (intro decode Cons.IH; simp add: Cons.prems)
qed simp

lemma update_keeps [runs]:
  "I c \<Longrightarrow> keepsI (update_tpus D c)" "I c \<Longrightarrow> keepsI (update_serials D c)" "I c \<Longrightarrow> keepsI (sync_tpus D c)"
  unfolding update_tpus_def update_serials_def sync_tpus_def
  by (intro decode each_tpu_keeps runs; simp)+

lemma update_timers_keeps [intro!, simp]: "I c \<Longrightarrow> I (update_timers c)"
  by (simp add: update_timers_def)

lemma update_peripherals_keeps [runs]: "I c \<Longrightarrow> keepsI (update_peripherals D n c)"
  unfolding update_peripherals_def by (intro decode runs; simp)

text \<open>A round that returns a number of states took at least one.\<close>

lemma cpu_round_states:
  assumes "I c"
  shows "holds (\<lambda>(r, c). I c \<and> (\<forall>n. r = Some n \<longrightarrow> 1 \<le> n)) (cpu_round D c)"
proof -
  have tail: "holds (\<lambda>(r, c). I c \<and> (\<forall>n. r = Some n \<longrightarrow> 1 \<le> n))
      (if m = 0 then Some (None, c)
       else let executed = n + m; c = c\<lparr>clock := clock c + word_of_int executed\<rparr>
            in update_peripherals D executed c \<bind> (\<lambda>c. Some (Some executed, c)))"
    if "0 \<le> n" "0 \<le> m" "I c" for n m c
  proof (rule holds_if, goal_cases)
    case 2
    then show ?case unfolding Let_def by (intro bind_state runs) (use that in simp_all)
  qed (use that in simp)
  have "keepsN (if sleeping c then Some (1, c) else executeInstruction D c)" if "I c" for c
    by (intro either runs; simp add: that)
  then show ?thesis
    unfolding cpu_round_def by (intro bind_states bind_state runs assms tail)
qed

text \<open>The loop, and all of \<open>executeCycles\<close>.\<close>

lemma cpu_loop_keeps: "I c \<Longrightarrow> keepsV (cpu_loop f D n c)"
proof (induction f arbitrary: n c)
  case 0
  then show ?case by (subst cpu_loop.simps) simp
next
  case (Suc f)
  have "keepsV (case r of None \<Rightarrow> Some (False, c) | Some k \<Rightarrow> cpu_loop f D (n - k) c)" if "I c" for r c
    using that by (auto split: option.split intro: Suc.IH)
  then show ?case
    by (subst cpu_loop.simps) (auto intro!: holds_bind [OF cpu_round_states [OF Suc.prems]] simp: Suc.prems)
qed

lemma executeCycles_keeps: "I c \<Longrightarrow> keepsV (executeCycles D n c)"
  unfolding executeCycles_def by (intro decode runs cpu_loop_keeps; simp)

end

end
