(* ===== verification/H8Safety.thy ===== *)
theory H8Safety
  imports H8StepInvariant
begin

text \<open>
  What no run of the emulator changes: the step relation of the whole machine (a slice of
  emulated time, an interrupt line, an input of the converter, a device changing by itself,
  a reset), its reachable states, and the invariants that hold in all of them, each an
  interpretation of \<open>machine_invariant\<close>.
\<close>

section \<open>The machine as a step relation\<close>

inductive machine_step :: "'d devices \<Rightarrow> 'd cpu \<Rightarrow> 'd cpu \<Rightarrow> bool" for D where
  run: "executeCycles D n c = Some (ok, c') \<Longrightarrow> machine_step D c c'"
| line: "machine_step D c (externalInterrupt i c)"
| request: "machine_step D c (interrupt s c)"
| analog: "machine_step D c (setADCValue ch v c)"
| device: "machine_step D c (c\<lparr>world := w\<rparr>)"
| restart: "machine_step D c (reset c)"

inductive reachable :: "'d devices \<Rightarrow> 'd cpu \<Rightarrow> 'd cpu \<Rightarrow> bool" for D c where
  here: "reachable D c c"
| step: "reachable D c c' \<Longrightarrow> machine_step D c' c'' \<Longrightarrow> reachable D c c''"

locale machine_invariant = cpu_invariant D I for D :: "'d devices" and I +
  assumes outside: "I c \<Longrightarrow> I (setADCValue ch v c)" "I c \<Longrightarrow> I (c\<lparr>world := w\<rparr>)" "I c \<Longrightarrow> I (reset c)"
begin

lemma step_keeps: "machine_step D c c' \<Longrightarrow> I c \<Longrightarrow> I c'"
  by (induction rule: machine_step.induct) (use executeCycles_keeps in \<open>auto simp: outside holds_def\<close>)

lemma reachable_keeps: "reachable D c c' \<Longrightarrow> I c \<Longrightarrow> I c'"
  by (induction rule: reachable.induct) (auto intro: step_keeps)

lemma reachable_states:
  "reachable D c c' \<Longrightarrow> I c \<Longrightarrow> executeInstruction D c' = Some (n, c'') \<Longrightarrow> 0 \<le> n"
  using executeInstruction_states [OF reachable_keeps] by (fastforce simp: holds_def)

end

section \<open>The bus\<close>

text \<open>The tables of access times agree with the bus controller registers.\<close>

definition bus_ok :: "'d cpu \<Rightarrow> bool" where
  "bus_ok c \<longleftrightarrow> (\<forall>i<8. areaAccessCycles8 c i = busTiming8 c i \<and> areaAccessCycles16 c i = busTiming16 c i)"

text \<open>What is wired to the bus, and the contents of the ROM.\<close>

definition wiring :: "'d cpu \<Rightarrow> (nat \<Rightarrow> u8) \<times> (nat \<Rightarrow> nat option) \<times> (nat \<Rightarrow> u32) \<times> (nat \<Rightarrow> nat option)" where
  "wiring c = (rom c, areaPtrs c, areaMasks c, externalAreas c)"

definition wired :: "(nat \<Rightarrow> u8) \<times> (nat \<Rightarrow> nat option) \<times> (nat \<Rightarrow> u32) \<times> (nat \<Rightarrow> nat option)
    \<Rightarrow> 'd cpu \<Rightarrow> bool" where
  "wired w c \<longleftrightarrow> bus_ok c \<and> wiring c = w"

lemma bus_ok_update [simp]: "bus_ok (updateBusTimings c)"
  by (simp add: bus_ok_def updateBusTimings_def busTiming8_def busTiming16_def)

lemma busTiming8_bounds: "2 \<le> busTiming8 c i" "busTiming8 c i \<le> 6"
proof -
  have "uint (drop_bit (i * 2) (busWaits c) AND 3) \<le> 3"
    using word_and_le1 [of "drop_bit (i * 2) (busWaits c)" 3]
    by (simp add: word_le_def)
  then show "2 \<le> busTiming8 c i" "busTiming8 c i \<le> 6"
    by (auto simp: busTiming8_def)
qed

lemma busTiming16_bounds: "2 \<le> busTiming16 c i" "busTiming16 c i \<le> 12"
  using busTiming8_bounds [of c i] by (auto simp: busTiming16_def)

lemma area_of_less: "area_of a < 8"
proof -
  have "drop_bit 21 a AND 7 \<le> (7 :: u32)" by (rule word_and_le1)
  then show ?thesis by (simp add: area_of_def word_le_nat_alt)
qed

lemma access_times:
  assumes "bus_ok c"
  shows "1 \<le> byteAccessTiming a c" "byteAccessTiming a c \<le> 6"
    and "1 \<le> wordAccessTiming a c" "wordAccessTiming a c \<le> 12"
  using assms area_of_less [of a] busTiming8_bounds [of c "area_of a"] busTiming8_bounds [of c 7]
    busTiming16_bounds [of c "area_of a"] busTiming16_bounds [of c 7]
  by (auto simp: byteAccessTiming_def wordAccessTiming_def bus_ok_def)

section \<open>The A/D converter\<close>

definition adc_ok :: "'d cpu \<Rightarrow> bool" where
  "adc_ok c \<longleftrightarrow> 0 \<le> a2dChannel c \<and> a2dChannel c \<le> a2dEndChannel c \<and> a2dEndChannel c \<le> 7
     \<and> 0 \<le> a2dConversionTime c"

lemma adc_ok_write: "adc_ok (writeADCSR v c)"
proof -
  have "(v AND 7) AND 4 \<le> v AND 7" "v AND 7 \<le> 7"
    by (rule word_and_le2, rule word_and_le1)
  then have "uint (v AND 4) \<le> uint (v AND 7)" "uint (v AND 7) \<le> 7"
    by (simp_all add: word_le_def and.assoc)
  then show ?thesis
    by (auto simp: adc_ok_def writeADCSR_def Let_def)
qed

lemma adc_ok_flag: "adc_ok (c\<lparr>a2dControlStatus := v\<rparr>) \<longleftrightarrow> adc_ok c"
  by (simp add: adc_ok_def)

lemma adc_ok_interrupt: "adc_ok (interrupt s c) \<longleftrightarrow> adc_ok c"
  by (simp add: adc_ok_def interrupt_def)

lemma adc_ok_wrap: "adc_ok c \<Longrightarrow> adc_ok (c\<lparr>a2dChannel := and (a2dEndChannel c) 4\<rparr>)"
  by (auto simp: adc_ok_def AND_lower AND_upper1)

text \<open>The converter never reads a channel that does not exist, and its state stays in range.\<close>

lemma updateADC_total: "adc_ok c \<Longrightarrow> \<exists>c'. updateADC n c = Some c'"
  by (auto simp: updateADC_def adc_ok_def Let_def)

lemma adc_ok_update: "adc_ok c \<Longrightarrow> holds adc_ok (updateADC n c)"
  by (auto simp: updateADC_def adc_ok_def Let_def interrupt_def AND_lower AND_upper1)

section \<open>The invariants of every run\<close>

lemmas frame = bus_ok_def busTiming8_def busTiming16_def wired_def wiring_def adc_ok_def

interpretation wires: machine_invariant D "wired w" for D :: "'d devices" and w
proof
  fix c :: "'d cpu" and v n a
  assume w: "wired w c"
  then show "wired w (writeADCSR v c)" "holds (wired w) (updateADC n c)"
    by (auto simp: writeADCSR_def updateADC_def interrupt_def frame Let_def)
  from w have "bus_ok c" by (simp add: wired_def)
  then show "0 \<le> byteAccessTiming a c" "0 \<le> wordAccessTiming a c"
    using access_times [of c a] by linarith+
qed (auto simp: frame updateBusTimings_def setADCValue_def reset_def Let_def)

interpretation converter: machine_invariant D "\<lambda>c. bus_ok c \<and> adc_ok c" for D :: "'d devices"
proof
  fix c :: "'d cpu" and v n a
  assume w: "bus_ok c \<and> adc_ok c"
  then show "bus_ok (writeADCSR v c) \<and> adc_ok (writeADCSR v c)"
    using adc_ok_write [of v c] by (auto simp: writeADCSR_def frame Let_def)
  from w have "holds (wired (wiring c)) (updateADC n c)"
    by (intro wires.adc) (simp add: wired_def)
  with adc_ok_update [of c n] w show "holds (\<lambda>c. bus_ok c \<and> adc_ok c) (updateADC n c)"
    by (auto simp: holds_def wired_def)
  show "0 \<le> byteAccessTiming a c" "0 \<le> wordAccessTiming a c"
    using access_times [of c a] w by linarith+
qed (auto simp: frame updateBusTimings_def setADCValue_def reset_def Let_def)

lemma reset_ok [simp]: "bus_ok (reset c)" "adc_ok (reset c) \<longleftrightarrow> adc_ok c"
  by (simp_all add: reset_def Let_def frame updateBusTimings_def)

section \<open>Properties\<close>

text \<open>
  C1: Whatever program runs, whatever the devices do and whichever interrupts arrive, the
  emulator never changes the boot ROM, the attachment of the external devices or the
  pointers and masks with which memory is accessed directly: in every reachable state they
  are as they were at the start.
\<close>

theorem rom_never_written:
  assumes "bus_ok c" and "reachable D c c'"
  shows "rom c' = rom c \<and> areaPtrs c' = areaPtrs c \<and> areaMasks c' = areaMasks c
    \<and> externalAreas c' = externalAreas c"
proof -
  have "wired (wiring c) c'"
    using wires.reachable_keeps [OF assms(2)] assms(1) by (simp add: wired_def)
  then show ?thesis by (simp add: wired_def wiring_def)
qed

theorem rom_never_written_witness:
  "rom (externalInterrupt 0 (interrupt 16 (reset bare_cpu))) 0 = 0"
proof -
  have "reachable bare_devices (reset bare_cpu) (externalInterrupt 0 (interrupt 16 (reset bare_cpu)))"
    by (rule reachable.step [OF reachable.step [OF reachable.here]])
      (rule machine_step.request, rule machine_step.line)
  then show ?thesis
    by (subst rom_never_written [of "reset bare_cpu", THEN conjunct1], simp)
      (assumption, simp add: reset_def bare_cpu_def init_cpu_def Let_def updateBusTimings_def)
qed

text \<open>
  C3: In every reachable state the access times of the eight areas are the ones the bus
  controller registers select, so a byte access takes 1 to 6 states and a word access 1 to
  12, and an instruction never takes a negative number of states.
\<close>

theorem bus_timing_invariant:
  assumes "bus_ok c" and "reachable D c c'"
  shows "bus_ok c'
    \<and> (1 \<le> byteAccessTiming a c' \<and> byteAccessTiming a c' \<le> 6)
    \<and> (1 \<le> wordAccessTiming a c' \<and> wordAccessTiming a c' \<le> 12)
    \<and> (executeInstruction D c' = Some (n, c'') \<longrightarrow> 0 \<le> n)"
proof -
  have w: "wired (wiring c) c" using assms(1) by (simp add: wired_def)
  have "wired (wiring c) c'"
    using wires.reachable_keeps [OF assms(2) w] .
  then have b: "bus_ok c'" by (simp add: wired_def)
  then show ?thesis
    using access_times [OF b] wires.reachable_states [OF assms(2) w] by blast
qed

theorem bus_timing_invariant_witness:
  "byteAccessTiming 0x200000 (externalInterrupt 3 (reset bare_cpu)) \<le> 6"
proof -
  have "reachable bare_devices (reset bare_cpu) (externalInterrupt 3 (reset bare_cpu))"
    by (rule reachable.step [OF reachable.here]) (rule machine_step.line)
  then show ?thesis
    using bus_timing_invariant reset_ok(1) by blast
qed

text \<open>
  From a state in which the converter's channel registers are in range, every reachable
  state has them in range, so updating the converter never reads beyond the eight analog
  inputs.
\<close>

theorem adc_in_range:
  assumes "bus_ok c" and "adc_ok c" and "reachable D c c'"
  shows "adc_ok c' \<and> (\<exists>c''. updateADC n c' = Some c'' \<and> adc_ok c'')"
proof -
  have a: "adc_ok c'"
    using converter.reachable_keeps [OF assms(3)] assms(1,2) by simp
  then show ?thesis
    using updateADC_total [OF a, of n] adc_ok_update [OF a, of n] by auto
qed

theorem adc_in_range_witness:
  "\<exists>c. updateADC 600 (setADCValue 2 7 (externalInterrupt 1 (reset bare_cpu))) = Some c \<and> adc_ok c"
proof -
  have "reachable bare_devices (reset bare_cpu) (setADCValue 2 7 (externalInterrupt 1 (reset bare_cpu)))"
    by (rule reachable.step [OF reachable.step [OF reachable.here]])
      (rule machine_step.line, rule machine_step.analog)
  moreover have "adc_ok bare_cpu"
    by (simp add: bare_cpu_def init_cpu_def adc_ok_def)
  ultimately show ?thesis
    using adc_in_range reset_ok by blast
qed

section \<open>The main loop ends\<close>

text \<open>The loop of \<open>executeCycles\<close> as the C++ runs it, without a bound on its rounds.\<close>

inductive loop_run :: "'d devices \<Rightarrow> int \<Rightarrow> 'd cpu \<Rightarrow> bool \<times> 'd cpu \<Rightarrow> bool" for D where
  finished: "n \<le> 0 \<Longrightarrow> loop_run D n c (True, c)"
| stop: "0 < n \<Longrightarrow> cpu_round D c = Some (None, c') \<Longrightarrow> loop_run D n c (False, c')"
| more: "0 < n \<Longrightarrow> cpu_round D c = Some (Some k, c') \<Longrightarrow> loop_run D (n - k) c' r \<Longrightarrow> loop_run D n c r"

inductive loop_reaches :: "'d devices \<Rightarrow> int \<Rightarrow> 'd cpu \<Rightarrow> int \<Rightarrow> 'd cpu \<Rightarrow> bool" for D where
  start: "loop_reaches D n c n c"
| round: "0 < n \<Longrightarrow> cpu_round D c = Some (Some k, c') \<Longrightarrow> loop_reaches D (n - k) c' n'' c'' \<Longrightarrow>
    loop_reaches D n c n'' c''"

inductive_cases loop_runE: "loop_run D n c r"

inductive_simps loop_run_finished: "loop_run D n c (True, c')"

lemma round_ok:
  assumes "bus_ok c" and "cpu_round D c = Some (r, c')"
  shows "bus_ok c' \<and> (\<forall>k. r = Some k \<longrightarrow> 1 \<le> k)"
  using wires.cpu_round_states [of "wiring c" c D] assms by (auto simp: holds_def wired_def)

lemmas cpu_loop_steps = cpu_loop.simps [of 0] cpu_loop.simps [of "Suc f" for f]

lemma cpu_loop_run:
  assumes "bus_ok c" and "cpu_loop f D n c = Some r" shows "loop_run D n c r"
  using assms
proof (induction f arbitrary: n c)
  case 0
  then show ?case by (auto simp: cpu_loop_steps intro: loop_run.finished split: if_splits)
next
  case (Suc f)
  show ?case
  proof (cases "n \<le> 0")
    case True
    with Suc.prems(2) have "r = (True, c)" by (simp add: cpu_loop_steps)
    with True show ?thesis by (simp add: loop_run.finished)
  next
    case n: False
    with Suc.prems(2) obtain k c' where k: "cpu_round D c = Some (k, c')"
      by (cases "cpu_round D c") (auto simp: cpu_loop_steps)
    show ?thesis
    proof (cases k)
      case None
      with k n Suc.prems(2) have "r = (False, c')" by (simp add: cpu_loop_steps)
      moreover have "loop_run D n c (False, c')" by (rule loop_run.stop) (use k n None in simp_all)
      ultimately show ?thesis by simp
    next
      case (Some m)
      have "cpu_loop f D (n - m) c' = Some r" using k n Some Suc.prems(2) by (simp add: cpu_loop_steps)
      moreover have "bus_ok c'" using round_ok [OF Suc.prems(1) k] by simp
      ultimately have "loop_run D (n - m) c' r" by (intro Suc.IH)
      moreover have "0 < n" "cpu_round D c = Some (Some m, c')" using n k Some by simp_all
      ultimately show ?thesis by (blast intro: loop_run.more)
    qed
  qed
qed

lemma loop_run_cpu_loop:
  assumes "loop_run D n c r" and "bus_ok c" and "nat n \<le> f" shows "cpu_loop f D n c = Some r"
  using assms
proof (induction arbitrary: f rule: loop_run.induct)
  case (finished n c)
  then show ?case by (subst cpu_loop.simps) simp
next
  case (stop n c c')
  then obtain g where "f = Suc g" by (cases f) auto
  with stop show ?case by (subst cpu_loop.simps) simp
next
  case (more n c k c' r)
  then obtain g where g: "f = Suc g" by (cases f) auto
  have k: "bus_ok c'" "1 \<le> k" using round_ok [OF more.prems(1) more.hyps(2)] by auto
  have "cpu_loop g D (n - k) c' = Some r"
    by (rule more.IH) (use k more.prems g in auto)
  with more.hyps g show ?case by (subst cpu_loop.simps) simp
qed

lemma cpu_loop_fails:
  assumes "bus_ok c" and "nat n \<le> f" and "cpu_loop f D n c = None"
  shows "\<exists>n' c'. loop_reaches D n c n' c' \<and> 0 < n' \<and> cpu_round D c' = None"
  using assms
proof (induction f arbitrary: n c)
  case 0
  then show ?case by (subst (asm) cpu_loop.simps) (auto split: if_splits)
next
  case (Suc f)
  then have n: "0 < n" by (subst (asm) cpu_loop.simps) (auto split: if_splits)
  show ?case
  proof (cases "cpu_round D c")
    case None
    with n show ?thesis by (blast intro: loop_reaches.start)
  next
    case (Some p)
    then obtain r c' where p: "cpu_round D c = Some (r, c')" by (cases p) auto
    with Suc.prems n obtain k where k: "r = Some k" "cpu_loop f D (n - k) c' = None"
      by (subst (asm) cpu_loop.simps) (auto split: option.splits)
    have "bus_ok c'" "1 \<le> k" using round_ok [OF Suc.prems(1) p] k by auto
    moreover have "nat (n - k) \<le> f" using \<open>1 \<le> k\<close> Suc.prems(2) by linarith
    ultimately obtain n' c'' where "loop_reaches D (n - k) c' n' c'' \<and> 0 < n' \<and> cpu_round D c'' = None"
      using Suc.IH [OF _ _ k(2)] by auto
    with n p k show ?thesis by (blast intro: loop_reaches.round)
  qed
qed

text \<open>
  C2: \<open>executeCycles\<close> returns: with as many rounds as cycles the loop has the outcome of the
  unbounded loop of the C++, and it has no outcome only if the loop really reaches a round
  in which the emulator fails (a failed assertion, an access out of bounds), never because
  the rounds ran out.
\<close>

theorem cpu_loop_enough:
  assumes "bus_ok c"
  shows "(cpu_loop (nat n) D n c = Some r \<longleftrightarrow> loop_run D n c r)
    \<and> (cpu_loop (nat n) D n c = None \<longleftrightarrow>
      (\<exists>n' c'. loop_reaches D n c n' c' \<and> 0 < n' \<and> cpu_round D c' = None))"
proof -
  have run: "cpu_loop (nat n) D n c = Some r \<longleftrightarrow> loop_run D n c r" for r
    using cpu_loop_run [OF assms] loop_run_cpu_loop assms by blast
  have "False" if "loop_reaches D n c n' c'" "0 < n'" "cpu_round D c' = None" "loop_run D n c r" for n' c' r
    using that by (induction arbitrary: r rule: loop_reaches.induct) (fastforce elim: loop_runE)+
  then have "cpu_loop (nat n) D n c = None \<longleftrightarrow>
      (\<exists>n' c'. loop_reaches D n c n' c' \<and> 0 < n' \<and> cpu_round D c' = None)"
    using cpu_loop_fails [OF assms, of n "nat n" D] run by (cases "cpu_loop (nat n) D n c") blast+
  with run show ?thesis by blast
qed

text \<open>A sleeping CPU with every module stopped.\<close>

definition asleep :: "unit cpu" where
  "asleep = (reset bare_cpu)\<lparr>sleeping := True, mstpcr := 0xFFFF\<rparr>"

lemma asleep_simps:
  "sleeping asleep" "mstpcr asleep = 0xFFFF" "requestedInterrupts asleep = (\<lambda>_. 0)"
  by (simp_all add: asleep_def reset_def bare_cpu_def init_cpu_def Let_def updateBusTimings_def)

lemma asleep_clock: "asleep\<lparr>clock := 0\<rparr> = asleep"
  by (simp add: asleep_def reset_def bare_cpu_def init_cpu_def Let_def updateBusTimings_def)

lemma asleep_stopped: "tst (0xFFFF :: u16) 0x8000" "tst (0xFFFF :: u16) 0x4000" "tst (0xFFFF :: u16) 0x2000"
  "tst (0xFFFF :: u16) 0x1000" "tst (0xFFFF :: u16) 0x200"
  by (simp_all add: tst_def)

lemma asleep_round:
  "cpu_round bare_devices (asleep\<lparr>clock := k\<rparr>) = Some (Some 1, asleep\<lparr>clock := k + 1\<rparr>)"
  by (simp add: cpu_round_def run_dmac_def run_interrupts_def serviceInterrupt_def asleep_simps
      asleep_stopped update_peripherals_def update_tpus_def update_timers_def update_serials_def Let_def)

theorem cpu_loop_enough_witness:
  "loop_run bare_devices 2 asleep (True, asleep\<lparr>clock := 2\<rparr>)"
proof -
  have ok: "bus_ok asleep" by (simp add: asleep_def frame reset_def Let_def updateBusTimings_def)
  have "cpu_loop (Suc (Suc 0)) bare_devices 2 (asleep\<lparr>clock := 0\<rparr>) = Some (True, asleep\<lparr>clock := 2\<rparr>)"
    using asleep_round [of 0] asleep_round [of 1]
    by (simp add: cpu_loop_steps)
  then have "cpu_loop (nat 2) bare_devices 2 asleep = Some (True, asleep\<lparr>clock := 2\<rparr>)"
    by (simp add: asleep_clock numeral_2_eq_2)
  then show ?thesis by (rule cpu_loop_enough [OF ok, THEN conjunct1, THEN iffD1])
qed

end
