(* ===== verification/H8Ticks.thy ===== *)
theory H8Ticks
  imports H8TPU H8Serial
begin

text \<open>
  Catching up with the clock.  A timer channel is updated only when something looks at it; the
  code then jumps from one event to the next.  Here this is compared with a counter that handles
  every single count, and the loops of the timers and of the serial ports are shown to end.
\<close>

section \<open>Counting without skipping\<close>

text \<open>What follows a count: the overflow and the compare matches, in the order of the code.\<close>

definition TPU_events :: "'d devices \<Rightarrow> nat \<Rightarrow> 'd cpu \<Rightarrow> 'd cpu option" where
  "TPU_events D i c =
     do { c \<leftarrow> TPU_matchA D i (TPU_overflow i c);
          c \<leftarrow> TPU_matchB D i c;
          if i \<noteq> 0 \<and> i \<noteq> 3 then Some c else do { c \<leftarrow> TPU_matchC D i c; TPU_matchD D i c } }"

primrec TPU_ticks :: "'d devices \<Rightarrow> nat \<Rightarrow> nat \<Rightarrow> 'd cpu \<Rightarrow> 'd cpu option" where
  "TPU_ticks D i 0 c = Some c"
| "TPU_ticks D i (Suc n) c = TPU_events D i (TPU_advance i 1 c) \<bind> TPU_ticks D i n"

lemma ticks_add: "TPU_ticks D i (m + n) c = TPU_ticks D i m c \<bind> TPU_ticks D i n"
proof (induction m arbitrary: c)
  case (Suc m)
  then have "TPU_ticks D i (m + n) = (\<lambda>c. TPU_ticks D i m c \<bind> TPU_ticks D i n)" by (rule ext)
  then show ?case by simp
qed simp

lemma ticks_one: "TPU_ticks D i 1 c = TPU_events D i (TPU_advance i 1 c)"
proof -
  have "TPU_ticks D i 0 = Some" by (rule ext) simp
  then show ?thesis unfolding One_nat_def TPU_ticks.simps(2) by simp
qed

text \<open>The next event that the channel has stored is the one that its counter and its registers give.\<close>

definition in_step :: "nat \<Rightarrow> 'd cpu \<Rightarrow> bool" where
  "in_step i c \<longleftrightarrow> nextUpdate (tpuChannels c i) = firstMatch i (tpuChannels c i)"

section \<open>The next event\<close>

definition nearer :: "u16 \<Rightarrow> (nat \<Rightarrow> u16) \<Rightarrow> nat \<Rightarrow> int \<Rightarrow> int" where
  "nearer m g = (\<lambda>k nxt. if g k > m \<and> uint (g k) < nxt then uint (g k) else nxt)"

lemma nearer_step: "nearer m g j a \<le> a" "m < g j \<Longrightarrow> nearer m g j a \<le> uint (g j)" "uint m < a \<Longrightarrow> uint m < nearer m g j a"
  by (auto simp: nearer_def word_less_def)

lemma nearest_le: "fold (nearer m g) ks a \<le> a"
proof (induction ks arbitrary: a)
  case (Cons j ks)
  show ?case using Cons.IH [of "nearer m g j a"] nearer_step(1) [of m g j a] by simp
qed simp

lemma nearest_general: "k \<in> set ks \<Longrightarrow> m < g k \<Longrightarrow> fold (nearer m g) ks a \<le> uint (g k)"
proof (induction ks arbitrary: a)
  case (Cons j ks)
  show ?case
  proof (cases "k = j")
    case True
    then show ?thesis using nearest_le [of m g ks "nearer m g j a"] nearer_step(2) [of m g j a] Cons.prems by simp
  next
    case False
    then show ?thesis using Cons by simp
  qed
qed simp

lemma nearest_above: "uint m < a \<Longrightarrow> uint m < fold (nearer m g) ks a"
  by (induction ks arbitrary: a) (simp_all add: nearer_step(3))

lemma nearest_same:
  "\<forall>k \<in> set ks. m < g k \<longleftrightarrow> m' < g k \<Longrightarrow> fold (nearer m' g) ks a = fold (nearer m g) ks a"
  by (induction ks arbitrary: a) (simp_all add: nearer_def)

lemma firstMatch_fold: "firstMatch i t = fold (nearer (tpu_counter t) (general t)) [0..<numGen i] 0x10000"
  by (simp add: firstMatch_def nearer_def)

lemma firstMatch_bounds: "uint (tpu_counter t) < firstMatch i t" "firstMatch i t \<le> 0x10000"
  unfolding firstMatch_fold using nearest_above [of "tpu_counter t" "0x10000"] nearest_le uint_lt2p [of "tpu_counter t"] by simp_all

lemma firstMatch_general: "k < numGen i \<Longrightarrow> tpu_counter t < general t k \<Longrightarrow> firstMatch i t \<le> uint (general t k)"
  unfolding firstMatch_fold by (rule nearest_general) simp_all

section \<open>The counter between two events\<close>

lemma advance_add:
  assumes "0 \<le> a" "0 \<le> b" shows "TPU_advance i b (TPU_advance i a c) = TPU_advance i (a + b) c"
  by (simp add: TPU_advance_def upd_tpu_def distrib_right add.assoc)

lemma advance_0: "TPU_advance i 0 c = c"
  by (simp add: TPU_advance_def upd_tpu_def)

lemma advance_sel:
  "tpu_counter (tpuChannels (TPU_advance i n c) i) = tpu_counter (tpuChannels c i) + word_of_int n"
  "general (tpuChannels (TPU_advance i n c) i) = general (tpuChannels c i)"
  "nextUpdate (tpuChannels (TPU_advance i n c) i) = nextUpdate (tpuChannels c i)"
  by (simp_all add: TPU_advance_def upd_tpu_def)

lemma counter_before:
  assumes "0 < n" "n < firstMatch i t - uint (tpu_counter t)"
  shows "uint (tpu_counter t + word_of_int n) = uint (tpu_counter t) + n"
    "tpu_counter t + word_of_int n \<noteq> 0" "k < numGen i \<Longrightarrow> tpu_counter t + word_of_int n \<noteq> general t k"
proof -
  let ?m = "tpu_counter t"
  have b: "0 \<le> uint ?m" "uint ?m + n < 0x10000" using assms firstMatch_bounds(2) [of i t] by simp_all
  have w: "uint (word_of_int z :: u16) = z" if "0 \<le> z" "z < 0x10000" for z
    using that by (simp add: uint_word_of_int take_bit_int_eq_self)
  have e: "?m + word_of_int n = word_of_int (uint ?m + n)" by simp
  show u: "uint (?m + word_of_int n) = uint ?m + n" unfolding e by (rule w) (use b assms(1) in simp_all)
  then show "?m + word_of_int n \<noteq> 0" using b assms(1) by (metis add_pos_nonneg add.commute less_irrefl uint_0_eq)
  assume k: "k < numGen i"
  show "?m + word_of_int n \<noteq> general t k"
  proof
    assume e: "?m + word_of_int n = general t k"
    then have "?m < general t k" using u assms(1) by (simp add: word_less_def)
    from firstMatch_general [OF k this] show False using u e assms(2) by simp
  qed
qed

lemma no_events:
  assumes "0 < n" "n < firstMatch i (tpuChannels c i) - uint (tpu_counter (tpuChannels c i))"
  shows "TPU_events D i (TPU_advance i n c) = Some (TPU_advance i n c)"
proof -
  let ?c = "TPU_advance i n c"
  have z: "tpu_counter (tpuChannels ?c i) \<noteq> 0" using counter_before(2) [OF assms] by (simp add: advance_sel)
  have g: "tpu_counter (tpuChannels ?c i) \<noteq> general (tpuChannels ?c i) k" if "k < numGen i" for k
    using counter_before(3) [OF assms that] by (simp add: advance_sel)
  have "TPU_overflow i ?c = ?c" using z by (simp add: TPU_overflow_def)
  moreover have "TPU_matchA D i ?c = Some ?c" "TPU_matchB D i ?c = Some ?c"
    using g [of 0] g [of 1] by (simp_all add: TPU_matchA_def TPU_matchB_def numGen_def split: if_splits)
  moreover have "TPU_matchC D i ?c = Some ?c" "TPU_matchD D i ?c = Some ?c" if "i = 0 \<or> i = 3"
    using g [of 2] g [of 3] that by (simp_all add: TPU_matchC_def TPU_matchD_def numGen_def split: if_splits)
  ultimately show ?thesis by (auto simp: TPU_events_def)
qed

lemma ticks_before:
  "int n < firstMatch i (tpuChannels c i) - uint (tpu_counter (tpuChannels c i)) \<Longrightarrow>
   TPU_ticks D i n c = Some (TPU_advance i (int n) c)"
proof (induction n)
  case (Suc n)
  have "TPU_ticks D i (Suc n) c = TPU_ticks D i n c \<bind> TPU_ticks D i 1" using ticks_add [of D i n 1 c] by simp
  also have "\<dots> = TPU_events D i (TPU_advance i 1 (TPU_advance i (int n) c))" using Suc by (simp add: ticks_one del: One_nat_def)
  also have "TPU_advance i 1 (TPU_advance i (int n) c) = TPU_advance i (int (Suc n)) c" by (simp add: advance_add add.commute)
  also have "TPU_events D i \<dots> = Some \<dots>" using no_events [of "int (Suc n)"] Suc.prems by simp
  finally show ?case .
qed (simp add: advance_0)

text \<open>Nothing happens up to the next event, so the counts up to it are one.\<close>

lemma ticks_round:
  fixes c :: "'d cpu" and i :: nat
  assumes "0 < inc"
  defines "step \<equiv> min inc (firstMatch i (tpuChannels c i) - uint (tpu_counter (tpuChannels c i)))"
  shows "TPU_ticks D i (nat inc) c = TPU_events D i (TPU_advance i step c) \<bind> TPU_ticks D i (nat (inc - step))" "0 < step" "step \<le> inc"
proof -
  let ?d = "firstMatch i (tpuChannels c i) - uint (tpu_counter (tpuChannels c i))"
  have d: "0 < ?d" using firstMatch_bounds(1) [where t = "tpuChannels c i" and i = i] by simp
  then show s: "0 < step" "step \<le> inc" using assms by (simp_all add: step_def)
  have "TPU_ticks D i (nat (step - 1)) c = Some (TPU_advance i (step - 1) c)"
    using ticks_before [of "nat (step - 1)" i c D] s d by (simp add: step_def)
  moreover have "nat inc = nat (step - 1) + (1 + nat (inc - step))" using s by simp
  ultimately have "TPU_ticks D i (nat inc) c = TPU_ticks D i (1 + nat (inc - step)) (TPU_advance i (step - 1) c)"
    by (simp only: ticks_add Option.bind.bind_lunit)
  then show "TPU_ticks D i (nat inc) c = TPU_events D i (TPU_advance i step c) \<bind> TPU_ticks D i (nat (inc - step))"
    using advance_add [where a = "step - 1" and b = 1 and i = i and c = c] s by simp
qed

lemma firstMatch_before:
  assumes "0 \<le> n" "n < firstMatch i t - uint (tpu_counter t)" "tpu_counter u = tpu_counter t + word_of_int n" "general u = general t"
  shows "firstMatch i u = firstMatch i t"
proof (cases "n = 0")
  case True
  then show ?thesis using assms(3,4) by (simp add: firstMatch_fold)
next
  case False
  with assms(1,2) have n: "0 < n" "n < firstMatch i t - uint (tpu_counter t)" by simp_all
  have "tpu_counter t < general t k \<longleftrightarrow> tpu_counter u < general t k" if "k < numGen i" for k
    using firstMatch_general [OF that, of t] counter_before(1) [OF n] counter_before(3) [OF n that] n
    by (auto simp: assms(3) word_less_def)
  then show ?thesis unfolding firstMatch_fold assms(4) by (intro nearest_same) simp
qed

section \<open>The book-keeping of events is not looked at\<close>

definition forget :: "nat \<Rightarrow> 'd cpu \<Rightarrow> 'd cpu" where
  "forget i = upd_tpu i (\<lambda>t. t\<lparr>nextUpdate := 0, tpu_nextUpdateCycle := 0\<rparr>)"

lemma forget_sel [simp]:
  "tpuChannels (forget i c) i = (tpuChannels c i)\<lparr>nextUpdate := 0, tpu_nextUpdateCycle := 0\<rparr>"
  "j \<noteq> i \<Longrightarrow> tpuChannels (forget i c) j = tpuChannels c j"
  "ioPorts (forget i c) = ioPorts c" "world (forget i c) = world c"
  by (simp_all add: forget_def upd_tpu_def)

lemma forget_upd:
  "(\<And>t. f (t\<lparr>nextUpdate := 0, tpu_nextUpdateCycle := 0\<rparr>) = (f t)\<lparr>nextUpdate := 0, tpu_nextUpdateCycle := 0\<rparr>) \<Longrightarrow>
    upd_tpu i f (forget i c) = forget i (upd_tpu i f c)"
  by (simp add: forget_def upd_tpu_def)

lemma forget_calc [simp]: "forget i (upd_tpu i (TPU_calcNextUpdate i) c) = forget i c"
  by (simp add: forget_def upd_tpu_def TPU_calcNextUpdate_def Let_def)

lemma forget_interrupt [simp]: "interrupt s (forget i c) = forget i (interrupt s c)"
  by (simp add: interrupt_def forget_def upd_tpu_def)

lemma forget_pins:
  "tpuPins ioState b (forget i c) = tpuPins ioState b c" "tpuPins ioMask b (forget i c) = tpuPins ioMask b c"
  by (simp_all add: tpuPins_def forget_def upd_tpu_def)

lemma forget_port: "IOPort_write D p v tm s (forget i c) = map_option (forget i) (IOPort_write D p v tm s c)"
  by (cases "port_write_devs D (port_devices (ioPorts c p)) v tm (world c)")
    (simp_all add: IOPort_write_def forget_def upd_tpu_def upd_port_def Let_def)

lemma forget_setIO [simp]: "TPU_setIO D i k v (forget i c) = map_option (forget i) (TPU_setIO D i k v c)"
proof -
  define f :: "tpu \<Rightarrow> tpu" where "f = (\<lambda>t. t\<lparr>ioState := (if v then ioState t OR bitv k else ioState t AND NOT (bitv k))\<rparr>)"
  have u: "upd_tpu i f (forget i c) = forget i (upd_tpu i f c)" by (rule forget_upd) (simp add: f_def)
  show ?thesis unfolding TPU_setIO_def f_def [symmetric] u Let_def
    by (simp add: updateTPUIO_def forget_pins forget_port IOPort_getWrittenData_def Let_def)
qed

lemma bind_forget:
  assumes "m' = map_option (forget i) m" "\<And>c. n (forget i c) = map_option (forget i) (n c)"
  shows "m' \<bind> n = map_option (forget i) (m \<bind> n)"
  using assms by (cases m) simp_all

lemma forget_outputs [simp]: "TPU_initialOutputs D i (forget i c) = map_option (forget i) (TPU_initialOutputs D i c)"
  unfolding TPU_initialOutputs_def by (rule bind_forget) simp_all

lemma forget_flag [simp]: "TPU_flag i k (forget i c) = forget i (TPU_flag i k c)"
  unfolding TPU_flag_def by (rule forget_upd) simp

lemma forget_irq [simp]: "TPU_irq i k s (forget i c) = forget i (TPU_irq i k s c)"
  by (simp add: TPU_irq_def)

lemma forget_clear [simp]: "TPU_clear D i (forget i c) = map_option (forget i) (TPU_clear D i c)"
proof -
  have "upd_tpu i (\<lambda>t. t\<lparr>tpu_counter := 0\<rparr>) (forget i c) = forget i (upd_tpu i (\<lambda>t. t\<lparr>tpu_counter := 0\<rparr>) c)"
    by (rule forget_upd) simp
  then show ?thesis by (simp add: TPU_clear_def Let_def)
qed

lemma forget_pin [simp]: "TPU_matchPin D i k (forget i c) = map_option (forget i) (TPU_matchPin D i k c)"
  by (simp add: TPU_matchPin_def Let_def)

lemma forget_overflow [simp]: "TPU_overflow i (forget i c) = forget i (TPU_overflow i c)"
  by (simp add: TPU_overflow_def)

lemma forget_match:
  "TPU_matchA D i (forget i c) = map_option (forget i) (TPU_matchA D i c)"
  "TPU_matchB D i (forget i c) = map_option (forget i) (TPU_matchB D i c)"
  "TPU_matchC D i (forget i c) = map_option (forget i) (TPU_matchC D i c)"
  "TPU_matchD D i (forget i c) = map_option (forget i) (TPU_matchD D i c)"
  by (auto simp: TPU_matchA_def TPU_matchB_def TPU_matchC_def TPU_matchD_def Let_def intro!: bind_forget)

lemma forget_events: "TPU_events D i (forget i c) = map_option (forget i) (TPU_events D i c)"
  unfolding TPU_events_def by (auto simp: forget_match intro!: bind_forget)

lemma forget_advance: "TPU_advance i n (forget i c) = forget i (TPU_advance i n c)"
  unfolding TPU_advance_def by (rule forget_upd) simp

lemma forget_ticks: "TPU_ticks D i n (forget i c) = map_option (forget i) (TPU_ticks D i n c)"
  by (induction n arbitrary: c) (auto simp: forget_advance forget_events intro!: bind_forget)

section \<open>The loop\<close>

lemma round_events:
  "TPU_round D i inc c =
     (let step = min inc (nextUpdate (tpuChannels c i) - uint (tpu_counter (tpuChannels c i)))
      in TPU_events D i (TPU_advance i step c) \<bind> (\<lambda>c. Some (inc - step, upd_tpu i (TPU_calcNextUpdate i) c)))"
  by (simp add: TPU_round_def TPU_events_def Let_def)

lemma in_step_calc: "in_step i (upd_tpu i (TPU_calcNextUpdate i) c)"
  by (simp add: in_step_def upd_tpu_def TPU_calcNextUpdate_def Let_def firstMatch_fold)

lemma forget_result: "forget i c = forget i c' \<Longrightarrow> map_option (forget i) (TPU_ticks D i n c) = map_option (forget i) (TPU_ticks D i n c')"
  by (simp add: forget_ticks [symmetric])

lemma loop_ticks:
  "in_step i c \<Longrightarrow> 0 \<le> inc \<Longrightarrow> nat inc \<le> fuel \<Longrightarrow>
   map_option (forget i) (TPU_loop D fuel i inc c) = map_option (forget i) (TPU_ticks D i (nat inc) c) \<and>
   (\<forall>c'. TPU_loop D fuel i inc c = Some c' \<longrightarrow> in_step i c')"
proof (induction fuel arbitrary: inc c)
  case (Suc fuel)
  show ?case
  proof (cases "inc = 0")
    case False
    define step where "step = min inc (firstMatch i (tpuChannels c i) - uint (tpu_counter (tpuChannels c i)))"
    have "0 < inc" using False Suc.prems(2) by simp
    note r = ticks_round(1) [OF this, where i = i and c = c and D = D, folded step_def]
      ticks_round(2,3) [OF this, where i = i and c = c, folded step_def]
    have e: "TPU_round D i inc c = TPU_events D i (TPU_advance i step c) \<bind> (\<lambda>c. Some (inc - step, upd_tpu i (TPU_calcNextUpdate i) c))"
      using Suc.prems(1) by (simp add: round_events Let_def in_step_def step_def)
    show ?thesis
    proof (cases "TPU_events D i (TPU_advance i step c)")
      case None
      then show ?thesis using False e r(1) by simp
    next
      case (Some c1)
      let ?c = "upd_tpu i (TPU_calcNextUpdate i) c1"
      have "TPU_loop D (Suc fuel) i inc c = TPU_loop D fuel i (inc - step) ?c" using False e Some by simp
      moreover have "TPU_ticks D i (nat inc) c = TPU_ticks D i (nat (inc - step)) c1" using r(1) Some by simp
      moreover have "nat (inc - step) \<le> fuel" "0 \<le> inc - step" using r(2,3) Suc.prems(3) by simp_all
      moreover have "forget i ?c = forget i c1" by simp
      ultimately show ?thesis using Suc.IH [OF in_step_calc, of "inc - step" c1] forget_result [where i = i and c = ?c and c' = c1 and D = D and n = "nat (inc - step)"] by simp
    qed
  qed (use Suc.prems in simp)
qed simp

text \<open>Where the catch-up stands between two events, nothing is to be done but to count.\<close>

lemma update_before:
  assumes "in_step i c" "0 \<le> inc" "uint (tpu_counter (tpuChannels c i)) + inc < nextUpdate (tpuChannels c i)"
  shows "TPU_ticks D i (nat inc) c = Some (TPU_advance i inc c)" "in_step i (TPU_advance i inc c)"
proof -
  have n: "inc < firstMatch i (tpuChannels c i) - uint (tpu_counter (tpuChannels c i))" using assms(1,3) by (simp add: in_step_def)
  show "TPU_ticks D i (nat inc) c = Some (TPU_advance i inc c)" using ticks_before [of "nat inc" i c D] n assms(2) by simp
  show "in_step i (TPU_advance i inc c)"
    using firstMatch_before [OF assms(2) n, of "tpuChannels (TPU_advance i inc c) i"] assms(1) by (simp add: in_step_def advance_sel)
qed

definition TPU_due :: "nat \<Rightarrow> 'd cpu \<Rightarrow> int" where
  "TPU_due i c = drop_bit (nat (clockShift (tpuChannels c i))) (sint (clock c - tpu_lastUpdateCycle (tpuChannels c i)))"

text \<open>A channel that has a clock has the right next event; the channels of a new CPU have none, and writing a register keeps this.\<close>

definition tpu_ok :: "nat \<Rightarrow> tpu \<Rightarrow> bool" where
  "tpu_ok i t \<longleftrightarrow> tpu_clockDiv t \<noteq> 0 \<longrightarrow> nextUpdate t = firstMatch i t"

lemma calc_in_step: "nextUpdate (TPU_calcNextUpdate i t) = firstMatch i (TPU_calcNextUpdate i t)"
  by (simp add: TPU_calcNextUpdate_def Let_def firstMatch_fold)

lemma setReg_ok:
  assumes "tpu_ok i t" shows "holds (tpu_ok i) (TPU_setReg i reg val t)"
proof -
  have c: "tpu_ok i (TPU_calcNextUpdate i u)" for u using calc_in_step by (simp add: tpu_ok_def)
  have s: "tpu_ok i (t\<lparr>tpu_mode := m\<rparr>)" "tpu_ok i (t\<lparr>ioControl := io\<rparr>)" "tpu_ok i (t\<lparr>ioControl := io, ioMask := mk\<rparr>)"
    "tpu_ok i (t\<lparr>interruptEnable := m\<rparr>)" "tpu_ok i (t\<lparr>tpu_status := m\<rparr>)" for m io mk
    using assms by (simp_all add: tpu_ok_def firstMatch_fold)
  show ?thesis
    unfolding TPU_setReg_def TPU_setTCR_def Let_def
    by (intro holds_if; simp add: assms s c)
qed


text \<open>A channel that counts every fourth cycle, is cleared by its first general register and has not been looked at for 20 cycles.\<close>

definition ticking :: "unit cpu" where
  "ticking = bare_cpu\<lparr>tpuStart := 1, clock := 20,
     tpuChannels := (\<lambda>_. TPU_calcNextUpdate 0 (init_tpu\<lparr>tpu_clockDiv := 4, clockShift := 2, tpu_counter := 3, general := (\<lambda>_. 5), clearOn := 1\<rparr>))\<rparr>"


section \<open>The serial ports\<close>

text \<open>A round of the update of a serial port uses up at least one cycle, so its loop needs no bound.\<close>

lemma Serial_step_pos: "elapsed \<noteq> 0 \<Longrightarrow> 0 < Serial_step elapsed s \<and> Serial_step elapsed s \<le> elapsed"
  by (auto simp: Serial_step_def Let_def word_neq_0_conv)

lemma Serial_round_less:
  assumes "elapsed \<noteq> 0" "Serial_round D i elapsed c = Some (e, c')" shows "unat e < unat elapsed"
proof -
  have "e = elapsed - Serial_step elapsed (serialPorts c i)"
    using assms(2) unfolding Serial_round_def Let_def by (auto split: Option.bind_splits)
  moreover have "unat (Serial_step elapsed (serialPorts c i)) \<le> unat elapsed" "0 < unat (Serial_step elapsed (serialPorts c i))"
    using Serial_step_pos [OF assms(1), of "serialPorts c i"] by (simp_all add: word_le_nat_alt word_less_nat_alt)
  ultimately show ?thesis using Serial_step_pos [OF assms(1), of "serialPorts c i"] by (simp add: unat_sub)
qed

lemma Serial_loop_enough: "unat elapsed \<le> fuel \<Longrightarrow> Serial_loop D fuel i elapsed c = Serial_loop D (unat elapsed) i elapsed c"
proof (induction fuel arbitrary: elapsed c rule: less_induct)
  case (less fuel)
  show ?case
  proof (cases "elapsed = 0")
    case True
    then show ?thesis by (cases fuel) simp_all
  next
    case False
    then obtain m where m: "unat elapsed = Suc m" by (cases "unat elapsed") (simp_all add: unat_eq_0)
    then obtain f where f: "fuel = Suc f" "m \<le> f" using less.prems by (cases fuel) simp_all
    have "Serial_loop D f i e c' = Serial_loop D m i e c'" if "Serial_round D i elapsed c = Some (e, c')" for e c'
    proof -
      have "unat e \<le> m" using Serial_round_less [OF False that] m by simp
      then have "Serial_loop D f i e c' = Serial_loop D (unat e) i e c'" "Serial_loop D m i e c' = Serial_loop D (unat e) i e c'"
        using less.IH [of f e c'] less.IH [of m e c'] less.prems f m by simp_all
      then show ?thesis by simp
    qed
    then show ?thesis using False unfolding m f(1) by (auto split: Option.bind_splits)
  qed
qed

lemma Serial_loop_unfold:
  "Serial_loop D (unat elapsed) i elapsed c =
     (if elapsed = 0 then Some c
      else do { (e, c) \<leftarrow> Serial_round D i elapsed c; Serial_loop D (unat e) i e c })"
proof (cases "elapsed = 0")
  case False
  then obtain m where m: "unat elapsed = Suc m" by (cases "unat elapsed") (simp_all add: unat_eq_0)
  have "Serial_loop D m i e c' = Serial_loop D (unat e) i e c'" if "Serial_round D i elapsed c = Some (e, c')" for e c'
    by (rule Serial_loop_enough) (use Serial_round_less [OF False that] m in simp)
  then show ?thesis using False unfolding m by (auto split: Option.bind_splits)
qed simp

end
