(* ===== verification/MemoryDevice.thy ===== *)
theory MemoryDevice
  imports Prelude
begin

text \<open>
  \<open>MemoryDevice.cpp\<close>: a memory of two megabytes on the external bus, with an address mask,
  and its images in files.  A file is the list of its bytes.  \<open>None\<close> is an access outside the
  array \<open>mem\<close>.
\<close>

abbreviation memSize :: nat where
  "memSize \<equiv> 0x200000"

record memory =
  mem_debug :: bool
  addressMask :: u32
  mem :: "nat \<Rightarrow> u8"

definition MemoryDevice_new :: "u32 \<Rightarrow> bool \<Rightarrow> memory" where
  "MemoryDevice_new m debug = \<lparr>mem_debug = debug, addressMask = m, mem = (\<lambda>_. 0)\<rparr>"

definition MemoryDevice_read :: "u32 \<Rightarrow> memory \<Rightarrow> u8 option" where
  "MemoryDevice_read addr d =
     (let addr = addr AND addressMask d
      in if unat addr < memSize then Some (mem d (unat addr)) else None)"

definition MemoryDevice_write :: "u32 \<Rightarrow> u8 \<Rightarrow> memory \<Rightarrow> memory option" where
  "MemoryDevice_write addr val d =
     (let addr = addr AND addressMask d
      in if unat addr < memSize then Some (d\<lparr>mem := (mem d)(unat addr := val)\<rparr>) else None)"

text \<open>\<open>getPtr\<close> returns the array and its mask; \<open>ptrRead\<close> is a read through that pointer.\<close>

definition MemoryDevice_getPtr :: "memory \<Rightarrow> u32 option" where
  "MemoryDevice_getPtr d = (if mem_debug d then None else Some (addressMask d))"

definition MemoryDevice_ptrRead :: "u32 \<Rightarrow> memory \<Rightarrow> u8 option" where
  "MemoryDevice_ptrRead i d = (if unat i < memSize then Some (mem d (unat i)) else None)"

definition MemoryDevice_loadFile :: "u8 list option \<Rightarrow> nat \<Rightarrow> memory \<Rightarrow> bool \<times> memory" where
  "MemoryDevice_loadFile file offset d =
     (case file of
        None \<Rightarrow> (False, d)
      | Some bs \<Rightarrow>
          (True, d\<lparr>mem := (\<lambda>i. if offset \<le> i \<and> i < memSize \<and> i - offset < length bs
                                 then bs ! (i - offset) else mem d i)\<rparr>))"

text \<open>The bytes written; \<open>length\<close> is -1 for all from the offset on.\<close>

definition MemoryDevice_saveFile :: "nat \<Rightarrow> int \<Rightarrow> memory \<Rightarrow> u8 list option" where
  "MemoryDevice_saveFile offset len d =
     (let len = (if len = -1 then int memSize - int offset else len)
      in if int offset + len \<le> int memSize
         then Some (map (mem d) [offset..<offset + nat len]) else None)"

section \<open>Lemmas\<close>

lemma and_small: "m \<le> 0x1FFFFF \<Longrightarrow> unat (a AND m :: u32) < memSize"
proof -
  assume "m \<le> 0x1FFFFF"
  moreover have "a AND m \<le> m" by (rule word_and_le1)
  ultimately have "unat (a AND m) \<le> unat (0x1FFFFF :: u32)" by (simp only: word_le_nat_alt)
  then show ?thesis by simp
qed

lemma memory_read_write:
  assumes "addressMask d \<le> 0x1FFFFF"
  shows "\<exists>d'. MemoryDevice_write a v d = Some d' \<and>
     MemoryDevice_read b d' = (if a AND addressMask d = b AND addressMask d then Some v else MemoryDevice_read b d)"
  using and_small [OF assms]
  by (auto simp: MemoryDevice_write_def MemoryDevice_read_def Let_def word_unat_eq_iff)

lemma memory_pointer:
  "MemoryDevice_getPtr d = Some m \<Longrightarrow> MemoryDevice_ptrRead (a AND m) d = MemoryDevice_read a d"
  by (auto simp: MemoryDevice_getPtr_def MemoryDevice_ptrRead_def MemoryDevice_read_def Let_def split: if_splits)

lemma memory_file:
  assumes "offset + length bs \<le> memSize"
  shows "MemoryDevice_saveFile offset (int (length bs)) (snd (MemoryDevice_loadFile (Some bs) offset d)) = Some bs"
proof -
  have "map (\<lambda>i. if offset \<le> i \<and> i < memSize \<and> i - offset < length bs then bs ! (i - offset) else mem d i)
      [offset..<offset + length bs] = bs"
    using assms by (intro nth_equalityI) auto
  then show ?thesis
    using assms by (simp add: MemoryDevice_saveFile_def MemoryDevice_loadFile_def Let_def)
qed

end
