(* ===== verification/PCF8593.thy ===== *)
theory PCF8593
  imports Prelude
begin

text \<open>
  \<open>PCF8593.cpp\<close>: the real-time clock on a two-wire bus, as an input/output device of a port.
  The clock takes the host's time when \<open>updateTime\<close> is called; that time is its argument.
  Registers are numbered by an \<open>int\<close> that only grows, here \<open>nat\<close>.
\<close>

section \<open>State\<close>

record host_time =
  tv_usec :: int
  tm_sec :: int
  tm_min :: int
  tm_hour :: int
  tm_mday :: int
  tm_mon :: int
  tm_year :: int
  tm_wday :: int

record rtc =
  sdaBit :: nat
  sclBit :: nat
  sdaState :: bool
  sclState :: bool
  sdaOut :: bool
  lastSDA :: bool
  i2c_start :: bool
  gotAddr :: bool
  i2c_ack :: bool
  isWrite :: bool
  recvBit :: nat
  sendData :: u8
  recvData :: u8
  gotReg :: bool
  regAddr :: nat
  rtc_control :: u8
  localTime :: host_time

text \<open>\<open>recvBit\<close>, \<open>sendData\<close>, \<open>recvData\<close> and the time are not initialised by C++.\<close>

definition PCF8593_new :: "nat \<Rightarrow> nat \<Rightarrow> nat \<Rightarrow> u8 \<Rightarrow> u8 \<Rightarrow> host_time \<Rightarrow> rtc" where
  "PCF8593_new sda scl rb sd rd t =
     \<lparr>sdaBit = sda, sclBit = scl, sdaState = True, sclState = False, sdaOut = False, lastSDA = False,
      i2c_start = False, gotAddr = False, i2c_ack = False, isWrite = False, recvBit = rb,
      sendData = sd, recvData = rd, gotReg = False, regAddr = 0, rtc_control = 0, localTime = t\<rparr>"

definition PCF8593_updateTime :: "host_time \<Rightarrow> rtc \<Rightarrow> rtc" where
  "PCF8593_updateTime t d = d\<lparr>localTime := t\<rparr>"

section \<open>The registers\<close>

text \<open>\<open>bcd\<close>: the value is never negative here, and is cut to a byte when it is stored.\<close>

definition bcd :: "int \<Rightarrow> int" where
  "bcd v = or (v mod 10) ((v div 10) * 16)"

definition rtc_register :: "rtc \<Rightarrow> u8" where
  "rtc_register d =
     (let t = localTime d; r = regAddr d
      in if r = 0 then rtc_control d
         else if r = 1 then word_of_int (bcd (tv_usec t div 10000))
         else if r = 2 then word_of_int (bcd (tm_sec t))
         else if r = 3 then word_of_int (bcd (tm_min t))
         else if r = 4 then word_of_int (bcd (tm_hour t))
         else if r = 5 then word_of_int (or (bcd (tm_mday t)) (and (tm_year t - 100) 3 * 64))
         else if r = 6 then word_of_int (or (bcd (tm_mon t + 1)) (tm_wday t * 32))
         else if r = 7 then word_of_int (bcd (tm_year t - 100))
         else 0)"

definition PCF8593_sendByte :: "rtc \<Rightarrow> rtc" where
  "PCF8593_sendByte d = d\<lparr>sendData := rtc_register d, regAddr := regAddr d + 1\<rparr>"

definition PCF8593_recvByte :: "rtc \<Rightarrow> rtc" where
  "PCF8593_recvByte d =
     (if \<not> gotReg d then d\<lparr>regAddr := unat (recvData d), gotReg := True, i2c_ack := True\<rparr>
      else if isWrite d
      then (let d = (if regAddr d = 0 then d\<lparr>rtc_control := recvData d\<rparr> else d)
            in d\<lparr>regAddr := regAddr d + 1, i2c_ack := True\<rparr>)
      else d)"

section \<open>The bus\<close>

text \<open>\<open>update\<close>: first a change of SDA while SCL is high, then a bit.\<close>

definition rtc_condition :: "bool \<Rightarrow> rtc \<Rightarrow> rtc" where
  "rtc_condition sda d =
     (if lastSDA d \<noteq> sda \<and> sclState d
      then if \<not> sda
           then d\<lparr>i2c_start := True, recvData := 0, recvBit := 0, gotAddr := False, i2c_ack := False,
                  gotReg := False\<rparr>
           else d\<lparr>i2c_start := False\<rparr>
      else d)"

definition rtc_byteDone :: "bool \<Rightarrow> rtc \<Rightarrow> rtc" where
  "rtc_byteDone sda d =
     (let d = (if \<not> gotAddr d
               then if drop_bit 1 (recvData d) = 0x51
                    then (let d = d\<lparr>gotAddr := True, i2c_ack := True, isWrite := \<not> bit (recvData d) 0\<rparr>
                          in if \<not> isWrite d then PCF8593_sendByte d else d)
                    else d\<lparr>i2c_start := False\<rparr>
               else if isWrite d then PCF8593_recvByte d
               else if \<not> sda then PCF8593_sendByte d
               else d)
      in d\<lparr>recvBit := 0\<rparr>)"

definition rtc_bit :: "bool \<Rightarrow> rtc \<Rightarrow> rtc" where
  "rtc_bit sda d =
     (if lastSDA d = sda \<and> i2c_start d \<and> sclState d
      then if recvBit d = 8 then rtc_byteDone sda d
           else (let d = d\<lparr>i2c_ack := False, recvData := push_bit 1 (recvData d)\<rparr>;
                     d = (if sda then d\<lparr>recvData := recvData d OR 1\<rparr> else d)
                 in d\<lparr>recvBit := recvBit d + 1\<rparr>)
      else d)"

definition PCF8593_update :: "rtc \<Rightarrow> rtc" where
  "PCF8593_update d =
     (let sda = \<not> sdaOut d
      in (rtc_bit sda (rtc_condition sda d))\<lparr>lastSDA := sda\<rparr>)"

text \<open>
  The functions of the \<open>IODevice\<close>.  A shift by \<open>recvBit - 1\<close> of a bit counter that is 0 is
  undefined: \<open>None\<close>.
\<close>

definition PCF8593_read :: "rtc \<Rightarrow> u8 option" where
  "PCF8593_read d =
     (if i2c_ack d then Some 0
      else if gotAddr d \<and> \<not> isWrite d
      then if recvBit d = 0 then None
           else Some (if tst (sendData d) (drop_bit (recvBit d - 1) 0x80) then bitv (sdaBit d) else 0)
      else Some (bitv (sdaBit d)))"

definition PCF8593_write :: "u8 \<Rightarrow> rtc \<Rightarrow> rtc" where
  "PCF8593_write val d =
     PCF8593_update (d\<lparr>sdaState := bit val (sdaBit d), sclState := bit val (sclBit d)\<rparr>)"

definition PCF8593_setDirection :: "u8 \<Rightarrow> rtc \<Rightarrow> rtc" where
  "PCF8593_setDirection dir d = PCF8593_update (d\<lparr>sdaOut := bit dir (sdaBit d)\<rparr>)"

section \<open>A bus master\<close>

text \<open>
  What a master does on the two lines: SDA is driven low by making its pin an output, SCL by
  writing the port.  A clock pulse with a bit, a start condition, a byte with its
  acknowledge clock, and a byte read back with the acknowledge the master gives.
\<close>

definition set_sda :: "bool \<Rightarrow> rtc \<Rightarrow> rtc" where
  "set_sda b d = PCF8593_setDirection (if b then 0 else bitv (sdaBit d)) d"

definition set_scl :: "bool \<Rightarrow> rtc \<Rightarrow> rtc" where
  "set_scl b d = PCF8593_write (if b then bitv (sclBit d) else 0) d"

definition pulse :: "bool \<Rightarrow> rtc \<Rightarrow> rtc" where
  "pulse b d = set_scl False (set_scl True (set_sda b d))"

definition start_condition :: "rtc \<Rightarrow> rtc" where
  "start_condition d = set_scl False (set_sda False (set_scl True (set_sda True (set_scl False d))))"

definition bits8 :: "u8 \<Rightarrow> bool list" where
  "bits8 v = [bit v 7, bit v 6, bit v 5, bit v 4, bit v 3, bit v 2, bit v 1, bit v 0]"

definition send_byte :: "u8 \<Rightarrow> rtc \<Rightarrow> rtc" where
  "send_byte v d = pulse True (fold pulse (bits8 v) d)"

fun read_bits :: "nat \<Rightarrow> rtc \<Rightarrow> (bool list \<times> rtc) option" where
  "read_bits 0 d = Some ([], d)"
| "read_bits (Suc n) d =
     (let d = set_scl True (set_sda True d)
      in do { v \<leftarrow> PCF8593_read d;
              (bs, d') \<leftarrow> read_bits n (set_scl False d);
              Some (bit v (sdaBit d) # bs, d') })"

fun read_bytes :: "nat \<Rightarrow> rtc \<Rightarrow> (bool list list \<times> rtc) option" where
  "read_bytes 0 d = Some ([], d)"
| "read_bytes (Suc n) d =
     do { (bs, d) \<leftarrow> read_bits 8 d;
          (bss, d) \<leftarrow> read_bytes n (pulse False d);
          Some (bs # bss, d) }"

text \<open>The address written with the register number, then the clock addressed for reading.\<close>

definition select_register :: "u8 \<Rightarrow> rtc \<Rightarrow> rtc" where
  "select_register r d = send_byte 0xA3 (start_condition (send_byte r (send_byte 0xA2 (start_condition d))))"

section \<open>Lemmas\<close>

text \<open>Wired to two pins of an 8-bit port, in a transfer, with SCL low.\<close>

definition wired_pins :: "rtc \<Rightarrow> bool" where
  "wired_pins d \<longleftrightarrow> sdaBit d < 8 \<and> sclBit d < 8 \<and> sdaBit d \<noteq> sclBit d"

definition selected :: "rtc \<Rightarrow> bool" where
  "selected d \<longleftrightarrow> wired_pins d \<and> i2c_start d \<and> \<not> sclState d"

lemmas lines = set_sda_def set_scl_def PCF8593_setDirection_def PCF8593_write_def PCF8593_update_def
  rtc_condition_def Let_def wired_pins_def

text \<open>Shifting one bit in.\<close>

definition shift_bit :: "bool \<Rightarrow> u8 \<Rightarrow> u8" where
  "shift_bit b x = push_bit 1 x OR (if b then 1 else 0)"

lemma bit_shift_bit [simp]:
  "bit (shift_bit b x) 0 = b" "bit (shift_bit b x) (Suc n) \<longleftrightarrow> Suc n < 8 \<and> bit x n"
proof -
  have "bit (shift_bit b x) m \<longleftrightarrow> (1 \<le> m \<and> m < 8 \<and> bit x (m - 1)) \<or> (b \<and> m = 0)" for m
    unfolding shift_bit_def by (simp only: bit_or_iff bit_push_bit_iff possible_bit_word) (auto simp: bit_1_iff)
  then show "bit (shift_bit b x) 0 = b" "bit (shift_bit b x) (Suc n) \<longleftrightarrow> Suc n < 8 \<and> bit x n"
    by auto
qed

lemma shift_in: "fold shift_bit (bits8 v) x = v"
  by (rule u8_eqI) (simp_all add: bits8_def eval_nat_numeral)

lemma pulse_bit:
  "selected d \<Longrightarrow> recvBit d < 8 \<Longrightarrow>
   pulse b d = d\<lparr>sdaOut := \<not> b, lastSDA := b, sdaState := False, i2c_ack := False,
     recvData := shift_bit b (recvData d), recvBit := recvBit d + 1\<rparr>"
  by (cases b) (simp_all add: pulse_def selected_def lines rtc_bit_def shift_bit_def)

lemma fold_pulse:
  "selected d \<Longrightarrow> bs \<noteq> [] \<Longrightarrow> recvBit d + length bs \<le> 8 \<Longrightarrow>
   fold pulse bs d = d\<lparr>sdaOut := \<not> last bs, lastSDA := last bs, sdaState := False, i2c_ack := False,
     recvData := fold shift_bit bs (recvData d), recvBit := recvBit d + length bs\<rparr>"
proof (induction bs arbitrary: d)
  case (Cons b bs)
  let ?d = "pulse b d"
  have p: "selected ?d" "recvBit ?d = recvBit d + 1"
    using Cons.prems by (simp_all add: pulse_bit selected_def wired_pins_def)
  show ?case
  proof (cases bs)
    case Nil
    then show ?thesis using Cons.prems by (simp add: pulse_bit)
  next
    case c: (Cons b' bs')
    then have "fold pulse bs ?d = ?d\<lparr>sdaOut := \<not> last bs, lastSDA := last bs, sdaState := False, i2c_ack := False,
     recvData := fold shift_bit bs (recvData ?d), recvBit := recvBit ?d + length bs\<rparr>"
      using Cons.prems p by (intro Cons.IH) simp_all
    then show ?thesis using Cons.prems c by (simp add: pulse_bit)
  qed
qed simp

text \<open>The ninth clock, with SDA as the master leaves it.\<close>

lemma pulse_done:
  "selected d \<Longrightarrow> recvBit d = 8 \<Longrightarrow>
   pulse b d = (rtc_byteDone b (d\<lparr>sdaOut := \<not> b, lastSDA := b, sdaState := False, sclState := True\<rparr>))
     \<lparr>sdaState := False, sclState := False, lastSDA := b\<rparr>"
  by (cases b) (simp_all add: pulse_def selected_def lines rtc_bit_def rtc_byteDone_def
      PCF8593_recvByte_def PCF8593_sendByte_def)

lemma start_ok:
  assumes "wired_pins d"
  defines "d' \<equiv> start_condition d"
  shows "selected d'" "recvBit d' = 0" "\<not> gotAddr d'" "\<not> gotReg d'" "localTime d' = localTime d"
    and "recvBit d = 0 \<or> \<not> i2c_start d \<Longrightarrow> regAddr d' = regAddr d"
    and "recvBit d = 0 \<or> \<not> i2c_start d \<Longrightarrow> rtc_control d' = rtc_control d"
  using assms(1) unfolding d'_def
  by (auto simp: start_condition_def selected_def lines rtc_bit_def rtc_byteDone_def
      PCF8593_recvByte_def PCF8593_sendByte_def)

lemma send_byte_done:
  assumes "selected d" and "recvBit d = 0"
  shows "send_byte v d = (rtc_byteDone True (d\<lparr>i2c_ack := False, recvData := v, recvBit := 8,
      sdaOut := False, lastSDA := True, sdaState := False, sclState := True\<rparr>))\<lparr>sdaState := False, sclState := False, lastSDA := True\<rparr>"
proof -
  have "fold pulse (bits8 v) d = d\<lparr>sdaOut := \<not> last (bits8 v), lastSDA := last (bits8 v), sdaState := False,
      i2c_ack := False, recvData := v, recvBit := 8\<rparr>"
    using fold_pulse [OF assms(1), of "bits8 v"] assms(2) shift_in [of v] by (simp add: bits8_def)
  then show ?thesis
    unfolding send_byte_def using assms by (subst pulse_done) (simp_all add: selected_def wired_pins_def)
qed

text \<open>In a read transfer: the next bits of the byte to send, highest first.\<close>

definition reading :: "rtc \<Rightarrow> bool" where
  "reading d \<longleftrightarrow> selected d \<and> gotAddr d \<and> \<not> isWrite d"

lemma read_bit:
  assumes "reading d" and "recvBit d < 8"
  defines "e \<equiv> set_scl True (set_sda True d)"
  shows "PCF8593_read e = Some (if bit (sendData d) (7 - recvBit d) then bitv (sdaBit d) else 0)"
    and "reading (set_scl False e)" "recvBit (set_scl False e) = recvBit d + 1"
    and "sendData (set_scl False e) = sendData d" "regAddr (set_scl False e) = regAddr d"
    and "localTime (set_scl False e) = localTime d" "rtc_control (set_scl False e) = rtc_control d"
    and "sdaBit e = sdaBit d"
proof -
  have "tst (sendData d) (drop_bit (recvBit d) 0x80) \<longleftrightarrow> bit (sendData d) (7 - recvBit d)"
  proof -
    have "(0x80 :: u8) = 2 ^ 7" by simp
    then have "drop_bit (recvBit d) (0x80 :: u8) = 2 ^ (7 - recvBit d)"
      using assms(2) by (intro bit_word_eqI) (auto simp only: bit_drop_bit_eq bit_exp_iff o_def, auto)
    then show ?thesis by simp
  qed
  with assms(1,2) show "PCF8593_read e = Some (if bit (sendData d) (7 - recvBit d) then bitv (sdaBit d) else 0)"
    unfolding e_def by (simp add: reading_def selected_def lines rtc_bit_def PCF8593_read_def)
  show "reading (set_scl False e)" "recvBit (set_scl False e) = recvBit d + 1"
    "sendData (set_scl False e) = sendData d" "regAddr (set_scl False e) = regAddr d"
    "localTime (set_scl False e) = localTime d" "rtc_control (set_scl False e) = rtc_control d" "sdaBit e = sdaBit d"
    using assms(1,2) unfolding e_def by (simp_all add: reading_def selected_def lines rtc_bit_def)
qed

lemma read_bits_ok:
  assumes "reading d" and "recvBit d + n \<le> 8"
  shows "\<exists>d'. read_bits n d = Some (map (\<lambda>i. bit (sendData d) (7 - (recvBit d + i))) [0..<n], d')
     \<and> reading d' \<and> recvBit d' = recvBit d + n \<and> regAddr d' = regAddr d \<and> localTime d' = localTime d
     \<and> rtc_control d' = rtc_control d"
  using assms
proof (induction n arbitrary: d)
  case (Suc n)
  let ?e = "set_scl True (set_sda True d)"
  let ?f = "set_scl False ?e"
  have r: "recvBit d < 8" using Suc.prems(2) by simp
  note b = read_bit [OF Suc.prems(1) r]
  obtain d' where d': "read_bits n ?f = Some (map (\<lambda>i. bit (sendData ?f) (7 - (recvBit ?f + i))) [0..<n], d')"
    "reading d'" "recvBit d' = recvBit ?f + n" "regAddr d' = regAddr ?f" "localTime d' = localTime ?f"
    "rtc_control d' = rtc_control ?f"
    using Suc.IH [of ?f] b Suc.prems(2) by auto
  have "bit (if x then bitv (sdaBit d) else 0 :: u8) (sdaBit d) = x" for x
    using Suc.prems(1) by (simp add: reading_def selected_def wired_pins_def)
  then show ?case
    using d' b by (simp add: Let_def upt_Suc_map o_def del: upt_Suc)
qed simp

lemma acknowledge:
  assumes "reading d" and "recvBit d = 8"
  defines "e \<equiv> pulse False d"
  shows "reading e" "recvBit e = 0" "sendData e = rtc_register d" "regAddr e = regAddr d + 1"
    and "localTime e = localTime d" "rtc_control e = rtc_control d"
  using assms unfolding e_def reading_def
  by (simp_all add: pulse_done rtc_byteDone_def PCF8593_sendByte_def selected_def wired_pins_def
      rtc_register_def Let_def)

text \<open>Register \<open>r\<close> of a clock.\<close>

definition register_at :: "nat \<Rightarrow> rtc \<Rightarrow> u8" where
  "register_at r d = rtc_register (d\<lparr>regAddr := r\<rparr>)"

lemma register_at_cong:
  "localTime d = localTime e \<Longrightarrow> rtc_control d = rtc_control e \<Longrightarrow> register_at r d = register_at r e"
  by (simp add: register_at_def rtc_register_def Let_def)

lemma rtc_register_at: "rtc_register d = register_at (regAddr d) d"
  by (simp add: register_at_def)

lemma bits8_map: "map (\<lambda>i. bit v (7 - i)) [0..<8] = bits8 v"
  by (simp add: bits8_def upt_rec)

lemma read_bytes_ok:
  assumes "reading d" and "recvBit d = 0" and "sendData d = register_at r d" and "regAddr d = r + 1"
  shows "\<exists>d'. read_bytes n d = Some (map (\<lambda>i. bits8 (register_at (r + i) d)) [0..<n], d')"
  using assms
proof (induction n arbitrary: d r)
  case (Suc n)
  obtain e where e: "read_bits 8 d = Some (bits8 (register_at r d), e)" "reading e" "recvBit e = 8"
    "regAddr e = r + 1" "localTime e = localTime d" "rtc_control e = rtc_control d"
    using read_bits_ok [of d 8] Suc.prems by (auto simp: bits8_map)
  let ?f = "pulse False e"
  note f = acknowledge [OF e(2,3)]
  have s: "register_at k ?f = register_at k d" for k
    using f e by (intro register_at_cong) simp_all
  have "sendData ?f = register_at (r + 1) ?f" "regAddr ?f = r + 1 + 1"
    using f e s [of "r + 1"] by (simp_all add: rtc_register_at register_at_cong [of e d])
  then obtain d' where "read_bytes n ?f = Some (map (\<lambda>i. bits8 (register_at (r + 1 + i) ?f)) [0..<n], d')"
    using Suc.IH [OF f(1,2)] by blast
  then show ?case
    using e by (simp add: s upt_Suc_map o_def del: upt_Suc)
qed simp

text \<open>The bytes of a transfer: an address, a register number, a value for a register.\<close>

lemma send_address:
  assumes "selected d" "recvBit d = 0" "\<not> gotAddr d" "drop_bit 1 v = 0x51"
  defines "e \<equiv> send_byte v d"
  shows "selected e" "recvBit e = 0" "gotAddr e" "isWrite e = (\<not> bit v 0)" "gotReg e = gotReg d"
    and "localTime e = localTime d" "rtc_control e = rtc_control d"
    and "bit v 0 \<Longrightarrow> sendData e = register_at (regAddr d) d" "bit v 0 \<Longrightarrow> regAddr e = regAddr d + 1"
    and "\<not> bit v 0 \<Longrightarrow> regAddr e = regAddr d"
  using assms(1-4) unfolding e_def register_at_def
  by (simp_all add: send_byte_done rtc_byteDone_def PCF8593_sendByte_def selected_def wired_pins_def
      rtc_register_def Let_def)

lemma send_written:
  fixes v :: u8
  assumes "selected d" "recvBit d = 0" "gotAddr d" "isWrite d"
  defines "e \<equiv> send_byte v d"
  shows "selected e" "recvBit e = 0" "gotAddr e" "isWrite e" "gotReg e" "localTime e = localTime d"
    and "\<not> gotReg d \<Longrightarrow> regAddr e = unat v" "\<not> gotReg d \<Longrightarrow> rtc_control e = rtc_control d"
    and "gotReg d \<Longrightarrow> regAddr e = regAddr d + 1"
    and "gotReg d \<Longrightarrow> rtc_control e = (if regAddr d = 0 then v else rtc_control d)"
  using assms(1-4) unfolding e_def
  by (simp_all add: send_byte_done rtc_byteDone_def PCF8593_recvByte_def selected_def wired_pins_def Let_def)

text \<open>After the start condition, the write address and a register number.\<close>

lemma address_register:
  fixes r :: u8
  assumes "wired_pins d" and "\<not> i2c_start d"
  defines "e \<equiv> send_byte r (send_byte 0xA2 (start_condition d))"
  shows "selected e" "recvBit e = 0" "gotAddr e" "isWrite e" "gotReg e" "regAddr e = unat r"
    and "localTime e = localTime d" "rtc_control e = rtc_control d"
proof -
  have a: "drop_bit 1 (0xA2 :: u8) = 0x51" "\<not> bit (0xA2 :: u8) 0" by simp_all
  note s = start_ok [OF assms(1)]
  note t = send_address [OF s(1,2,3) a(1)]
  have "isWrite (send_byte 0xA2 (start_condition d))" using t(4) a(2) by simp
  note u = send_written [OF t(1,2,3) this, of r]
  show "selected e" "recvBit e = 0" "gotAddr e" "isWrite e" "gotReg e" "regAddr e = unat r"
    "localTime e = localTime d" "rtc_control e = rtc_control d"
    using u t s assms(2) unfolding e_def by simp_all
qed

lemma select_register_ok:
  fixes r :: u8
  assumes "wired_pins d" and "\<not> i2c_start d"
  defines "e \<equiv> select_register r d"
  shows "reading e" "recvBit e = 0" "sendData e = register_at (unat r) e" "regAddr e = unat r + 1"
    and "localTime e = localTime d" "rtc_control e = rtc_control d"
proof -
  let ?a = "send_byte r (send_byte 0xA2 (start_condition d))"
  have a: "drop_bit 1 (0xA3 :: u8) = 0x51" "bit (0xA3 :: u8) 0" by simp_all
  note r = address_register [OF assms(1,2), of r]
  have "wired_pins ?a" using r(1) by (simp add: selected_def)
  note s = start_ok [OF this]
  note t = send_address [OF s(1,2,3) a(1)]
  have c: "localTime e = localTime d" "rtc_control e = rtc_control d"
    using t s r unfolding e_def select_register_def by simp_all
  then show "localTime e = localTime d" "rtc_control e = rtc_control d" .
  show "reading e" "recvBit e = 0" "regAddr e = unat r + 1"
    using t s r a(2) unfolding e_def select_register_def reading_def by simp_all
  show "sendData e = register_at (unat r) e"
    using t s r a(2) c register_at_cong [of "start_condition ?a" e "unat r"]
    unfolding e_def select_register_def by simp
qed

text \<open>The two decimal digits of a value below 100.\<close>

lemma bcd_digits: "bcd v = v mod 10 + 16 * (v div 10)"
proof -
  have "take_bit 4 (v mod 10) = v mod 10" by (simp add: take_bit_int_eq_self)
  then have "and (v mod 10) (push_bit 4 (v div 10)) = 0"
    by (auto simp: bit_eq_iff bit_simps simp flip: bit_take_bit_iff) (metis bit_take_bit_iff not_le)
  then show ?thesis
    by (simp add: bcd_def push_bit_eq_mult mult.commute disjunctive_add_eq_or [symmetric])
qed

section \<open>What the registers hold\<close>

text \<open>A number below 160 as decimal digits in two nibbles, a time as the host has it, and the registers 1 to 7 of that time.\<close>

definition digits :: "int \<Rightarrow> int" where
  "digits v = v mod 10 + 16 * (v div 10)"

definition civil :: "host_time \<Rightarrow> bool" where
  "civil t \<longleftrightarrow> tv_usec t \<in> {0..<1000000} \<and> tm_sec t \<in> {0..60} \<and> tm_min t \<in> {0..<60} \<and> tm_hour t \<in> {0..<24} \<and>
     tm_mday t \<in> {1..31} \<and> tm_mon t \<in> {0..<12} \<and> tm_year t \<in> {100..<200} \<and> tm_wday t \<in> {0..<7}"

definition clock_bytes :: "host_time \<Rightarrow> int list" where
  "clock_bytes t = [digits (tv_usec t div 10000), digits (tm_sec t), digits (tm_min t), digits (tm_hour t),
     digits (tm_mday t) + 64 * (tm_year t mod 4), digits (tm_mon t + 1) + 32 * tm_wday t, digits (tm_year t - 100)]"

lemma digits_bounds:
  assumes "0 \<le> v" "v < 10 * n" shows "0 \<le> digits v" "digits v < 16 * n"
proof -
  have "0 \<le> v div 10" "v div 10 < n" "0 \<le> v mod 10" "v mod 10 < 10" using assms by auto
  then show "0 \<le> digits v" "digits v < 16 * n" unfolding digits_def by linarith+
qed

lemma or_above:
  assumes "0 \<le> a" "a < 2 ^ k" shows "or a (b * 2 ^ k) = a + b * (2 ^ k :: int)"
proof -
  have "take_bit k a = a" using assms by (simp add: take_bit_int_eq_self)
  then have "and a (push_bit k b) = 0"
    by (auto simp: bit_eq_iff bit_simps simp flip: bit_take_bit_iff) (metis bit_take_bit_iff not_le)
  then show ?thesis by (simp add: push_bit_eq_mult disjunctive_add_eq_or [symmetric])
qed

lemma byte_value: "0 \<le> v \<Longrightarrow> v < 256 \<Longrightarrow> uint (word_of_int v :: u8) = v"
  by (simp add: uint_word_of_int take_bit_int_eq_self flip: take_bit_eq_mod)

lemma registers_value:
  assumes "civil (localTime d)"
  shows "map (\<lambda>k. uint (register_at k d)) [1..<8] = clock_bytes (localTime d)"
proof -
  let ?t = "localTime d"
  note c = assms [unfolded civil_def atLeastAtMost_iff atLeastLessThan_iff]
  have b: "bcd v = digits v" for v by (simp add: bcd_digits digits_def)
  have y: "and (tm_year ?t - 100) 3 = tm_year ?t mod 4"
  proof -
    have "and (tm_year ?t - 100) 3 = (tm_year ?t - 100) mod 4" using take_bit_eq_mask [of 2 "tm_year ?t - 100"] by (simp add: take_bit_eq_mod mask_numeral)
    also have "\<dots> = tm_year ?t mod 4" by presburger
    finally show ?thesis .
  qed
  have d: "or (digits (tm_mday ?t)) (tm_year ?t mod 4 * 64) = digits (tm_mday ?t) + tm_year ?t mod 4 * 64"
    using or_above [of "digits (tm_mday ?t)" 6] digits_bounds [of "tm_mday ?t" 4] c by simp
  have m: "or (digits (tm_mon ?t + 1)) (tm_wday ?t * 32) = digits (tm_mon ?t + 1) + tm_wday ?t * 32"
    using or_above [of "digits (tm_mon ?t + 1)" 5] digits_bounds [of "tm_mon ?t + 1" 2] c by simp
  have u: "0 \<le> tv_usec ?t div 10000" "tv_usec ?t div 10000 < 100" using c by auto
  have r: "0 \<le> tm_year ?t mod 4" "tm_year ?t mod 4 < 4" by simp_all
  have p: "uint (word_of_int x + word_of_int y * 64 :: u8) = x + 64 * y" if "0 \<le> x" "x < 64" "0 \<le> y" "y < 4" for x y
    using byte_value [of "x + y * 64"] that by simp
  have q: "uint (word_of_int x + word_of_int y * 32 :: u8) = x + 32 * y" if "0 \<le> x" "x < 32" "0 \<le> y" "y < 7" for x y
    using byte_value [of "x + y * 32"] that by simp
  show ?thesis
    unfolding clock_bytes_def
    using c u r digits_bounds [of "tv_usec ?t div 10000" 10] digits_bounds [of "tm_sec ?t" 10] digits_bounds [of "tm_min ?t" 10]
      digits_bounds [of "tm_hour ?t" 10] digits_bounds [of "tm_mday ?t" 4] digits_bounds [of "tm_mon ?t + 1" 2]
      digits_bounds [of "tm_year ?t - 100" 10]
    by (simp add: upt_rec register_at_def rtc_register_def Let_def b y d m p q byte_value)
qed

section \<open>Properties\<close>

text \<open>
  C17: A master that addresses an idle clock, writes a register number and then reads any
  number of bytes over the two lines gets that register and the following ones, bit by bit;
  a byte it writes after the number of register 0 becomes the control register, and one
  written to another register does not change it.  Register 0 is the control register.  At any time of the
  host from 2000 to 2099 the registers 1 to 7 are the hundredths, seconds, minutes and hours in decimal digits, the day of the month
  with the year modulo four, the month with the day of the week, and the year in decimal digits; the others are 0.
\<close>

theorem rtc_bus_protocol:
  assumes "wired_pins d" and "\<not> i2c_start d"
  shows "(\<exists>d'. read_bytes n (select_register r d) = Some (map (\<lambda>i. bits8 (register_at (unat r + i) d)) [0..<n], d'))
    \<and> rtc_control (send_byte v (send_byte r (send_byte 0xA2 (start_condition d)))) =
      (if r = 0 then v else rtc_control d)
    \<and> register_at 0 d = rtc_control d
    \<and> (civil (localTime d) \<longrightarrow> map (\<lambda>k. uint (register_at k d)) [1..<8] = clock_bytes (localTime d))
    \<and> (\<forall>k \<in> {8..}. register_at k d = 0)"
proof (intro conjI impI ballI)
  note s = select_register_ok [OF assms, of r]
  have "register_at k (select_register r d) = register_at k d" for k
    using s by (intro register_at_cong) simp_all
  then show "\<exists>d'. read_bytes n (select_register r d) = Some (map (\<lambda>i. bits8 (register_at (unat r + i) d)) [0..<n], d')"
    using read_bytes_ok [OF s(1,2,3,4), of n] by simp
  note w = address_register [OF assms, of r]
  show "rtc_control (send_byte v (send_byte r (send_byte 0xA2 (start_condition d)))) =
      (if r = 0 then v else rtc_control d)"
    using send_written(10) [OF w(1,2,3,4), of v] w by (simp add: unat_eq_0)
  show "register_at 0 d = rtc_control d" "k \<in> {8..} \<Longrightarrow> register_at k d = 0" for k
    by (auto simp: register_at_def rtc_register_def Let_def)
  show "civil (localTime d) \<Longrightarrow> map (\<lambda>k. uint (register_at k d)) [1..<8] = clock_bytes (localTime d)"
    by (rule registers_value)
qed
text \<open>Year, month and day of a clock on pins 6 and 1, from register 5 on, and all its registers.\<close>

theorem rtc_bus_protocol_witness:
  "(\<exists>d'. read_bytes 2 (select_register 5 (PCF8593_new 6 1 0 0 0
       \<lparr>tv_usec = 70000, tm_sec = 1, tm_min = 42, tm_hour = 3, tm_mday = 19, tm_mon = 11, tm_year = 119, tm_wday = 4\<rparr>))
     = Some ([bits8 0xD9, bits8 0x92], d')) \<and>
   map (\<lambda>k. uint (register_at k (PCF8593_new 6 1 0 0 0
       \<lparr>tv_usec = 70000, tm_sec = 1, tm_min = 42, tm_hour = 3, tm_mday = 19, tm_mon = 11, tm_year = 119, tm_wday = 4\<rparr>))) [1..<8]
     = [7, 1, 0x42, 3, 0xD9, 0x92, 0x19]"
proof -
  let ?d = "PCF8593_new 6 1 0 0 0
    \<lparr>tv_usec = 70000, tm_sec = 1, tm_min = 42, tm_hour = 3, tm_mday = 19, tm_mon = 11, tm_year = 119, tm_wday = 4\<rparr>"
  have d: "wired_pins ?d" "\<not> i2c_start ?d" "civil (localTime ?d)"
    by (simp_all add: wired_pins_def PCF8593_new_def civil_def)
  have "clock_bytes (localTime ?d) = [7, 1, 0x42, 3, 0xD9, 0x92, 0x19]"
    by (simp add: PCF8593_new_def clock_bytes_def digits_def)
  then have m: "map (\<lambda>k. uint (register_at k ?d)) [1..<8] = [7, 1, 0x42, 3, 0xD9, 0x92, 0x19]"
    using rtc_bus_protocol [OF d(1,2)] d(3) by presburger
  have "uint (register_at 5 ?d) = uint (0xD9 :: u8)" "uint (register_at 6 ?d) = uint (0x92 :: u8)"
    using arg_cong [OF m, of "\<lambda>l. l ! 4"] arg_cong [OF m, of "\<lambda>l. l ! 5"] by (simp_all del: upt_rec_numeral)
  then have r: "register_at 5 ?d = 0xD9" "register_at 6 ?d = 0x92" by (simp_all only: word_uint_eq_iff)
  have "map (\<lambda>i. bits8 (register_at (unat (5 :: u8) + i) ?d)) [0..<2] = [bits8 0xD9, bits8 0x92]"
    by (simp add: upt_rec r [unfolded One_nat_def])
  then show ?thesis
    using rtc_bus_protocol [OF d(1,2), of 2 5] m by presburger
qed

end
