(* ===== verification/SerialFlash.thy ===== *)
theory SerialFlash
  imports Prelude
begin

text \<open>
  \<open>SerialFlash.cpp\<close>: a serial flash of 2048 pages of 264 bytes, a serial device of the classic
  Cybiko.  Bytes are written to it and read from it one at a time; raising the chip select
  ends an operation and programs the page written.  \<open>None\<close> is an access outside one of its
  arrays.
\<close>

section \<open>State\<close>

abbreviation pageSize :: nat where "pageSize \<equiv> 264"
abbreviation totalBytes :: nat where "totalBytes \<equiv> 264 * 2048"
abbreviation noAddr :: u32 where "noAddr \<equiv> 0xFFFFFFFF"

record flash =
  chipSelect :: bool
  didWrite :: bool
  flash_wait :: bool
  opCode :: u8
  outputStatus :: bool
  cmdBuf :: "nat \<Rightarrow> u8"
  cmdLen :: nat
  cmdOff :: nat
  readAddr :: u32
  readOff :: nat
  writeAddr :: u32
  writeOff :: nat
  writeBuf :: "nat \<Rightarrow> u8"
  flash_mem :: "nat \<Rightarrow> u8"

text \<open>The buffers and the memory are not initialised by C++.\<close>

definition SerialFlash_new :: "(nat \<Rightarrow> u8) \<Rightarrow> (nat \<Rightarrow> u8) \<Rightarrow> (nat \<Rightarrow> u8) \<Rightarrow> flash" where
  "SerialFlash_new b wb m =
     \<lparr>chipSelect = True, didWrite = False, flash_wait = False, opCode = 0, outputStatus = False,
      cmdBuf = b, cmdLen = 0, cmdOff = 0, readAddr = noAddr, readOff = 0, writeAddr = noAddr,
      writeOff = 0, writeBuf = wb, flash_mem = m\<rparr>"

section \<open>Operations\<close>

definition SerialFlash_read :: "flash \<Rightarrow> (u8 \<times> flash) option" where
  "SerialFlash_read d =
     (let d = d\<lparr>didWrite := False\<rparr>
      in if outputStatus d then Some (0x98, d)
         else if flash_wait d then Some (0xFF, d\<lparr>flash_wait := False\<rparr>)
         else if readAddr d \<noteq> noAddr
         then let i = unat (readAddr d + of_nat (readOff d))
              in if i < totalBytes
                 then Some (flash_mem d i, d\<lparr>readOff := (readOff d + 1) mod pageSize\<rparr>) else None
         else Some (0xFF, d))"

text \<open>The address in the first three argument bytes.\<close>

definition flash_address :: "(nat \<Rightarrow> u8) \<Rightarrow> u32" where
  "flash_address b =
     (let byteAddr = ucast (b 2) OR push_bit 8 (ucast (b 1) AND 1);
          pageAddr = drop_bit 1 (ucast (b 1)) OR push_bit 7 (ucast (b 0))
      in pageAddr * 264 + byteAddr)"

definition flash_command :: "flash \<Rightarrow> flash" where
  "flash_command d =
     (let d = (if opCode d = 0x52
               then d\<lparr>readAddr := flash_address (cmdBuf d), readOff := 0, flash_wait := True\<rparr>
               else if opCode d = 0x82
               then d\<lparr>writeAddr := flash_address (cmdBuf d), writeOff := 0\<rparr>
               else d)
      in d\<lparr>cmdLen := 0, opCode := 0\<rparr>)"

definition flash_opcode :: "u8 \<Rightarrow> flash \<Rightarrow> flash" where
  "flash_opcode val d =
     (let d = d\<lparr>opCode := val, cmdOff := 0\<rparr>
      in if val = 0x52 then d\<lparr>cmdLen := 7\<rparr>
         else if val = 0x57 then d\<lparr>opCode := 0, outputStatus := True\<rparr>
         else if val = 0x60 then d\<lparr>cmdLen := 3\<rparr>
         else if val = 0x82 then d\<lparr>cmdLen := 3\<rparr>
         else d\<lparr>opCode := 0\<rparr>)"

definition SerialFlash_write :: "u8 \<Rightarrow> flash \<Rightarrow> flash option" where
  "SerialFlash_write val d =
     (if chipSelect d then Some d
      else let d = d\<lparr>didWrite := True\<rparr>
           in if outputStatus d \<or> readAddr d \<noteq> noAddr then Some d
              else if writeAddr d \<noteq> noAddr
              then if writeOff d < pageSize
                   then let d = d\<lparr>writeBuf := (writeBuf d)(writeOff d := val), writeOff := writeOff d + 1\<rparr>
                        in Some (if writeOff d \<ge> pageSize then d\<lparr>writeOff := 0\<rparr> else d)
                   else None
              else if cmdLen d \<noteq> 0
              then if cmdOff d < 8
                   then let d = d\<lparr>cmdBuf := (cmdBuf d)(cmdOff d := val), cmdOff := cmdOff d + 1\<rparr>
                        in Some (if cmdOff d = cmdLen d then flash_command d else d)
                   else None
              else if opCode d = 0 then Some (flash_opcode val d)
              else Some d)"

definition SerialFlash_canRead :: "flash \<Rightarrow> bool" where
  "SerialFlash_canRead d = didWrite d"

text \<open>The page that holds \<open>writeAddr\<close> is replaced by the buffer.\<close>

definition flash_program :: "flash \<Rightarrow> flash option" where
  "flash_program d =
     (let base = writeAddr d - writeAddr d mod 264
      in if unat base + pageSize \<le> totalBytes
         then Some (d\<lparr>flash_mem := (\<lambda>i. if unat base \<le> i \<and> i < unat base + pageSize
                        then writeBuf d (i - unat base) else flash_mem d i), writeAddr := noAddr\<rparr>)
         else None)"

definition SerialFlash_setCS :: "bool \<Rightarrow> flash \<Rightarrow> flash option" where
  "SerialFlash_setCS val d =
     (if val \<and> \<not> chipSelect d
      then let d = d\<lparr>outputStatus := False, readAddr := noAddr\<rparr>
           in do { d \<leftarrow> (if writeAddr d \<noteq> noAddr then flash_program d else Some d);
                   Some (d\<lparr>chipSelect := val\<rparr>) }
      else Some (d\<lparr>chipSelect := val\<rparr>))"

definition SerialFlash_loadFile :: "u8 list option \<Rightarrow> nat \<Rightarrow> flash \<Rightarrow> bool \<times> flash" where
  "SerialFlash_loadFile file offset d =
     (case file of
        None \<Rightarrow> (False, d)
      | Some bs \<Rightarrow>
          (True, d\<lparr>flash_mem := (\<lambda>i. if offset \<le> i \<and> i < totalBytes \<and> i - offset < length bs
                                 then bs ! (i - offset) else flash_mem d i)\<rparr>))"

definition SerialFlash_saveFile :: "nat \<Rightarrow> int \<Rightarrow> flash \<Rightarrow> u8 list option" where
  "SerialFlash_saveFile offset len d =
     (let len = (if len = -1 then int totalBytes - int offset else len)
      in if int offset + len \<le> int totalBytes
         then Some (map (flash_mem d) [offset..<offset + nat len]) else None)"

section \<open>The invariant\<close>

text \<open>
  The indices into the command and page buffers are in range, an operation with arguments
  has an argument left to come, and at most one of the modes is active.
\<close>

definition flash_ok :: "flash \<Rightarrow> bool" where
  "flash_ok d \<longleftrightarrow> cmdLen d \<le> 7 \<and> (cmdLen d \<noteq> 0 \<longrightarrow> cmdOff d < cmdLen d) \<and> writeOff d < pageSize
     \<and> readOff d < pageSize \<and> (cmdLen d = 0 \<longrightarrow> opCode d = 0)"

lemma flash_ok_new: "flash_ok (SerialFlash_new b wb m)"
  by (simp add: flash_ok_def SerialFlash_new_def)

lemma flash_write_ok:
  "flash_ok d \<Longrightarrow> \<exists>d'. SerialFlash_write v d = Some d' \<and> flash_ok d' \<and> flash_mem d' = flash_mem d"
  by (auto simp: SerialFlash_write_def flash_ok_def flash_command_def flash_opcode_def Let_def)

lemma flash_read_ok: "flash_ok d \<Longrightarrow> holds (\<lambda>(v, d'). flash_ok d' \<and> flash_mem d' = flash_mem d) (SerialFlash_read d)"
  by (auto simp: SerialFlash_read_def flash_ok_def Let_def)

lemma flash_setCS_ok: "flash_ok d \<Longrightarrow> holds flash_ok (SerialFlash_setCS v d)"
  by (auto simp: SerialFlash_setCS_def flash_program_def flash_ok_def Let_def)

section \<open>Sequences of bytes\<close>

fun flash_send :: "u8 list \<Rightarrow> flash \<Rightarrow> flash option" where
  "flash_send [] d = Some d"
| "flash_send (v # vs) d = do { d \<leftarrow> SerialFlash_write v d; flash_send vs d }"

fun flash_receive :: "nat \<Rightarrow> flash \<Rightarrow> (u8 list \<times> flash) option" where
  "flash_receive 0 d = Some ([], d)"
| "flash_receive (Suc n) d =
     do { (v, d) \<leftarrow> SerialFlash_read d; (vs, d) \<leftarrow> flash_receive n d; Some (v # vs, d) }"

text \<open>The arguments that name a byte of a page, and the two operations.\<close>

definition page_bytes :: "nat \<Rightarrow> nat \<Rightarrow> u8 list" where
  "page_bytes p b = [of_nat (p div 128), of_nat (p mod 128 * 2 + b div 256), of_nat (b mod 256)]"

definition program_page :: "nat \<Rightarrow> u8 list \<Rightarrow> flash \<Rightarrow> flash option" where
  "program_page p data d =
     do { d \<leftarrow> SerialFlash_setCS False d;
          d \<leftarrow> flash_send (0x82 # page_bytes p 0) d;
          d \<leftarrow> flash_send data d;
          SerialFlash_setCS True d }"

definition read_page :: "nat \<Rightarrow> nat \<Rightarrow> nat \<Rightarrow> flash \<Rightarrow> (u8 list \<times> flash) option" where
  "read_page p b n d =
     do { d \<leftarrow> SerialFlash_setCS False d;
          d \<leftarrow> flash_send (0x52 # page_bytes p b @ [0, 0, 0, 0]) d;
          (_, d) \<leftarrow> flash_receive 1 d;
          (vs, d) \<leftarrow> flash_receive n d;
          d \<leftarrow> SerialFlash_setCS True d;
          Some (vs, d) }"

definition flash_idle :: "flash \<Rightarrow> bool" where
  "flash_idle d \<longleftrightarrow> chipSelect d \<and> \<not> outputStatus d \<and> opCode d = 0 \<and> cmdLen d = 0 \<and> readAddr d = noAddr
     \<and> writeAddr d = noAddr"

section \<open>Lemmas\<close>

lemma byte_word: "n < 256 \<Longrightarrow> (ucast (of_nat n :: u8) :: u32) = of_nat n"
  by (simp add: word_unat_eq_iff unsigned_ucast_eq take_bit_nat_eq_self unsigned_of_nat)

lemma split_u32:
  assumes "n < 2 ^ 31" and "k < 2"
  shows "drop_bit 1 (of_nat (n * 2 + k) :: u32) = of_nat n" "(of_nat (n * 2 + k) :: u32) AND 1 = of_nat k"
proof -
  have "unat (of_nat (n * 2 + k) :: u32) = n * 2 + k" "unat (of_nat n :: u32) = n" "unat (of_nat k :: u32) = k"
    using assms by (simp_all only: unat_of_nat, simp_all)
  then show "drop_bit 1 (of_nat (n * 2 + k) :: u32) = of_nat n" "(of_nat (n * 2 + k) :: u32) AND 1 = of_nat k"
    using assms by (simp_all add: word_unat_eq_iff unsigned_drop_bit_eq unsigned_and_eq drop_bit_eq_div and_one_eq unat_div unat_mod)
qed

lemma flash_address_page:
  assumes "p < 2048" and "b < 512"
    and "buf 0 = of_nat (p div 128)" "buf 1 = of_nat (p mod 128 * 2 + b div 256)" "buf 2 = of_nat (b mod 256)"
  shows "flash_address buf = of_nat (p * 264 + b)"
proof -
  have "p mod 128 < 128" by simp
  moreover have t: "b div 256 < 2" "p div 128 < 256" "b mod 256 < 256"
    using assms(1,2) by (simp_all add: less_mult_imp_div_less)
  ultimately have "p mod 128 * 2 + b div 256 < 256" "p mod 128 < 2 ^ 31" by simp_all
  note s = t(2) this(1) t(3) this(2) t(1)
  have j: "(of_nat (p mod 128) :: u32) OR push_bit 7 (of_nat (p div 128)) = of_nat p"
    using join_u32 [of "p mod 128" 7 "p div 128"] by simp
  have k: "(of_nat (b mod 256) :: u32) OR push_bit 8 (of_nat (b div 256)) = of_nat b"
    using join_u32 [of "b mod 256" 8 "b div 256"] by simp
  show ?thesis
    unfolding flash_address_def Let_def assms(3-5) byte_word [OF s(1)] byte_word [OF s(2)] byte_word [OF s(3)]
      split_u32 [OF s(4,5)] j k by simp
qed

text \<open>Sending the arguments of a command.\<close>

lemma send_arguments:
  assumes "\<not> chipSelect d" "\<not> outputStatus d" "readAddr d = noAddr" "writeAddr d = noAddr"
    and "vs \<noteq> []" "cmdOff d + length vs = cmdLen d" "cmdLen d \<le> 7"
  shows "\<exists>buf. flash_send vs d = Some (flash_command (d\<lparr>didWrite := True, cmdBuf := buf, cmdOff := cmdLen d\<rparr>))
    \<and> (\<forall>i. buf i = (if cmdOff d \<le> i \<and> i < cmdLen d then vs ! (i - cmdOff d) else cmdBuf d i))"
  using assms
proof (induction vs arbitrary: d)
  case (Cons v vs)
  let ?e = "d\<lparr>didWrite := True, cmdBuf := (cmdBuf d)(cmdOff d := v), cmdOff := cmdOff d + 1\<rparr>"
  show ?case
  proof (cases "vs = []")
    case True
    then have "SerialFlash_write v d = Some (flash_command (d\<lparr>didWrite := True, cmdBuf := (cmdBuf d)(cmdOff d := v), cmdOff := cmdLen d\<rparr>))"
      using Cons.prems by (simp add: SerialFlash_write_def Let_def)
    then show ?thesis
      using Cons.prems True by (intro exI [of _ "(cmdBuf d)(cmdOff d := v)"]) (auto simp: fun_upd_def)
  next
    case False
    have w: "SerialFlash_write v d = Some ?e"
      using Cons.prems False by (cases vs) (auto simp: SerialFlash_write_def Let_def)
    obtain buf where s: "flash_send vs ?e = Some (flash_command (?e\<lparr>didWrite := True, cmdBuf := buf, cmdOff := cmdLen ?e\<rparr>))"
      and b: "\<forall>i. buf i = (if cmdOff ?e \<le> i \<and> i < cmdLen ?e then vs ! (i - cmdOff ?e) else cmdBuf ?e i)"
      using Cons.IH [of ?e] Cons.prems False by auto
    have "\<forall>i. buf i = (if cmdOff d \<le> i \<and> i < cmdLen d then (v # vs) ! (i - cmdOff d) else cmdBuf d i)"
      using b Cons.prems by (auto simp: nth_Cons')
    moreover have "flash_send (v # vs) d = Some (flash_command (d\<lparr>didWrite := True, cmdBuf := buf, cmdOff := cmdLen d\<rparr>))"
      using w s by simp
    ultimately show ?thesis by blast
  qed
qed simp

lemma send_data:
  assumes "\<not> chipSelect d" "\<not> outputStatus d" "readAddr d = noAddr" "writeAddr d \<noteq> noAddr"
    and "writeOff d + length vs \<le> pageSize" "writeOff d < pageSize"
  shows "\<exists>d'. flash_send vs d = Some d' \<and> \<not> chipSelect d' \<and> \<not> outputStatus d' \<and> readAddr d' = noAddr
    \<and> writeAddr d' = writeAddr d \<and> flash_mem d' = flash_mem d \<and> opCode d' = opCode d \<and> cmdLen d' = cmdLen d
    \<and> (\<forall>i. writeBuf d' i = (if writeOff d \<le> i \<and> i < writeOff d + length vs then vs ! (i - writeOff d) else writeBuf d i))"
  using assms
proof (induction vs arbitrary: d)
  case (Cons v vs)
  obtain e where e: "SerialFlash_write v d = Some e" "writeBuf e = (writeBuf d)(writeOff d := v)"
    "\<not> chipSelect e" "\<not> outputStatus e" "readAddr e = noAddr" "writeAddr e = writeAddr d" "flash_mem e = flash_mem d"
    "opCode e = opCode d" "cmdLen e = cmdLen d" "writeOff e = (if writeOff d + 1 = pageSize then 0 else writeOff d + 1)"
    using Cons.prems by (auto simp: SerialFlash_write_def Let_def)
  show ?case
  proof (cases "writeOff d + 1 = pageSize")
    case True
    then have "vs = []" using Cons.prems by simp
    with e show ?thesis by (auto simp: nth_Cons')
  next
    case False
    with Cons.IH [of e] e Cons.prems obtain d' where "flash_send vs e = Some d'" "\<not> chipSelect d'" "\<not> outputStatus d'"
      "readAddr d' = noAddr" "writeAddr d' = writeAddr d" "flash_mem d' = flash_mem d" "opCode d' = opCode d" "cmdLen d' = cmdLen d"
      "\<forall>i. writeBuf d' i = (if writeOff d + 1 \<le> i \<and> i < writeOff d + 1 + length vs then vs ! (i - (writeOff d + 1)) else writeBuf e i)"
      by auto
    with e show ?thesis by (auto simp: nth_Cons')
  qed
qed auto

lemma receive_data:
  assumes "\<not> outputStatus d" "\<not> flash_wait d" "readAddr d = of_nat a" "a + pageSize \<le> totalBytes" "readOff d < pageSize"
  shows "\<exists>d'. flash_receive n d = Some (map (\<lambda>i. flash_mem d (a + (readOff d + i) mod pageSize)) [0..<n], d')
     \<and> flash_mem d' = flash_mem d \<and> chipSelect d' = chipSelect d \<and> writeAddr d' = writeAddr d
     \<and> opCode d' = opCode d \<and> cmdLen d' = cmdLen d"
  using assms
proof (induction n arbitrary: d)
  case (Suc n)
  let ?e = "d\<lparr>didWrite := False, readOff := (readOff d + 1) mod pageSize\<rparr>"
  have u: "unat (of_nat (a + readOff d) :: u32) = a + readOff d" "unat (of_nat a :: u32) = a" "unat noAddr = 2 ^ 32 - 1"
    using Suc.prems by (simp_all only: unat_of_nat, simp_all)
  then have "readAddr d \<noteq> noAddr"
    using Suc.prems by (auto simp: word_unat_eq_iff)
  then have r: "SerialFlash_read d = Some (flash_mem d (a + readOff d), ?e)"
    using Suc.prems u by (simp add: SerialFlash_read_def Let_def)
  obtain d' where "flash_receive n ?e = Some (map (\<lambda>i. flash_mem d (a + (readOff ?e + i) mod pageSize)) [0..<n], d')"
    "flash_mem d' = flash_mem d" "chipSelect d' = chipSelect d" "writeAddr d' = writeAddr d" "opCode d' = opCode d" "cmdLen d' = cmdLen d"
    using Suc.IH [of ?e] Suc.prems by auto
  then show ?case
    using r Suc.prems by (simp add: upt_Suc_map o_def mod_simps del: upt_Suc)
qed simp

text \<open>Selecting the idle flash and sending a command with its arguments.\<close>

lemma page_bytes_3: "length (page_bytes p b) = 3" "page_bytes p b \<noteq> []"
  by (simp_all add: page_bytes_def)

lemma command_0x82:
  assumes "flash_idle d" and "p < 2048"
  shows "\<exists>e. do { d \<leftarrow> SerialFlash_setCS False d; flash_send (0x82 # page_bytes p 0) d } = Some e
     \<and> \<not> chipSelect e \<and> \<not> outputStatus e \<and> readAddr e = noAddr \<and> writeAddr e = of_nat (p * 264)
     \<and> writeOff e = 0 \<and> opCode e = 0 \<and> cmdLen e = 0 \<and> flash_mem e = flash_mem d"
proof -
  let ?d = "d\<lparr>chipSelect := False, didWrite := True, opCode := 0x82, cmdOff := 0, cmdLen := 3\<rparr>"
  have w: "SerialFlash_write 0x82 (d\<lparr>chipSelect := False\<rparr>) = Some ?d"
    using assms(1) by (simp add: SerialFlash_write_def flash_idle_def flash_opcode_def Let_def)
  obtain buf where b: "flash_send (page_bytes p 0) ?d = Some (flash_command (?d\<lparr>didWrite := True, cmdBuf := buf, cmdOff := cmdLen ?d\<rparr>))"
    "\<forall>i. buf i = (if cmdOff ?d \<le> i \<and> i < cmdLen ?d then page_bytes p 0 ! (i - cmdOff ?d) else cmdBuf ?d i)"
    using send_arguments [of ?d "page_bytes p 0"] assms(1) by (auto simp: flash_idle_def page_bytes_3)
  then have "flash_address buf = of_nat (p * 264 + 0)"
    using assms(2) by (intro flash_address_page) (simp_all add: page_bytes_def)
  with w b(1) show ?thesis
    using assms(1) by (simp add: SerialFlash_setCS_def flash_command_def flash_idle_def Let_def)
qed

lemma command_0x52:
  assumes "flash_idle d" and "p < 2048" and "b < 264"
  shows "\<exists>e. do { d \<leftarrow> SerialFlash_setCS False d; flash_send (0x52 # page_bytes p b @ [0, 0, 0, 0]) d } = Some e
     \<and> \<not> chipSelect e \<and> \<not> outputStatus e \<and> readAddr e = of_nat (p * 264 + b) \<and> flash_wait e
     \<and> readOff e = 0 \<and> writeAddr e = noAddr \<and> opCode e = 0 \<and> cmdLen e = 0 \<and> flash_mem e = flash_mem d"
proof -
  let ?d = "d\<lparr>chipSelect := False, didWrite := True, opCode := 0x52, cmdOff := 0, cmdLen := 7\<rparr>"
  let ?vs = "page_bytes p b @ [0, 0, 0, 0]"
  have w: "SerialFlash_write 0x52 (d\<lparr>chipSelect := False\<rparr>) = Some ?d"
    using assms(1) by (simp add: SerialFlash_write_def flash_idle_def flash_opcode_def Let_def)
  obtain buf where b: "flash_send ?vs ?d = Some (flash_command (?d\<lparr>didWrite := True, cmdBuf := buf, cmdOff := cmdLen ?d\<rparr>))"
    "\<forall>i. buf i = (if cmdOff ?d \<le> i \<and> i < cmdLen ?d then ?vs ! (i - cmdOff ?d) else cmdBuf ?d i)"
    using send_arguments [of ?d ?vs] assms(1) by (auto simp: flash_idle_def page_bytes_3)
  then have "flash_address buf = of_nat (p * 264 + b)"
    using assms(2,3) by (intro flash_address_page) (simp_all add: page_bytes_def)
  with w b(1) show ?thesis
    using assms(1) by (simp add: SerialFlash_setCS_def flash_command_def flash_idle_def Let_def)
qed

lemma page_offset:
  assumes "p < 2048"
  shows "unat (of_nat (p * 264) :: u32) = p * 264" "(of_nat (p * 264) :: u32) \<noteq> noAddr"
    "(of_nat (p * 264) :: u32) mod 264 = 0"
proof -
  show u: "unat (of_nat (p * 264) :: u32) = p * 264"
    using assms by (simp only: unat_of_nat) simp
  show "(of_nat (p * 264) :: u32) \<noteq> noAddr"
  proof
    assume "(of_nat (p * 264) :: u32) = noAddr"
    then have "unat (of_nat (p * 264) :: u32) = unat noAddr" by (simp only:)
    then show False using u assms by simp
  qed
  show "(of_nat (p * 264) :: u32) mod 264 = 0"
    by (simp only: word_unat_eq_iff unat_mod u) simp
qed

text \<open>Programming a page, and reading \<open>n\<close> bytes from byte \<open>b\<close> of a page.\<close>

lemma program_page_ok:
  assumes "flash_idle d" and "p < 2048" and "length data = 264"
  shows "\<exists>d'. program_page p data d = Some d' \<and> flash_idle d'
      \<and> (\<forall>i. flash_mem d' i = (if p * 264 \<le> i \<and> i < p * 264 + 264 then data ! (i - p * 264) else flash_mem d i))"
proof -
  obtain e where e: "do { d \<leftarrow> SerialFlash_setCS False d; flash_send (0x82 # page_bytes p 0) d } = Some e"
    "\<not> chipSelect e" "\<not> outputStatus e" "readAddr e = noAddr" "writeAddr e = of_nat (p * 264)"
    "writeOff e = 0" "opCode e = 0" "cmdLen e = 0" "flash_mem e = flash_mem d"
    using command_0x82 [OF assms(1,2)] by blast
  note u = page_offset [OF assms(2)]
  have w: "writeAddr e \<noteq> noAddr" using e(5) u by simp
  obtain f where f: "flash_send data e = Some f" "\<not> chipSelect f" "\<not> outputStatus f" "readAddr f = noAddr"
    "writeAddr f = of_nat (p * 264)" "flash_mem f = flash_mem d" "opCode f = 0" "cmdLen f = 0"
    "\<forall>i. writeBuf f i = (if i < 264 then data ! i else writeBuf e i)"
    using send_data [OF e(2,3,4) w, of data] e assms(3) by auto
  let ?m = "\<lambda>i. if p * 264 \<le> i \<and> i < p * 264 + 264 then writeBuf f (i - p * 264) else flash_mem d i"
  let ?g = "f\<lparr>outputStatus := False, readAddr := noAddr, flash_mem := ?m, writeAddr := noAddr, chipSelect := True\<rparr>"
  have "SerialFlash_setCS True f = Some ?g"
    using f(2,5,6) u assms(2)
    by (simp add: SerialFlash_setCS_def flash_program_def Let_def del: of_nat_mult cong: if_cong)
  with e(1) f(1) have "program_page p data d = Some ?g"
    unfolding program_page_def by (auto simp: bind_eq_Some_conv)
  with f show ?thesis by (intro exI [of _ ?g]) (auto simp: flash_idle_def)
qed

lemma read_page_ok:
  assumes "flash_idle d" and "p < 2048" and "b < 264" and "p * 264 + b + 264 \<le> totalBytes"
  shows "\<exists>d'. read_page p b n d = Some (map (\<lambda>i. flash_mem d (p * 264 + b + i mod 264)) [0..<n], d')
      \<and> flash_idle d' \<and> flash_mem d' = flash_mem d"
proof -
  obtain h where h: "do { d \<leftarrow> SerialFlash_setCS False d; flash_send (0x52 # page_bytes p b @ [0, 0, 0, 0]) d } = Some h"
     "\<not> chipSelect h" "\<not> outputStatus h" "readAddr h = of_nat (p * 264 + b)" "flash_wait h" "readOff h = 0"
     "writeAddr h = noAddr" "opCode h = 0" "cmdLen h = 0" "flash_mem h = flash_mem d"
    using command_0x52 [OF assms(1,2,3)] by blast
  let ?h = "h\<lparr>didWrite := False, flash_wait := False\<rparr>"
  have r: "flash_receive 1 h = Some ([0xFF], ?h)"
    using h by (simp add: SerialFlash_read_def Let_def)
  obtain k where k: "flash_receive n ?h = Some (map (\<lambda>i. flash_mem d (p * 264 + b + i mod pageSize)) [0..<n], k)"
    "flash_mem k = flash_mem d" "chipSelect k = False" "writeAddr k = noAddr" "opCode k = 0" "cmdLen k = 0"
    using receive_data [of ?h "p * 264 + b" n] h assms(4) by auto
  let ?k = "k\<lparr>outputStatus := False, readAddr := noAddr, chipSelect := True\<rparr>"
  have "SerialFlash_setCS True k = Some ?k"
    using k by (simp add: SerialFlash_setCS_def Let_def)
  with h(1) r k(1) have "read_page p b n d = Some (map (\<lambda>i. flash_mem d (p * 264 + b + i mod 264)) [0..<n], ?k)"
    unfolding read_page_def by (auto simp: bind_eq_Some_conv)
  with k show ?thesis by (intro exI [of _ ?k]) (simp add: flash_idle_def)
qed

section \<open>Properties\<close>

text \<open>
  C16: Programming a page of an idle flash with 264 bytes replaces that page and nothing else
  and leaves the flash idle, and reading it back from its start returns those bytes.
\<close>

theorem flash_page_roundtrip:
  assumes "flash_idle d" and "p < 2048" and "length data = 264"
  shows "\<exists>d'. program_page p data d = Some d' \<and> flash_idle d'
      \<and> (\<forall>i. flash_mem d' i = (if p * 264 \<le> i \<and> i < p * 264 + 264 then data ! (i - p * 264) else flash_mem d i))
      \<and> (\<exists>d''. read_page p 0 264 d' = Some (data, d'') \<and> flash_idle d'' \<and> flash_mem d'' = flash_mem d')"
proof -
  obtain d' where d': "program_page p data d = Some d'" "flash_idle d'"
    "\<forall>i. flash_mem d' i = (if p * 264 \<le> i \<and> i < p * 264 + 264 then data ! (i - p * 264) else flash_mem d i)"
    using program_page_ok [OF assms] by blast
  have "map (\<lambda>i. flash_mem d' (p * 264 + 0 + i mod 264)) [0..<264] = data"
    using d'(3) assms(3) by (intro nth_equalityI) auto
  with read_page_ok [OF d'(2) assms(2), of 0 264] assms(2) d' show ?thesis by auto
qed

theorem flash_page_roundtrip_witness:
  "\<exists>d'. program_page 3 (replicate 264 7) (SerialFlash_new (\<lambda>_. 0) (\<lambda>_. 0) (\<lambda>_. 0xFF)) = Some d'
     \<and> flash_mem d' 800 = 7 \<and> flash_mem d' 791 = 0xFF"
proof -
  have "flash_idle (SerialFlash_new (\<lambda>_. 0) (\<lambda>_. 0) (\<lambda>_. 0xFF))"
    by (simp add: flash_idle_def SerialFlash_new_def)
  from flash_page_roundtrip [OF this, of 3 "replicate 264 7"] show ?thesis
    by (auto simp: SerialFlash_new_def)
qed

end
