(* ===== verification/DS2401.thy ===== *)
theory DS2401
  imports Prelude
begin

text \<open>
  \<open>DS2401.cpp\<close>: the serial number chip on a one-wire bus, bit 2 of a port.  Times are the
  cycles of the CPU, 18 to the microsecond.  \<open>None\<close> is a shift of the identity by 64 or more.
\<close>

section \<open>State\<close>

record ds2401 =
  prevState :: bool
  pinVal :: bool
  ds_out :: bool
  lastStateTime :: u32
  ds_state :: nat
  ds_recvData :: u8
  ds_recvBit :: nat
  sendBit :: int

definition romData :: u64 where
  "romData = 0x790123456789AB01"

text \<open>\<open>recvData\<close>, \<open>recvBit\<close> and \<open>sendBit\<close> are not initialised by C++.\<close>

definition DS2401_new :: "u8 \<Rightarrow> nat \<Rightarrow> int \<Rightarrow> ds2401" where
  "DS2401_new rd rb sb = \<lparr>prevState = True, pinVal = True, ds_out = False, lastStateTime = 0, ds_state = 0,
     ds_recvData = rd, ds_recvBit = rb, sendBit = sb\<rparr>"

section \<open>Operations\<close>

definition DS2401_read :: "ds2401 \<Rightarrow> u8 option" where
  "DS2401_read d =
     (if ds_state d = 3 \<and> sendBit d \<noteq> -1
      then if sendBit d < 0 \<or> sendBit d \<ge> 64 then None
           else Some (if bit romData (nat (sendBit d)) then 4 else 0)
      else Some (if ds_state d = 1 then 0 else 4))"

definition DS2401_handleByte :: "ds2401 \<Rightarrow> ds2401" where
  "DS2401_handleByte d = (if ds_recvData d = 0x33 then d\<lparr>ds_state := 3, sendBit := -1\<rparr> else d)"

text \<open>The line has gone high after having been low for \<open>len\<close> microseconds.\<close>

definition DS2401_rise :: "u32 \<Rightarrow> ds2401 \<Rightarrow> ds2401" where
  "DS2401_rise len d =
     (let d = (if len > 480 then d\<lparr>ds_state := 1\<rparr>
               else if ds_state d = 1 then d\<lparr>ds_state := 2, ds_recvData := 0, ds_recvBit := 0\<rparr>
               else d)
      in if ds_state d = 2
         then let d = d\<lparr>ds_recvData := drop_bit 1 (ds_recvData d)\<rparr>;
                  d = (if len < 15 then d\<lparr>ds_recvData := ds_recvData d OR 0x80\<rparr> else d);
                  d = d\<lparr>ds_recvBit := ds_recvBit d + 1\<rparr>
              in if ds_recvBit d = 8 then DS2401_handleByte (d\<lparr>ds_state := 1\<rparr>) else d
         else if ds_state d = 3 then d\<lparr>sendBit := sendBit d + 1\<rparr>
         else d)"

definition DS2401_update :: "u32 \<Rightarrow> ds2401 \<Rightarrow> ds2401" where
  "DS2401_update time d =
     (let val = (\<not> ds_out d \<or> pinVal d);
          d = (if lastStateTime d = 0 then d\<lparr>lastStateTime := time\<rparr> else d);
          d = (if val \<noteq> prevState d
               then (if val then DS2401_rise ((time - lastStateTime d) div 18) d else d)\<lparr>lastStateTime := time\<rparr>
               else d)
      in d\<lparr>prevState := val\<rparr>)"

definition DS2401_write :: "u8 \<Rightarrow> u32 \<Rightarrow> ds2401 \<Rightarrow> ds2401" where
  "DS2401_write val time d = DS2401_update time (d\<lparr>pinVal := bit val 2\<rparr>)"

definition DS2401_setDirection :: "u8 \<Rightarrow> u32 \<Rightarrow> ds2401 \<Rightarrow> ds2401" where
  "DS2401_setDirection dir time d = DS2401_update time (d\<lparr>ds_out := bit dir 2\<rparr>)"

section \<open>A bus master\<close>

text \<open>
  The master drives the line low for a number of cycles from a time on (the pin is 0, and its
  direction makes the line low or lets it rise).
\<close>

definition low_pulse :: "u32 \<Rightarrow> u32 \<Rightarrow> ds2401 \<Rightarrow> ds2401" where
  "low_pulse time len d = DS2401_setDirection 0 (time + len) (DS2401_setDirection 4 time d)"

definition released :: "ds2401 \<Rightarrow> bool" where
  "released d \<longleftrightarrow> prevState d \<and> \<not> pinVal d \<and> \<not> ds_out d"

text \<open>Pulses are a time and a length in cycles.\<close>

fun pulses :: "(u32 \<times> u32) list \<Rightarrow> ds2401 \<Rightarrow> ds2401" where
  "pulses [] d = d"
| "pulses ((time, len) # ps) d = pulses ps (low_pulse time len d)"

text \<open>Reading a bit: a pulse, and the level after it.\<close>

fun read_slots :: "(u32 \<times> u32) list \<Rightarrow> ds2401 \<Rightarrow> (bool list \<times> ds2401) option" where
  "read_slots [] d = Some ([], d)"
| "read_slots ((time, len) # ps) d =
     (let d = low_pulse time len d
      in do { v \<leftarrow> DS2401_read d; (bs, d) \<leftarrow> read_slots ps d; Some (bit v 2 # bs, d) })"

section \<open>Lemmas\<close>

lemma rise_frame:
  "pinVal (DS2401_rise len d) = pinVal d" "ds_out (DS2401_rise len d) = ds_out d"
  by (simp_all add: DS2401_rise_def DS2401_handleByte_def Let_def)

lemma pull_low:
  "released d \<Longrightarrow> time \<noteq> 0 \<Longrightarrow>
   DS2401_setDirection 4 time d = d\<lparr>ds_out := True, lastStateTime := time, prevState := False\<rparr>"
  by (simp add: DS2401_setDirection_def DS2401_update_def released_def)

lemma low_pulse_rise:
  assumes "released d" and "time \<noteq> 0"
  shows "low_pulse time len d =
     (DS2401_rise (len div 18) (d\<lparr>lastStateTime := time, prevState := False, ds_out := False\<rparr>))
       \<lparr>lastStateTime := time + len, prevState := True\<rparr>"
    and "released (low_pulse time len d)"
proof -
  show l: "low_pulse time len d =
     (DS2401_rise (len div 18) (d\<lparr>lastStateTime := time, prevState := False, ds_out := False\<rparr>))
       \<lparr>lastStateTime := time + len, prevState := True\<rparr>"
    unfolding low_pulse_def pull_low [OF assms]
    using assms by (simp add: DS2401_setDirection_def DS2401_update_def)
  show "released (low_pulse time len d)"
    unfolding l using assms(1) by (simp add: released_def rise_frame)
qed

text \<open>A reset, and a bit of a command: short for 1, longer than 15 and up to 480 microseconds for 0.\<close>

definition bit_length :: "bool \<Rightarrow> u32 \<Rightarrow> bool" where
  "bit_length b len \<longleftrightarrow> (if b then len div 18 < 15 else 15 \<le> len div 18 \<and> len div 18 \<le> 480)"

lemma bit_lengthD: "bit_length b len \<Longrightarrow> \<not> 480 < len div 18 \<and> len div 18 < 15 = b"
  by (auto simp: bit_length_def word_less_nat_alt word_le_nat_alt split: if_splits)

lemma reset_pulse:
  "released d \<Longrightarrow> time \<noteq> 0 \<Longrightarrow> 480 < len div 18 \<Longrightarrow> ds_state (low_pulse time len d) = 1"
  by (simp add: low_pulse_rise DS2401_rise_def)

lemma first_bit:
  assumes "released d" "time \<noteq> 0" "bit_length b len" "ds_state d = 1"
  shows "ds_state (low_pulse time len d) = 2" "ds_recvBit (low_pulse time len d) = 1"
    and "ds_recvData (low_pulse time len d) = (if b then 0x80 else 0)"
  using assms bit_lengthD [OF assms(3)] by (auto simp: low_pulse_rise DS2401_rise_def Let_def)

lemma next_bit:
  assumes "released d" "time \<noteq> 0" "bit_length b len" "ds_state d = 2" "ds_recvBit d + 1 < 8"
  shows "ds_state (low_pulse time len d) = 2" "ds_recvBit (low_pulse time len d) = ds_recvBit d + 1"
    and "ds_recvData (low_pulse time len d) = drop_bit 1 (ds_recvData d) OR (if b then 0x80 else 0)"
  using assms bit_lengthD [OF assms(3)] by (auto simp: low_pulse_rise DS2401_rise_def Let_def)

lemma last_bit:
  assumes "released d" "time \<noteq> 0" "bit_length b len" "ds_state d = 2" "ds_recvBit d = 7"
    and "drop_bit 1 (ds_recvData d) OR (if b then 0x80 else 0) = 0x33"
  shows "ds_state (low_pulse time len d) = 3" "sendBit (low_pulse time len d) = -1"
  using assms bit_lengthD [OF assms(3)] by (auto simp: low_pulse_rise DS2401_rise_def DS2401_handleByte_def Let_def)

lemma send_slot:
  assumes "released d" "time \<noteq> 0" "len div 18 \<le> 480" "ds_state d = 3"
  shows "ds_state (low_pulse time len d) = 3" "sendBit (low_pulse time len d) = sendBit d + 1"
  using assms by (auto simp: low_pulse_rise DS2401_rise_def)

lemma read_slots_ok:
  assumes "released d" "ds_state d = 3" "-1 \<le> sendBit d" "sendBit d + int (length ps) < 64"
    and "list_all (\<lambda>(time, len). time \<noteq> 0 \<and> len div 18 \<le> 480) ps"
  shows "\<exists>d'. read_slots ps d = Some (map (\<lambda>i. bit romData (nat (sendBit d + 1) + i)) [0..<length ps], d')"
  using assms
proof (induction ps arbitrary: d)
  case (Cons p ps)
  obtain time len where p: "p = (time, len)" by (cases p)
  let ?e = "low_pulse time len d"
  have c: "time \<noteq> 0" "len div 18 \<le> 480" using Cons.prems(5) p by simp_all
  note e = send_slot [OF Cons.prems(1) c Cons.prems(2)] low_pulse_rise(2) [OF Cons.prems(1) c(1), of len]
  obtain d' where d': "read_slots ps ?e = Some (map (\<lambda>i. bit romData (nat (sendBit ?e + 1) + i)) [0..<length ps], d')"
    using Cons.IH [of ?e] e Cons.prems by auto
  have r: "DS2401_read ?e = Some (if bit romData (nat (sendBit d + 1)) then 4 else 0)"
    using e Cons.prems by (simp add: DS2401_read_def)
  have "nat (sendBit d + 1 + 1) = Suc (nat (sendBit d + 1))" using Cons.prems(3) by simp
  with d' r e show ?case
    by (simp add: p Let_def upt_Suc_map o_def del: upt_Suc)
qed simp

text \<open>The command byte, lowest bit first: the bits received so far are the top of the register.\<close>

lemma command_bits:
  assumes "released d" "ds_state d = 2" "ds_recvBit d = 8 - length bs" "bs \<noteq> []" "length bs < 8"
    and "list_all2 (\<lambda>b (time, len). time \<noteq> 0 \<and> bit_length b len) bs ps"
    and "fold (\<lambda>b x. drop_bit 1 x OR (if b then 0x80 else 0)) bs (ds_recvData d) = 0x33"
  shows "ds_state (pulses ps d) = 3 \<and> sendBit (pulses ps d) = -1 \<and> released (pulses ps d)"
  using assms
proof (induction bs arbitrary: d ps)
  case (Cons b bs)
  then obtain time len qs where p: "ps = (time, len) # qs" "time \<noteq> 0" "bit_length b len"
    "list_all2 (\<lambda>b (time, len). time \<noteq> 0 \<and> bit_length b len) bs qs"
    by (auto simp: list_all2_Cons1)
  let ?e = "low_pulse time len d"
  note e = low_pulse_rise(2) [OF Cons.prems(1) p(2), of len]
  show ?case
  proof (cases "bs = []")
    case True
    then show ?thesis using last_bit [OF Cons.prems(1) p(2,3) Cons.prems(2)] Cons.prems p e by simp
  next
    case False
    then have "ds_recvBit d + 1 < 8" using Cons.prems by (cases bs) auto
    note f = next_bit [OF Cons.prems(1) p(2,3) Cons.prems(2) this]
    have "ds_state (pulses qs ?e) = 3 \<and> sendBit (pulses qs ?e) = -1 \<and> released (pulses qs ?e)"
      using Cons.prems f e False p(4) by (intro Cons.IH) auto
    then show ?thesis using p(1) by simp
  qed
qed simp

section \<open>Properties\<close>

text \<open>
  C18: After a reset pulse and the eight bits of the command 0x33, each of up to 64 read slots
  returns the next bit of the chip's identity, lowest bit first, whatever the times of the
  pulses are within the limits of the bus.
\<close>

theorem read_rom_protocol:
  assumes "released d" and "t \<noteq> 0" and "480 < len div 18"
    and "list_all2 (\<lambda>b (time, len). time \<noteq> 0 \<and> bit_length b len)
      [True, True, False, False, True, True, False, False] cmd"
    and "list_all (\<lambda>(time, len). time \<noteq> 0 \<and> len div 18 \<le> 480) slots" and "length slots \<le> 64"
  shows "\<exists>d'. read_slots slots (pulses ((t, len) # cmd) d) = Some (map (bit romData) [0..<length slots], d')"
proof -
  let ?r = "low_pulse t len d"
  have r: "released ?r" "ds_state ?r = 1"
    using low_pulse_rise(2) reset_pulse assms(1-3) by auto
  obtain time l cs where c: "cmd = (time, l) # cs" "time \<noteq> 0" "bit_length True l"
    "list_all2 (\<lambda>b (time, len). time \<noteq> 0 \<and> bit_length b len) [True, False, False, True, True, False, False] cs"
    using assms(4) by (auto simp: list_all2_Cons1)
  note f = first_bit [OF r(1) c(2,3) r(2)] low_pulse_rise(2) [OF r(1) c(2), of l]
  have e: "ds_state (pulses cs (low_pulse time l ?r)) = 3 \<and> sendBit (pulses cs (low_pulse time l ?r)) = -1
      \<and> released (pulses cs (low_pulse time l ?r))"
    by (rule command_bits [OF _ _ _ _ _ c(4)]) (use f in simp_all)
  then show ?thesis
    using read_slots_ok [of "pulses cs (low_pulse time l ?r)" slots] assms(5,6) c(1) by simp
qed

theorem read_rom_protocol_witness:
  "\<exists>d'. read_slots [(30000, 36), (40000, 36)] (pulses ((100, 9000) # [(10000, 36), (11000, 36), (12000, 1200),
     (14000, 1200), (16000, 36), (17000, 36), (18000, 1200), (20000, 1200)])
     (DS2401_write 0 50 (DS2401_new 0 0 0))) = Some ([True, False], d')"
proof -
  have "released (DS2401_write 0 50 (DS2401_new 0 0 0))"
    by (simp add: released_def DS2401_write_def DS2401_update_def DS2401_new_def Let_def)
  from read_rom_protocol [OF this, of 100 9000 "[(10000, 36), (11000, 36), (12000, 1200), (14000, 1200),
      (16000, 36), (17000, 36), (18000, 1200), (20000, 1200)]" "[(30000, 36), (40000, 36)]"]
  show ?thesis by (simp add: bit_length_def romData_def upt_rec)
qed

end
