(* ===== verification/KeyboardDevice.thy ===== *)
theory KeyboardDevice
  imports Prelude
begin

text \<open>
  \<open>KeyboardDevice.cpp\<close>: the key matrices of the two models on the external bus.  Keys are the
  scancodes of SDL, which are the USB usage numbers (224 and 228 are the control keys, 225
  and 229 the shift keys, 101 is the menu key, and 82, cursor up, ends the tables).
  \<open>None\<close> is an access outside \<open>keyData\<close>.
\<close>

section \<open>The matrices\<close>

type_synonym 'w matrix = "nat \<Rightarrow> 'w word"

definition ClassicKeyboardDevice_new :: "8 matrix" where
  "ClassicKeyboardDevice_new = (\<lambda>_. 0xFF)"

definition XtremeKeyboardDevice_new :: "16 matrix" where
  "XtremeKeyboardDevice_new = (\<lambda>_. 0xFFFF)"

text \<open>The loops over the column lines, which are active low in the address.\<close>

definition ClassicKeyboardDevice_read :: "u32 \<Rightarrow> 8 matrix \<Rightarrow> u8" where
  "ClassicKeyboardDevice_read addr keyData =
     fold (\<lambda>i ret. if \<not> bit addr i then ret OR keyData (i - 1) else ret) [1..<10] 0"

definition XtremeKeyboardDevice_read :: "u32 \<Rightarrow> 16 matrix \<Rightarrow> u8" where
  "XtremeKeyboardDevice_read addr keyData =
     (let low = bit addr 0
      in fold (\<lambda>i ret. if \<not> bit addr i then ret OR ucast (drop_bit (if low then 0 else 8) (keyData (i - 1)))
                         else ret) [1..<11] 0)"

definition KeyboardDevice_write :: "u32 \<Rightarrow> u8 \<Rightarrow> 'w matrix \<Rightarrow> 'w::len matrix" where
  "KeyboardDevice_write addr val keyData = keyData"

section \<open>The keys\<close>

definition classic_columns :: "int list" where
  "classic_columns =
     [-1, -1, -1, -1, 0, 5, 3, 2, 2, 3, 4, 5, 7, 6, 7, 8,
      7, 6, 8, 8, 0, 3, 1, 4, 6, 4, 1, 2, 5, 1, 3, 1,
      2, 3, 4, 5, 6, 7, 8, 7, 5, 0, 6, 3, 2, 7, 8, 3,
      4, 5, -1, 5, 8, 0, 8, 9, 6, -1, 6, 5, 2, 3, 2, 1,
      0, -1, -1, -1, -1, -1, -1, -1, -1, 1, -1, -1, 0, -1, -1, 4,
      0, 4, 1]"

definition classic_rows :: "int list" where
  "classic_rows =
     [-1, -1, -1, -1, 5, 6, 6, 5, 4, 5, 5, 5, 4, 5, 5, 5,
      6, 6, 4, 3, 4, 4, 5, 4, 4, 6, 4, 6, 4, 6, 1, 3,
      3, 3, 3, 3, 3, 3, 2, 2, 2, 1, 2, 2, 2, 0, 1, 7,
      7, 7, -1, 1, 0, 6, 6, 1, 1, -1, 0, 0, 1, 0, 0, 0,
      0, -1, -1, -1, -1, -1, -1, -1, -1, 2, -1, -1, 2, -1, -1, 0,
      3, 1, 1]"

definition classic_key :: "nat \<Rightarrow> int \<times> int" where
  "classic_key scancode =
     (if scancode \<le> 82 then (classic_columns ! scancode, classic_rows ! scancode)
      else if scancode = 224 \<or> scancode = 228 then (1, 7)
      else if scancode = 225 \<or> scancode = 229 then (0, 7)
      else (-1, -1))"

definition xtreme_columns :: "int list" where
  "xtreme_columns =
     [-1, -1, -1, -1, 3, 1, 2, 2, 3, 2, 1, 1, 0, 1, 0, 0,
      0, 1, 0, 9, 3, 2, 3, 2, 1, 2, 3, 3, 1, 3, -1, -1,
      -1, -1, -1, -1, -1, -1, -1, -1, 4, 5, -1, 5, 4, -1, -1, 2,
      0, -1, -1, 9, -1, -1, 0, 9, -1, -1, 6, 5, 4, 3, 2, 1,
      0, -1, -1, -1, -1, -1, -1, -1, -1, 5, -1, -1, 5, -1, -1, 6,
      6, 6, 6]"

definition xtreme_rows :: "int list" where
  "xtreme_rows =
     [-1, -1, -1, -1, 2, 2, 9, 8, 7, 12, 1, 4, 12, 7, 11, 14,
      8, 3, 13, 4, 1, 13, 5, 14, 6, 11, 6, 4, 5, 3, -1, -1,
      -1, -1, -1, -1, -1, -1, -1, -1, 3, 10, -1, 7, 6, -1, -1, 10,
      9, -1, -1, 3, -1, -1, 10, 1, -1, -1, 0, 0, 0, 0, 0, 0,
      0, -1, -1, -1, -1, -1, -1, -1, -1, 9, -1, -1, 8, -1, -1, 12,
      14, 13, 11]"

definition xtreme_key :: "nat \<Rightarrow> int \<times> int" where
  "xtreme_key scancode =
     (if scancode \<le> 82 then (xtreme_columns ! scancode, xtreme_rows ! scancode)
      else if scancode = 224 \<or> scancode = 228 then (7, 15)
      else if scancode = 225 \<or> scancode = 229 then (8, 15)
      else if scancode = 101 then (4, 5)
      else (-1, -1))"

text \<open>The last part of \<open>updateKey\<close>, for a matrix of \<open>n\<close> columns.\<close>

definition set_key :: "nat \<Rightarrow> int \<times> int \<Rightarrow> bool \<Rightarrow> 'w::len matrix \<Rightarrow> 'w matrix option" where
  "set_key n key down keyData =
     (let (col, row) = key
      in if col = -1 then Some keyData
         else if col < 0 \<or> int n \<le> col \<or> row < 0 then None
         else Some (keyData (nat col :=
                (if down then keyData (nat col) AND NOT (bitv (nat row))
                 else keyData (nat col) OR bitv (nat row)))))"

definition ClassicKeyboardDevice_updateKey :: "nat \<Rightarrow> bool \<Rightarrow> 8 matrix \<Rightarrow> 8 matrix option" where
  "ClassicKeyboardDevice_updateKey scancode down = set_key 9 (classic_key scancode) down"

definition XtremeKeyboardDevice_updateKey :: "nat \<Rightarrow> bool \<Rightarrow> 16 matrix \<Rightarrow> 16 matrix option" where
  "XtremeKeyboardDevice_updateKey scancode down = set_key 10 (xtreme_key scancode) down"

section \<open>Lemmas\<close>

text \<open>Every key of the tables has a row if it has a column, and both are in the matrix.\<close>

definition key_ok :: "int \<Rightarrow> int \<Rightarrow> int \<times> int \<Rightarrow> bool" where
  "key_ok cols rows key \<longleftrightarrow> fst key = -1 \<or> (0 \<le> fst key \<and> fst key < cols \<and> 0 \<le> snd key \<and> snd key < rows)"

lemma tables_ok:
  "list_all (\<lambda>s. s = 55 \<or> key_ok 9 8 (classic_key s)) [0..<83]" "list_all (\<lambda>s. key_ok 10 16 (xtreme_key s)) [0..<83]"
  by (simp_all add: classic_key_def classic_columns_def classic_rows_def xtreme_key_def xtreme_columns_def
      xtreme_rows_def key_ok_def upt_rec)

lemma classic_key_ok: "s \<noteq> 55 \<Longrightarrow> key_ok 9 8 (classic_key s)"
  using tables_ok(1) by (cases "s \<le> 82") (auto simp: list_all_iff, auto simp: classic_key_def key_ok_def)

lemma xtreme_key_ok: "key_ok 10 16 (xtreme_key s)"
  using tables_ok(2) by (cases "s \<le> 82") (auto simp: list_all_iff, auto simp: xtreme_key_def key_ok_def)

lemma fold_or_bits:
  "bit (fold (\<lambda>i ret. if \<not> bit (a :: u32) i then ret OR f i else ret) is (r :: 'a::len word)) n
     \<longleftrightarrow> bit r n \<or> (\<exists>i \<in> set is. \<not> bit a i \<and> bit (f i) n)"
  by (induction "is" arbitrary: r) (auto simp: bit_or_iff)

lemma classic_read_bits:
  "bit (ClassicKeyboardDevice_read addr m) n \<longleftrightarrow> (\<exists>i. 1 \<le> i \<and> i < 10 \<and> \<not> bit addr i \<and> bit (m (i - 1)) n)"
  by (auto simp: ClassicKeyboardDevice_read_def fold_or_bits)

lemma xtreme_read_bits:
  "n < 8 \<Longrightarrow> bit (XtremeKeyboardDevice_read addr m) n \<longleftrightarrow>
   (\<exists>i. 1 \<le> i \<and> i < 11 \<and> \<not> bit addr i \<and> bit (m (i - 1)) (n + (if bit addr 0 then 0 else 8)))"
  by (auto simp: XtremeKeyboardDevice_read_def Let_def fold_or_bits bit_simps add.commute)

text \<open>An address that selects one column of \<open>n\<close>.\<close>

definition selects :: "nat \<Rightarrow> nat \<Rightarrow> u32 \<Rightarrow> bool" where
  "selects n col addr \<longleftrightarrow> col < n \<and> (\<forall>i. 1 \<le> i \<and> i \<le> n \<longrightarrow> (bit addr i \<longleftrightarrow> i \<noteq> col + 1))"

lemma classic_read_column: "selects 9 col addr \<Longrightarrow> ClassicKeyboardDevice_read addr m = m col"
  by (rule bit_word_eqI) (force simp: classic_read_bits selects_def)

lemma xtreme_read_column:
  "selects 10 col addr \<Longrightarrow>
   XtremeKeyboardDevice_read addr m = ucast (drop_bit (if bit addr 0 then 0 else 8) (m col))"
proof (rule bit_word_eqI)
  fix n assume "selects 10 col addr" "n < LENGTH(8)"
  then show "bit (XtremeKeyboardDevice_read addr m) n = bit (ucast (drop_bit (if bit addr 0 then 0 else 8) (m col)) :: u8) n"
    by (force simp: xtreme_read_bits selects_def bit_simps add.commute)
qed

lemma set_key_ok:
  assumes "key_ok (int n) (int r) key"
  shows "\<exists>m'. set_key n key down m = Some (m' :: 'w::len matrix) \<and>
    (\<forall>c i. i < LENGTH('w) \<longrightarrow> bit (m' c) i = (if key = (int c, int i) then \<not> down else bit (m c) i))"
proof (cases "fst key = -1")
  case True
  then show ?thesis by (cases key) (auto simp: set_key_def)
next
  case False
  then obtain c i where k: "key = (int c, int i)" "c < n"
    using assms by (cases key) (auto simp: key_ok_def elim!: nonneg_int_cases)
  then show ?thesis
    by (auto simp: set_key_def bit_simps simp flip: push_bit_of_1)
qed

section \<open>Properties\<close>

text \<open>
  C21: Every key that is pressed or released changes its own bit of its own column and nothing
  else, as a scan of the columns reads them: on the Xtreme keyboard for every scancode, on
  the classic one for every scancode but 55 (the full stop), whose column is outside the
  array of columns.
\<close>

theorem keyboard_scan:
  "(\<exists>m'. XtremeKeyboardDevice_updateKey s down m = Some m' \<and>
      (\<forall>col addr i. selects 10 col addr \<longrightarrow> i < 8 \<longrightarrow>
        bit (XtremeKeyboardDevice_read addr m') i =
          (if xtreme_key s = (int col, int (i + (if bit addr 0 then 0 else 8))) then \<not> down
           else bit (XtremeKeyboardDevice_read addr m) i)))
   \<and> (s \<noteq> 55 \<longrightarrow> (\<exists>k'. ClassicKeyboardDevice_updateKey s down k = Some k' \<and>
      (\<forall>col addr i. selects 9 col addr \<longrightarrow> i < 8 \<longrightarrow>
        bit (ClassicKeyboardDevice_read addr k') i =
          (if classic_key s = (int col, int i) then \<not> down else bit (ClassicKeyboardDevice_read addr k) i))))
   \<and> ClassicKeyboardDevice_updateKey 55 down k = None"
proof (intro conjI impI)
  obtain m' where m': "set_key 10 (xtreme_key s) down m = Some m'"
    "\<forall>c i. i < 16 \<longrightarrow> bit (m' c) i = (if xtreme_key s = (int c, int i) then \<not> down else bit (m c) i)"
    using set_key_ok [of 10 16 "xtreme_key s" down m] xtreme_key_ok [of s] by auto
  show "\<exists>m'. XtremeKeyboardDevice_updateKey s down m = Some m' \<and>
      (\<forall>col addr i. selects 10 col addr \<longrightarrow> i < 8 \<longrightarrow>
        bit (XtremeKeyboardDevice_read addr m') i =
          (if xtreme_key s = (int col, int (i + (if bit addr 0 then 0 else 8))) then \<not> down
           else bit (XtremeKeyboardDevice_read addr m) i))"
    using m' by (auto simp: XtremeKeyboardDevice_updateKey_def xtreme_read_column bit_simps add.commute)
next
  assume "s \<noteq> 55"
  then obtain k' where k': "set_key 9 (classic_key s) down k = Some k'"
    "\<forall>c i. i < 8 \<longrightarrow> bit (k' c) i = (if classic_key s = (int c, int i) then \<not> down else bit (k c) i)"
    using set_key_ok [of 9 8 "classic_key s" down k] classic_key_ok [of s] by auto
  then show "\<exists>k'. ClassicKeyboardDevice_updateKey s down k = Some k' \<and>
      (\<forall>col addr i. selects 9 col addr \<longrightarrow> i < 8 \<longrightarrow>
        bit (ClassicKeyboardDevice_read addr k') i =
          (if classic_key s = (int col, int i) then \<not> down else bit (ClassicKeyboardDevice_read addr k) i))"
    by (auto simp: ClassicKeyboardDevice_updateKey_def classic_read_column)
next
  show "ClassicKeyboardDevice_updateKey 55 down k = None"
    by (simp add: ClassicKeyboardDevice_updateKey_def set_key_def classic_key_def classic_columns_def classic_rows_def)
qed

text \<open>The key A on the classic keyboard, scanned through column 0.\<close>

theorem keyboard_scan_witness:
  "\<exists>k'. ClassicKeyboardDevice_updateKey 4 True ClassicKeyboardDevice_new = Some k'
     \<and> \<not> bit (ClassicKeyboardDevice_read 0x3FC k') 5"
proof -
  have "\<forall>i \<in> {1..9}. bit (0x3FC :: u32) i \<longleftrightarrow> i \<noteq> 0 + 1"
    by (simp add: atLeastAtMost_upt upt_rec)
  then have "selects 9 0 0x3FC" by (simp add: selects_def)
  moreover have "classic_key 4 = (int 0, int 5)"
    by (simp add: classic_key_def classic_columns_def classic_rows_def)
  ultimately show ?thesis
    using keyboard_scan [of 4 True _ ClassicKeyboardDevice_new] by force
qed

end
