(* ===== verification/LCDDevice.thy ===== *)
theory LCDDevice
  imports Prelude
begin

text \<open>
  \<open>LCDDevice.cpp\<close>: the display controller on the external bus, and the conversion of its
  memory, four pixels of two bits to a byte, to an image of 160 by 100 pixels of four bytes.
  \<open>None\<close> is an access outside the display memory.
\<close>

section \<open>State\<close>

record lcd =
  regIndex :: u8
  control1 :: u8
  control2 :: u8
  lcd_x :: u8
  lcd_y :: u8
  lcd_mem :: "nat \<Rightarrow> u8"
  pal :: "nat \<Rightarrow> u8"

text \<open>The bits of the control registers that are used.\<close>

abbreviation C1_ADC :: u8 where "C1_ADC \<equiv> 1"
abbreviation C1_STBY :: u8 where "C1_STBY \<equiv> 32"
abbreviation C1_DISP :: u8 where "C1_DISP \<equiv> 64"
abbreviation C2_INC :: u8 where "C2_INC \<equiv> 2"
abbreviation C2_GRAY :: u8 where "C2_GRAY \<equiv> 16"
abbreviation C2_WLS :: u8 where "C2_WLS \<equiv> 32"

text \<open>\<open>regIndex\<close> is not initialised by C++.\<close>

definition LCDDevice_new :: "u8 \<Rightarrow> lcd" where
  "LCDDevice_new ri = \<lparr>regIndex = ri, control1 = 0, control2 = 0, lcd_x = 0, lcd_y = 0, lcd_mem = (\<lambda>_. 0),
     pal = (\<lambda>i. if i = 1 then 0x0B else if i = 2 then 0x17 else if i = 3 then 0x1F else 0)\<rparr>"

section \<open>Registers\<close>

definition LCDDevice_read :: "u32 \<Rightarrow> lcd \<Rightarrow> u8" where
  "LCDDevice_read addr d = 0"

text \<open>A write to the display memory: an address of more than 4000 is only reported.\<close>

definition LCDDevice_data :: "u8 \<Rightarrow> lcd \<Rightarrow> lcd option" where
  "LCDDevice_data val d =
     (let a = unat (lcd_x d) + unat (lcd_y d) * 40
      in do { d \<leftarrow> (if a > 4000 then Some d
                   else if a < 4000 then Some (d\<lparr>lcd_mem := (lcd_mem d)(a := val)\<rparr>)
                   else None);
              Some (if tst (control2 d) C2_INC
                    then let m = (if tst (control1 d) C2_WLS then 0x36 else 0x28)
                         in d\<lparr>lcd_x := of_nat ((unat (lcd_x d) + 1) mod m)\<rparr>
                    else d\<lparr>lcd_y := lcd_y d + 1\<rparr>) })"

definition LCDDevice_write :: "u32 \<Rightarrow> u8 \<Rightarrow> lcd \<Rightarrow> lcd option" where
  "LCDDevice_write addr val d =
     (if \<not> tst addr 1 then Some (d\<lparr>regIndex := val\<rparr>)
      else if regIndex d = 0 then Some (d\<lparr>control1 := val\<rparr>)
      else if regIndex d = 1 then Some (d\<lparr>control2 := val\<rparr>)
      else if regIndex d = 2 then Some (d\<lparr>lcd_x := val\<rparr>)
      else if regIndex d = 3 then Some (d\<lparr>lcd_y := val\<rparr>)
      else if regIndex d = 4 then LCDDevice_data val d
      else if 12 \<le> regIndex d \<and> regIndex d \<le> 15
      then Some (d\<lparr>pal := (pal d)(unat (regIndex d) - 12 := val)\<rparr>)
      else Some d)"

section \<open>The image\<close>

text \<open>The gray of a two-bit pixel, and the four bytes written for it.\<close>

definition lcd_gray :: "lcd \<Rightarrow> nat \<Rightarrow> u8" where
  "lcd_gray d index = (if tst (control2 d) C2_GRAY then push_bit 3 (pal d index) else of_nat (index * 85))"

definition put_pixel :: "nat \<Rightarrow> u8 \<Rightarrow> (nat \<Rightarrow> u8) \<Rightarrow> nat \<Rightarrow> u8" where
  "put_pixel outOff gray rgba =
     rgba(outOff := 0xFF - gray, outOff + 1 := 0xFF - gray, outOff + 2 := 0xFF - gray, outOff + 3 := 0xFF)"

text \<open>The three loops: over the lines, the bytes of a line and the pixels of a byte.\<close>

fun lcd_pixels :: "lcd \<Rightarrow> nat \<Rightarrow> nat \<Rightarrow> u8 \<Rightarrow> nat list \<Rightarrow> (nat \<Rightarrow> u8) \<Rightarrow> nat \<Rightarrow> u8" where
  "lcd_pixels d y x b [] rgba = rgba"
| "lcd_pixels d y x b (x2 # xs) rgba =
     (let index = unat (drop_bit (6 - x2 * 2) b AND 3);
          outOff = (if tst (control1 d) C1_ADC then ((x * 4 + x2) + (99 - y) * 160) * 4
                    else ((x * 4 + x2) + y * 160) * 4)
      in lcd_pixels d y x b xs (put_pixel outOff (lcd_gray d index) rgba))"

fun lcd_line :: "lcd \<Rightarrow> nat \<Rightarrow> nat list \<Rightarrow> nat \<times> (nat \<Rightarrow> u8) \<Rightarrow> nat \<times> (nat \<Rightarrow> u8)" where
  "lcd_line d y [] s = s"
| "lcd_line d y (x # xs) (inByte, rgba) =
     lcd_line d y xs (inByte + 1, lcd_pixels d y x (lcd_mem d inByte) [0..<4] rgba)"

fun lcd_lines :: "lcd \<Rightarrow> nat list \<Rightarrow> nat \<times> (nat \<Rightarrow> u8) \<Rightarrow> nat \<times> (nat \<Rightarrow> u8)" where
  "lcd_lines d [] s = s"
| "lcd_lines d (y # ys) s = lcd_lines d ys (lcd_line d y [0..<40] s)"

definition LCDDevice_convertDisplay :: "lcd \<Rightarrow> (nat \<Rightarrow> u8) \<Rightarrow> nat \<Rightarrow> u8" where
  "LCDDevice_convertDisplay d rgba =
     (if tst (control1 d) C1_STBY \<or> \<not> tst (control1 d) C1_DISP
      then fold (\<lambda>i rgba. rgba(i * 4 := 0, i * 4 + 1 := 0, i * 4 + 2 := 0, i * 4 + 3 := 0xFF)) [0..<160 * 100] rgba
      else snd (lcd_lines d [0..<100] (0, rgba)))"

section \<open>Lemmas\<close>

text \<open>What the image should hold at pixel \<open>px\<close>, \<open>py\<close> of the display.\<close>

definition lcd_offset :: "lcd \<Rightarrow> nat \<Rightarrow> nat \<Rightarrow> nat" where
  "lcd_offset d px py = (px + (if tst (control1 d) C1_ADC then 99 - py else py) * 160) * 4"

definition lcd_index :: "lcd \<Rightarrow> nat \<Rightarrow> nat \<Rightarrow> nat" where
  "lcd_index d px py = unat (drop_bit (6 - px mod 4 * 2) (lcd_mem d (py * 40 + px div 4)) AND 3)"

definition pixel_done :: "lcd \<Rightarrow> (nat \<Rightarrow> u8) \<Rightarrow> nat \<Rightarrow> nat \<Rightarrow> bool" where
  "pixel_done d rgba px py \<longleftrightarrow>
     (\<forall>k < 3. rgba (lcd_offset d px py + k) = 0xFF - lcd_gray d (lcd_index d px py)) \<and> rgba (lcd_offset d px py + 3) = 0xFF"

lemma digits_inj: "a + b * m = e + f * m \<longleftrightarrow> a = e \<and> b = f" if "a < m" "e < m" for a b e f m :: nat
proof
  assume eq: "a + b * m = e + f * m"
  have "(a + b * m) mod m = a" "(e + f * m) mod m = e" "(a + b * m) div m = b" "(e + f * m) div m = f"
    using that by simp_all
  with eq show "a = e \<and> b = f" by metis
qed simp

lemma pack_inj:
  fixes a b e f k l :: nat
  assumes "a < 160" "e < 160" "k < 4" "l < 4"
  shows "(a + b * 160) * 4 + k = (e + f * 160) * 4 + l \<longleftrightarrow> a = e \<and> b = f \<and> k = l"
  using digits_inj [OF assms(3,4), of "a + b * 160" "e + f * 160"] digits_inj [OF assms(1,2), of b f]
  by (auto simp only: add.commute [of k] add.commute [of l])

lemma offset_inj:
  assumes "px < 160" "qx < 160" "py < 100" "qy < 100" "k < 4" "l < 4"
  shows "lcd_offset d px py + k = lcd_offset d qx qy + l \<longleftrightarrow> px = qx \<and> py = qy \<and> k = l"
proof -
  have "99 - py = 99 - qy \<longleftrightarrow> py = qy" using assms(3,4) by arith
  then show ?thesis
    unfolding lcd_offset_def pack_inj [OF assms(1,2,5,6)] by simp
qed

lemma put_done:
  assumes "px < 160" "qx < 160" "py < 100" "qy < 100"
  shows "pixel_done d (put_pixel (lcd_offset d px py) (lcd_gray d (lcd_index d px py)) rgba) qx qy
     \<longleftrightarrow> (qx, qy) = (px, py) \<or> pixel_done d rgba qx qy"
proof -
  have n: "lcd_offset d qx qy + k \<noteq> lcd_offset d px py + l" if "(qx, qy) \<noteq> (px, py)" "k < 4" "l < 4" for k l
    using offset_inj [OF assms(2,1,4,3) that(2,3), of d] that(1) by auto
  show ?thesis
  proof (cases "(qx, qy) = (px, py)")
    case True
    have "put_pixel o' g rgba (o' + k) = (if k < 3 then 0xFF - g else if k = 3 then 0xFF else rgba (o' + k))" for o' g k
      by (auto simp: put_pixel_def)
    with True show ?thesis by (auto simp: pixel_done_def)
  next
    case False
    then have "put_pixel (lcd_offset d px py) g rgba (lcd_offset d qx qy + k) = rgba (lcd_offset d qx qy + k)" if "k < 4" for g k
      using n [OF False that, of 0] n [OF False that, of 1] n [OF False that, of 2] n [OF False that, of 3]
      by (simp add: put_pixel_def)
    with False show ?thesis by (auto simp: pixel_done_def)
  qed
qed

text \<open>The loops do every pixel of the bytes they pass.\<close>

lemma pixels_done:
  assumes "x < 40" "y < 100" "qx < 160" "qy < 100" "set xs \<subseteq> {..<4}"
  shows "pixel_done d (lcd_pixels d y x (lcd_mem d (y * 40 + x)) xs rgba) qx qy
     \<longleftrightarrow> (qy = y \<and> (\<exists>x2 \<in> set xs. qx = x * 4 + x2)) \<or> pixel_done d rgba qx qy"
  using assms(5)
proof (induction xs arbitrary: rgba)
  case (Cons x2 xs)
  have x2: "x2 < 4" using Cons.prems by simp
  have "lcd_index d (x * 4 + x2) y = unat (drop_bit (6 - x2 * 2) (lcd_mem d (y * 40 + x)) AND 3)"
    using x2 by (simp add: lcd_index_def)
  moreover have "lcd_offset d (x * 4 + x2) y = (if tst (control1 d) C1_ADC then ((x * 4 + x2) + (99 - y) * 160) * 4
                    else ((x * 4 + x2) + y * 160) * 4)"
    by (simp add: lcd_offset_def)
  ultimately show ?case
    using Cons put_done [of "x * 4 + x2" qx y qy d rgba] x2 assms(1-4) by (auto simp: Let_def)
qed simp

lemma byte_columns: "(\<exists>x2 \<in> {0..<4}. qx = j * 4 + x2) \<longleftrightarrow> j * 4 \<le> qx \<and> qx < j * 4 + 4" for j qx :: nat
  by (auto intro: bexI [of _ "qx - j * 4"])

lemma line_done:
  assumes "y < 100" "qx < 160" "qy < 100" "j + n \<le> 40"
  shows "\<exists>rgba'. lcd_line d y [j..<j + n] (y * 40 + j, rgba) = (y * 40 + j + n, rgba') \<and>
    (pixel_done d rgba' qx qy \<longleftrightarrow> (qy = y \<and> j * 4 \<le> qx \<and> qx < (j + n) * 4) \<or> pixel_done d rgba qx qy)"
  using assms(4)
proof (induction n arbitrary: j rgba)
  case (Suc n)
  let ?r = "lcd_pixels d y j (lcd_mem d (y * 40 + j)) [0..<4] rgba"
  have "[j..<j + Suc n] = j # [Suc j..<Suc j + n]" by (simp add: upt_conv_Cons)
  moreover obtain rgba' where r: "lcd_line d y [Suc j..<Suc j + n] (y * 40 + Suc j, ?r) = (y * 40 + Suc j + n, rgba')"
    "pixel_done d rgba' qx qy \<longleftrightarrow> (qy = y \<and> Suc j * 4 \<le> qx \<and> qx < (Suc j + n) * 4) \<or> pixel_done d ?r qx qy"
    using Suc.IH [of "Suc j" ?r] Suc.prems by auto
  moreover have p: "pixel_done d ?r qx qy \<longleftrightarrow> (qy = y \<and> j * 4 \<le> qx \<and> qx < j * 4 + 4) \<or> pixel_done d rgba qx qy"
    using pixels_done [of j y qx qy "[0..<4]" d rgba] Suc.prems assms(1-3) by (simp add: byte_columns lessThan_atLeast0)
  have "pixel_done d rgba' qx qy \<longleftrightarrow> (qy = y \<and> j * 4 \<le> qx \<and> qx < (j + Suc n) * 4) \<or> pixel_done d rgba qx qy"
    unfolding r(2) p by auto
  ultimately show ?case by simp
qed auto

lemma lines_done:
  assumes "qx < 160" "qy < 100" "j + n \<le> 100"
  shows "\<exists>rgba'. lcd_lines d [j..<j + n] (j * 40, rgba) = ((j + n) * 40, rgba') \<and>
    (pixel_done d rgba' qx qy \<longleftrightarrow> (j \<le> qy \<and> qy < j + n) \<or> pixel_done d rgba qx qy)"
  using assms(3)
proof (induction n arbitrary: j rgba)
  case (Suc n)
  obtain r where r: "lcd_line d j [0..<40] (j * 40, rgba) = (Suc j * 40, r)"
    "pixel_done d r qx qy \<longleftrightarrow> qy = j \<or> pixel_done d rgba qx qy"
    using line_done [of j qx qy 0 40 d rgba] Suc.prems assms(1,2) by (auto simp: add.commute)
  have "[j..<j + Suc n] = j # [Suc j..<Suc j + n]" by (simp add: upt_conv_Cons)
  moreover obtain rgba' where l: "lcd_lines d [Suc j..<Suc j + n] (Suc j * 40, r) = ((Suc j + n) * 40, rgba')"
    "pixel_done d rgba' qx qy \<longleftrightarrow> (Suc j \<le> qy \<and> qy < Suc j + n) \<or> pixel_done d r qx qy"
    using Suc.IH [of "Suc j" r] Suc.prems by auto
  moreover have "pixel_done d rgba' qx qy \<longleftrightarrow> (j \<le> qy \<and> qy < j + Suc n) \<or> pixel_done d rgba qx qy"
    unfolding l(2) r(2) by auto
  ultimately show ?case using r(1) by simp
qed auto

section \<open>Properties\<close>

text \<open>
  When the display is on, the image holds every pixel of the display memory: the gray of
  its two bits, inverted, in the three colour bytes and 0xFF in the fourth, upside down if
  the address direction is reversed; and a data write leaves the display memory exactly when
  the column and row counters name byte 4000, which the check \<open>> 4000\<close> lets through.
\<close>

theorem lcd_image:
  "(\<not> tst (control1 d) C1_STBY \<longrightarrow> tst (control1 d) C1_DISP \<longrightarrow> px < 160 \<longrightarrow> py < 100 \<longrightarrow> k < 3 \<longrightarrow>
      LCDDevice_convertDisplay d rgba (lcd_offset d px py + k) = 0xFF - lcd_gray d (lcd_index d px py)
      \<and> LCDDevice_convertDisplay d rgba (lcd_offset d px py + 3) = 0xFF)
   \<and> (LCDDevice_data v d = None \<longleftrightarrow> unat (lcd_x d) + unat (lcd_y d) * 40 = 4000)"
proof (rule conjI, intro impI)
  assume on: "\<not> tst (control1 d) C1_STBY" "tst (control1 d) C1_DISP" and p: "px < 160" "py < 100" "k < 3"
  have "pixel_done d (snd (lcd_lines d [0..<100] (0, rgba))) px py"
    using lines_done [OF p(1,2), of 0 100 d rgba] p(2) by auto
  then show "LCDDevice_convertDisplay d rgba (lcd_offset d px py + k) = 0xFF - lcd_gray d (lcd_index d px py)
      \<and> LCDDevice_convertDisplay d rgba (lcd_offset d px py + 3) = 0xFF"
    using on p(3) by (simp add: LCDDevice_convertDisplay_def pixel_done_def)
next
  show "LCDDevice_data v d = None \<longleftrightarrow> unat (lcd_x d) + unat (lcd_y d) * 40 = 4000"
    by (auto simp: LCDDevice_data_def Let_def bind_eq_None_conv)
qed

theorem lcd_image_witness:
  defines "d \<equiv> (LCDDevice_new 4)\<lparr>control1 := C1_DISP OR C1_ADC, control2 := C2_GRAY,
      lcd_mem := (\<lambda>_. 0)(41 := 0x1B)\<rparr>"
  shows "LCDDevice_convertDisplay d (\<lambda>_. 0) ((6 + 98 * 160) * 4 + 2) = 0xFF - 0xB8
    \<and> LCDDevice_data 9 (d\<lparr>lcd_x := 40, lcd_y := 99\<rparr>) = None"
proof -
  have "tst (C1_DISP OR C1_ADC) C1_ADC" "tst C2_GRAY C2_GRAY" "\<not> tst (C1_DISP OR C1_ADC) C1_STBY"
    "tst (C1_DISP OR C1_ADC) C1_DISP" "unat (drop_bit 2 (0x1B :: u8) AND 3) = 2" "push_bit 3 (0x17 :: u8) = 0xB8"
    by code_simp+
  then have "lcd_offset d 6 1 = (6 + 98 * 160) * 4" "lcd_gray d (lcd_index d 6 1) = 0xB8"
    "\<not> tst (control1 d) C1_STBY" "tst (control1 d) C1_DISP"
    unfolding d_def by (simp_all only: lcd_offset_def lcd_gray_def lcd_index_def lcd.simps LCDDevice_new_def if_True, simp_all)
  moreover have "unat (40 :: u8) + unat (99 :: u8) * 40 = 4000" by code_simp
  then have "LCDDevice_data 9 (d\<lparr>lcd_x := 40, lcd_y := 99\<rparr>) = None"
    unfolding lcd_image [THEN conjunct2] by simp
  ultimately show ?thesis
    using lcd_image [of d 6 1 2 "\<lambda>_. 0"] by (simp add: ac_simps)
qed

end
