(* ===== verification/CRC.thy ===== *)
theory CRC
  imports Prelude
begin

text \<open>
  The checksums of \<open>CRC.cpp\<close>: the reflected CRC-16 and CRC-32 computed bit by bit, and the
  checksum of the file system.  The lemmas show that the register of a CRC is a linear and
  injective function of its contents and of the bits of the message, so a burst of errors no longer
  than the register always changes the result.
\<close>

section \<open>The functions\<close>

text \<open>The inner loop: one shift of the register, for a polynomial.\<close>

definition crc_shift :: "'a::len word \<Rightarrow> 'a word \<Rightarrow> 'a word" where
  "crc_shift poly crc =
     (let b = bit crc 0; crc = drop_bit 1 crc in if b then crc XOR poly else crc)"

definition crc_byte :: "'a::len word \<Rightarrow> u8 \<Rightarrow> 'a word \<Rightarrow> 'a word" where
  "crc_byte poly d crc = (crc_shift poly ^^ 8) (crc XOR ucast d)"

definition crc16 :: "u8 list \<Rightarrow> u32" where
  "crc16 data = ucast (fold (crc_byte (0xA001 :: u16)) data 0xFFFF)"

definition crc32 :: "u8 list \<Rightarrow> u32" where
  "crc32 data = fold (crc_byte 0xEDB88320) data 0xFFFFFFFF"

text \<open>\<open>ret << 1 | ret >> 15\<close> on 16 bits.\<close>

definition fs_rotate :: "u16 \<Rightarrow> u16" where
  "fs_rotate ret = push_bit 1 ret OR drop_bit 15 ret"

fun fsChecksum_loop :: "nat \<Rightarrow> u8 list \<Rightarrow> u16 \<Rightarrow> u16" where
  "fsChecksum_loop i [] ret = ret"
| "fsChecksum_loop i (d # ds) ret =
     (let ret = ret XOR ucast d XOR of_nat i
      in fsChecksum_loop (i + 1) ds (fs_rotate ret))"

definition fsChecksum :: "u8 list \<Rightarrow> u16" where
  "fsChecksum data = fsChecksum_loop 0 data 0"

section \<open>Linearity\<close>

lemma crc_shift_zero [simp]: "crc_shift p 0 = 0"
  by (simp add: crc_shift_def)

lemma crc_shift_xor: "crc_shift p (x XOR y) = crc_shift p x XOR crc_shift p y"
  by (rule bit_word_eqI) (auto simp: crc_shift_def Let_def bit_simps)

lemma crc_shifts_xor: "(crc_shift p ^^ n) (x XOR y) = (crc_shift p ^^ n) x XOR (crc_shift p ^^ n) y"
  by (induction n) (simp_all add: crc_shift_xor)

lemma crc_shifts_zero [simp]: "(crc_shift p ^^ n) 0 = 0"
  by (induction n) simp_all

lemma xor_cancel: "x XOR a = y XOR a \<longleftrightarrow> x = (y :: 'a::len word)"
  by (auto simp: bit_eq_iff bit_simps)

lemma xor_cancel_left: "a XOR x = a XOR y \<longleftrightarrow> x = (y :: 'a::len word)"
  by (auto simp: bit_eq_iff bit_simps)

section \<open>Injectivity\<close>

text \<open>The top coefficient of the polynomial makes a shift reversible.\<close>

lemma crc_shift_inj:
  assumes "bit p (LENGTH('a) - 1)" and "crc_shift p x = 0" shows "x = (0 :: 'a::len word)"
proof -
  have b: "\<not> bit x 0"
  proof
    assume "bit x 0"
    then have "drop_bit 1 x = p" using assms(2) by (simp add: crc_shift_def xor_zero)
    moreover have "\<not> bit (drop_bit 1 x) (LENGTH('a) - 1)" by (simp add: bit_simps)
    ultimately show False using assms(1) by simp
  qed
  then have d: "drop_bit 1 x = 0" using assms(2) by (simp add: crc_shift_def)
  show ?thesis
  proof (rule bit_word_eqI)
    fix n
    have "bit (drop_bit 1 x) (n - 1) = bit (0 :: 'a word) (n - 1)" by (simp only: d)
    then show "bit x n = bit (0 :: 'a word) n" using b by (cases n) (simp_all add: bit_simps)
  qed
qed

lemma crc_shifts_inj:
  "bit p (LENGTH('a) - 1) \<Longrightarrow> (crc_shift p ^^ n) x = 0 \<Longrightarrow> x = (0 :: 'a::len word)"
  by (induction n) (auto dest!: crc_shift_inj [rotated])

section \<open>One bit at a time\<close>

text \<open>A message as the bits that pass through the register, the lowest bit of a byte first.\<close>

definition byte_bits :: "u8 \<Rightarrow> bool list" where
  "byte_bits d = [bit d 0, bit d 1, bit d 2, bit d 3, bit d 4, bit d 5, bit d 6, bit d 7]"

definition message_bits :: "u8 list \<Rightarrow> bool list" where
  "message_bits data = concat (map byte_bits data)"

definition bit_step :: "'a::len word \<Rightarrow> bool \<Rightarrow> 'a word \<Rightarrow> 'a word" where
  "bit_step p b crc = crc_shift p (crc XOR (if b then 1 else 0))"

fun joined_bits :: "bool list \<Rightarrow> 'a::len word" where
  "joined_bits [] = 0"
| "joined_bits (b # bs) = (if b then 1 else 0) XOR push_bit 1 (joined_bits bs)"

text \<open>As many bits as the register has pass through it as if all of them were added at the start.\<close>

lemma crc_shifts_injective:
  assumes "bit p (LENGTH('a) - 1)" and "(crc_shift p ^^ n) x = (crc_shift p ^^ n) y"
  shows "x = (y :: 'a::len word)"
proof -
  have "(crc_shift p ^^ n) (x XOR y) = 0" using assms(2) by (simp add: crc_shifts_xor)
  then have "x XOR y = 0" by (rule crc_shifts_inj [OF assms(1)])
  then show ?thesis by (simp add: xor_zero)
qed

lemma bit_joined_bits:
  "bit (joined_bits bs :: 'a::len word) n \<longleftrightarrow> n < length bs \<and> n < LENGTH('a) \<and> bs ! n"
proof (induction bs arbitrary: n)
  case (Cons b bs)
  show ?case
    by (cases n) (auto simp: bit_xor_iff bit_push_bit_iff Cons.IH bit_1_iff simp del: push_bit_Suc)
qed simp

lemma crc_shift_push:
  assumes "\<not> bit v (LENGTH('a) - 1)"
  shows "crc_shift p (push_bit 1 v) = (v :: 'a::len word)"
proof (rule bit_word_eqI)
  fix m assume "m < LENGTH('a)"
  with assms show "bit (crc_shift p (push_bit 1 v)) m = bit v m"
    by (cases "Suc m < LENGTH('a)") (auto simp: crc_shift_def bit_simps Let_def not_less_eq less_Suc_eq simp del: push_bit_Suc)
qed

lemma fold_bit_steps:
  "length bs \<le> LENGTH('a) \<Longrightarrow>
   fold (bit_step p) bs x = (crc_shift p ^^ length bs) (x XOR (joined_bits bs :: 'a::len word))"
proof (induction bs arbitrary: x)
  case (Cons b bs)
  let ?b = "if b then 1 else 0 :: 'a word"
  have "crc_shift p (push_bit 1 (joined_bits bs)) = (joined_bits bs :: 'a word)"
    by (rule crc_shift_push) (use Cons.prems in \<open>simp add: bit_joined_bits\<close>)
  then have "crc_shift p (x XOR joined_bits (b # bs)) = bit_step p b x XOR joined_bits bs"
    by (simp add: bit_step_def xor.assoc [symmetric] crc_shift_xor [of p "x XOR ?b"])
  then have "(crc_shift p ^^ Suc (length bs)) (x XOR joined_bits (b # bs)) = fold (bit_step p) bs (bit_step p b x)"
    using Cons by (simp only: funpow_Suc_right o_apply) simp
  then show ?case by simp
qed simp

lemma crc_byte_bits:
  assumes "8 \<le> LENGTH('a)"
  shows "crc_byte p d = fold (bit_step (p :: 'a::len word)) (byte_bits d)"
proof
  fix x :: "'a word"
  have l: "length (byte_bits d) = 8" by (simp add: byte_bits_def)
  have "(joined_bits (byte_bits d) :: 'a word) = ucast d"
  proof (rule bit_word_eqI)
    fix n assume "n < LENGTH('a)"
    have "byte_bits d ! n = bit d n" if "n < 8"
    proof -
      from that have "n = 0 \<or> n = 1 \<or> n = 2 \<or> n = 3 \<or> n = 4 \<or> n = 5 \<or> n = 6 \<or> n = 7" by linarith
      then show ?thesis by (elim disjE) (simp_all add: byte_bits_def)
    qed
    then show "bit (joined_bits (byte_bits d) :: 'a word) n = bit (ucast d :: 'a word) n"
      using \<open>n < LENGTH('a)\<close> bit_imp_le_length [of d n] by (auto simp: bit_joined_bits bit_unsigned_iff l)
  qed
  then show "crc_byte p d x = fold (bit_step p) (byte_bits d) x"
    using fold_bit_steps [of "byte_bits d" p x] assms l by (simp add: crc_byte_def del: funpow.simps)
qed

lemma fold_crc_bits:
  "8 \<le> LENGTH('a) \<Longrightarrow> fold (crc_byte p) data x = fold (bit_step (p :: 'a::len word)) (message_bits data) x"
  by (induction data arbitrary: x) (simp_all add: message_bits_def crc_byte_bits)

lemma fold_bits_inj:
  assumes "bit p (LENGTH('a) - 1)"
  shows "fold (bit_step p) bs x = fold (bit_step p) bs y \<Longrightarrow> x = (y :: 'a::len word)"
proof (induction bs arbitrary: x y)
  case (Cons b bs)
  then have "bit_step p b x = bit_step p b y" by simp
  then have "x XOR (if b then 1 else 0) = y XOR (if b then 1 else 0)"
    using crc_shifts_injective [OF assms, where n = 1] by (simp add: bit_step_def)
  then show ?case by (simp add: xor_cancel)
qed simp

lemma fold_bits_detects:
  assumes p: "bit p (LENGTH('a) - 1)" and l: "length ds = length es" "length ds \<le> LENGTH('a)"
    and "fold (bit_step p) (as @ ds @ bs) x = (fold (bit_step p) (as @ es @ bs) x :: 'a::len word)"
  shows "ds = es"
proof -
  have "fold (bit_step p) ds y = fold (bit_step p) es y" if "y = fold (bit_step p) as x" for y
    using fold_bits_inj [OF p] assms(4) that by simp
  then have "fold (bit_step p) as x XOR joined_bits ds = fold (bit_step p) as x XOR joined_bits es"
    using crc_shifts_injective [OF p] l by (simp add: fold_bit_steps)
  then have j: "(joined_bits ds :: 'a word) = joined_bits es" by (simp add: xor_cancel_left)
  have "ds ! n = es ! n" if "n < length ds" for n
    using bit_joined_bits [of ds n, where 'a = 'a] bit_joined_bits [of es n, where 'a = 'a] j l that by simp
  with l(1) show ?thesis by (simp add: list_eq_iff_nth_eq)
qed

section \<open>The checksum of the file system\<close>

lemma fs_rotate_inj: "fs_rotate x = fs_rotate y \<Longrightarrow> x = y"
proof -
  assume e: "fs_rotate x = fs_rotate y"
  have b: "bit (fs_rotate v) (if n = 15 then 0 else n + 1) = bit v n" if "n < 16" for n v
    using that bit_imp_le_length [of v "16 + n"]
    by (auto simp: fs_rotate_def bit_simps push_bit_eq_mult [symmetric] simp del: push_bit_Suc push_bit_of_1)
  show "x = y"
  proof (rule bit_word_eqI)
    fix n assume "n < LENGTH(16)"
    then have "n < 16" by simp
    from b [OF this, of x] b [OF this, of y] e show "bit x n = bit y n" by simp
  qed
qed

lemma u8_u16: "(ucast (x :: u8) :: u16) = ucast y \<longleftrightarrow> x = y"
proof -
  have "x = ucast (ucast x :: u16)" for x :: u8
    by (rule bit_word_eqI) (simp add: bit_simps)
  then show ?thesis by metis
qed

lemma fsChecksum_loop_inj:
  "fsChecksum_loop i ds x = fsChecksum_loop i ds y \<longleftrightarrow> x = y"
  by (induction ds arbitrary: i x y) (auto simp: Let_def xor_cancel dest: fs_rotate_inj)

lemma fsChecksum_loop_append:
  "fsChecksum_loop i (xs @ ys) r = fsChecksum_loop (i + length xs) ys (fsChecksum_loop i xs r)"
  by (induction xs arbitrary: i r) (simp_all add: Let_def)

lemma ucast16_inj: "(ucast (x :: u16) :: u32) = ucast y \<Longrightarrow> x = y"
proof -
  have "x = ucast (ucast x :: u32)" for x :: u16
    by (rule bit_word_eqI) (simp add: bit_simps)
  then show "(ucast x :: u32) = ucast y \<Longrightarrow> x = y" by metis
qed

section \<open>Properties\<close>

lemma crc16_detects:
  assumes "message_bits ds = u @ x @ v" "message_bits es = u @ y @ v" "length x = length y" "x \<noteq> y" "length x \<le> 16"
  shows "crc16 ds \<noteq> crc16 es"
proof
  assume "crc16 ds = crc16 es"
  then have "fold (crc_byte (0xA001 :: u16)) ds 0xFFFF = fold (crc_byte 0xA001) es 0xFFFF"
    by (intro ucast16_inj) (simp only: crc16_def)
  then show False
    using fold_bits_detects [of "0xA001 :: u16" x y u v "0xFFFF"] assms by (simp add: fold_crc_bits)
qed

lemma crc32_detects:
  assumes "message_bits ds = u @ x @ v" "message_bits es = u @ y @ v" "length x = length y" "x \<noteq> y" "length x \<le> 32"
  shows "crc32 ds \<noteq> crc32 es"
  using fold_bits_detects [of "0xEDB88320 :: u32" x y u v "0xFFFFFFFF"] assms by (auto simp: fold_crc_bits crc32_def)

lemma fsChecksum_detects: "d \<noteq> e \<Longrightarrow> fsChecksum (as @ [d] @ bs) \<noteq> fsChecksum (as @ [e] @ bs)"
  by (auto simp: fsChecksum_def fsChecksum_loop_append fsChecksum_loop_inj Let_def xor_cancel
      xor_cancel_left u8_u16 dest!: fs_rotate_inj)

lemma eight_times: "(f ^^ 8) x = f (f (f (f (f (f (f (f x)))))))"
  by (simp add: eval_nat_numeral)

text \<open>
  C19: CRC-16 changes whenever the bits of two messages differ only within a stretch of 16
  consecutive bits, wherever it starts, and CRC-32 whenever they differ only within 32; the
  digits 1 to 9 have the check values published for the two polynomials.  The checksum of the file
  system changes when one byte does, whatever the rest of the message is, but is weaker than its 16 bits
  suggest: two bytes can change without changing it.
\<close>

theorem checksums_detect:
  assumes "message_bits ds = u @ x @ v" "message_bits es = u @ y @ v" "length x = length y" "x \<noteq> y"
  shows "(length x \<le> 16 \<longrightarrow> crc16 ds \<noteq> crc16 es) \<and> (length x \<le> 32 \<longrightarrow> crc32 ds \<noteq> crc32 es)
    \<and> crc16 [0x31, 0x32, 0x33, 0x34, 0x35, 0x36, 0x37, 0x38, 0x39] = 0x4B37
    \<and> NOT (crc32 [0x31, 0x32, 0x33, 0x34, 0x35, 0x36, 0x37, 0x38, 0x39]) = 0xCBF43926
    \<and> (d \<noteq> e \<longrightarrow> fsChecksum (as @ [d] @ bs) \<noteq> fsChecksum (as @ [e] @ bs))
    \<and> fsChecksum [0, 0] = fsChecksum [1, 2]"
proof (intro conjI impI)
  show "crc16 [0x31, 0x32, 0x33, 0x34, 0x35, 0x36, 0x37, 0x38, 0x39] = 0x4B37"
    by (simp add: crc16_def crc_byte_def eight_times crc_shift_def)
  show "NOT (crc32 [0x31, 0x32, 0x33, 0x34, 0x35, 0x36, 0x37, 0x38, 0x39]) = 0xCBF43926"
    by (simp add: crc32_def crc_byte_def eight_times crc_shift_def)
  show "fsChecksum [0, 0] = fsChecksum [1, 2]" by (simp add: fsChecksum_def fs_rotate_def)
  show "length x \<le> 16 \<Longrightarrow> crc16 ds \<noteq> crc16 es" by (rule crc16_detects [OF assms])
  show "length x \<le> 32 \<Longrightarrow> crc32 ds \<noteq> crc32 es" by (rule crc32_detects [OF assms])
  show "d \<noteq> e \<Longrightarrow> fsChecksum (as @ [d] @ bs) \<noteq> fsChecksum (as @ [e] @ bs)" by (rule fsChecksum_detects)
qed

text \<open>The last bit of a byte and the first of the next.\<close>

theorem checksums_detect_witness:
  "crc16 [5, 0x80, 0x01, 6] \<noteq> crc16 [5, 0, 0, 6] \<and> crc32 [5, 0x80, 0x01, 6] \<noteq> crc32 [5, 0, 0, 6]
   \<and> fsChecksum ([5] @ [1] @ [6]) \<noteq> fsChecksum ([5] @ [2] @ [6])"
proof -
  let ?u = "byte_bits 5 @ replicate 7 False" and ?v = "replicate 7 False @ byte_bits 6"
  have "message_bits [5, 0x80, 0x01, 6] = ?u @ [True, True] @ ?v"
    by (simp add: message_bits_def byte_bits_def eval_nat_numeral)
  moreover have "message_bits [5, 0, 0, 6] = ?u @ [False, False] @ ?v"
    by (simp add: message_bits_def byte_bits_def eval_nat_numeral)
  moreover have "length [True, True] = length [False, False]" "[True, True] \<noteq> [False, False]"
    "length [True, True] \<le> 16" "length [True, True] \<le> 32" "(1 :: u8) \<noteq> 2" by simp_all
  ultimately show ?thesis
    using checksums_detect [of "[5, 0x80, 0x01, 6]" ?u "[True, True]" ?v "[5, 0, 0, 6]" "[False, False]" 1 2 "[5]" "[6]"] by blast
qed

end
