(* ===== verification/CyID.thy ===== *)
theory CyID
  imports Prelude
begin

text \<open>
  \<open>Util.cpp\<close>: identifiers of Cybikos (a 31-bit number written as six base 32 digits and a
  last letter for the lowest bit) and \<open>cybikoTime\<close>.  The host's local time is the argument of
  the latter.
\<close>

section \<open>Identifiers\<close>

text \<open>The table from '0' to 'Z'; 255 is a character that is no digit.\<close>

definition cyIDCharToIndex :: "nat list" where
  "cyIDCharToIndex =
     [255, 255, 24, 25, 26, 27, 28, 29, 30, 31, 255, 255, 255, 255, 255, 255, 255,
      0, 1, 2, 3, 4, 5, 6, 7, 255, 23, 8, 9, 10, 11, 255, 12, 22, 13, 14, 15, 16, 17, 18, 19, 20, 21]"

definition cyIDIndex :: "char \<Rightarrow> nat" where
  "cyIDIndex ch =
     (let c = int (of_char ch) - int (of_char (CHR ''0''));
          c = (if c < 0 \<or> c \<ge> int (length cyIDCharToIndex) \<or> cyIDCharToIndex ! nat c = 255
               then int (of_char (CHR ''A'')) - int (of_char (CHR ''0'')) else c)
      in cyIDCharToIndex ! nat c)"

text \<open>The loop over the six digits, and the last letter; \<open>str[6]\<close> of six characters is NUL.\<close>

fun cyID_digits :: "nat \<Rightarrow> string \<Rightarrow> u32 \<Rightarrow> u32" where
  "cyID_digits i [] cyID = cyID"
| "cyID_digits i (ch # s) cyID =
     cyID_digits (i + 1) s (cyID OR push_bit (26 - i * 5) (of_nat (cyIDIndex ch)))"

definition cyIDFromString :: "string \<Rightarrow> u32 option" where
  "cyIDFromString str =
     (if length str < 6 then None
      else let cyID = cyID_digits 0 (take 6 str) 0
           in Some (if 6 < length str \<and> str ! 6 = CHR ''B'' then cyID OR 1 else cyID))"

definition idChars :: string where
  "idChars = ''ABCDEFGHKLMNPRSTUVWXYZQJ23456789''"

fun cyID_chars :: "nat \<Rightarrow> u32 \<Rightarrow> string \<Rightarrow> string" where
  "cyID_chars 0 shifted ret = ret"
| "cyID_chars (Suc n) shifted ret =
     cyID_chars n (drop_bit 5 shifted) ((idChars ! unat (shifted AND 0x1F)) # ret)"

definition cyIDToString :: "u32 \<Rightarrow> string" where
  "cyIDToString cyid =
     (let final = (if bit cyid 0 then CHR ''B'' else CHR ''A'');
          final = (if drop_bit 31 cyid \<noteq> 0 then char_of (of_char final + (2 :: nat)) else final)
      in cyID_chars 6 (drop_bit 1 cyid) [] @ [final])"

section \<open>Time\<close>

text \<open>The seconds of a local time, in the years counted from 1900, with a leap year every four.\<close>

definition monthDays :: "int \<Rightarrow> int \<Rightarrow> int" where
  "monthDays year m =
     (if m \<in> {1, 3, 5, 7, 8, 10, 12} then 31
      else if m = 2 then (if year mod 4 = 0 then 29 else 28)
      else if m \<in> {4, 6, 9, 11} then 30 else 0)"

definition cybikoDays :: "int \<Rightarrow> nat \<Rightarrow> int \<Rightarrow> int" where
  "cybikoDays year mon mday =
     (let days = (year div 4) * 1461;
          days = fold (\<lambda>i days. if i = 0 then days + 366 else days + 365) [0..<nat (year mod 4)] days;
          days = fold (\<lambda>i days. days + monthDays year (int i + 1)) [0..<mon] days
      in days + mday - 1)"

definition cybikoSeconds :: "int \<Rightarrow> nat \<Rightarrow> int \<Rightarrow> int \<Rightarrow> int \<Rightarrow> int \<Rightarrow> int" where
  "cybikoSeconds year mon mday hour minute sec =
     ((cybikoDays year mon mday * 24 + hour) * 60 + minute) * 60 + sec"

text \<open>The C++ computes it in \<open>int\<close>, which overflows from 1968 on; this is its value modulo \<open>2^32\<close>.\<close>

definition cybikoTime :: "int \<Rightarrow> nat \<Rightarrow> int \<Rightarrow> int \<Rightarrow> int \<Rightarrow> int \<Rightarrow> u32" where
  "cybikoTime year mon mday hour minute sec = word_of_int (cybikoSeconds year mon mday hour minute sec)"

text \<open>The two ends: where the \<open>int\<close> overflows (in 1968) and where the time wraps (in February 2036).\<close>

lemma cybikoSeconds_limits:
  "cybikoSeconds 68 0 19 3 14 7 = 2 ^ 31 - 1" "cybikoSeconds 136 1 6 6 28 15 = 2 ^ 32 - 1"
  "cybikoSeconds 136 1 6 6 28 16 = 2 ^ 32"
  by (simp_all add: cybikoSeconds_def cybikoDays_def monthDays_def upt_rec)

section \<open>Lemmas on identifiers\<close>

definition is_digit :: "char \<Rightarrow> bool" where
  "is_digit ch \<longleftrightarrow> ch \<in> set idChars"

lemma length_idChars: "length idChars = 32"
  by (simp add: idChars_def)

lemma map_index: "map cyIDIndex idChars = [0..<32]"
  by (simp add: idChars_def cyIDIndex_def cyIDCharToIndex_def upt_rec)

lemma index_char: "n < 32 \<Longrightarrow> cyIDIndex (idChars ! n) = n"
  using arg_cong [OF map_index, of "\<lambda>xs. xs ! n"] by (simp add: length_idChars)

lemma char_index:
  assumes "is_digit ch" shows "idChars ! cyIDIndex ch = ch" and "cyIDIndex ch < 32"
proof -
  from assms obtain n where "n < 32" "ch = idChars ! n"
    by (auto simp: is_digit_def in_set_conv_nth length_idChars)
  then show "idChars ! cyIDIndex ch = ch" "cyIDIndex ch < 32" by (simp_all add: index_char)
qed

lemma low5: "unat (x AND 0x1F :: u32) < 32"
proof -
  have "x AND 0x1F \<le> (0x1F :: u32)" by (rule word_and_le1)
  then have "unat (x AND 0x1F) \<le> unat (0x1F :: u32)" by (simp only: word_le_nat_alt)
  then show ?thesis by simp
qed

lemma index_low5: "of_nat (cyIDIndex (idChars ! unat (x AND 0x1F :: u32))) = x AND 0x1F"
  by (simp add: index_char low5)

text \<open>The five bits of each digit, with the last bit.\<close>

lemma bit_31: "bit (31 :: u32) n \<longleftrightarrow> n < 5"
proof -
  have "(31 :: u32) = Bit_Operations.mask 5" by (simp add: mask_eq_exp_minus_1)
  then show ?thesis by (simp only: bit_mask_iff) auto
qed

lemma digit_bit:
  "bit (push_bit k (drop_bit k w AND 31)) n \<longleftrightarrow> k \<le> n \<and> n < k + 5 \<and> n < 32 \<and> bit w n" for w :: u32
proof (cases "k \<le> n \<and> n < 32")
  case True
  then have "k + (n - k) = n" by simp
  with True show ?thesis
    by (auto simp only: bit_push_bit_iff bit_and_iff bit_drop_bit_eq bit_31 o_def len_bit0 possible_bit_word) auto
next
  case False
  then show ?thesis by (auto simp only: bit_push_bit_iff possible_bit_word) (auto dest: bit_imp_le_length)
qed

lemma join_digits:
  assumes "\<not> bit (w :: u32) 31"
  shows "push_bit 26 (drop_bit 26 w AND 31) OR push_bit 21 (drop_bit 21 w AND 31)
     OR push_bit 16 (drop_bit 16 w AND 31) OR push_bit 11 (drop_bit 11 w AND 31)
     OR push_bit 6 (drop_bit 6 w AND 31) OR push_bit 1 (drop_bit 1 w AND 31) OR (if bit w 0 then 1 else 0) = w"
proof (rule bit_word_eqI)
  fix n assume "n < LENGTH(32)"
  then have "n < 32" by simp
  then have "n = 0 \<or> (1 \<le> n \<and> n < 6) \<or> (6 \<le> n \<and> n < 11) \<or> (11 \<le> n \<and> n < 16) \<or> (16 \<le> n \<and> n < 21)
      \<or> (21 \<le> n \<and> n < 26) \<or> (26 \<le> n \<and> n < 31) \<or> n = 31" by arith
  moreover have "bit (if bit w 0 then 1 else 0 :: u32) n \<longleftrightarrow> n = 0 \<and> bit w 0"
    by (auto simp: bit_1_iff)
  ultimately show "bit (push_bit 26 (drop_bit 26 w AND 31) OR push_bit 21 (drop_bit 21 w AND 31)
     OR push_bit 16 (drop_bit 16 w AND 31) OR push_bit 11 (drop_bit 11 w AND 31)
     OR push_bit 6 (drop_bit 6 w AND 31) OR push_bit 1 (drop_bit 1 w AND 31) OR (if bit w 0 then 1 else 0)) n = bit w n"
    using assms \<open>n < 32\<close> by (simp only: bit_or_iff digit_bit) auto
qed

text \<open>Five-bit digits placed side by side are read back.\<close>

lemma split_digits:
  fixes a b c d e f g :: u32
  assumes "\<And>n. 5 \<le> n \<Longrightarrow> \<not> bit a n" "\<And>n. 5 \<le> n \<Longrightarrow> \<not> bit b n" "\<And>n. 5 \<le> n \<Longrightarrow> \<not> bit c n"
    and "\<And>n. 5 \<le> n \<Longrightarrow> \<not> bit d n" "\<And>n. 5 \<le> n \<Longrightarrow> \<not> bit e n" "\<And>n. 5 \<le> n \<Longrightarrow> \<not> bit f n"
    and "\<And>n. 1 \<le> n \<Longrightarrow> \<not> bit g n"
  defines "w \<equiv> push_bit 26 a OR push_bit 21 b OR push_bit 16 c OR push_bit 11 d OR push_bit 6 e OR push_bit 1 f OR g"
  shows "drop_bit 26 w AND 31 = a" "drop_bit 21 w AND 31 = b" "drop_bit 16 w AND 31 = c"
    and "drop_bit 11 w AND 31 = d" "drop_bit 6 w AND 31 = e" "drop_bit 1 w AND 31 = f"
    and "bit w 0 \<longleftrightarrow> bit g 0" "drop_bit 31 w = 0"
proof -
  have five: "x = y" if "\<And>n. n < 5 \<Longrightarrow> bit x n = bit y n" "\<And>n. 5 \<le> n \<Longrightarrow> \<not> bit x n" "\<And>n. 5 \<le> n \<Longrightarrow> \<not> bit y n"
    for x y :: u32 using that by (intro bit_word_eqI) (meson not_le)
  have w: "bit w n = ((26 \<le> n \<and> n < 32 \<and> bit a (n - 26)) \<or> (21 \<le> n \<and> n < 32 \<and> bit b (n - 21)) \<or> (16 \<le> n \<and> n < 32 \<and> bit c (n - 16))
      \<or> (11 \<le> n \<and> n < 32 \<and> bit d (n - 11)) \<or> (6 \<le> n \<and> n < 32 \<and> bit e (n - 6)) \<or> (1 \<le> n \<and> n < 32 \<and> bit f (n - 1)) \<or> bit g n)" for n
    unfolding w_def
    by (simp only: bit_or_iff bit_push_bit_iff possible_bit_word len_bit0 len_bit1 len_num1) auto
  have n5: "n < 5 \<Longrightarrow> n = 0 \<or> n = 1 \<or> n = 2 \<or> n = 3 \<or> n = 4" for n :: nat by arith
  have digit: "drop_bit k w AND 31 = x"
    if "\<And>n. n < 5 \<Longrightarrow> bit w (k + n) = bit x n" "\<And>n. 5 \<le> n \<Longrightarrow> \<not> bit x n" for k x
    by (rule five) (use that in \<open>auto simp only: bit_and_iff bit_drop_bit_eq o_def bit_31\<close>)
  show "drop_bit 26 w AND 31 = a" "drop_bit 21 w AND 31 = b" "drop_bit 16 w AND 31 = c"
    "drop_bit 11 w AND 31 = d" "drop_bit 6 w AND 31 = e" "drop_bit 1 w AND 31 = f"
    by (rule digit; use assms(1-7) in \<open>auto simp: w dest!: n5\<close>)+
  show "bit w 0 \<longleftrightarrow> bit g 0" by (simp add: w)
  show "drop_bit 31 w = 0"
    by (rule bit_word_eqI) (use assms(1-7) in \<open>auto simp: bit_simps w\<close>)
qed

lemma six: "(6 :: nat) = Suc (Suc (Suc (Suc (Suc (Suc 0)))))"
  by simp

lemma cyIDToString_digits:
  "cyIDToString w =
     [idChars ! unat (drop_bit 26 w AND 31), idChars ! unat (drop_bit 21 w AND 31),
      idChars ! unat (drop_bit 16 w AND 31), idChars ! unat (drop_bit 11 w AND 31),
      idChars ! unat (drop_bit 6 w AND 31), idChars ! unat (drop_bit 1 w AND 31),
      (let final = (if bit w 0 then CHR ''B'' else CHR ''A'')
       in if drop_bit 31 w \<noteq> 0 then char_of (of_char final + (2 :: nat)) else final)]"
  unfolding cyIDToString_def Let_def by (subst six, simp only: cyID_chars.simps drop_bit_drop_bit) simp

lemma cyIDFromString_digits:
  "cyIDFromString [a, b, c, d, e, f, g] =
     Some (push_bit 26 (of_nat (cyIDIndex a)) OR push_bit 21 (of_nat (cyIDIndex b))
        OR push_bit 16 (of_nat (cyIDIndex c)) OR push_bit 11 (of_nat (cyIDIndex d))
        OR push_bit 6 (of_nat (cyIDIndex e)) OR push_bit 1 (of_nat (cyIDIndex f))
        OR (if g = CHR ''B'' then 1 else 0))"
  by (simp add: cyIDFromString_def Let_def or.assoc)

text \<open>
  C20: Identifiers below \<open>2^31\<close> survive printing and parsing, and a seven-letter string of
  digits with a last letter A or B survives parsing and printing.
\<close>

theorem cyID_roundtrip:
  "(\<not> bit w 31 \<longrightarrow> cyIDFromString (cyIDToString w) = Some w)
   \<and> (length s = 7 \<longrightarrow> list_all is_digit (take 6 s) \<longrightarrow> s ! 6 \<in> {CHR ''A'', CHR ''B''} \<longrightarrow>
      map_option cyIDToString (cyIDFromString s) = Some s)"
proof (intro conjI impI)
  assume w: "\<not> bit w 31"
  then have "drop_bit 31 w = 0"
    by (intro bit_word_eqI) (rename_tac n, case_tac n, auto simp: bit_simps dest!: bit_imp_le_length)
  moreover have "((if bit w 0 then CHR ''B'' else CHR ''A'') = CHR ''B'') = bit w 0" by simp
  ultimately show "cyIDFromString (cyIDToString w) = Some w"
    using join_digits [OF w]
    by (simp only: cyIDToString_digits cyIDFromString_digits index_low5 Let_def not_True_eq_False simp_thms if_False)
next
  assume s: "length s = 7" "list_all is_digit (take 6 s)" "s ! 6 \<in> {CHR ''A'', CHR ''B''}"
  then obtain a b c d e f g where s7: "s = [a, b, c, d, e, f, g]"
    by (auto simp: eval_nat_numeral length_Suc_conv)
  with s have v: "is_digit a" "is_digit b" "is_digit c" "is_digit d" "is_digit e" "is_digit f"
      "g = CHR ''A'' \<or> g = CHR ''B''"
    by simp_all
  let ?v = "\<lambda>x. of_nat (cyIDIndex x) :: u32"
  have five: "\<not> bit (?v x) n" if "is_digit x" "5 \<le> n" for x n
  proof -
    have "cyIDIndex x < 2 ^ 5" using char_index(2) [OF that(1)] by simp
    then have "?v x = take_bit 5 (?v x)" by (simp add: take_bit_of_nat take_bit_nat_eq_self flip: of_nat_take_bit)
    then show ?thesis using that(2) by (metis bit_take_bit_iff not_le)
  qed
  have same: "idChars ! unat (?v x) = x" if "is_digit x" for x
  proof -
    have "unat (?v x) = cyIDIndex x"
      using char_index(2) [OF that] by (simp add: unat_of_nat)
    then show ?thesis using char_index(1) [OF that] by simp
  qed
  let ?g = "if g = CHR ''B'' then 1 else 0 :: u32"
  have g: "\<not> bit ?g n" if "1 \<le> n" for n using that by (simp add: bit_1_iff)
  have gs: "bit ?g 0 = (g = CHR ''B'')" by simp
  note sp = split_digits [OF five [OF v(1)] five [OF v(2)] five [OF v(3)] five [OF v(4)] five [OF v(5)] five [OF v(6)] g]
  have "(if g = CHR ''B'' then CHR ''B'' else CHR ''A'') = g" using v(7) by auto
  then show "map_option cyIDToString (cyIDFromString s) = Some s"
    by (simp only: s7 cyIDFromString_digits option.map cyIDToString_digits sp gs Let_def
        same [OF v(1)] same [OF v(2)] same [OF v(3)] same [OF v(4)] same [OF v(5)] same [OF v(6)]
        not_True_eq_False simp_thms if_False)
qed

theorem cyID_roundtrip_witness:
  "cyIDFromString (cyIDToString 0x12345678) = Some 0x12345678
   \<and> map_option cyIDToString (cyIDFromString ''CYB9KAB'') = Some ''CYB9KAB''"
proof (intro conjI)
  show "cyIDFromString (cyIDToString 0x12345678) = Some 0x12345678"
    by (rule cyID_roundtrip [THEN conjunct1, THEN mp]) simp
  show "map_option cyIDToString (cyIDFromString ''CYB9KAB'') = Some ''CYB9KAB''"
    by (rule cyID_roundtrip [THEN conjunct2, THEN mp, THEN mp, THEN mp]) (simp_all add: is_digit_def idChars_def)
qed

end
