(* ===== verification/LZSS.thy ===== *)
theory LZSS
  imports Prelude
begin

text \<open>
  \<open>encoding.c\<close> of the tools, first part: the boot encoding and LZSS.  Arrays are lists and
  pointers into them are positions.  The lemmas describe the output of the encoder as the
  layout of a list of tokens and show that the decoder reads the tokens back.
\<close>

section \<open>The boot encoding\<close>

fun encodeBoot_loop :: "u32 \<Rightarrow> u8 list \<Rightarrow> u8 list" where
  "encodeBoot_loop key [] = []"
| "encodeBoot_loop key (b # bs) =
     (let key = key * 0x343fd + 0x269ec3; mask = ucast (drop_bit 16 key)
      in (b XOR mask) # encodeBoot_loop key bs)"

definition encodeBoot :: "u8 list \<Rightarrow> u8 list" where
  "encodeBoot inp = encodeBoot_loop 0x1649b442 inp"

lemma encodeBoot_twice: "encodeBoot (encodeBoot inp) = inp"
proof -
  have "encodeBoot_loop key (encodeBoot_loop key inp) = inp" for key
    by (induction inp arbitrary: key) (simp_all add: Let_def xor.assoc)
  then show ?thesis by (simp add: encodeBoot_def)
qed

section \<open>Copying and matching\<close>

text \<open>\<open>*outPtr++ = *copyPtr++\<close>, \<open>len\<close> times; the ranges may overlap.\<close>

fun copy_loop :: "nat \<Rightarrow> nat \<Rightarrow> nat \<Rightarrow> u8 list \<Rightarrow> u8 list" where
  "copy_loop 0 copyPtr outPtr out = out"
| "copy_loop (Suc n) copyPtr outPtr out =
     copy_loop n (copyPtr + 1) (outPtr + 1) (out[outPtr := out ! copyPtr])"

text \<open>The length of the match of the input at \<open>inPtr\<close> with the input at \<open>ptr\<close>, below a limit.\<close>

function match_length :: "nat \<Rightarrow> u8 list \<Rightarrow> nat \<Rightarrow> nat \<Rightarrow> nat \<Rightarrow> nat" where
  "match_length limit inp ptr inPtr len =
     (if len < limit \<and> inPtr + len < length inp \<and> inp ! (ptr + len) = inp ! (inPtr + len)
      then match_length limit inp ptr inPtr (len + 1) else len)"
  by auto
termination by (relation "measure (\<lambda>(limit, inp, ptr, inPtr, len). limit - len)") auto

declare match_length.simps [simp del]

text \<open>An earlier place in the input that holds the next \<open>len\<close> bytes.\<close>

definition matches :: "u8 list \<Rightarrow> nat \<Rightarrow> nat \<Rightarrow> nat \<Rightarrow> bool" where
  "matches inp p off len \<longleftrightarrow> off \<le> p \<and> p + len \<le> length inp \<and> (\<forall>i < len. inp ! (p + i - off) = inp ! (p + i))"

lemma matches_less: "matches inp p off len \<Longrightarrow> l \<le> len \<Longrightarrow> matches inp p off l"
  by (simp add: matches_def)

lemma match_length_ok:
  assumes "matches inp p off len" "len \<le> limit"
  shows "matches inp p off (match_length limit inp (p - off) p len) \<and> match_length limit inp (p - off) p len \<le> limit"
  using assms
proof (induction "limit - len" arbitrary: len)
  case (Suc n)
  have off: "p - off + len = p + len - off" and lt: "len < limit"
    using Suc.prems(1) Suc.hyps(2) by (auto simp: matches_def)
  show ?case
  proof (cases "p + len < length inp \<and> inp ! (p + len - off) = inp ! (p + len)")
    case True
    then have "matches inp p off (len + 1)"
      using Suc.prems(1) by (auto simp: matches_def less_Suc_eq)
    moreover have "match_length limit inp (p - off) p len = match_length limit inp (p - off) p (len + 1)"
      using True lt by (subst match_length.simps) (simp add: off)
    ultimately show ?thesis using Suc.hyps Suc.prems by simp
  next
    case False
    then have "match_length limit inp (p - off) p len = len"
      by (subst match_length.simps) (auto simp: off)
    with Suc.prems show ?thesis by simp
  qed
qed (simp add: match_length.simps)

lemma length_copy_loop [simp]: "length (copy_loop n c p out) = length out"
  by (induction n arbitrary: c p out) auto

lemma copy_loop_matches:
  assumes "matches inp p off len" "take p out = take p inp" "length out = length inp" "1 \<le> off"
  shows "take (p + len) (copy_loop len (p - off) p out) = take (p + len) inp"
proof -
  have "take (p + j + n) (copy_loop n (p - off + j) (p + j) out) = take (p + j + n) inp"
    if "take (p + j) out = take (p + j) inp" "j + n \<le> len" "length out = length inp" for j n out
    using that
  proof (induction n arbitrary: j out)
    case (Suc n)
    have lt: "p + j < length inp" "p - off + j < p + j" using assms(1,4) Suc.prems(2) by (auto simp: matches_def)
    have "out ! (p - off + j) = take (p + j) inp ! (p - off + j)"
      using lt(2) by (simp flip: Suc.prems(1))
    moreover have "p - off + j = p + j - off" "inp ! (p + j - off) = inp ! (p + j)"
      using assms(1) Suc.prems(2) by (auto simp: matches_def)
    ultimately have "out ! (p - off + j) = inp ! (p + j)" using lt(2) by simp
    then have "take (p + Suc j) (out[p + j := out ! (p - off + j)]) = take (p + Suc j) inp"
      using lt(1) Suc.prems(1,3) by (simp add: take_Suc_conv_app_nth)
    from Suc.IH [OF this] show ?case using Suc.prems by (simp add: add_ac)
  qed simp
  from this [of 0 out len] assms(2,3) show ?thesis by simp
qed

section \<open>LZSS\<close>

text \<open>
  The decoder.  The pointers are returned with the output; \<open>None\<close> is a read past the end of
  the input.  A reference to before the output or past its end stops the loop.
\<close>

function decodeLZSS_loop :: "u8 list \<Rightarrow> nat \<Rightarrow> u8 list \<Rightarrow> nat \<Rightarrow> u8 \<Rightarrow> nat \<Rightarrow> (nat \<times> u8 list \<times> nat) option" where
  "decodeLZSS_loop inp inPtr out outPtr flagBits flagBitsUsed =
     (if inPtr \<noteq> length inp \<and> outPtr \<noteq> length out
      then let (flagBits, flagBitsUsed, inPtr) =
                 (if flagBitsUsed = 8 then (inp ! inPtr, 0, inPtr + 1) else (flagBits, flagBitsUsed, inPtr))
           in if bit flagBits 0
              then if inPtr < length inp
                   then decodeLZSS_loop inp (inPtr + 1) (out[outPtr := inp ! inPtr]) (outPtr + 1)
                          (drop_bit 1 flagBits) (flagBitsUsed + 1)
                   else None
              else if inPtr + 1 < length inp
              then let offset = or (unat (inp ! inPtr)) (push_bit 4 (unat (inp ! (inPtr + 1) AND 0xF0)));
                       len = unat (inp ! (inPtr + 1) AND 0xF) + 3
                   in if outPtr < offset \<or> outPtr + len > length out then Some (inPtr + 2, out, outPtr)
                      else decodeLZSS_loop inp (inPtr + 2) (copy_loop len (outPtr - offset) outPtr out)
                             (outPtr + len) (drop_bit 1 flagBits) (flagBitsUsed + 1)
              else None
      else Some (inPtr, out, outPtr))"
  by auto
termination
  by (relation "measure (\<lambda>(inp, inPtr, _). length inp - inPtr)") (auto split: if_splits)

declare decodeLZSS_loop.simps [simp del]

definition decodeLZSS :: "u8 list \<Rightarrow> u8 list \<Rightarrow> (bool \<times> u8 list) option" where
  "decodeLZSS inp out =
     do { (inPtr, out, outPtr) \<leftarrow> decodeLZSS_loop inp 0 out 0 0 8;
          Some (inPtr = length inp \<and> outPtr = length out, out) }"

text \<open>The encoder: the search for the longest match, and the loop over the input.\<close>

function search_LZSS :: "u8 list \<Rightarrow> nat \<Rightarrow> nat \<Rightarrow> nat \<Rightarrow> nat \<Rightarrow> nat \<times> nat" where
  "search_LZSS inp inPtr offset bestLen bestOff =
     (if offset \<le> 0xFFF \<and> offset \<le> inPtr
      then let len = match_length (16 + 3) inp (inPtr - offset) inPtr 0;
               len = (if len = 16 + 3 then len - 1 else len)
           in if len > bestLen then search_LZSS inp inPtr (offset + 1) len offset
              else search_LZSS inp inPtr (offset + 1) bestLen bestOff
      else (bestLen, bestOff))"
  by auto
termination by (relation "measure (\<lambda>(inp, inPtr, offset, _). Suc inPtr - offset)") auto

declare search_LZSS.simps [simp del]

lemma search_LZSS_ok:
  assumes "matches inp p bo bl" "bl \<le> 18" "bo \<le> 0xFFF" "bl = 0 \<or> 1 \<le> bo" "1 \<le> off"
    "search_LZSS inp p off bl bo = (l, o')" "p \<le> length inp"
  shows "matches inp p o' l \<and> l \<le> 18 \<and> o' \<le> 0xFFF \<and> (l = 0 \<or> 1 \<le> o')"
  using assms
proof (induction "Suc p - off" arbitrary: off bl bo)
  case 0
  then show ?case by (auto simp: search_LZSS.simps)
next
  case (Suc n)
  show ?case
  proof (cases "off \<le> 0xFFF \<and> off \<le> p")
    case True
    let ?m = "match_length 19 inp (p - off) p 0"
    define len where "len = (if ?m = 19 then 18 else ?m)"
    have "matches inp p off 0" using True Suc.prems(7) by (simp add: matches_def)
    from match_length_ok [OF this, of 19]
    have m: "matches inp p off len" "len \<le> 18" by (auto simp: len_def intro: matches_less)
    have s: "search_LZSS inp p off bl bo =
        (if len > bl then search_LZSS inp p (off + 1) len off else search_LZSS inp p (off + 1) bl bo)"
      using True by (subst search_LZSS.simps) (simp add: len_def Let_def)
    have n: "n = Suc p - (off + 1)" using Suc.hyps(2) by simp
    show ?thesis
    proof (cases "len > bl")
      case True
      with Suc.prems s have "search_LZSS inp p (off + 1) len off = (l, o')" by simp
      from Suc.hyps(1) [OF n m(1,2) _ _ _ this Suc.prems(7)] show ?thesis
        using \<open>off \<le> 0xFFF \<and> off \<le> p\<close> Suc.prems by simp
    next
      case False
      with Suc.prems s have "search_LZSS inp p (off + 1) bl bo = (l, o')" by simp
      from Suc.hyps(1) [OF n Suc.prems(1-4) _ this Suc.prems(7)] show ?thesis by simp
    qed
  next
    case False
    then show ?thesis using Suc.prems by (auto simp: search_LZSS.simps)
  qed
qed

lemma search_LZSS_match:
  assumes "search_LZSS inp p 1 0 0 = (l, o')" "p \<le> length inp"
  shows "matches inp p o' l" "l \<le> 18" "o' \<le> 0xFFF" "l = 0 \<or> 1 \<le> o'"
  using search_LZSS_ok [of inp p 0 0 1 l o'] assms by (auto simp: matches_def)

function encodeLZSS_loop :: "u8 list \<Rightarrow> nat \<Rightarrow> u8 list \<Rightarrow> nat \<Rightarrow> nat \<Rightarrow> u8 list" where
  "encodeLZSS_loop inp inPtr out flagsPtr flagBitsUsed =
     (if inPtr < length inp
      then let (out, flagsPtr, flagBitsUsed) =
                 (if flagBitsUsed = 8 then (out @ [0], length out, 0) else (out, flagsPtr, flagBitsUsed));
               (bestLen, bestOff) = search_LZSS inp inPtr 1 0 0
           in if bestLen \<ge> 3
              then encodeLZSS_loop inp (inPtr + bestLen)
                     (out @ [of_nat (and bestOff 0xFF), of_nat (or (bestLen - 3) (drop_bit 4 (and bestOff 0xF00)))])
                     flagsPtr (flagBitsUsed + 1)
              else encodeLZSS_loop inp (inPtr + 1)
                     (out[flagsPtr := out ! flagsPtr OR bitv flagBitsUsed] @ [inp ! inPtr])
                     flagsPtr (flagBitsUsed + 1)
      else out)"
  by auto
termination
  by (relation "measure (\<lambda>(inp, inPtr, _). length inp - inPtr)") (auto split: if_splits)

declare encodeLZSS_loop.simps [simp del]

text \<open>The flags pointer starts as NULL; it is set before it is used.\<close>

definition encodeLZSS :: "u8 list \<Rightarrow> u8 list" where
  "encodeLZSS inp = encodeLZSS_loop inp 0 [] 0 8"


section \<open>The layout of the encoding\<close>

text \<open>
  The tokens the encoder chooses, the bytes of a token, and the bytes of a list of tokens of
  which \<open>k\<close> are already in the current group: its remaining flags and the bytes that follow.
\<close>

datatype token = Literal u8 | Reference nat nat

fun advance :: "token \<Rightarrow> nat" where
  "advance (Literal b) = 1"
| "advance (Reference off len) = len"

function tokens :: "u8 list \<Rightarrow> nat \<Rightarrow> token list" where
  "tokens inp p =
     (if p < length inp
      then let (len, off) = search_LZSS inp p 1 0 0
           in if len \<ge> 3 then Reference off len # tokens inp (p + len) else Literal (inp ! p) # tokens inp (p + 1)
      else [])"
  by auto
termination by (relation "measure (\<lambda>(inp, p). length inp - p)") auto

declare tokens.simps [simp del]

fun token_bytes :: "token \<Rightarrow> u8 list" where
  "token_bytes (Literal b) = [b]"
| "token_bytes (Reference off len) =
     [of_nat (and off 0xFF), of_nat (or (len - 3) (drop_bit 4 (and off 0xF00)))]"

fun flag :: "nat \<Rightarrow> token \<Rightarrow> u8" where
  "flag k (Literal b) = bitv k"
| "flag k (Reference off len) = 0"

fun group_flags :: "nat \<Rightarrow> token list \<Rightarrow> u8" where
  "group_flags k [] = 0"
| "group_flags k (t # ts) = (if k = 8 then 0 else flag k t OR group_flags (k + 1) ts)"

fun group_bytes :: "nat \<Rightarrow> token list \<Rightarrow> u8 list" where
  "group_bytes k [] = []"
| "group_bytes k (t # ts) =
     (if k = 8 then group_flags 0 (t # ts) # token_bytes t @ group_bytes 1 ts
      else token_bytes t @ group_bytes (k + 1) ts)"

lemma group_flags_8 [simp]: "group_flags 8 ts = 0"
  by (cases ts) auto

lemma bit_group_flags: "j < k \<Longrightarrow> k \<le> 8 \<Longrightarrow> \<not> bit (group_flags k ts) j"
proof (induction ts arbitrary: k)
  case (Cons t ts)
  then show ?case by (cases t) (auto simp: bit_or_iff bit_exp_iff)
qed simp

text \<open>The tokens of an input are correct: a literal is the next byte, a reference is a match.\<close>

lemma tokens_cases [consumes 1]:
  assumes "p < length inp"
  obtains (Literal) len off where "search_LZSS inp p 1 0 0 = (len, off)" "\<not> 3 \<le> len"
      "tokens inp p = Literal (inp ! p) # tokens inp (p + 1)"
    | (Reference) len off where "search_LZSS inp p 1 0 0 = (len, off)" "3 \<le> len" "len \<le> 18" "1 \<le> off"
      "off \<le> 0xFFF" "matches inp p off len" "tokens inp p = Reference off len # tokens inp (p + len)"
proof -
  obtain len off where s: "search_LZSS inp p 1 0 0 = (len, off)" by fastforce
  show thesis
  proof (cases "3 \<le> len")
    case True
    with s assms search_LZSS_match [OF s] show thesis
      by (intro that(2) [of len off]) (auto simp: tokens.simps [of inp p])
  next
    case False
    with s assms show thesis by (intro that(1) [of len off]) (auto simp: tokens.simps [of inp p])
  qed
qed

lemma encodeLZSS_loop_layout:
  assumes "p \<le> length inp" "k \<le> 8" "k = 8 \<or> fp < length out"
  shows "encodeLZSS_loop inp p out fp k =
     (if k = 8 then out else out[fp := out ! fp OR group_flags k (tokens inp p)]) @ group_bytes k (tokens inp p)"
  using assms
proof (induction "length inp - p" arbitrary: p out fp k rule: less_induct)
  case less
  show ?case
  proof (cases "p < length inp")
    case False
    then show ?thesis by (simp add: encodeLZSS_loop.simps tokens.simps)
  next
    case True
    define out' where "out' = (if k = 8 then out @ [0] else out)"
    define fp' where "fp' = (if k = 8 then length out else fp)"
    define k' where "k' = (if k = 8 then 0 else k)"
    have fp': "fp' < length out'" and k': "k' < 8"
      using less.prems by (auto simp: out'_def fp'_def k'_def)
    from True show ?thesis
    proof (cases rule: tokens_cases)
      case (Literal len off)
      let ?o = "out'[fp' := out' ! fp' OR bitv k'] @ [inp ! p]"
      have "encodeLZSS_loop inp p out fp k = encodeLZSS_loop inp (p + 1) ?o fp' (k' + 1)"
        using True Literal by (subst encodeLZSS_loop.simps) (simp add: out'_def fp'_def k'_def)
      also have "\<dots> = (if k' + 1 = 8 then ?o else ?o[fp' := ?o ! fp' OR group_flags (k' + 1) (tokens inp (p + 1))]) @
          group_bytes (k' + 1) (tokens inp (p + 1))"
        using True fp' k' by (intro less.hyps) auto
      finally show ?thesis
        using Literal(3) fp' k' less.prems
        by (auto simp: out'_def fp'_def k'_def nth_append list_update_append or.assoc split: if_splits)
    next
      case (Reference len off)
      let ?o = "out' @ token_bytes (Reference off len)"
      have "encodeLZSS_loop inp p out fp k = encodeLZSS_loop inp (p + len) ?o fp' (k' + 1)"
        using True Reference by (subst encodeLZSS_loop.simps) (simp add: out'_def fp'_def k'_def)
      also have "\<dots> = (if k' + 1 = 8 then ?o else ?o[fp' := ?o ! fp' OR group_flags (k' + 1) (tokens inp (p + len))]) @
          group_bytes (k' + 1) (tokens inp (p + len))"
        using True fp' k' Reference by (intro less.hyps) (auto simp: matches_def)
      finally show ?thesis
        using Reference(7) fp' k' less.prems
        by (auto simp: out'_def fp'_def k'_def nth_append list_update_append or.assoc split: if_splits)
    qed
  qed
qed

lemma encodeLZSS_layout: "encodeLZSS inp = group_bytes 8 (tokens inp 0)"
  by (simp add: encodeLZSS_def encodeLZSS_loop_layout)


section \<open>The decoder reads the layout\<close>

lemma unat_byte: "n < 256 \<Longrightarrow> unat (of_nat n :: u8) = n"
  by (simp add: unsigned_of_nat take_bit_nat_eq_self)

lemma reference_bytes:
  assumes "off \<le> 0xFFF" "3 \<le> len" "len \<le> 18"
  defines "b0 \<equiv> of_nat (and off 0xFF) :: u8"
    and "b1 \<equiv> of_nat (or (len - 3) (drop_bit 4 (and off 0xF00))) :: u8"
  shows "or (unat b0) (push_bit 4 (unat (b1 AND 0xF0))) = off" "unat (b1 AND 0xF) + 3 = len"
proof -
  have low: "and off 0xFF = off mod 256" using split_nat [of off 8] by simp
  have "(0xF00 :: nat) = push_bit 8 (mask 4)" "(0xF :: nat) = mask 4"
    by (simp_all add: push_bit_eq_mult mask_eq_exp_minus_1)
  moreover have "and off (push_bit 8 (mask 4)) = push_bit 8 (and (drop_bit 8 off) (mask 4))"
    by (rule bit_eqI) (auto simp: bit_and_iff bit_push_bit_iff bit_drop_bit_eq bit_mask_iff)
  ultimately have "and off 0xF00 = push_bit 8 (and (drop_bit 8 off) 0xF)" by simp
  also have "\<dots> = (off div 256) mod 16 * 256"
    using split_nat [of "off div 256" 4] by (simp add: push_bit_eq_mult drop_bit_eq_div)
  finally have "drop_bit 4 (and off 0xF00) = push_bit 4 (off div 256)"
    using assms(1) by (simp add: push_bit_eq_mult drop_bit_eq_div)
  then have "or (len - 3) (drop_bit 4 (and off 0xF00)) = len - 3 + 16 * (off div 256)"
    using assms(3) join_nat [of "len - 3" 4 "off div 256"] by simp
  moreover have "off div 256 < 16" using assms(1) by (simp add: div_less_iff_less_mult)
  then have "len - 3 + 16 * (off div 256) < 256" using assms(3) by linarith
  ultimately have b1: "unat b1 = len - 3 + 16 * (off div 256)"
    using unat_byte [of "len - 3 + 16 * (off div 256)"] by (simp only: b1_def)
  have b0: "unat b0 = off mod 256" by (simp add: b0_def low unsigned_of_nat take_bit_nat_eq_self)
  show "unat (b1 AND 0xF) + 3 = len" using assms(2,3) by (simp only: unat_lo4 b1 mod_mult_self2) simp
  have "or (off mod 256) (push_bit 8 (off div 256)) = off"
    using join_nat [of "off mod 256" 8 "off div 256"] by simp
  then show "or (unat b0) (push_bit 4 (unat (b1 AND 0xF0))) = off"
    using div_mult_self2 [of 16 "len - 3" "off div 256"] assms(3)
    by (simp only: unat_hi4 b0 b1 push_bit_eq_mult) (simp add: mult.commute)
qed


lemma decodeLZSS_step:
  assumes "inPtr \<noteq> length inp" "outPtr \<noteq> length out" "k \<le> 8"
    and "f' = (if k = 8 then inp ! inPtr else f)" "k' = (if k = 8 then 0 else k)"
      "q = (if k = 8 then inPtr + 1 else inPtr)"
  shows "bit f' 0 \<Longrightarrow> q < length inp \<Longrightarrow> decodeLZSS_loop inp inPtr out outPtr f k =
      decodeLZSS_loop inp (q + 1) (out[outPtr := inp ! q]) (outPtr + 1) (drop_bit 1 f') (k' + 1)"
    and "\<not> bit f' 0 \<Longrightarrow> q + 1 < length inp \<Longrightarrow>
      off = or (unat (inp ! q)) (push_bit 4 (unat (inp ! (q + 1) AND 0xF0))) \<Longrightarrow>
      len = unat (inp ! (q + 1) AND 0xF) + 3 \<Longrightarrow> off \<le> outPtr \<Longrightarrow> outPtr + len \<le> length out \<Longrightarrow>
      decodeLZSS_loop inp inPtr out outPtr f k =
      decodeLZSS_loop inp (q + 2) (copy_loop len (outPtr - off) outPtr out) (outPtr + len) (drop_bit 1 f') (k' + 1)"
proof -
  have unfold: "decodeLZSS_loop inp inPtr out outPtr f k =
     (if bit f' 0
      then if q < length inp
           then decodeLZSS_loop inp (q + 1) (out[outPtr := inp ! q]) (outPtr + 1) (drop_bit 1 f') (k' + 1)
           else None
      else if q + 1 < length inp
      then let offset = or (unat (inp ! q)) (push_bit 4 (unat (inp ! (q + 1) AND 0xF0)));
               len = unat (inp ! (q + 1) AND 0xF) + 3
           in if outPtr < offset \<or> outPtr + len > length out then Some (q + 2, out, outPtr)
              else decodeLZSS_loop inp (q + 2) (copy_loop len (outPtr - offset) outPtr out)
                     (outPtr + len) (drop_bit 1 f') (k' + 1)
      else None)"
    using assms(1,2) unfolding assms(4-6)
    by (subst decodeLZSS_loop.simps) (cases "k = 8"; simp only: if_True if_False prod.case Let_def simp_thms)
  show "bit f' 0 \<Longrightarrow> q < length inp \<Longrightarrow> decodeLZSS_loop inp inPtr out outPtr f k =
      decodeLZSS_loop inp (q + 1) (out[outPtr := inp ! q]) (outPtr + 1) (drop_bit 1 f') (k' + 1)"
    unfolding unfold by (simp only: if_True)
  show "\<not> bit f' 0 \<Longrightarrow> q + 1 < length inp \<Longrightarrow>
      off = or (unat (inp ! q)) (push_bit 4 (unat (inp ! (q + 1) AND 0xF0))) \<Longrightarrow>
      len = unat (inp ! (q + 1) AND 0xF) + 3 \<Longrightarrow> off \<le> outPtr \<Longrightarrow> outPtr + len \<le> length out \<Longrightarrow>
      decodeLZSS_loop inp inPtr out outPtr f k =
      decodeLZSS_loop inp (q + 2) (copy_loop len (outPtr - off) outPtr out) (outPtr + len) (drop_bit 1 f') (k' + 1)"
    unfolding unfold by (simp only: if_True if_False Let_def not_less [symmetric] simp_thms)
qed

lemma decodeLZSS_loop_layout:
  assumes "p \<le> length inp" "k \<le> 8" "take p out = take p inp" "length out = length inp"
    and "\<And>i. i < 8 - k \<Longrightarrow> bit f i = bit (group_flags k (tokens inp p)) (k + i)"
    and "drop q enc = group_bytes k (tokens inp p)" "q \<le> length enc"
  shows "decodeLZSS_loop enc q out p f k = Some (length enc, inp, length inp)"
  using assms
proof (induction "length inp - p" arbitrary: p out f k q rule: less_induct)
  case less
  show ?case
  proof (cases "p < length inp")
    case False
    with less.prems have "out = inp" "q = length enc" by (simp_all add: tokens.simps)
    with False less.prems show ?thesis by (simp add: decodeLZSS_loop.simps)
  next
    case True
    define f' where "f' = (if k = 8 then enc ! q else f)"
    define k' where "k' = (if k = 8 then 0 else k)"
    define q' where "q' = (if k = 8 then q + 1 else q)"
    obtain t ts where ts: "tokens inp p = t # ts" using True by (cases rule: tokens_cases) auto
    have ne: "group_bytes k (tokens inp p) \<noteq> []" by (cases t) (simp_all add: ts)
    then have q: "q < length enc" using less.prems(6,7) by (cases "q = length enc") auto
    have d: "drop q enc = enc ! q # drop (q + 1) enc" using q by (simp add: Cons_nth_drop_Suc)
    have k': "k' < 8" and bits: "\<And>i. i < 8 - k' \<Longrightarrow> bit f' i = bit (group_flags k' (t # ts)) (k' + i)"
      and d': "drop q' enc = token_bytes t @ group_bytes (k' + 1) ts" and q': "q' \<le> length enc"
      using less.prems d ts q by (auto simp: f'_def k'_def q'_def split: if_splits)
    have bits': "bit (drop_bit 1 f') i = bit (group_flags (k' + 1) ts) (k' + 1 + i)" if "i < 8 - (k' + 1)" for i
      using bits [of "Suc i"] that k' by (cases t) (auto simp: bit_drop_bit_eq bit_or_iff)
    have bit0: "bit f' 0 \<longleftrightarrow> bit (flag k' t) k'"
      using bits [of 0] k' bit_group_flags [of k' "k' + 1" ts] by (simp add: bit_or_iff)
    note step = decodeLZSS_step [of q enc p out k, OF _ _ _ f'_def k'_def q'_def]
    from True show ?thesis
    proof (cases rule: tokens_cases)
      case (Literal len off)
      then have t: "t = Literal (inp ! p)" "ts = tokens inp (p + 1)" using ts by simp_all
      then have e: "drop q' enc = inp ! p # group_bytes (k' + 1) ts" using d' by simp
      then have q'': "q' < length enc" "enc ! q' = inp ! p" "drop (q' + 1) enc = group_bytes (k' + 1) ts"
        by (metis drop_all list.distinct(1) not_le, simp add: nth_via_drop, simp add: drop_Suc tl_drop [symmetric])
      have "decodeLZSS_loop enc q out p f k =
          decodeLZSS_loop enc (q' + 1) (out[p := inp ! p]) (p + 1) (drop_bit 1 f') (k' + 1)"
        using step(1) q less.prems True bit0 k' q'' t by simp
      also have "\<dots> = Some (length enc, inp, length inp)"
        using True k' q'' t less.prems bits'
        by (intro less.hyps) (auto simp: take_Suc_conv_app_nth)
      finally show ?thesis .
    next
      case (Reference len off)
      then have t: "t = Reference off len" "ts = tokens inp (p + len)" using ts by simp_all
      let ?b0 = "of_nat (and off 0xFF) :: u8" and ?b1 = "of_nat (or (len - 3) (drop_bit 4 (and off 0xF00))) :: u8"
      have e: "drop q' enc = ?b0 # ?b1 # group_bytes (k' + 1) ts" using d' t by simp
      then have "drop (q' + 1) enc = ?b1 # group_bytes (k' + 1) ts" "drop (q' + 2) enc = group_bytes (k' + 1) ts"
        by (simp_all add: drop_Suc tl_drop [symmetric] numeral_2_eq_2)
      moreover from this have "q' + 1 < length enc" by (metis drop_all list.distinct(1) not_le)
      ultimately have q'': "enc ! q' = ?b0" "enc ! (q' + 1) = ?b1" "drop (q' + 2) enc = group_bytes (k' + 1) ts"
        "q' + 1 < length enc"
        using e by (auto simp: nth_via_drop)
      have "decodeLZSS_loop enc q out p f k =
          decodeLZSS_loop enc (q' + 2) (copy_loop len (p - off) p out) (p + len) (drop_bit 1 f') (k' + 1)"
        using q less.prems True bit0 q'' t Reference reference_bytes [of off len]
        by (intro step(2)) (auto simp: matches_def)
      also have "\<dots> = Some (length enc, inp, length inp)"
        using True k' q'' t less.prems bits' Reference copy_loop_matches [of inp p off len out]
        by (intro less.hyps) (auto simp: matches_def)
      finally show ?thesis .
    qed
  qed
qed


section \<open>Properties\<close>

lemma length_group_bytes:
  "1 \<le> k \<Longrightarrow> k \<le> 8 \<Longrightarrow> 8 * length (group_bytes k ts) \<le> 8 * length (concat (map token_bytes ts)) + length ts + (k - 1)"
proof (induction ts arbitrary: k)
  case (Cons t ts)
  show ?case using Cons.IH [of "if k = 8 then 1 else k + 1"] Cons.prems by (auto split: if_splits)
qed simp

lemma length_tokens:
  "p \<le> length inp \<Longrightarrow>
   8 * length (concat (map token_bytes (tokens inp p))) + length (tokens inp p) + 9 * p \<le> 9 * length inp"
proof (induction "length inp - p" arbitrary: p rule: less_induct)
  case less
  show ?case
  proof (cases "p < length inp")
    case True
    then show ?thesis
    proof (cases rule: tokens_cases)
      case (Literal len off)
      with less.hyps [of "p + 1"] True show ?thesis by (simp add: diff_less_mono2)
    next
      case (Reference len off)
      then have "p + len \<le> length inp" "length inp - (p + len) < length inp - p" using True by (auto simp: matches_def)
      with less.hyps [of "p + len"] Reference show ?thesis by simp
    qed
  qed (use less.prems in \<open>simp add: tokens.simps\<close>)
qed

lemma lzss_encodes:
  assumes "length out = length inp"
  shows "decodeLZSS (encodeLZSS inp) out = Some (True, inp) \<and> length (encodeLZSS inp) \<le> (9 * length inp + 7) div 8"
proof
  have "decodeLZSS_loop (encodeLZSS inp) 0 out 0 0 8 = Some (length (encodeLZSS inp), inp, length inp)"
    using assms by (intro decodeLZSS_loop_layout) (simp_all add: encodeLZSS_layout)
  then show "decodeLZSS (encodeLZSS inp) out = Some (True, inp)" by (simp add: decodeLZSS_def)
  show "length (encodeLZSS inp) \<le> (9 * length inp + 7) div 8"
    using length_group_bytes [of 8 "tokens inp 0"] length_tokens [of 0 inp]
    unfolding encodeLZSS_layout by linarith
qed

text \<open>
  C22: The LZSS decoder returns the input of the encoder, in a buffer of its length, and it
  consumes the encoding exactly; the encoding has at most nine bits for every byte of the
  input, rounded up to a byte.
\<close>

theorem lzss_roundtrip:
  assumes "length out = length inp"
  shows "decodeLZSS (encodeLZSS inp) out = Some (True, inp) \<and> length (encodeLZSS inp) \<le> (9 * length inp + 7) div 8"
  using assms by (rule lzss_encodes)

theorem lzss_roundtrip_witness:
  "decodeLZSS (encodeLZSS [7, 7, 7, 7, 7]) [0, 0, 0, 0, 0] = Some (True, [7, 7, 7, 7, 7])"
  by (rule lzss_roundtrip [THEN conjunct1]) simp

end
