(* ===== verification/BitStream.thy ===== *)
theory BitStream
  imports Prelude "HOL-Library.State_Monad"
begin

text \<open>
  \<open>encoding.c\<close> of the tools, second part: the bit streams of BMC and its codes of variable
  length for the lengths and offsets of references.  The stream is the state of a state
  monad.  The lemmas describe readers and writers by the list of bits they take or append.
\<close>

section \<open>Bit streams\<close>

text \<open>\<open>dataEnd\<close> is the end of the list.\<close>

record bitstream =
  stream_mem :: "u8 list"
  stream_data :: nat
  numBits :: nat
  curByte :: u8

text \<open>\<open>curByte\<close> is not initialised by C.\<close>

definition BitStream_init :: "u8 list \<Rightarrow> u8 \<Rightarrow> bitstream" where
  "BitStream_init data c = \<lparr>stream_mem = data, stream_data = 0, numBits = 0, curByte = c\<rparr>"

definition BitStream_eof :: "bitstream \<Rightarrow> bool" where
  "BitStream_eof s \<longleftrightarrow> stream_data s = length (stream_mem s)"

definition BitStream_readBit :: "(bitstream, nat) state" where
  "BitStream_readBit = State (\<lambda>s.
     if numBits s = 0 \<and> stream_data s = length (stream_mem s) then (0, s)
     else let s = (if numBits s = 0
                   then s\<lparr>curByte := stream_mem s ! stream_data s, stream_data := stream_data s + 1, numBits := 8\<rparr>
                   else s)
          in (of_bool (bit (curByte s) 0), s\<lparr>curByte := drop_bit 1 (curByte s), numBits := numBits s - 1\<rparr>))"

fun readBits_loop :: "nat \<Rightarrow> nat \<Rightarrow> (bitstream, nat) state" where
  "readBits_loop 0 ret = State_Monad.return ret"
| "readBits_loop (Suc n) ret = do { b \<leftarrow> BitStream_readBit; readBits_loop n (or (push_bit 1 ret) b) }"

definition BitStream_readBits :: "nat \<Rightarrow> (bitstream, nat) state" where
  "BitStream_readBits bits = readBits_loop bits 0"

definition BitStream_writeBit :: "nat \<Rightarrow> (bitstream, unit) state" where
  "BitStream_writeBit b = State (\<lambda>s.
     if stream_data s = length (stream_mem s) then ((), s)
     else let s = s\<lparr>numBits := numBits s + 1, curByte := drop_bit 1 (curByte s) OR push_bit 7 (of_nat b)\<rparr>
          in if numBits s = 8
             then ((), s\<lparr>stream_mem := (stream_mem s)[stream_data s := curByte s],
                         stream_data := stream_data s + 1, numBits := 0\<rparr>)
             else ((), s))"

fun writeBits_loop :: "nat \<Rightarrow> nat \<Rightarrow> nat \<Rightarrow> (bitstream, unit) state" where
  "writeBits_loop 0 bits v = State_Monad.return ()"
| "writeBits_loop (Suc n) bits v =
     do { BitStream_writeBit (and (drop_bit (bits - 1) v) 1); writeBits_loop n bits (push_bit 1 v) }"

definition BitStream_writeBits :: "nat \<Rightarrow> nat \<Rightarrow> (bitstream, unit) state" where
  "BitStream_writeBits bits v = writeBits_loop bits bits v"

definition BitStream_flush :: "(bitstream, unit) state" where
  "BitStream_flush = State (\<lambda>s.
     if stream_data s = length (stream_mem s) \<or> numBits s = 0 then ((), s)
     else let s = s\<lparr>curByte := drop_bit (8 - numBits s) (curByte s)\<rparr>
          in ((), s\<lparr>stream_mem := (stream_mem s)[stream_data s := curByte s],
                    stream_data := stream_data s + 1, numBits := 0\<rparr>))"

section \<open>Codes of lengths and offsets\<close>

definition readBMCLength :: "(bitstream, nat) state" where
  "readBMCLength = do {
     tmp \<leftarrow> BitStream_readBits 2;
     if tmp = 0 then State_Monad.return 2
     else if tmp = 1 then State_Monad.return 3
     else if tmp = 2 then do { v \<leftarrow> BitStream_readBits 1; State_Monad.return (v + 4) }
     else do {
       tmp \<leftarrow> BitStream_readBits 2;
       if tmp = 0 then State_Monad.return 6
       else if tmp = 1 then do { v \<leftarrow> BitStream_readBits 1; State_Monad.return (v + 8) }
       else if tmp = 2
       then do {
         b \<leftarrow> BitStream_readBit;
         if b \<noteq> 0 then do { v \<leftarrow> BitStream_readBits 1; State_Monad.return (v + 10) }
         else State_Monad.return 7 }
       else do {
         tmp \<leftarrow> BitStream_readBits 3;
         if tmp = 0 then State_Monad.return 12
         else if tmp = 1 then State_Monad.return 13
         else if tmp = 2 then do { v \<leftarrow> BitStream_readBits 2; State_Monad.return (v + 20) }
         else if tmp = 3 then do { v \<leftarrow> BitStream_readBits 1; State_Monad.return (v + 16) }
         else if tmp = 4 then do { v \<leftarrow> BitStream_readBits 3; State_Monad.return (v + 24) }
         else if tmp = 5 then State_Monad.return 14
         else if tmp = 6
         then do {
           b \<leftarrow> BitStream_readBit;
           if b \<noteq> 0 then do { v \<leftarrow> BitStream_readBits 1; State_Monad.return (v + 18) }
           else do { v \<leftarrow> BitStream_readBits 5; State_Monad.return (v + 32) } }
         else do {
           b \<leftarrow> BitStream_readBit;
           if b \<noteq> 0
           then do {
             b \<leftarrow> BitStream_readBit;
             if b \<noteq> 0
             then do {
               b \<leftarrow> BitStream_readBit;
               if b \<noteq> 0 then State_Monad.return 256
               else do { v \<leftarrow> BitStream_readBits 7; State_Monad.return (v + 128) } }
             else do { v \<leftarrow> BitStream_readBits 6; State_Monad.return (v + 64) } }
           else State_Monad.return 15 } } } }"

definition readBMCOffset :: "(bitstream, nat) state" where
  "readBMCOffset = do {
     tmp \<leftarrow> BitStream_readBits 3;
     if tmp = 0 then do { v \<leftarrow> BitStream_readBits 10; State_Monad.return (v + 1024) }
     else if tmp = 1 then do { v \<leftarrow> BitStream_readBits 9; State_Monad.return (v + 512) }
     else if tmp = 2 then do { v \<leftarrow> BitStream_readBits 8; State_Monad.return (v + 256) }
     else if tmp = 3 then do { v \<leftarrow> BitStream_readBits 6; State_Monad.return (v + 64) }
     else if tmp = 4 then do { v \<leftarrow> BitStream_readBits 7; State_Monad.return (v + 128) }
     else if tmp = 5
     then do {
       b \<leftarrow> BitStream_readBit;
       if b \<noteq> 0 then do { v \<leftarrow> BitStream_readBits 12; State_Monad.return (v + 4096) }
       else do { v \<leftarrow> BitStream_readBits 11; State_Monad.return (v + 2048) } }
     else if tmp = 6
     then do {
       b \<leftarrow> BitStream_readBit;
       if b \<noteq> 0 then do { v \<leftarrow> BitStream_readBits 4; State_Monad.return (v + 16) }
       else do { v \<leftarrow> BitStream_readBits 5; State_Monad.return (v + 32) } }
     else do {
       tmp \<leftarrow> BitStream_readBits 2;
       if tmp = 0 then BitStream_readBit
       else if tmp = 1 then do { v \<leftarrow> BitStream_readBits 2; State_Monad.return (v + 6) }
       else if tmp = 2
       then do {
         b \<leftarrow> BitStream_readBit;
         if b \<noteq> 0 then State_Monad.return 2
         else do { v \<leftarrow> BitStream_readBit; State_Monad.return (v + 4) } }
       else do {
         tmp \<leftarrow> BitStream_readBits 2;
         if tmp = 0 then do { v \<leftarrow> BitStream_readBit; State_Monad.return (v + 12) }
         else if tmp = 1 then do { v \<leftarrow> BitStream_readBit; State_Monad.return (v + 14) }
         else if tmp = 2 then State_Monad.return 3
         else do { v \<leftarrow> BitStream_readBit; State_Monad.return (v + 10) } } } }"

definition writeBMCLength :: "nat \<Rightarrow> (bitstream, unit) state" where
  "writeBMCLength len =
     (if len < 4 then BitStream_writeBits 2 (len - 2)
      else if len < 6 then do { BitStream_writeBits 2 2; BitStream_writeBit (len - 4) }
      else do {
        BitStream_writeBits 2 3;
        if len = 6 then BitStream_writeBits 2 0
        else if len = 7 then do { BitStream_writeBits 2 2; BitStream_writeBit 0 }
        else if len < 10 then do { BitStream_writeBits 2 1; BitStream_writeBit (len - 8) }
        else if len < 12
        then do { BitStream_writeBits 2 2; BitStream_writeBit 1; BitStream_writeBit (len - 10) }
        else do {
          BitStream_writeBits 2 3;
          if len < 14 then BitStream_writeBits 3 (len - 12)
          else if len = 14 then BitStream_writeBits 3 5
          else if len = 15 then do { BitStream_writeBits 3 7; BitStream_writeBit 0 }
          else if len < 18 then do { BitStream_writeBits 3 3; BitStream_writeBit (len - 16) }
          else if len < 20
          then do { BitStream_writeBits 3 6; BitStream_writeBit 1; BitStream_writeBit (len - 18) }
          else if len < 24 then do { BitStream_writeBits 3 2; BitStream_writeBits 2 (len - 20) }
          else if len < 32 then do { BitStream_writeBits 3 4; BitStream_writeBits 3 (len - 24) }
          else if len < 64
          then do { BitStream_writeBits 3 6; BitStream_writeBit 0; BitStream_writeBits 5 (len - 32) }
          else if len < 128
          then do { BitStream_writeBits 3 7; BitStream_writeBit 1; BitStream_writeBit 0;
                    BitStream_writeBits 6 (len - 64) }
          else if len < 256
          then do { BitStream_writeBits 3 7; BitStream_writeBit 1; BitStream_writeBit 1; BitStream_writeBit 0;
                    BitStream_writeBits 7 (len - 128) }
          else if len = 256
          then do { BitStream_writeBits 3 7; BitStream_writeBit 1; BitStream_writeBit 1; BitStream_writeBit 1 }
          else State_Monad.return () } })"

definition writeBMCOffset :: "nat \<Rightarrow> (bitstream, unit) state" where
  "writeBMCOffset offset =
     (if offset < 2
      then do { BitStream_writeBits 3 7; BitStream_writeBits 2 0; BitStream_writeBit offset }
      else if offset = 2
      then do { BitStream_writeBits 3 7; BitStream_writeBits 2 2; BitStream_writeBit 1 }
      else if offset = 3
      then do { BitStream_writeBits 3 7; BitStream_writeBits 2 3; BitStream_writeBits 2 2 }
      else if offset < 6
      then do { BitStream_writeBits 3 7; BitStream_writeBits 2 2; BitStream_writeBit 0;
                BitStream_writeBit (offset - 4) }
      else if offset < 10
      then do { BitStream_writeBits 3 7; BitStream_writeBits 2 1; BitStream_writeBits 2 (offset - 6) }
      else if offset < 12
      then do { BitStream_writeBits 3 7; BitStream_writeBits 2 3; BitStream_writeBits 2 3;
                BitStream_writeBit (offset - 10) }
      else if offset < 14
      then do { BitStream_writeBits 3 7; BitStream_writeBits 2 3; BitStream_writeBits 2 0;
                BitStream_writeBit (offset - 12) }
      else if offset < 16
      then do { BitStream_writeBits 3 7; BitStream_writeBits 2 3; BitStream_writeBits 2 1;
                BitStream_writeBit (offset - 14) }
      else if offset < 32
      then do { BitStream_writeBits 3 6; BitStream_writeBit 1; BitStream_writeBits 4 (offset - 16) }
      else if offset < 64
      then do { BitStream_writeBits 3 6; BitStream_writeBit 0; BitStream_writeBits 5 (offset - 32) }
      else if offset < 128 then do { BitStream_writeBits 3 3; BitStream_writeBits 6 (offset - 64) }
      else if offset < 256 then do { BitStream_writeBits 3 4; BitStream_writeBits 7 (offset - 128) }
      else if offset < 512 then do { BitStream_writeBits 3 2; BitStream_writeBits 8 (offset - 256) }
      else if offset < 1024 then do { BitStream_writeBits 3 1; BitStream_writeBits 9 (offset - 512) }
      else if offset < 2048 then do { BitStream_writeBits 3 0; BitStream_writeBits 10 (offset - 1024) }
      else if offset < 4096
      then do { BitStream_writeBits 3 5; BitStream_writeBit 0; BitStream_writeBits 11 (offset - 2048) }
      else if offset < 8192
      then do { BitStream_writeBits 3 5; BitStream_writeBit 1; BitStream_writeBits 12 (offset - 4096) }
      else State_Monad.return ())"


section \<open>Streams as lists of bits\<close>

text \<open>
  What a stream still holds for a reader, and what has been written to it.  \<open>bits n v\<close> is the
  value \<open>v\<close> in \<open>n\<close> bits, the highest first.
\<close>

definition byte_bits :: "u8 \<Rightarrow> bool list" where
  "byte_bits b = map (bit b) [0..<8]"

definition left :: "bitstream \<Rightarrow> bool list" where
  "left s = map (bit (curByte s)) [0..<numBits s] @ concat (map byte_bits (drop (stream_data s) (stream_mem s)))"

definition wrote :: "bitstream \<Rightarrow> bool list" where
  "wrote s = concat (map byte_bits (take (stream_data s) (stream_mem s))) @ map (bit (curByte s)) [8 - numBits s..<8]"

definition stream_ok :: "bitstream \<Rightarrow> bool" where
  "stream_ok s \<longleftrightarrow> stream_data s \<le> length (stream_mem s) \<and> numBits s < 8"

fun bits :: "nat \<Rightarrow> nat \<Rightarrow> bool list" where
  "bits 0 v = []"
| "bits (Suc n) v = bit v n # bits n v"

lemma length_bits [simp]: "length (bits n v) = n"
  by (induction n) auto

lemma length_byte_bits [simp]: "length (byte_bits b) = 8"
  by (simp add: byte_bits_def)

text \<open>
  \<open>reads m bs v\<close>: on a stream that starts with the bits \<open>bs\<close>, the reader \<open>m\<close> takes them and
  returns \<open>v\<close>; \<open>writes m bs\<close>: where they fit, the writer \<open>m\<close> appends the bits \<open>bs\<close>.
\<close>

definition reads :: "(bitstream, 'a) state \<Rightarrow> bool list \<Rightarrow> 'a \<Rightarrow> bool" where
  "reads m bs v \<longleftrightarrow> (\<forall>s rest. stream_ok s \<and> left s = bs @ rest \<longrightarrow>
     (\<exists>s'. run_state m s = (v, s') \<and> stream_ok s' \<and> left s' = rest))"

definition writes :: "(bitstream, unit) state \<Rightarrow> bool list \<Rightarrow> bool" where
  "writes m bs \<longleftrightarrow> (\<forall>s. stream_ok s \<and> length (wrote s) + length bs \<le> 8 * length (stream_mem s) \<longrightarrow>
     (\<exists>s'. run_state m s = ((), s') \<and> stream_ok s' \<and> wrote s' = wrote s @ bs
          \<and> length (stream_mem s') = length (stream_mem s)))"

lemma bits_of_word: "map (bit c) [a..<b] = map (\<lambda>i. bit c (a + i)) [0..<b - a]"
  by (rule nth_equalityI) auto

lemma readBit_left:
  assumes "stream_ok s" "left s = b # rest"
  shows "\<exists>s'. run_state BitStream_readBit s = (of_bool b, s') \<and> stream_ok s' \<and> left s' = rest"
proof (cases "numBits s")
  case 0
  with assms have "stream_data s < length (stream_mem s)"
    by (cases "stream_data s = length (stream_mem s)") (auto simp: left_def stream_ok_def)
  moreover from this have "drop (stream_data s) (stream_mem s) =
      stream_mem s ! stream_data s # drop (stream_data s + 1) (stream_mem s)" by (simp add: Cons_nth_drop_Suc)
  ultimately show ?thesis using assms 0
    by (auto simp: BitStream_readBit_def left_def stream_ok_def byte_bits_def Let_def bit_drop_bit_eq
        upt_conv_Cons map_Suc_upt [symmetric] simp del: upt_Suc)
next
  case (Suc n)
  have "map (bit (curByte s)) [0..<Suc n] = bit (curByte s) 0 # map (bit (drop_bit 1 (curByte s))) [0..<n]"
    unfolding upt_Suc_map by (simp add: bit_drop_bit_eq o_def)
  then have "left s = bit (curByte s) 0 # map (bit (drop_bit 1 (curByte s))) [0..<n] @
      concat (map byte_bits (drop (stream_data s) (stream_mem s)))"
    by (simp add: left_def Suc del: upt_Suc)
  with assms Suc show ?thesis
    by (auto simp: BitStream_readBit_def left_def stream_ok_def Let_def)
qed

lemma writeBit_wrote:
  assumes "stream_ok s" "length (wrote s) < 8 * length (stream_mem s)" "v < 2"
  shows "\<exists>s'. run_state (BitStream_writeBit v) s = ((), s') \<and> stream_ok s' \<and> wrote s' = wrote s @ [v \<noteq> 0]
    \<and> length (stream_mem s') = length (stream_mem s)"
proof -
  have n: "length (wrote s) = 8 * stream_data s + numBits s" using assms(1)
    by (simp add: wrote_def stream_ok_def length_concat o_def sum_list_triv)
  then have d: "stream_data s < length (stream_mem s)" using assms(2) by simp
  let ?c = "drop_bit 1 (curByte s) OR push_bit 7 (of_nat v)"
  have "push_bit 7 (of_nat v :: u8) = (if v = 0 then 0 else 2 ^ 7)" using assms(3) by (auto simp: less_2_cases_iff)
  then have b: "bit ?c p \<longleftrightarrow> bit (curByte s) (p + 1) \<or> (p = 7 \<and> v \<noteq> 0)" if "p < 8" for p
    using that byte_pow [of p 7] by (auto simp: bit_or_iff bit_drop_bit_eq simp del: push_bit_of_nat)
  have "map (bit ?c) [8 - (k + 1)..<8] = map (bit (curByte s)) [8 - k..<8] @ [v \<noteq> 0]" if "k < 8" for k
  proof (rule nth_equalityI)
    fix i assume "i < length (map (bit ?c) [8 - (k + 1)..<8])"
    then have i: "i < k \<or> i = k" "8 - (k + 1) + i < 8" using that by auto
    have "map (bit ?c) [8 - (k + 1)..<8] ! i = bit ?c (8 - (k + 1) + i)"
      using i by (intro nth_map_upt) arith
    also have "\<dots> \<longleftrightarrow> bit (curByte s) (8 - (k + 1) + i + 1) \<or> (8 - (k + 1) + i = 7 \<and> v \<noteq> 0)"
      by (rule b [OF i(2)])
    also have "\<dots> \<longleftrightarrow> (map (bit (curByte s)) [8 - k..<8] @ [v \<noteq> 0]) ! i"
    proof (cases "i < k")
      case True
      then have "8 - (k + 1) + i + 1 = 8 - k + i" "8 - (k + 1) + i \<noteq> 7" using that by arith+
      moreover have "map (bit (curByte s)) [8 - k..<8] ! i = bit (curByte s) (8 - k + i)"
        using True that by (intro nth_map_upt) arith
      ultimately show ?thesis using True that by (simp only: nth_append) simp
    next
      case False
      then have "i = k" "8 - (k + 1) + i + 1 = 8" "8 - (k + 1) + i = 7" using i that by arith+
      moreover have "\<not> bit (curByte s) 8" using bit_imp_le_length [of "curByte s" 8] by auto
      ultimately show ?thesis using that by (simp only: nth_append) simp
    qed
    finally show "map (bit ?c) [8 - (k + 1)..<8] ! i = (map (bit (curByte s)) [8 - k..<8] @ [v \<noteq> 0]) ! i" .
  qed (use that in simp)
  with assms(1) have c: "map (bit ?c) [8 - (numBits s + 1)..<8] = map (bit (curByte s)) [8 - numBits s..<8] @ [v \<noteq> 0]"
    by (simp add: stream_ok_def)
  show ?thesis
  proof (cases "numBits s = 7")
    case True
    then show ?thesis using d c assms(1)
      by (auto simp: BitStream_writeBit_def Let_def wrote_def stream_ok_def take_Suc_conv_app_nth byte_bits_def)
  next
    case False
    then show ?thesis using d c assms(1)
      by (auto simp: BitStream_writeBit_def Let_def wrote_def stream_ok_def)
  qed
qed


text \<open>Composition of readers and of writers.\<close>

named_theorems code_intros \<open>readers and writers, one bit field at a time\<close>

lemma readsD: "reads m bs v \<Longrightarrow> stream_ok s \<Longrightarrow> left s = bs @ rest \<Longrightarrow>
    \<exists>s'. run_state m s = (v, s') \<and> stream_ok s' \<and> left s' = rest"
  by (simp add: reads_def)

lemma writesD: "writes m bs \<Longrightarrow> stream_ok s \<Longrightarrow> length (wrote s) + length bs \<le> 8 * length (stream_mem s) \<Longrightarrow>
    \<exists>s'. run_state m s = ((), s') \<and> stream_ok s' \<and> wrote s' = wrote s @ bs
      \<and> length (stream_mem s') = length (stream_mem s)"
  by (simp add: writes_def)

lemma reads_return [code_intros]: "reads (State_Monad.return v) [] v"
  by (simp add: reads_def)

lemma reads_bind:
  assumes "reads m bs v" "reads (f v) cs x" shows "reads (m \<bind> f) (bs @ cs) x"
  unfolding reads_def
proof (intro allI impI, elim conjE)
  fix s rest assume "stream_ok s" "left s = (bs @ cs) @ rest"
  then obtain s' where 1: "run_state m s = (v, s')" "stream_ok s'" "left s' = cs @ rest"
    using readsD [OF assms(1), of s "cs @ rest"] by auto
  with readsD [OF assms(2) 1(2,3)] obtain s'' where
    "run_state (f v) s' = (x, s'')" "stream_ok s''" "left s'' = rest" by auto
  with 1 show "\<exists>s'. run_state (m \<bind> f) s = (x, s') \<and> stream_ok s' \<and> left s' = rest" by simp
qed

lemma writes_return [code_intros]: "writes (State_Monad.return ()) []"
  by (simp add: writes_def)

lemma writes_bind:
  assumes "writes m bs" "writes m' cs" shows "writes (m \<bind> (\<lambda>_. m')) (bs @ cs)"
  unfolding writes_def
proof (intro allI impI, elim conjE)
  fix s assume s: "stream_ok s" "length (wrote s) + length (bs @ cs) \<le> 8 * length (stream_mem s)"
  then obtain s' where 1: "run_state m s = ((), s')" "stream_ok s'" "wrote s' = wrote s @ bs"
    "length (stream_mem s') = length (stream_mem s)"
    using writesD [OF assms(1) s(1)] by auto
  with s obtain s'' where "run_state m' s' = ((), s'')" "stream_ok s''" "wrote s'' = wrote s' @ cs"
    "length (stream_mem s'') = length (stream_mem s')"
    using writesD [OF assms(2) 1(2)] by auto
  with 1 show "\<exists>s'. run_state (m \<bind> (\<lambda>_. m')) s = ((), s') \<and> stream_ok s' \<and> wrote s' = wrote s @ bs @ cs
      \<and> length (stream_mem s') = length (stream_mem s)" by simp
qed

lemma bits_1: "v < 2 \<Longrightarrow> bits 1 v = [v \<noteq> 0]"
  by (auto simp: less_2_cases_iff bit_0)

lemma reads_flag: "reads BitStream_readBit [b] (of_bool b)"
  using readBit_left by (simp add: reads_def)

lemma reads_bit: "v < 2 \<Longrightarrow> reads BitStream_readBit (bits 1 v) v"
  using reads_flag [of "v \<noteq> 0"] by (auto simp only: bits_1) (auto simp: less_2_cases_iff)

lemma writes_bit [code_intros]: "v < 2 \<Longrightarrow> writes (BitStream_writeBit v) (bits 1 v)"
  using writeBit_wrote [of _ v] by (simp only: bits_1) (simp add: writes_def)

lemma readBits_loop_reads: "reads (readBits_loop n ret) (bits n v) (ret * 2 ^ n + v mod 2 ^ n)"
proof (induction n arbitrary: ret)
  case (Suc n)
  have "or (push_bit 1 ret) (of_bool (bit v n)) * 2 ^ n + v mod 2 ^ n = ret * 2 ^ Suc n + v mod 2 ^ Suc n"
  proof -
    have "or (push_bit 1 ret) (of_bool (bit v n)) = 2 * ret + of_bool (bit v n)"
      using join_nat [of "of_bool (bit v n)" 1 ret] by (simp add: or.commute)
    moreover have "v mod 2 ^ Suc n = of_bool (bit v n) * 2 ^ n + v mod 2 ^ n"
      using mod_mult2_eq [of v "2 ^ n" 2] by (simp add: bit_iff_odd odd_iff_mod_2_eq_one mult.commute of_bool_def)
    ultimately show ?thesis by (simp add: algebra_simps)
  qed
  then show ?case
    using reads_bind [OF reads_flag, of "\<lambda>b. readBits_loop n (or (push_bit 1 ret) b)" "bit v n" "bits n v"]
      Suc.IH [of "or (push_bit 1 ret) (of_bool (bit v n))"] by simp
qed (use reads_return in simp)


lemma reads_bits: "v < 2 ^ n \<Longrightarrow> reads (BitStream_readBits n) (bits n v) v"
  using readBits_loop_reads [of n 0 v] by (simp add: BitStream_readBits_def)

lemma writeBits_loop_writes:
  "n \<le> k \<Longrightarrow> writes (writeBits_loop n k (push_bit (k - n) v)) (bits n v)"
proof (induction n)
  case (Suc n)
  have "and (drop_bit (k - 1) (push_bit (k - Suc n) v)) 1 = of_bool (bit v n)"
  proof -
    have "k - Suc n \<le> k - 1" by simp
    then show ?thesis
      using Suc.prems by (simp add: and_one_eq bit_iff_odd_drop_bit [symmetric] mod_2_eq_odd bit_push_bit_iff)
  qed
  moreover have "push_bit 1 (push_bit (k - Suc n) v) = push_bit (k - n) v"
    using Suc.prems by (simp add: push_bit_push_bit Suc_diff_Suc)
  moreover have "writes (BitStream_writeBit (of_bool (bit v n))) [bit v n]"
    using writes_bit [of "of_bool (bit v n)"] by (simp add: bit_0)
  ultimately show ?case
    using writes_bind [of "BitStream_writeBit (of_bool (bit v n))" "[bit v n]" "writeBits_loop n k (push_bit (k - n) v)" "bits n v"]
      Suc by simp
qed (simp add: writes_return)

lemma writes_bits [code_intros]: "writes (BitStream_writeBits n v) (bits n v)"
  using writeBits_loop_writes [of n n v] by (simp add: BitStream_writeBits_def)

lemma reads_bits_bind [code_intros]:
  "v < 2 ^ n \<Longrightarrow> reads (f v) cs x \<Longrightarrow> reads (BitStream_readBits n \<bind> f) (bits n v @ cs) x"
  by (rule reads_bind [OF reads_bits])

lemma reads_bit_bind [code_intros]:
  "v < 2 \<Longrightarrow> reads (f v) cs x \<Longrightarrow> reads (BitStream_readBit \<bind> f) (bits 1 v @ cs) x"
  by (rule reads_bind [OF reads_bit])

lemma reads_bits_last [code_intros]:
  "v < 2 ^ n \<Longrightarrow> reads (f v) [] x \<Longrightarrow> reads (BitStream_readBits n \<bind> f) (bits n v) x"
  using reads_bits_bind [of v n f "[]" x] by simp

lemma reads_bit_last [code_intros]:
  "v < 2 \<Longrightarrow> reads (f v) [] x \<Longrightarrow> reads (BitStream_readBit \<bind> f) (bits 1 v) x"
  using reads_bit_bind [of v f "[]" x] by (simp del: bits.simps)

lemmas writes_bit_bind [code_intros] = writes_bind [OF writes_bit]
lemmas writes_bits_bind [code_intros] = writes_bind [OF writes_bits]

lemmas bit_Suc_codes [code_intros] = writes_bit [unfolded One_nat_def] writes_bit_bind [unfolded One_nat_def]
  reads_bit [unfolded One_nat_def] reads_bit_bind [unfolded One_nat_def] reads_bit_last [unfolded One_nat_def]

text \<open>The codes: the fields of a length or offset, each with its number of bits.\<close>

definition code_bits :: "(nat \<times> nat) list \<Rightarrow> bool list" where
  "code_bits fs = concat (map (\<lambda>(n, v). bits n v) fs)"

definition length_code :: "nat \<Rightarrow> (nat \<times> nat) list" where
  "length_code len =
     (if len < 4 then [(2, len - 2)]
      else if len < 6 then [(2, 2), (1, len - 4)]
      else (2, 3) #
       (if len = 6 then [(2, 0)]
        else if len = 7 then [(2, 2), (1, 0)]
        else if len < 10 then [(2, 1), (1, len - 8)]
        else if len < 12 then [(2, 2), (1, 1), (1, len - 10)]
        else (2, 3) #
         (if len < 14 then [(3, len - 12)]
          else if len = 14 then [(3, 5)]
          else if len = 15 then [(3, 7), (1, 0)]
          else if len < 18 then [(3, 3), (1, len - 16)]
          else if len < 20 then [(3, 6), (1, 1), (1, len - 18)]
          else if len < 24 then [(3, 2), (2, len - 20)]
          else if len < 32 then [(3, 4), (3, len - 24)]
          else if len < 64 then [(3, 6), (1, 0), (5, len - 32)]
          else if len < 128 then [(3, 7), (1, 1), (1, 0), (6, len - 64)]
          else if len < 256 then [(3, 7), (1, 1), (1, 1), (1, 0), (7, len - 128)]
          else [(3, 7), (1, 1), (1, 1), (1, 1)])))"

lemma code_bits_simps [simp]: "code_bits [] = []" "code_bits [(n, v)] = bits n v"
  "code_bits ((n, v) # f # fs) = bits n v @ code_bits (f # fs)"
  by (simp_all add: code_bits_def)

lemma writes_length: "len \<le> 256 \<Longrightarrow> writes (writeBMCLength len) (code_bits (length_code len))"
  unfolding writeBMCLength_def length_code_def
  by (auto intro!: code_intros simp del: bits.simps simp: code_bits_def)


lemma reads_length: "2 \<le> len \<Longrightarrow> len \<le> 256 \<Longrightarrow> reads readBMCLength (code_bits (length_code len)) len"
proof (cases "len \<in> {2, 3, 12, 13}")
  case True
  then show ?thesis unfolding readBMCLength_def length_code_def
    by (auto intro!: code_intros simp del: bits.simps simp: code_bits_def)
next
  case False
  moreover assume "2 \<le> len" "len \<le> 256"
  ultimately show ?thesis unfolding length_code_def
    by (simp split: if_split del: bits.simps, intro conjI impI;
      unfold readBMCLength_def; auto intro!: code_intros simp del: bits.simps; arith)
qed

definition offset_code :: "nat \<Rightarrow> (nat \<times> nat) list" where
  "offset_code offset =
     (if offset < 2 then [(3, 7), (2, 0), (1, offset)]
      else if offset = 2 then [(3, 7), (2, 2), (1, 1)]
      else if offset = 3 then [(3, 7), (2, 3), (2, 2)]
      else if offset < 6 then [(3, 7), (2, 2), (1, 0), (1, offset - 4)]
      else if offset < 10 then [(3, 7), (2, 1), (2, offset - 6)]
      else if offset < 12 then [(3, 7), (2, 3), (2, 3), (1, offset - 10)]
      else if offset < 14 then [(3, 7), (2, 3), (2, 0), (1, offset - 12)]
      else if offset < 16 then [(3, 7), (2, 3), (2, 1), (1, offset - 14)]
      else if offset < 32 then [(3, 6), (1, 1), (4, offset - 16)]
      else if offset < 64 then [(3, 6), (1, 0), (5, offset - 32)]
      else if offset < 128 then [(3, 3), (6, offset - 64)]
      else if offset < 256 then [(3, 4), (7, offset - 128)]
      else if offset < 512 then [(3, 2), (8, offset - 256)]
      else if offset < 1024 then [(3, 1), (9, offset - 512)]
      else if offset < 2048 then [(3, 0), (10, offset - 1024)]
      else if offset < 4096 then [(3, 5), (1, 0), (11, offset - 2048)]
      else [(3, 5), (1, 1), (12, offset - 4096)])"

lemma writes_offset: "offset < 8192 \<Longrightarrow> writes (writeBMCOffset offset) (code_bits (offset_code offset))"
  unfolding writeBMCOffset_def offset_code_def
  by (auto intro!: code_intros simp del: bits.simps simp: code_bits_def)

lemma reads_offset: "offset < 8192 \<Longrightarrow> reads readBMCOffset (code_bits (offset_code offset)) offset"
  unfolding offset_code_def
  by (simp split: if_split del: bits.simps, intro conjI impI;
    unfold readBMCOffset_def; auto intro!: code_intros simp del: bits.simps; arith)

end
