(* ===== verification/BMC.thy ===== *)
theory BMC
  imports LZSS BitStream
begin

text \<open>
  \<open>encoding.c\<close> of the tools, third part: the BMC encoder and decoder, like LZSS but as a
  stream of bits.  A writer and a reader that agree on the code of a value form the locale
  \<open>bit_code\<close>; its interpretations are the bytes, the lengths and the offsets.
\<close>

section \<open>The decoder\<close>

lemma readBMCLength_ge: "2 \<le> fst (run_state readBMCLength s)"
  unfolding readBMCLength_def by (simp split: prod.splits if_splits)

text \<open>
  The stream and the pointers at the end of the loop.  The source of a reference is at least
  its length away, and a reference to before the output or past its end stops the loop.
\<close>

function decodeBMC_loop :: "u8 list \<Rightarrow> nat \<Rightarrow> bitstream \<Rightarrow> bitstream \<times> u8 list \<times> nat" where
  "decodeBMC_loop out outPtr s =
     (if \<not> BitStream_eof s \<and> outPtr < length out
      then let (b, s) = run_state BitStream_readBit s
           in if b \<noteq> 0
              then let (len, s) = run_state readBMCLength s; (offset, s) = run_state readBMCOffset s
                   in if outPtr < offset + len \<or> outPtr + len > length out then (s, out, outPtr)
                      else decodeBMC_loop (copy_loop len (outPtr - (offset + len)) outPtr out) (outPtr + len) s
              else let (v, s) = run_state (BitStream_readBits 8) s
                   in decodeBMC_loop (out[outPtr := of_nat v]) (outPtr + 1) s
      else (s, out, outPtr))"
  by auto
termination
proof (relation "measure (\<lambda>(out, outPtr, s). length out - outPtr)", goal_cases)
  case (2 out outPtr s p b s1 q len s2 r offset s3)
  then have "2 \<le> len" using readBMCLength_ge [of s1] by (metis fst_conv)
  with 2 show ?case by (simp, arith)
qed auto

declare decodeBMC_loop.simps [simp del]

definition decodeBMC :: "u8 list \<Rightarrow> u8 list \<Rightarrow> u8 \<Rightarrow> bool \<times> u8 list" where
  "decodeBMC inp out c =
     (let (s, out, outPtr) = decodeBMC_loop out 0 (BitStream_init inp c)
      in (BitStream_eof s \<and> outPtr = length out, out))"

section \<open>The encoder\<close>

function search_BMC :: "u8 list \<Rightarrow> nat \<Rightarrow> nat \<Rightarrow> nat \<Rightarrow> nat \<Rightarrow> nat \<times> nat" where
  "search_BMC inp inPtr offset bestLen bestOff =
     (if offset < 8192 + 256 \<and> offset \<le> inPtr
      then let len = match_length (min (256 + 1) offset) inp (inPtr - offset) inPtr 0;
               len = (if len > 256 then len - 1 else len)
           in if len > bestLen \<and> offset - len \<le> 8191 then search_BMC inp inPtr (offset + 1) len offset
              else search_BMC inp inPtr (offset + 1) bestLen bestOff
      else (bestLen, bestOff))"
  by auto
termination by (relation "measure (\<lambda>(inp, inPtr, offset, _). Suc inPtr - offset)") (auto simp: Suc_diff_le)

declare search_BMC.simps [simp del]

function encodeBMC_loop :: "u8 list \<Rightarrow> nat \<Rightarrow> (bitstream, unit) state" where
  "encodeBMC_loop inp inPtr =
     (if inPtr < length inp
      then let (bestLen, bestOff) = search_BMC inp inPtr 1 0 0
           in if bestLen \<ge> 2
              then do { BitStream_writeBit 1; writeBMCLength bestLen; writeBMCOffset (bestOff - bestLen);
                        encodeBMC_loop inp (inPtr + bestLen) }
              else do { BitStream_writeBit 0; BitStream_writeBits 8 (unat (inp ! inPtr));
                        encodeBMC_loop inp (inPtr + 1) }
      else State_Monad.return ())"
  by auto
termination by (relation "measure (\<lambda>(inp, inPtr). length inp - inPtr)") auto

declare encodeBMC_loop.simps [simp del]

text \<open>The number of bytes written, and the output buffer.\<close>

definition encodeBMC :: "u8 list \<Rightarrow> u8 list \<Rightarrow> u8 \<Rightarrow> nat \<times> u8 list" where
  "encodeBMC inp out c =
     (let s = snd (run_state (do { encodeBMC_loop inp 0; BitStream_flush }) (BitStream_init out c))
      in (stream_data s, stream_mem s))"


section \<open>The search\<close>

text \<open>A reference the search may choose: far enough to be a copy, and in the range of the codes.\<close>

definition far_match :: "u8 list \<Rightarrow> nat \<Rightarrow> nat \<Rightarrow> nat \<Rightarrow> bool" where
  "far_match inp p off len \<longleftrightarrow> matches inp p off len \<and> len \<le> 256 \<and> len \<le> off \<and> off - len \<le> 8191"

lemma search_BMC_ok:
  assumes "far_match inp p bo bl" "search_BMC inp p off bl bo = (l, o')" "p \<le> length inp"
  shows "far_match inp p o' l"
  using assms
proof (induction "Suc p - off" arbitrary: off bl bo)
  case 0
  then show ?case by (auto simp: search_BMC.simps)
next
  case (Suc n)
  show ?case
  proof (cases "off < 8192 + 256 \<and> off \<le> p")
    case True
    let ?m = "match_length (min 257 off) inp (p - off) p 0"
    define len where "len = (if ?m > 256 then ?m - 1 else ?m)"
    have "matches inp p off 0" using True Suc.prems(3) by (simp add: matches_def)
    from match_length_ok [OF this, of "min 257 off"]
    have m: "matches inp p off len" "len \<le> 256" "len \<le> off" by (auto simp: len_def intro: matches_less)
    have s: "search_BMC inp p off bl bo = (if len > bl \<and> off - len \<le> 8191 then search_BMC inp p (off + 1) len off
        else search_BMC inp p (off + 1) bl bo)"
      using True by (subst search_BMC.simps) (simp add: len_def Let_def)
    have n: "n = Suc p - (off + 1)" using Suc.hyps(2) by simp
    show ?thesis
    proof (cases "len > bl \<and> off - len \<le> 8191")
      case True
      with m have "far_match inp p off len" by (simp add: far_match_def)
      from Suc.hyps(1) [OF n this] True s Suc.prems show ?thesis by simp
    next
      case False
      with Suc.hyps(1) [OF n Suc.prems(1)] s Suc.prems show ?thesis by simp
    qed
  qed (use Suc.prems in \<open>auto simp: search_BMC.simps\<close>)
qed

lemma search_BMC_match:
  "search_BMC inp p 1 0 0 = (l, o') \<Longrightarrow> p \<le> length inp \<Longrightarrow> far_match inp p o' l"
  by (rule search_BMC_ok [of inp p 0 0]) (auto simp: far_match_def matches_def)

section \<open>Codes\<close>

locale bit_code =
  fixes writer :: "nat \<Rightarrow> (bitstream, unit) state" and reader :: "(bitstream, nat) state"
    and code :: "nat \<Rightarrow> bool list" and valid :: "nat \<Rightarrow> bool"
  assumes writes_code: "valid v \<Longrightarrow> writes (writer v) (code v)"
    and reads_code: "valid v \<Longrightarrow> reads reader (code v) v"
begin

lemma write_then: "valid v \<Longrightarrow> writes m cs \<Longrightarrow> writes (writer v \<bind> (\<lambda>_. m)) (code v @ cs)"
  by (rule writes_bind [OF writes_code])

lemma read_first:
  "valid v \<Longrightarrow> stream_ok s \<Longrightarrow> left s = code v @ rest \<Longrightarrow>
   \<exists>s'. run_state reader s = (v, s') \<and> stream_ok s' \<and> left s' = rest"
  by (rule readsD [OF reads_code])

end

interpretation flag_code: bit_code BitStream_writeBit BitStream_readBit "bits 1" "\<lambda>v. v < 2"
  by unfold_locales (rule writes_bit reads_bit, assumption)+

interpretation byte_code: bit_code "BitStream_writeBits 8" "BitStream_readBits 8" "bits 8" "\<lambda>v. v < 256"
  by unfold_locales (auto intro: writes_bits reads_bits simp del: bits.simps)

interpretation length_code: bit_code writeBMCLength readBMCLength "\<lambda>v. code_bits (length_code v)"
    "\<lambda>v. 2 \<le> v \<and> v \<le> 256"
  by unfold_locales (auto intro: writes_length reads_length)

interpretation offset_code: bit_code writeBMCOffset readBMCOffset "\<lambda>v. code_bits (offset_code v)" "\<lambda>v. v < 8192"
  by unfold_locales (auto intro: writes_offset reads_offset)

text \<open>The tokens the encoder chooses and their bits.\<close>

function bmc_tokens :: "u8 list \<Rightarrow> nat \<Rightarrow> token list" where
  "bmc_tokens inp p =
     (if p < length inp
      then let (len, off) = search_BMC inp p 1 0 0
           in if len \<ge> 2 then Reference off len # bmc_tokens inp (p + len)
              else Literal (inp ! p) # bmc_tokens inp (p + 1)
      else [])"
  by auto
termination by (relation "measure (\<lambda>(inp, p). length inp - p)") auto

declare bmc_tokens.simps [simp del]

fun token_bits :: "token \<Rightarrow> bool list" where
  "token_bits (Literal b) = bits 1 0 @ bits 8 (unat b)"
| "token_bits (Reference off len) = bits 1 1 @ code_bits (length_code len) @ code_bits (offset_code (off - len))"

definition all_bits :: "token list \<Rightarrow> bool list" where
  "all_bits ts = concat (map token_bits ts)"

lemma all_bits_simps: "all_bits [] = []"
  "all_bits (Literal b # ts) = bits 1 0 @ bits 8 (unat b) @ all_bits ts"
  "all_bits (Reference off len # ts) =
     bits 1 1 @ code_bits (length_code len) @ code_bits (offset_code (off - len)) @ all_bits ts"
  by (simp_all add: all_bits_def)

lemma bmc_tokens_cases [consumes 1]:
  assumes "p < length inp"
  obtains (Literal) len off where "search_BMC inp p 1 0 0 = (len, off)" "\<not> 2 \<le> len"
      "bmc_tokens inp p = Literal (inp ! p) # bmc_tokens inp (p + 1)"
    | (Reference) len off where "search_BMC inp p 1 0 0 = (len, off)" "2 \<le> len" "far_match inp p off len"
      "bmc_tokens inp p = Reference off len # bmc_tokens inp (p + len)"
proof -
  obtain len off where s: "search_BMC inp p 1 0 0 = (len, off)" by fastforce
  show thesis
  proof (cases "2 \<le> len")
    case True
    with s assms search_BMC_match [OF s] show thesis
      by (intro that(2) [of len off]) (auto simp: bmc_tokens.simps [of inp p])
  next
    case False
    with s assms show thesis by (intro that(1) [of len off]) (auto simp: bmc_tokens.simps [of inp p])
  qed
qed

lemma unat_u8: "unat (b :: u8) < 256"
  using unsigned_less [of b, where ?'a = nat] by simp

lemma encodeBMC_loop_writes: "p \<le> length inp \<Longrightarrow> writes (encodeBMC_loop inp p) (all_bits (bmc_tokens inp p))"
proof (induction "length inp - p" arbitrary: p rule: less_induct)
  case less
  show ?case
  proof (cases "p < length inp")
    case False
    then show ?thesis
      by (simp add: encodeBMC_loop.simps bmc_tokens.simps all_bits_simps writes_return)
  next
    case True
    then show ?thesis
    proof (cases rule: bmc_tokens_cases)
      case (Literal len off)
      have "encodeBMC_loop inp p = BitStream_writeBit 0 \<bind> (\<lambda>_. BitStream_writeBits 8 (unat (inp ! p)) \<bind>
          (\<lambda>_. encodeBMC_loop inp (p + 1)))"
        using True Literal by (subst encodeBMC_loop.simps) simp
      moreover have "writes (encodeBMC_loop inp (p + 1)) (all_bits (bmc_tokens inp (p + 1)))"
        using True by (intro less.hyps) auto
      ultimately show ?thesis unfolding Literal(3) all_bits_simps
        by (metis flag_code.write_then byte_code.write_then unat_u8 zero_less_numeral)
    next
      case (Reference len off)
      then have r: "p + len \<le> length inp" "len \<le> 256" "off - len < 8192" by (auto simp: far_match_def matches_def)
      have "encodeBMC_loop inp p = BitStream_writeBit 1 \<bind> (\<lambda>_. writeBMCLength len \<bind>
          (\<lambda>_. writeBMCOffset (off - len) \<bind> (\<lambda>_. encodeBMC_loop inp (p + len))))"
        using True Reference by (subst encodeBMC_loop.simps) simp
      moreover have "writes (encodeBMC_loop inp (p + len)) (all_bits (bmc_tokens inp (p + len)))"
        using True Reference(2) r by (intro less.hyps) auto
      ultimately show ?thesis unfolding Reference(4) all_bits_simps
        using Reference(2) r by (metis flag_code.write_then length_code.write_then offset_code.write_then one_less_numeral_iff semiring_norm(76))
    qed
  qed
qed


section \<open>Sizes\<close>

lemma length_code_bits: "length (code_bits fs) = sum_list (map fst fs)"
  by (induction fs) (auto simp: code_bits_def)

lemma length_code_size: "2 \<le> length (code_bits (length_code len))" "length (code_bits (length_code len)) \<le> (if len < 4 then 2 else 17)"
  unfolding length_code_bits by (simp_all add: length_code_def)

lemma offset_code_size: "6 \<le> length (code_bits (offset_code off))"
  "length (code_bits (offset_code off)) \<le> (if off < 4096 then 15 else 16)"
  unfolding length_code_bits by (simp_all add: offset_code_def)

lemma token_bits_size: "9 \<le> length (token_bits t)"
proof (cases t)
  case (Reference off len)
  then show ?thesis
    using length_code_size(1) [of len] offset_code_size(1) [of "off - len"] by (simp del: bits.simps)
qed (simp del: bits.simps)

text \<open>
  Ten bits for a byte are always enough, and nine as long as no reference to 4096 or more bytes
  before its source can occur: only a match of two bytes at such an offset takes 19 bits.
\<close>

lemma all_bits_size:
  assumes "k = 10 \<or> k = 9 \<and> length inp \<le> 4096" "p \<le> length inp"
  shows "length (all_bits (bmc_tokens inp p)) + k * p \<le> k * length inp"
  using assms(2)
proof (induction "length inp - p" arbitrary: p rule: less_induct)
  case less
  show ?case
  proof (cases "p < length inp")
    case True
    then show ?thesis
    proof (cases rule: bmc_tokens_cases)
      case (Literal len off)
      with less.hyps [of "p + 1"] True assms(1) show ?thesis
        by (auto simp add: all_bits_simps diff_less_mono2 simp del: bits.simps)
    next
      case (Reference len off)
      then have r: "p + len \<le> length inp" "length inp - (p + len) < length inp - p" "off \<le> p"
        using True by (auto simp: far_match_def matches_def)
      have "1 + length (code_bits (length_code len)) + length (code_bits (offset_code (off - len))) \<le> k * len"
        using assms(1) length_code_size(2) [of len] offset_code_size(2) [of "off - len"] Reference(2) r True
        by (auto split: if_splits)
      with less.hyps [of "p + len"] Reference(4) r show ?thesis
        by (simp add: all_bits_simps add_mult_distrib2 del: bits.simps)
    qed
  qed (use less.prems in \<open>simp add: bmc_tokens.simps all_bits_simps\<close>)
qed

lemma bmc_fits: "5 * length inp \<le> 4 * n \<Longrightarrow> length (all_bits (bmc_tokens inp 0)) \<le> 8 * n"
  using all_bits_size [of 10 inp 0] by simp

lemma bmc_fits_small: "length inp \<le> 4096 \<Longrightarrow> 9 * length inp \<le> 8 * n \<Longrightarrow> length (all_bits (bmc_tokens inp 0)) \<le> 8 * n"
  using all_bits_size [of 9 inp 0] by simp

text \<open>A stream is at its end when less than a byte is left, and not while more than a byte is.\<close>

lemma eof_left:
  assumes "stream_ok s"
  shows "length (left s) < 8 \<Longrightarrow> BitStream_eof s" "8 < length (left s) \<Longrightarrow> \<not> BitStream_eof s"
proof -
  have "length (left s) = numBits s + 8 * (length (stream_mem s) - stream_data s)"
    by (simp add: left_def length_concat o_def sum_list_triv)
  then show "length (left s) < 8 \<Longrightarrow> BitStream_eof s" "8 < length (left s) \<Longrightarrow> \<not> BitStream_eof s"
    using assms by (auto simp: BitStream_eof_def stream_ok_def)
qed

section \<open>The decoder reads the bits\<close>

lemma decodeBMC_loop_bits:
  assumes "p \<le> length inp" "take p out = take p inp" "length out = length inp" "stream_ok s"
    "left s = all_bits (bmc_tokens inp p) @ pad" "length pad < 8"
  shows "\<exists>s'. decodeBMC_loop out p s = (s', inp, length inp) \<and> BitStream_eof s'"
  using assms
proof (induction "length inp - p" arbitrary: p out s rule: less_induct)
  case less
  show ?case
  proof (cases "p < length inp")
    case False
    with less.prems have "out = inp" "length (left s) < 8" by (simp_all add: bmc_tokens.simps all_bits_simps)
    with False less.prems eof_left show ?thesis by (simp add: decodeBMC_loop.simps)
  next
    case True
    then obtain t ts where "bmc_tokens inp p = t # ts" by (cases rule: bmc_tokens_cases) auto
    then have "8 < length (left s)"
      using less.prems(5) token_bits_size [of t] by (simp add: all_bits_def)
    then have ne: "\<not> BitStream_eof s" using less.prems(4) eof_left by blast
    from True show ?thesis
    proof (cases rule: bmc_tokens_cases)
      case (Literal len off)
      let ?rest = "all_bits (bmc_tokens inp (p + 1)) @ pad"
      have "left s = bits 1 0 @ bits 8 (unat (inp ! p)) @ ?rest"
        using less.prems(5) unfolding Literal(3) all_bits_simps by simp
      from flag_code.read_first [OF _ less.prems(4) this]
      obtain s1 where s1: "run_state BitStream_readBit s = (0, s1)" "stream_ok s1" "left s1 = bits 8 (unat (inp ! p)) @ ?rest"
        by auto
      from byte_code.read_first [OF unat_u8 s1(2,3)]
      obtain s2 where s2: "run_state (BitStream_readBits 8) s1 = (unat (inp ! p), s2)" "stream_ok s2" "left s2 = ?rest" by auto
      have "decodeBMC_loop out p s = decodeBMC_loop (out[p := inp ! p]) (p + 1) s2"
        using ne True s1(1) s2(1) less.prems(3) by (subst decodeBMC_loop.simps) simp
      moreover have "\<exists>s'. decodeBMC_loop (out[p := inp ! p]) (p + 1) s2 = (s', inp, length inp) \<and> BitStream_eof s'"
        using True s2 less.prems by (intro less.hyps) (auto simp: take_Suc_conv_app_nth)
      ultimately show ?thesis by simp
    next
      case (Reference len off)
      then have r: "p + len \<le> length inp" "len \<le> 256" "off - len < 8192" "len \<le> off" "off \<le> p" "matches inp p off len"
        by (auto simp: far_match_def matches_def)
      let ?rest = "all_bits (bmc_tokens inp (p + len)) @ pad"
      have "left s = bits 1 1 @ code_bits (length_code len) @ code_bits (offset_code (off - len)) @ ?rest"
        using less.prems(5) unfolding Reference(4) all_bits_simps by simp
      from flag_code.read_first [OF _ less.prems(4) this]
      obtain s1 where s1: "run_state BitStream_readBit s = (1, s1)" "stream_ok s1"
        "left s1 = code_bits (length_code len) @ code_bits (offset_code (off - len)) @ ?rest" by auto
      from length_code.read_first [OF _ s1(2,3)] Reference(2) r(2)
      obtain s2 where s2: "run_state readBMCLength s1 = (len, s2)" "stream_ok s2"
        "left s2 = code_bits (offset_code (off - len)) @ ?rest" by auto
      from offset_code.read_first [OF r(3) s2(2,3)]
      obtain s3 where s3: "run_state readBMCOffset s2 = (off - len, s3)" "stream_ok s3" "left s3 = ?rest" by auto
      have "decodeBMC_loop out p s = decodeBMC_loop (copy_loop len (p - off) p out) (p + len) s3"
        using ne True s1(1) s2(1) s3(1) less.prems(3) r by (subst decodeBMC_loop.simps) simp
      moreover have "\<exists>s'. decodeBMC_loop (copy_loop len (p - off) p out) (p + len) s3 = (s', inp, length inp) \<and> BitStream_eof s'"
        using True s3 less.prems r Reference(2) copy_loop_matches [OF r(6) less.prems(2,3)]
        by (intro less.hyps) auto
      ultimately show ?thesis by simp
    qed
  qed
qed


section \<open>The flushed stream\<close>

lemma flush_bytes:
  assumes "stream_ok s" "length (wrote s) \<le> 8 * length (stream_mem s)"
  shows "\<exists>s' pad. run_state BitStream_flush s = ((), s') \<and> length pad < 8 \<and> stream_data s' \<le> length (stream_mem s')
    \<and> length (stream_mem s') = length (stream_mem s)
    \<and> concat (map byte_bits (take (stream_data s') (stream_mem s'))) = wrote s @ pad"
proof -
  have n: "length (wrote s) = 8 * stream_data s + numBits s" using assms(1)
    by (simp add: wrote_def stream_ok_def length_concat o_def sum_list_triv)
  show ?thesis
  proof (cases "numBits s = 0")
    case True
    then have "run_state BitStream_flush s = ((), s)" "wrote s @ [] = concat (map byte_bits (take (stream_data s) (stream_mem s)))"
      by (simp_all add: BitStream_flush_def wrote_def)
    with assms(1) show ?thesis by (intro exI [of _ s] exI [of _ "[]"]) (simp add: stream_ok_def)
  next
    case False
    let ?c = "drop_bit (8 - numBits s) (curByte s)" and ?k = "8 - numBits s"
    have d: "stream_data s < length (stream_mem s)" using n assms False by (simp add: stream_ok_def)
    have "byte_bits ?c = map (bit (curByte s)) [?k..<8] @ replicate ?k False"
    proof (rule nth_equalityI)
      fix i assume i: "i < length (byte_bits ?c)"
      have "bit ?c i \<longleftrightarrow> bit (curByte s) (?k + i)" by (simp add: bit_drop_bit_eq)
      also have "\<dots> \<longleftrightarrow> (map (bit (curByte s)) [?k..<8] @ replicate ?k False) ! i"
      proof (cases "i < numBits s")
        case True
        then have "map (bit (curByte s)) [?k..<8] ! i = bit (curByte s) (?k + i)"
          using assms(1) by (intro nth_map_upt) (auto simp: stream_ok_def)
        with True assms(1) show ?thesis by (simp only: nth_append) (simp add: stream_ok_def)
      next
        case False
        moreover from this have "\<not> bit (curByte s) (?k + i)"
          using bit_imp_le_length [of "curByte s" "?k + i"] by auto
        ultimately show ?thesis using i assms(1) by (simp only: nth_append) (auto simp: stream_ok_def)
      qed
      finally show "byte_bits ?c ! i = (map (bit (curByte s)) [?k..<8] @ replicate ?k False) ! i"
        using i by (simp add: byte_bits_def)
    qed (use assms(1) in \<open>simp add: stream_ok_def\<close>)
    then show ?thesis using d False assms(1)
      by (auto simp: BitStream_flush_def Let_def wrote_def take_Suc_conv_app_nth intro!: exI [of _ "replicate ?k False"])
  qed
qed

lemma encodeBMC_bits:
  assumes "length (all_bits (bmc_tokens inp 0)) \<le> 8 * length buf" "encodeBMC inp buf c = (n, mem)"
  shows "n \<le> length mem \<and> length mem = length buf \<and>
    (\<exists>pad. length pad < 8 \<and> concat (map byte_bits (take n mem)) = all_bits (bmc_tokens inp 0) @ pad)"
proof -
  let ?bs = "all_bits (bmc_tokens inp 0)" and ?i = "BitStream_init buf c"
  have i: "stream_ok ?i" "wrote ?i = []" "stream_mem ?i = buf"
    by (simp_all add: BitStream_init_def stream_ok_def wrote_def)
  from writesD [OF encodeBMC_loop_writes i(1), of 0 inp]
  obtain s where s: "run_state (encodeBMC_loop inp 0) ?i = ((), s)" "stream_ok s" "wrote s = ?bs"
    "length (stream_mem s) = length buf"
    using assms(1) i by auto
  from flush_bytes [OF s(2)] assms(1) s(3,4) obtain s' pad where
    "run_state BitStream_flush s = ((), s')" "length pad < 8" "stream_data s' \<le> length (stream_mem s')"
    "length (stream_mem s') = length (stream_mem s)"
    "concat (map byte_bits (take (stream_data s') (stream_mem s'))) = wrote s @ pad" by auto
  with s assms(2) show ?thesis by (auto simp: encodeBMC_def)
qed

lemma bmc_decodes:
  assumes "length (all_bits (bmc_tokens inp 0)) \<le> 8 * length buf" "encodeBMC inp buf c = (n, mem)" "length out = length inp"
  shows "n \<le> length buf" "length mem = length buf" "decodeBMC (take n mem) out c' = (True, inp)"
proof -
  obtain pad where e: "n \<le> length mem" "length mem = length buf" "length pad < 8"
    "concat (map byte_bits (take n mem)) = all_bits (bmc_tokens inp 0) @ pad"
    using encodeBMC_bits [OF assms(1,2)] by auto
  then show "n \<le> length buf" "length mem = length buf" by simp_all
  have "stream_ok (BitStream_init (take n mem) c')" "left (BitStream_init (take n mem) c') = all_bits (bmc_tokens inp 0) @ pad"
    using e by (simp_all add: BitStream_init_def stream_ok_def left_def)
  from decodeBMC_loop_bits [of 0 inp out, OF _ _ assms(3) this e(3)]
  show "decodeBMC (take n mem) out c' = (True, inp)" by (auto simp: decodeBMC_def)
qed

section \<open>Properties\<close>

text \<open>
  C23: Into a buffer of at least 10 bits for every byte of the input, the BMC encoder writes an
  encoding that the decoder turns back into the input: it succeeds, having consumed the
  encoding and filled an output buffer of the length of the input, whatever the
  uninitialised bytes are.
\<close>

theorem bmc_roundtrip:
  assumes "5 * length inp \<le> 4 * length buf" "encodeBMC inp buf c = (n, mem)" "length out = length inp"
  shows "n \<le> length buf \<and> length mem = length buf \<and> decodeBMC (take n mem) out c' = (True, inp)"
  using bmc_decodes [OF bmc_fits [OF assms(1)] assms(2,3)] by simp_all

theorem bmc_roundtrip_witness:
  "let (n, mem) = encodeBMC [7, 8, 7, 8] [0, 0, 0, 0, 0] 0
   in decodeBMC (take n mem) [0, 0, 0, 0] 255 = (True, [7, 8, 7, 8])"
  using bmc_roundtrip [of "[7, 8, 7, 8]" "[0, 0, 0, 0, 0]" 0 _ _ "[0, 0, 0, 0]" 255]
  by (simp split: prod.splits)

end
