(* ===== verification/Archive.thy ===== *)
theory Archive
  imports BMC
begin

text \<open>
  \<open>archive.c\<close> of the tools: the index of an archive file, the reading of its entries, stored or
  BMC encoded, the extraction of all of them and the report on an executable.  A file is the
  list of its bytes with a position; memory that C leaves uninitialised holds the byte
  \<open>c\<close>.  Allocations succeed.  \<open>None\<close> is an access outside an array.
\<close>

section \<open>Files\<close>

record stream_file =
  file_bytes :: "u8 list"
  file_pos :: nat

definition fread :: "u8 \<Rightarrow> nat \<Rightarrow> stream_file \<Rightarrow> u8 list \<times> stream_file" where
  "fread c n f =
     (let bs = take n (drop (file_pos f) (file_bytes f))
      in (bs @ replicate (n - length bs) c, f\<lparr>file_pos := file_pos f + length bs\<rparr>))"

definition fseek :: "nat \<Rightarrow> stream_file \<Rightarrow> stream_file" where
  "fseek pos f = f\<lparr>file_pos := pos\<rparr>"

definition fgetc :: "stream_file \<Rightarrow> int \<times> stream_file" where
  "fgetc f =
     (if file_pos f < length (file_bytes f)
      then (int (unat (file_bytes f ! file_pos f)), f\<lparr>file_pos := file_pos f + 1\<rparr>) else (-1, f))"

text \<open>Big endian numbers.\<close>

definition get_short :: "u8 list \<Rightarrow> nat \<Rightarrow> nat" where
  "get_short bs i = unat (bs ! i) * 256 + unat (bs ! (i + 1))"

definition get_long :: "u8 list \<Rightarrow> nat \<Rightarrow> u32" where
  "get_long bs i =
     push_bit 24 (ucast (bs ! i)) OR push_bit 16 (ucast (bs ! (i + 1))) OR push_bit 8 (ucast (bs ! (i + 2)))
       OR ucast (bs ! (i + 3))"

definition readShort :: "u8 \<Rightarrow> stream_file \<Rightarrow> nat \<times> stream_file" where
  "readShort c f = (let (bytes, f) = fread c 2 f in (get_short bytes 0, f))"

section \<open>The index\<close>

record archive_entry =
  entry_name :: "u8 list"
  entry_offset :: u32
  entry_size :: u32

record archive =
  archive_file :: stream_file
  archive_entries :: "archive_entry list"

text \<open>\<open>strdup\<close>: the bytes before the next NUL, which must be in the array.\<close>

definition c_string :: "u8 list \<Rightarrow> nat \<Rightarrow> u8 list option" where
  "c_string bs i =
     (if 0 \<in> set (drop i bs) then Some (takeWhile (\<lambda>b. b \<noteq> 0) (drop i bs)) else None)"

fun read_index :: "u8 list \<Rightarrow> nat \<Rightarrow> nat \<Rightarrow> archive_entry list option" where
  "read_index index ptr 0 = Some []"
| "read_index index ptr (Suc n) =
     do { asserting (ptr + 10 \<le> length index);
          let nameOffset = get_short index ptr;
          asserting (6 \<le> nameOffset);
          name \<leftarrow> c_string index (nameOffset - 6);
          es \<leftarrow> read_index index (ptr + 10) n;
          Some (\<lparr>entry_name = name, entry_offset = get_long index (ptr + 2), entry_size = get_long index (ptr + 6)\<rparr> # es) }"

text \<open>The result is \<open>Some (Inl f)\<close> if the header is not \<open>Cy\<close>.\<close>

definition Archive_init :: "u8 \<Rightarrow> stream_file \<Rightarrow> (stream_file + archive) option" where
  "Archive_init c f =
     (let hd = take 2 (drop (file_pos f) (file_bytes f)); (buf, f) = fread c 2 f
      in if hd \<noteq> [0x43, 0x79] then Some (Inl f)
         else let (numEntries, f) = readShort c f; (indexSize, f) = readShort c f; (index, f) = fread c indexSize f
              in do { es \<leftarrow> read_index index 0 numEntries;
                      Some (Inr \<lparr>archive_file = f, archive_entries = es\<rparr>) })"

section \<open>Entries\<close>

text \<open>A 32-bit length that keeps its value when it is passed as an \<open>int\<close>.\<close>

definition int_ok :: "u32 \<Rightarrow> bool" where
  "int_ok n \<longleftrightarrow> unat n < 2 ^ 31"

definition Archive_getDecompressedSize :: "u8 \<Rightarrow> nat \<Rightarrow> archive \<Rightarrow> (u32 \<times> archive) option" where
  "Archive_getDecompressedSize c i a =
     (if i < length (archive_entries a)
      then let entry = archive_entries a ! i;
               f = fseek (unat (entry_offset entry)) (archive_file a); (compression, f) = fgetc f
           in if compression = 0 then Some (entry_size entry - 1, a\<lparr>archive_file := f\<rparr>)
              else if compression = 2
              then let (bytes, f) = fread c 4 f in Some (get_long bytes 0, a\<lparr>archive_file := f\<rparr>)
              else Some (0, a\<lparr>archive_file := f\<rparr>)
      else None)"

text \<open>
  The inner \<open>None\<close> is the NULL pointer.  The lengths of an encoded entry become \<open>int\<close> in the call of
  the decoder, which has no defined run for a negative one.
\<close>

definition Archive_readEntry :: "u8 \<Rightarrow> nat \<Rightarrow> archive \<Rightarrow> (u8 list option \<times> archive) option" where
  "Archive_readEntry c i a =
     (if i < length (archive_entries a)
      then let entry = archive_entries a ! i;
               f = fseek (unat (entry_offset entry)) (archive_file a); (compression, f) = fgetc f
           in if compression = 0
              then let (ret, f) = fread c (unat (entry_size entry - 1)) f in Some (Some ret, a\<lparr>archive_file := f\<rparr>)
              else if compression = 2
              then let (bytes, f) = fread c 4 f; outSize = get_long bytes 0; inSize = entry_size entry - 5;
                       (inData, f) = fread c (unat inSize) f
                   in if int_ok inSize \<and> int_ok outSize
                      then let (ok, outData) = decodeBMC inData (replicate (unat outSize) c) c
                           in Some (if ok then Some outData else None, a\<lparr>archive_file := f\<rparr>)
                      else None
              else Some (None, a\<lparr>archive_file := f\<rparr>)
      else None)"

text \<open>
  The extraction loop of \<open>main\<close>: the files written, with their contents, and the result code.
  \<open>can_open\<close> says which files the host lets it create.  Writing more than the buffer holds is an
  access outside it.
\<close>

fun extract_entries :: "u8 \<Rightarrow> (u8 list \<Rightarrow> bool) \<Rightarrow> nat list \<Rightarrow> archive \<Rightarrow> ((u8 list \<times> u8 list) list \<times> int) option" where
  "extract_entries c can_open [] a = Some ([], 0)"
| "extract_entries c can_open (i # is) a =
     do { (data, a) \<leftarrow> Archive_readEntry c i a;
          (files, res, a) \<leftarrow>
            (case data of
               Some d \<Rightarrow>
                 if can_open (entry_name (archive_entries a ! i))
                 then do { (size, a) \<leftarrow> Archive_getDecompressedSize c i a;
                           asserting (unat size \<le> length d);
                           Some ([(entry_name (archive_entries a ! i), take (unat size) d)], 0, a) }
                 else Some ([], 0, a)
             | None \<Rightarrow> Some ([], 1, a));
          (files', res') \<leftarrow> extract_entries c can_open is a;
          Some (files @ files', if res' = 1 then 1 else res) }"

section \<open>Executables\<close>

text \<open>What \<open>printExecutableInfo\<close> prints of an executable.\<close>

datatype relocation = Import "u8 list" nat u32 | Self u32

record exe_info =
  imageSize :: u32
  extraSize :: u32
  numExports :: u32
  exe_imports :: "u8 list list"
  entryOffset :: u32
  ctorsOffset :: u32
  numCtors :: u32
  dtorsOffset :: u32
  numDtors :: u32
  exe_relocs :: "relocation list"

text \<open>The names from one position to another, and the import \<open>ordinals\<close> renamed to \<open>OS\<close>.\<close>

definition import_name :: "u8 list \<Rightarrow> u8 list" where
  "import_name s = (if s = map of_char ''ordinals'' then map of_char ''OS'' else s)"

function parse_imports :: "u8 list \<Rightarrow> nat \<Rightarrow> nat \<Rightarrow> u8 list list option" where
  "parse_imports exe p importsEnd =
     (if p = importsEnd then Some []
      else case c_string exe p of
             None \<Rightarrow> None
           | Some s \<Rightarrow> do { is \<leftarrow> parse_imports exe (p + length s + 1) importsEnd; Some (import_name s # is) })"
  by pat_completeness auto
termination
proof (relation "measure (\<lambda>(exe, p, e). length exe - p)", goal_cases)
  case (2 exe p e s)
  then have "p < length exe" by (cases "p < length exe") (auto simp: c_string_def)
  then show ?case by auto
qed auto

function parse_relocs :: "u8 list \<Rightarrow> nat \<Rightarrow> u8 list list \<Rightarrow> nat \<Rightarrow> nat \<Rightarrow> relocation list option" where
  "parse_relocs exe imageAt imports p relocsEnd =
     (if p = relocsEnd then Some []
      else if p + 4 \<le> length exe
      then let reloc = get_long exe p; offset = reloc AND 0xFFFFFF
           in do { r \<leftarrow> (if bit reloc 31
                        then if imageAt + unat offset + 4 \<le> length exe
                             then let code = get_long exe (imageAt + unat offset); index = unat (code AND 0x1FFF);
                                      moduleIndex = unat (drop_bit 24 reloc AND 0x7F)
                                  in if moduleIndex < length imports
                                     then Some (Import (imports ! moduleIndex) index offset) else None
                             else None
                        else Some (Self offset));
                   rs \<leftarrow> parse_relocs exe imageAt imports (p + 4) relocsEnd;
                   Some (r # rs) }
      else None)"
  by pat_completeness auto
termination by (relation "measure (\<lambda>(exe, imageAt, imports, p, e). length exe - p)") auto

definition printExecutableInfo :: "u8 list \<Rightarrow> exe_info option option" where
  "printExecutableInfo exe =
     do { asserting (4 \<le> length exe);
          (if get_short exe 0 \<noteq> 0x91AF \<or> get_short exe 2 < 2 then Some None
           else do {
             asserting (44 \<le> length exe);
             let field = (\<lambda>i. get_long exe (4 + 4 * i));
             let imageAt = 44;
             let importsData = imageAt + unat (field 0);
             imports \<leftarrow> parse_imports exe importsData (importsData + unat (field 3));
             let relocs = imageAt + unat (field 0) + unat (field 3);
             rs \<leftarrow> parse_relocs exe imageAt imports relocs (relocs + unat (field 4));
             Some (Some \<lparr>imageSize = field 0, extraSize = field 1, numExports = field 2 div 4, exe_imports = imports,
               entryOffset = field 5, ctorsOffset = field 6, numCtors = field 7 div 4,
               dtorsOffset = field 8, numDtors = field 9 div 4, exe_relocs = rs\<rparr>) }) }"


section \<open>Packing\<close>

text \<open>Big endian numbers, an archive entry's bytes and the archive of a list of entries.\<close>

definition be16 :: "nat \<Rightarrow> u8 list" where
  "be16 n = [of_nat (n div 256), of_nat n]"

definition be32 :: "nat \<Rightarrow> u8 list" where
  "be32 n = [of_nat (n div 2 ^ 24), of_nat (n div 2 ^ 16), of_nat (n div 2 ^ 8), of_nat n]"

datatype content = Stored "u8 list" | Encoded "u8 list"

fun content_data :: "content \<Rightarrow> u8 list" where
  "content_data (Stored d) = d"
| "content_data (Encoded d) = d"

definition bmc :: "u8 list \<Rightarrow> u8 list" where
  "bmc d = (let (n, mem) = encodeBMC d (replicate (2 * length d) 0) 0 in take n mem)"

fun content_bytes :: "content \<Rightarrow> u8 list" where
  "content_bytes (Stored d) = 0 # d"
| "content_bytes (Encoded d) = 2 # be32 (length d) @ bmc d"

fun index_rows :: "nat \<Rightarrow> nat \<Rightarrow> (u8 list \<times> content) list \<Rightarrow> u8 list" where
  "index_rows nameOff dataOff [] = []"
| "index_rows nameOff dataOff ((name, d) # es) =
     be16 nameOff @ be32 dataOff @ be32 (length (content_bytes d)) @
     index_rows (nameOff + length name + 1) (dataOff + length (content_bytes d)) es"

definition names_bytes :: "(u8 list \<times> content) list \<Rightarrow> u8 list" where
  "names_bytes es = concat (map (\<lambda>(name, d). name @ [0]) es)"

definition data_bytes :: "(u8 list \<times> content) list \<Rightarrow> u8 list" where
  "data_bytes es = concat (map (\<lambda>(name, d). content_bytes d) es)"

definition pack_archive :: "(u8 list \<times> content) list \<Rightarrow> u8 list" where
  "pack_archive es =
     (let indexSize = 10 * length es + length (names_bytes es)
      in [0x43, 0x79] @ be16 (length es) @ be16 indexSize @
         index_rows (6 + 10 * length es) (6 + indexSize) es @ names_bytes es @ data_bytes es)"

definition packable :: "(u8 list \<times> content) list \<Rightarrow> bool" where
  "packable es \<longleftrightarrow> 6 + 10 * length es + length (names_bytes es) < 2 ^ 16 \<and> length (pack_archive es) < 2 ^ 32
     \<and> (\<forall>(name, d) \<in> set es. 0 \<notin> set name \<and> length (content_data d) < 2 ^ 32 \<and>
          (case d of Stored _ \<Rightarrow> True | Encoded e \<Rightarrow> length e < 2 ^ 31 \<and> length (bmc e) < 2 ^ 31))"

section \<open>Lemmas\<close>

lemma byte_nat: "unat (of_nat n :: u8) = n mod 256"
  by (simp add: unsigned_of_nat take_bit_eq_mod)

lemma nth_at: "drop i bs = xs @ r \<Longrightarrow> k < length xs \<Longrightarrow> bs ! (i + k) = xs ! k"
  by (metis add_leD1 drop_eq_Nil list.size(3) nat_le_linear not_less_zero nth_append nth_drop append_is_Nil_conv)

lemma get_short_at:
  assumes "drop i bs = be16 n @ r" "n < 2 ^ 16" shows "get_short bs i = n"
proof -
  have "bs ! i = of_nat (n div 256)" "bs ! (i + 1) = of_nat n"
    using nth_at [OF assms(1), of 0] nth_at [OF assms(1), of 1] by (simp_all add: be16_def)
  then show ?thesis using assms(2) by (simp add: get_short_def byte_nat)
qed

lemma get_long_bytes: "get_long [a, b, c, d] 0 = of_nat (((unat a * 256 + unat b) * 256 + unat c) * 256 + unat d)"
proof -
  have u: "ucast x = (of_nat (unat x) :: u32)" for x :: u8 by simp
  have lt: "unat x < 2 ^ 8" for x :: u8 using unsigned_less [of x, where ?'a = nat] by simp
  have 1: "push_bit 8 (ucast c) OR ucast d = (of_nat (unat d + 2 ^ 8 * unat c) :: u32)"
    unfolding u by (subst or.commute) (rule join_u32 [OF lt])
  have 2: "push_bit 16 (ucast b) OR (of_nat (unat d + 2 ^ 8 * unat c) :: u32) = of_nat (unat d + 2 ^ 8 * unat c + 2 ^ 16 * unat b)"
    unfolding u using lt [of d] lt [of c] by (subst or.commute) (rule join_u32, simp)
  have 3: "push_bit 24 (ucast a) OR (of_nat (unat d + 2 ^ 8 * unat c + 2 ^ 16 * unat b) :: u32) =
      of_nat (unat d + 2 ^ 8 * unat c + 2 ^ 16 * unat b + 2 ^ 24 * unat a)"
    unfolding u using lt [of d] lt [of c] lt [of b] by (subst or.commute) (rule join_u32, simp)
  have "get_long [a, b, c, d] 0 = push_bit 24 (ucast a) OR (push_bit 16 (ucast b) OR (push_bit 8 (ucast c) OR ucast d))"
    by (simp add: get_long_def or.assoc)
  also have "\<dots> = of_nat (unat d + 2 ^ 8 * unat c + 2 ^ 16 * unat b + 2 ^ 24 * unat a)" by (simp only: 1 2 3)
  finally show ?thesis by (simp add: algebra_simps)
qed

lemma get_long_at:
  assumes "drop i bs = be32 n @ r" "n < 2 ^ 32" shows "get_long bs i = of_nat n"
proof -
  have "bs ! i = of_nat (n div 2 ^ 24)" "bs ! (i + 1) = of_nat (n div 2 ^ 16)"
    "bs ! (i + 2) = of_nat (n div 2 ^ 8)" "bs ! (i + 3) = of_nat n"
    using nth_at [OF assms(1), of 0] nth_at [OF assms(1), of 1] nth_at [OF assms(1), of 2] nth_at [OF assms(1), of 3]
    by (simp_all add: be32_def)
  then have "get_long bs i = get_long (be32 n) 0" by (simp add: get_long_def be32_def)
  also have "\<dots> = of_nat (((n div 2 ^ 24 mod 256 * 256 + n div 2 ^ 16 mod 256) * 256 + n div 2 ^ 8 mod 256) * 256 + n mod 256)"
    unfolding be32_def get_long_bytes byte_nat ..
  also have "((n div 2 ^ 24 mod 256 * 256 + n div 2 ^ 16 mod 256) * 256 + n div 2 ^ 8 mod 256) * 256 + n mod 256 = n"
  proof -
    have "n div 2 ^ 8 = n div 256" "n div 2 ^ 16 = n div 256 div 256" "n div 2 ^ 24 mod 256 = n div 256 div 256 div 256"
      using assms(2) by (simp_all add: div_mult2_eq [symmetric] div_less_iff_less_mult)
    then show ?thesis by (simp only: div_mult_mod_eq)
  qed
  finally show ?thesis .
qed

lemma length_be [simp]: "length (be16 n) = 2" "length (be32 n) = 4"
  by (simp_all add: be16_def be32_def)

lemma unat_u32 [simp]: "n < 2 ^ 32 \<Longrightarrow> unat (of_nat n :: u32) = n"
  by (simp add: unsigned_of_nat take_bit_nat_eq_self)

lemma c_string_at: "drop i bs = s @ 0 # r \<Longrightarrow> 0 \<notin> set s \<Longrightarrow> c_string bs i = Some s"
  by (simp add: c_string_def takeWhile_tail) (metis takeWhile_eq_all_conv)

text \<open>The index of a packed archive.\<close>

definition index_entry :: "nat \<Rightarrow> (u8 list \<times> content) list \<Rightarrow> nat \<Rightarrow> archive_entry" where
  "index_entry off es i = \<lparr>entry_name = fst (es ! i), entry_offset = of_nat (off + length (data_bytes (take i es))),
     entry_size = of_nat (length (content_bytes (snd (es ! i))))\<rparr>"

lemma drop_more: "drop i bs = xs @ r \<Longrightarrow> drop (i + length xs) bs = r"
  by (metis append_eq_conv_conj add.commute drop_drop)

lemma read_index_rows:
  assumes "drop ptr index = index_rows (6 + n) off es @ r" "drop n index = names_bytes es" "ptr \<le> length index"
    "6 + n + length (names_bytes es) < 2 ^ 16" "off + length (data_bytes es) < 2 ^ 32" "\<forall>(name, d) \<in> set es. 0 \<notin> set name"
  shows "read_index index ptr (length es) = Some (map (index_entry off es) [0..<length es])"
  using assms
proof (induction es arbitrary: ptr n off)
  case (Cons e es)
  obtain name d where e: "e = (name, d)" by (cases e)
  let ?row = "be16 (6 + n) @ be32 off @ be32 (length (content_bytes d))"
  let ?rows = "index_rows (6 + n + length name + 1) (off + length (content_bytes d)) es @ r"
  have lens: "length (data_bytes ((name, d) # es)) = length (content_bytes d) + length (data_bytes es)"
    "length (names_bytes ((name, d) # es)) = length name + 1 + length (names_bytes es)"
    by (simp_all add: data_bytes_def names_bytes_def)
  have row: "drop ptr index = be16 (6 + n) @ (be32 off @ be32 (length (content_bytes d)) @ ?rows)"
    using Cons.prems(1) by (simp add: e)
  then have d2: "drop (ptr + 2) index = be32 off @ (be32 (length (content_bytes d)) @ ?rows)"
    and d6: "drop (ptr + 6) index = be32 (length (content_bytes d)) @ ?rows" and d10: "drop (ptr + 10) index = ?rows"
    using drop_more [OF row] drop_more [of ptr index "be16 (6 + n) @ be32 off"] drop_more [of ptr index ?row] by simp_all
  have "length (drop ptr index) = length (?row @ ?rows)" using row by simp
  then have len: "ptr + 10 \<le> length index" by simp
  have name: "drop n index = name @ 0 # names_bytes es" using Cons.prems(2) by (simp add: names_bytes_def e)
  have fields: "get_short index ptr = 6 + n" "get_long index (ptr + 2) = of_nat off"
    "get_long index (ptr + 6) = of_nat (length (content_bytes d))" "c_string index n = Some name"
    using Cons.prems(4-6) lens get_short_at [OF row] get_long_at [OF d2] get_long_at [OF d6] c_string_at [OF name]
    by (simp_all add: e)
  have n': "6 + (n + length name + 1) = 6 + n + length name + 1" by simp
  have "read_index index (ptr + 10) (length es) =
      Some (map (index_entry (off + length (content_bytes d)) es) [0..<length es])"
    using d10 drop_more [of n index "name @ [0]" "names_bytes es"] name len Cons.prems(4-6) lens
    by (intro Cons.IH [of _ "n + length name + 1", unfolded n']) (simp_all add: e add.assoc)
  moreover have "map (index_entry off (e # es)) [0..<length (e # es)] =
      \<lparr>entry_name = name, entry_offset = of_nat off, entry_size = of_nat (length (content_bytes d))\<rparr> #
      map (index_entry (off + length (content_bytes d)) es) [0..<length es]"
    unfolding list.size upt_Suc_map add_0_right
    by (simp add: index_entry_def e data_bytes_def add.assoc o_def upt_Suc_map del: upt_Suc)
  ultimately show ?case using len fields by simp
qed simp


lemma length_index_rows [simp]: "length (index_rows m n es) = 10 * length es"
  by (induction es arbitrary: m n) auto

lemma fread_exact:
  "drop (file_pos f) (file_bytes f) = xs @ r \<Longrightarrow> n = length xs \<Longrightarrow> fread c n f = (xs, f\<lparr>file_pos := file_pos f + n\<rparr>)"
  by (simp add: fread_def)

lemma readShort_exact:
  assumes "drop (file_pos f) (file_bytes f) = be16 n @ r" "n < 2 ^ 16"
  shows "readShort c f = (n, f\<lparr>file_pos := file_pos f + 2\<rparr>)"
  using fread_exact [OF assms(1), of 2] get_short_at [of 0 "be16 n" n "[]"] assms(2) by (simp add: readShort_def)

definition packed_archive :: "(u8 list \<times> content) list \<Rightarrow> archive \<Rightarrow> bool" where
  "packed_archive es a \<longleftrightarrow> file_bytes (archive_file a) = pack_archive es \<and>
     archive_entries a = map (index_entry (6 + 10 * length es + length (names_bytes es)) es) [0..<length es]"

lemma Archive_init_packed:
  assumes "packable es"
  shows "\<exists>a. Archive_init c \<lparr>file_bytes = pack_archive es, file_pos = 0\<rparr> = Some (Inr a) \<and> packed_archive es a"
proof -
  let ?base = "6 + 10 * length es + length (names_bytes es)"
  let ?index = "index_rows (6 + 10 * length es) ?base es @ names_bytes es"
  let ?F = "\<lambda>p. \<lparr>file_bytes = pack_archive es, file_pos = p\<rparr>"
  have len: "length ?index = 10 * length es + length (names_bytes es)" by simp
  have F: "pack_archive es = [0x43, 0x79] @ be16 (length es) @ be16 (length ?index) @ ?index @ data_bytes es"
    unfolding len by (simp add: pack_archive_def Let_def add.assoc)
  have small: "length es < 2 ^ 16" "length ?index < 2 ^ 16" "?base + length (data_bytes es) < 2 ^ 32"
    "6 + 10 * length es + length (names_bytes es) < 2 ^ 16" "\<forall>(name, d) \<in> set es. 0 \<notin> set name"
    using assms by (auto simp: packable_def F)
  have d2: "drop 2 (pack_archive es) = be16 (length es) @ (be16 (length ?index) @ ?index @ data_bytes es)"
    and d4: "drop 4 (pack_archive es) = be16 (length ?index) @ (?index @ data_bytes es)"
    and d6: "drop 6 (pack_archive es) = ?index @ data_bytes es"
    unfolding F by (simp_all add: be16_def)
  have "fread c 2 (?F 0) = ([0x43, 0x79], ?F 2)" by (subst fread_exact [of _ "[0x43, 0x79]"]) (simp_all add: F)
  moreover have "readShort c (?F 2) = (length es, ?F 4)"
    using readShort_exact [of "?F 2", OF _ small(1)] d2 by simp
  moreover have "readShort c (?F 4) = (length ?index, ?F 6)"
    using readShort_exact [of "?F 4", OF _ small(2)] d4 by simp
  moreover have "fread c (length ?index) (?F 6) = (?index, ?F (6 + length ?index))"
    using fread_exact [of "?F 6" ?index] d6 by simp
  moreover have "read_index ?index 0 (length es) = Some (map (index_entry ?base es) [0..<length es])"
    using small by (intro read_index_rows [of _ _ "10 * length es" _ _ "names_bytes es"]) simp_all
  moreover have "take 2 (pack_archive es) = [0x43, 0x79]" by (simp add: F)
  ultimately show ?thesis by (simp add: Archive_init_def packed_archive_def del: length_append)
qed

lemma entry_bytes:
  assumes "i < length es"
  shows "drop (6 + 10 * length es + length (names_bytes es) + length (data_bytes (take i es))) (pack_archive es) =
    content_bytes (snd (es ! i)) @ data_bytes (drop (Suc i) es)"
proof -
  have "data_bytes es = data_bytes (take i es) @ content_bytes (snd (es ! i)) @ data_bytes (drop (Suc i) es)"
    using assms by (subst id_take_nth_drop [of i es]) (simp_all add: data_bytes_def case_prod_unfold)
  moreover obtain hd where "pack_archive es = hd @ data_bytes es" "length hd = 6 + 10 * length es + length (names_bytes es)"
    by (auto simp: pack_archive_def Let_def simp flip: append_assoc append_Cons)
  ultimately show ?thesis by simp
qed

lemma bmc_decoded:
  assumes "length out = length d" shows "decodeBMC (bmc d) out c = (True, d)"
proof -
  obtain n mem where "encodeBMC d (replicate (2 * length d) 0) 0 = (n, mem)" by fastforce
  with bmc_decodes(3) [OF bmc_fits this assms] show ?thesis by (simp add: bmc_def)
qed


lemma content_size:
  assumes "packable es" "i < length es"
  shows "6 + 10 * length es + length (names_bytes es) + length (data_bytes (take i es)) + length (content_bytes (snd (es ! i))) < 2 ^ 32"
proof -
  have "length (drop (6 + 10 * length es + length (names_bytes es) + length (data_bytes (take i es))) (pack_archive es))
      \<ge> length (content_bytes (snd (es ! i)))"
    unfolding entry_bytes [OF assms(2)] by simp
  moreover have "1 \<le> length (content_bytes (snd (es ! i)))" by (cases "snd (es ! i)") simp_all
  moreover have "length (pack_archive es) < 2 ^ 32" using assms(1) by (simp add: packable_def)
  ultimately show ?thesis unfolding length_drop by linarith
qed

lemma fgetc_exact:
  "drop (file_pos f) (file_bytes f) = b # r \<Longrightarrow> fgetc f = (int (unat b), f\<lparr>file_pos := file_pos f + 1\<rparr>)"
  by (auto simp: fgetc_def nth_via_drop not_less)

text \<open>An entry is read back, and its size is that of its contents.\<close>

lemma read_packed:
  assumes "packable es" "packed_archive es a" "i < length es"
  shows "\<exists>a' a''. Archive_readEntry c i a = Some (Some (content_data (snd (es ! i))), a') \<and> packed_archive es a'
    \<and> Archive_getDecompressedSize c i a = Some (of_nat (length (content_data (snd (es ! i)))), a'') \<and> packed_archive es a''
    \<and> entry_name (archive_entries a ! i) = fst (es ! i) \<and> length (content_data (snd (es ! i))) < 2 ^ 32"
proof -
  let ?off = "6 + 10 * length es + length (names_bytes es) + length (data_bytes (take i es))"
  let ?d = "snd (es ! i)" and ?r = "data_bytes (drop (Suc i) es)"
  define f where "f = archive_file a"
  have small: "?off + length (content_bytes ?d) < 2 ^ 32" by (rule content_size [OF assms(1,3)])
  have len: "length (content_data ?d) < 2 ^ 32"
    using assms(1) nth_mem [OF assms(3)] by (fastforce simp: packable_def)
  have a: "i < length (archive_entries a)" "file_bytes f = pack_archive es"
    "archive_entries a ! i = index_entry (6 + 10 * length es + length (names_bytes es)) es i"
    using assms by (simp_all add: packed_archive_def f_def)
  have "entry_offset (archive_entries a ! i) = of_nat ?off" by (simp add: a(3) index_entry_def)
  moreover have "?off < 2 ^ 32" using small by simp
  ultimately have off: "unat (entry_offset (archive_entries a ! i)) = ?off" by (simp only: unat_u32)
  from a have size: "entry_size (archive_entries a ! i) = of_nat (length (content_bytes ?d))"
    and name: "entry_name (archive_entries a ! i) = fst (es ! i)"
    by (simp_all add: index_entry_def)
  have keep: "packed_archive es (a\<lparr>archive_file := f'\<rparr>)" if "file_bytes f' = pack_archive es" for f'
    using assms(2) that by (simp add: packed_archive_def)
  have bytes: "drop ?off (pack_archive es) = content_bytes ?d @ ?r" by (rule entry_bytes [OF assms(3)])
  define g where "g = (\<lambda>p. f\<lparr>file_pos := p\<rparr>)"
  have seek: "fseek (unat (entry_offset (archive_entries a ! i))) (archive_file a) = g ?off"
    by (simp add: fseek_def off f_def g_def)
  have g: "file_pos (g p) = p" "file_bytes (g p) = pack_archive es" "(g p)\<lparr>file_pos := q\<rparr> = g q" for p q
    using a by (simp_all add: g_def)
  have drop_Suc_off: "drop (?off + 1) (pack_archive es) = tl (content_bytes ?d @ ?r)"
    unfolding bytes [symmetric] by (simp only: tl_drop drop_Suc Suc_eq_plus1 [symmetric])
  show ?thesis
  proof (cases ?d)
    case (Stored d)
    have "fgetc (g ?off) = (0, g (?off + 1))"
      using fgetc_exact [of "g ?off" 0 "d @ ?r"] bytes Stored by (simp add: g)
    moreover have "fread c (length d) (g (?off + 1)) = (d, g (?off + 1 + length d))"
      using fread_exact [of "g (?off + 1)" d ?r] drop_Suc_off Stored by (simp add: g)
    moreover have "entry_size (archive_entries a ! i) - 1 = of_nat (length d)" "unat (of_nat (length d) :: u32) = length d"
      using size len Stored by simp_all
    ultimately show ?thesis
      using a(1) len name Stored
      by (auto simp: Archive_readEntry_def Archive_getDecompressedSize_def seek keep g Let_def)
  next
    case (Encoded d)
    have 1: "drop (?off + 1) (pack_archive es) = be32 (length d) @ (bmc d @ ?r)" using drop_Suc_off Encoded by simp
    have 5: "drop (?off + 5) (pack_archive es) = bmc d @ ?r" using drop_more [OF 1] by simp
    have "fgetc (g ?off) = (2, g (?off + 1))"
      using fgetc_exact [of "g ?off" 2 "be32 (length d) @ bmc d @ ?r"] bytes Encoded by (simp add: g)
    moreover have "fread c 4 (g (?off + 1)) = (be32 (length d), g (?off + 5))"
      using fread_exact [of "g (?off + 1)", OF _ length_be(2) [symmetric]] 1 by (simp add: g)
    moreover have "get_long (be32 (length d)) 0 = of_nat (length d)" "unat (of_nat (length d) :: u32) = length d"
      using get_long_at [of 0 "be32 (length d)" "length d" "[]"] len Encoded by simp_all
    moreover have "length d < 2 ^ 31" "length (bmc d) < 2 ^ 31"
      using assms(1) nth_mem [OF assms(3)] Encoded by (fastforce simp: packable_def)+
    then have "int_ok (of_nat (length d))" "int_ok (of_nat (length (bmc d)))" by (simp_all add: int_ok_def)
    moreover have "length (bmc d) < 2 ^ 32" using small Encoded by simp
    then have "entry_size (archive_entries a ! i) - 5 = of_nat (length (bmc d))" "unat (of_nat (length (bmc d)) :: u32) = length (bmc d)"
      using size Encoded by simp_all
    moreover have "fread c (length (bmc d)) (g (?off + 5)) = (bmc d, g (?off + 5 + length (bmc d)))"
      using fread_exact [of "g (?off + 5)" "bmc d" ?r] 5 by (simp add: g)
    moreover have "decodeBMC (bmc d) (replicate (length d) c) c = (True, d)" by (rule bmc_decoded) simp
    ultimately show ?thesis
      using a(1) len name Encoded
      by (auto simp: Archive_readEntry_def Archive_getDecompressedSize_def seek keep g Let_def)
  qed
qed

lemma packed_name: "packed_archive es a \<Longrightarrow> i < length es \<Longrightarrow> entry_name (archive_entries a ! i) = fst (es ! i)"
  by (simp add: packed_archive_def index_entry_def)

lemma extract_packed:
  assumes "packable es" "packed_archive es a" "set is \<subseteq> {..<length es}"
  shows "extract_entries c (\<lambda>_. True) is a = Some (map (\<lambda>i. (fst (es ! i), content_data (snd (es ! i)))) is, 0)"
  using assms(2,3)
proof (induction "is" arbitrary: a)
  case (Cons i "is")
  obtain a' where r: "Archive_readEntry c i a = Some (Some (content_data (snd (es ! i))), a')" "packed_archive es a'"
    "length (content_data (snd (es ! i))) < 2 ^ 32"
    using read_packed [OF assms(1) Cons.prems(1)] Cons.prems(2) by fastforce
  obtain a'' where "Archive_getDecompressedSize c i a' = Some (of_nat (length (content_data (snd (es ! i)))), a'')"
    "packed_archive es a''"
    using read_packed [OF assms(1) r(2)] Cons.prems(2) by fastforce
  moreover from this have "extract_entries c (\<lambda>_. True) is a'' = Some (map (\<lambda>i. (fst (es ! i), content_data (snd (es ! i)))) is, 0)"
    using Cons by simp
  ultimately show ?case using r packed_name Cons.prems(2) by simp
qed simp

section \<open>Properties\<close>

text \<open>
  C24: Extracting an archive writes every entry's file with its name and contents and reports no
  error: the index is read back as it was packed, stored entries as they are and BMC encoded
  entries decoded.  The archive is one that the formats of its fields can describe: an index of less than 64 KB, less than
  4 GB in all, names without a 0, and encoded entries of which neither size exceeds the \<open>int\<close> that the decoder takes.
\<close>

theorem archive_roundtrip:
  assumes "packable es"
  shows "\<exists>a. Archive_init c \<lparr>file_bytes = pack_archive es, file_pos = 0\<rparr> = Some (Inr a) \<and>
    extract_entries c (\<lambda>_. True) [0..<length (archive_entries a)] a =
      Some (map (\<lambda>(name, d). (name, content_data d)) es, 0)"
proof -
  obtain a where a: "Archive_init c \<lparr>file_bytes = pack_archive es, file_pos = 0\<rparr> = Some (Inr a)" "packed_archive es a"
    using Archive_init_packed [OF assms] by blast
  then have "extract_entries c (\<lambda>_. True) [0..<length es] a =
      Some (map (\<lambda>i. (fst (es ! i), content_data (snd (es ! i)))) [0..<length es], 0)"
    using assms by (intro extract_packed) auto
  also have "map (\<lambda>i. (fst (es ! i), content_data (snd (es ! i)))) [0..<length es] = map (\<lambda>(name, d). (name, content_data d)) es"
    by (rule nth_equalityI) (auto simp: case_prod_unfold)
  finally show ?thesis using a by (auto simp: packed_archive_def)
qed

theorem archive_roundtrip_witness:
  defines "es \<equiv> [([0x61], Stored [1, 2]), ([0x62, 0x63], Encoded [7, 8, 7, 8])]"
  shows "\<exists>a. Archive_init 0 \<lparr>file_bytes = pack_archive es, file_pos = 0\<rparr> = Some (Inr a) \<and>
    extract_entries 0 (\<lambda>_. True) [0..<length (archive_entries a)] a =
      Some ([([0x61], [1, 2]), ([0x62, 0x63], [7, 8, 7, 8])], 0)"
proof -
  have "length (bmc [7, 8, 7, 8]) \<le> 8"
  proof -
    obtain n mem where "encodeBMC [7, 8, 7, 8] (replicate 8 0) 0 = (n, mem)" by fastforce
    with bmc_decodes(1) [OF bmc_fits this, of "[0, 0, 0, 0]"] show ?thesis by (simp add: bmc_def)
  qed
  then have "packable es" by (simp add: es_def packable_def pack_archive_def names_bytes_def data_bytes_def)
  from archive_roundtrip [OF this, of 0] show ?thesis by (simp add: es_def)
qed

end
