(* ===== verification/Imgtool.thy ===== *)
theory Imgtool
  imports Archive
begin

text \<open>
  \<open>imgtool.c\<close> of the tools: it adds the header of an image and encodes it, or checks the header
  and decodes it, with the boot, LZSS or BMC encoding.  A file is read through a
  \<open>stream_file\<close>; what is written is the list of the bytes.  \<open>None\<close> is a run without a defined
  result: an access outside an array, or a length whose conversion to \<open>int\<close> is negative.
\<close>

section \<open>Files\<close>

datatype encoding = Encoding_None | Encoding_Boot | Encoding_LZSS | Encoding_BMC

definition writeInt :: "u32 \<Rightarrow> u8 list" where
  "writeInt i = [ucast (drop_bit 24 i), ucast (drop_bit 16 i), ucast (drop_bit 8 i), ucast i]"

definition readInt :: "u8 \<Rightarrow> stream_file \<Rightarrow> u32 \<times> stream_file" where
  "readInt c f = (let (bytes, f) = fread c 4 f in (get_long bytes 0, f))"

text \<open>\<open>fseek\<close> to the end, \<open>ftell\<close> and back: the whole file and its length.\<close>

definition read_all :: "stream_file \<Rightarrow> u8 list" where
  "read_all f = file_bytes f"

section \<open>Encoding and decoding\<close>

definition doDecodeBoot :: "u8 \<Rightarrow> stream_file \<Rightarrow> (bool \<times> u8 list) option" where
  "doDecodeBoot c inFile =
     (let (hd, f) = fread c 4 inFile
      in if hd \<noteq> [0xFF, 0xC0, 0xFF, 0xAB] then Some (False, [])
         else let (len, f) = readInt c f; f = fseek (file_pos f + 4) f
              in if int_ok len
                 then let (inData, f) = fread c (unat len) f in Some (True, encodeBoot inData)
                 else None)"

definition doEncodeBoot :: "stream_file \<Rightarrow> (bool \<times> u8 list) option" where
  "doEncodeBoot inFile =
     (let inData = read_all inFile; len = of_nat (length inData)
      in if length inData < 2 ^ 31
         then Some (True, [0xFF, 0xC0, 0xFF, 0xAB] @ writeInt len @ writeInt len @ encodeBoot inData)
         else None)"

definition doDecodeLZSS :: "u8 \<Rightarrow> stream_file \<Rightarrow> (bool \<times> u8 list) option" where
  "doDecodeLZSS c inFile =
     (let (hd, f) = fread c 4 inFile
      in if hd \<noteq> [0x01, 0xC0, 0xFF, 0xAB] then Some (False, [])
         else let (compressedLength, f) = readInt c f; (decompressedLength, f) = readInt c f
              in if int_ok compressedLength \<and> int_ok decompressedLength
                 then let (inData, f) = fread c (unat compressedLength) f
                      in do { (ok, outData) \<leftarrow> decodeLZSS inData (replicate (unat decompressedLength) c);
                              Some (if ok then (True, outData) else (False, [])) }
                 else None)"

definition doEncodeLZSS :: "stream_file \<Rightarrow> (bool \<times> u8 list) option" where
  "doEncodeLZSS inFile =
     (let inData = read_all inFile; outData = encodeLZSS inData
      in if length inData < 2 ^ 31 \<and> length outData \<le> length inData + (length inData + 7) div 8
         then Some (True, [0x01, 0xC0, 0xFF, 0xAB] @ writeInt (of_nat (length outData)) @ writeInt (of_nat (length inData)) @ outData)
         else None)"

definition doDecodeBMC :: "u8 \<Rightarrow> stream_file \<Rightarrow> (bool \<times> u8 list) option" where
  "doDecodeBMC c inFile =
     (let (hd, f) = fread c 4 inFile
      in if hd \<noteq> [0x02, 0xC0, 0xFF, 0xAB] then Some (False, [])
         else let (compressedLength, f) = readInt c f; (decompressedLength, f) = readInt c f
              in if int_ok compressedLength \<and> int_ok decompressedLength
                 then let (inData, f) = fread c (unat compressedLength) f;
                          (ok, outData) = decodeBMC inData (replicate (unat decompressedLength) c) c
                      in Some (if ok then (True, outData) else (False, []))
                 else None)"

definition doEncodeBMC :: "u8 \<Rightarrow> stream_file \<Rightarrow> (bool \<times> u8 list) option" where
  "doEncodeBMC c inFile =
     (let inData = read_all inFile;
          maxOutLen = length inData + (length inData + 7) div 8;
          (outLength, outData) = encodeBMC inData (replicate maxOutLen c) c
      in if length inData < 2 ^ 31
         then Some (True, [0x02, 0xC0, 0xFF, 0xAB] @ writeInt (of_nat outLength) @ writeInt (of_nat (length inData)) @ take outLength outData)
         else None)"

section \<open>The command line\<close>

text \<open>\<open>atoi\<close>: white space, a sign and the digits; a number beyond the range of \<open>int\<close> has no defined value.\<close>

fun digits_value :: "int \<Rightarrow> string \<Rightarrow> int" where
  "digits_value v [] = v"
| "digits_value v (ch # cs) =
     (if of_char ch \<in> {48..57 :: int} then digits_value (v * 10 + (of_char ch - 48)) cs else v)"

definition atoi :: "string \<Rightarrow> int option" where
  "atoi s =
     (let s = dropWhile (\<lambda>ch. ch = CHR '' '' \<or> of_char ch \<in> {9..13 :: nat}) s;
          v = (case s of [] \<Rightarrow> 0
               | ch # cs \<Rightarrow> if ch = CHR ''-'' then - digits_value 0 cs else if ch = CHR ''+'' then digits_value 0 cs else digits_value 0 s)
      in if v < - (2 ^ 31) \<or> 2 ^ 31 \<le> v then None else Some v)"

record img_options =
  img_enc :: encoding
  img_decode :: bool
  img_inOffset :: int

text \<open>
  The flags of one argument, with the arguments after it; \<open>Some None\<close> is an invalid flag, \<open>None\<close> an
  offset that has no defined value.
\<close>

fun parse_flags :: "string \<Rightarrow> string list \<Rightarrow> img_options \<Rightarrow> (img_options \<times> string list) option option" where
  "parse_flags [] args opts = Some (Some (opts, args))"
| "parse_flags (ch # flags) args opts =
     (if ch = CHR ''d'' then parse_flags flags args (opts\<lparr>img_decode := True\<rparr>)
      else if ch = CHR ''e'' then parse_flags flags args (opts\<lparr>img_decode := False\<rparr>)
      else if ch = CHR ''b'' then parse_flags flags args (opts\<lparr>img_enc := Encoding_Boot\<rparr>)
      else if ch = CHR ''l'' then parse_flags flags args (opts\<lparr>img_enc := Encoding_LZSS\<rparr>)
      else if ch = CHR ''m'' then parse_flags flags args (opts\<lparr>img_enc := Encoding_BMC\<rparr>)
      else if ch = CHR ''o'' then
        (case args of a # args \<Rightarrow>
           if flags = [] then do { v \<leftarrow> atoi a; Some (Some (opts\<lparr>img_inOffset := v\<rparr>, args)) } else Some None
         | [] \<Rightarrow> Some None)
      else Some None)"

lemma parse_flags_shorter: "parse_flags flags args opts = Some (Some (opts', args')) \<Longrightarrow> length args' \<le> length args"
  by (induction flags args opts rule: parse_flags.induct) (auto split: if_splits list.splits Option.bind_splits)

function parse_args :: "string list \<Rightarrow> img_options \<Rightarrow> (img_options \<times> string list) option option" where
  "parse_args [] opts = Some (Some (opts, []))"
| "parse_args (arg # args) opts =
     (if arg = [] \<or> hd arg \<noteq> CHR ''-'' then Some (Some (opts, arg # args))
      else case parse_flags (tl arg) args opts of None \<Rightarrow> None | Some None \<Rightarrow> Some None
        | Some (Some (opts, args)) \<Rightarrow> parse_args args opts)"
  by pat_completeness auto
termination
  by (relation "measure (\<lambda>(args, opts). length args)") (auto dest: parse_flags_shorter)

text \<open>
  The exit code and the files after the run.  \<open>canWrite\<close> says which paths can be opened for
  writing; reading and writing the same path is not modelled.
\<close>

definition imgtool_main :: "u8 \<Rightarrow> (string \<Rightarrow> bool) \<Rightarrow> string list \<Rightarrow> (string \<rightharpoonup> u8 list) \<Rightarrow> (nat \<times> (string \<rightharpoonup> u8 list)) option" where
  "imgtool_main c canWrite argv fs =
     (case parse_args argv \<lparr>img_enc = Encoding_None, img_decode = False, img_inOffset = 0\<rparr> of
        None \<Rightarrow> None
      | Some None \<Rightarrow> Some (1, fs)
      | Some (Some (opts, args)) \<Rightarrow>
        if img_enc opts = Encoding_None \<or> length args \<noteq> 2 then Some (1, fs)
        else let inName = args ! 0; outName = args ! 1
        in case fs inName of None \<Rightarrow> Some (1, fs)
           | Some bytes \<Rightarrow>
             if inName = outName then None
             else let inFile = \<lparr>file_bytes = bytes, file_pos = (if img_inOffset opts < 0 then 0 else nat (img_inOffset opts))\<rparr>
             in if \<not> canWrite outName then Some (1, fs)
             else do { (res, out) \<leftarrow>
                         (case img_enc opts of
                            Encoding_Boot \<Rightarrow> if img_decode opts then doDecodeBoot c inFile else doEncodeBoot inFile
                          | Encoding_LZSS \<Rightarrow> if img_decode opts then doDecodeLZSS c inFile else doEncodeLZSS inFile
                          | _ \<Rightarrow> if img_decode opts then doDecodeBMC c inFile else doEncodeBMC c inFile);
                       Some (if res then 0 else 1, fs(outName \<mapsto> out)) })"


section \<open>Images are decoded as they were encoded\<close>

lemma get_long_writeInt: "get_long (writeInt v) 0 = v"
  by (simp add: get_long_def writeInt_def u32_bytes)

lemma length_writeInt [simp]: "length (writeInt v) = 4"
  by (simp add: writeInt_def)

lemma readInt_exact:
  "drop (file_pos f) (file_bytes f) = writeInt v @ r \<Longrightarrow> readInt c f = (v, f\<lparr>file_pos := file_pos f + 4\<rparr>)"
  using fread_exact [of f "writeInt v" r 4 c] by (simp add: readInt_def get_long_writeInt)

lemma unat_of_int_ok: "n < 2 ^ 31 \<Longrightarrow> unat (of_nat n :: u32) = n \<and> int_ok (of_nat n)"
  by (simp add: int_ok_def)

text \<open>The three headers, the two lengths and the data, read in this order.\<close>

lemma read_image:
  assumes "drop (file_pos f) (file_bytes f) = magic @ writeInt a @ writeInt b @ d @ r" "length magic = 4"
  shows "fread c 4 f = (magic, f\<lparr>file_pos := file_pos f + 4\<rparr>) \<and>
    readInt c (f\<lparr>file_pos := file_pos f + 4\<rparr>) = (a, f\<lparr>file_pos := file_pos f + 8\<rparr>) \<and>
    readInt c (f\<lparr>file_pos := file_pos f + 8\<rparr>) = (b, f\<lparr>file_pos := file_pos f + 12\<rparr>) \<and>
    fread c (length d) (f\<lparr>file_pos := file_pos f + 12\<rparr>) = (d, f\<lparr>file_pos := file_pos f + 12 + length d\<rparr>)"
proof -
  have d4: "drop (file_pos f + 4) (file_bytes f) = writeInt a @ writeInt b @ d @ r"
    using arg_cong [OF assms(1), of "drop 4"] assms(2) by (simp add: add.commute)
  have d8: "drop (file_pos f + 8) (file_bytes f) = writeInt b @ d @ r"
    using arg_cong [OF d4, of "drop 4"] by (simp add: add.commute)
  have d12: "drop (file_pos f + 12) (file_bytes f) = d @ r"
    using arg_cong [OF d8, of "drop 4"] by (simp add: add.commute)
  show ?thesis
    using fread_exact [OF assms(1), of 4 c] assms(2) readInt_exact [of "f\<lparr>file_pos := file_pos f + 4\<rparr>" a _ c]
      readInt_exact [of "f\<lparr>file_pos := file_pos f + 8\<rparr>" b _ c] fread_exact [of "f\<lparr>file_pos := file_pos f + 12\<rparr>" d r _ c]
    by (simp add: d4 d8 d12)
qed

lemma encodeBoot_length [simp]: "length (encodeBoot d) = length d"
proof -
  have "length (encodeBoot_loop k d) = length d" for k by (induction d arbitrary: k) (simp_all add: Let_def)
  then show ?thesis by (simp add: encodeBoot_def)
qed

lemma boot_image:
  assumes "length d < 2 ^ 31" "doEncodeBoot \<lparr>file_bytes = d, file_pos = p\<rparr> = Some (ok, img)"
    and "drop (file_pos f) (file_bytes f) = img @ r"
  shows "ok \<and> doDecodeBoot c f = Some (True, d)"
proof -
  let ?n = "of_nat (length d) :: u32"
  have im: "ok" "img = [0xFF, 0xC0, 0xFF, 0xAB] @ writeInt ?n @ writeInt ?n @ encodeBoot d"
    using assms(1,2) by (simp_all add: doEncodeBoot_def read_all_def Let_def)
  have "drop (file_pos f) (file_bytes f) = [0xFF, 0xC0, 0xFF, 0xAB] @ writeInt ?n @ writeInt ?n @ encodeBoot d @ r"
    using assms(3) by (simp add: im)
  from read_image [OF this, of c] show ?thesis
    using unat_of_int_ok [OF assms(1)] im(1) by (simp add: doDecodeBoot_def Let_def fseek_def encodeBoot_twice add.commute [of 12 "file_pos f"])
qed

lemma lzss_image:
  assumes "length d < 2 ^ 30" "doEncodeLZSS \<lparr>file_bytes = d, file_pos = p\<rparr> = Some (ok, img)"
    and "drop (file_pos f) (file_bytes f) = img @ r"
  shows "ok \<and> doDecodeLZSS c f = Some (True, d)"
proof -
  let ?e = "encodeLZSS d" and ?n = "of_nat (length d) :: u32" and ?m = "of_nat (length (encodeLZSS d)) :: u32"
  have im: "ok" "img = [0x01, 0xC0, 0xFF, 0xAB] @ writeInt ?m @ writeInt ?n @ ?e"
    using assms(1,2) by (simp_all add: doEncodeLZSS_def read_all_def Let_def split: if_splits)
  have l: "length ?e \<le> (9 * length d + 7) div 8" "decodeLZSS ?e out = Some (True, d)" if "length out = length d" for out
    using lzss_encodes that by auto
  have "length d < 1073741824" using assms(1) by simp
  with l(1) [OF refl] have "length ?e < 2147483648" by linarith
  then have "length ?e < 2 ^ 31" by simp
  note ok = unat_of_int_ok [OF this] unat_of_int_ok [of "length d"]
  have "drop (file_pos f) (file_bytes f) = [0x01, 0xC0, 0xFF, 0xAB] @ writeInt ?m @ writeInt ?n @ ?e @ r"
    using assms(3) by (simp add: im)
  from read_image [OF this, of c] show ?thesis
    using ok assms(1) im(1) l(2) by (simp add: doDecodeLZSS_def Let_def)
qed

lemma bmc_image:
  assumes "length d < 2 ^ 30" "length (all_bits (bmc_tokens d 0)) \<le> 8 * (length d + (length d + 7) div 8)"
    and "doEncodeBMC c0 \<lparr>file_bytes = d, file_pos = p\<rparr> = Some (ok, img)"
    and "drop (file_pos f) (file_bytes f) = img @ r"
  shows "ok \<and> doDecodeBMC c f = Some (True, d)"
proof -
  let ?buf = "replicate (length d + (length d + 7) div 8) c0"
  obtain k mem where k: "encodeBMC d ?buf c0 = (k, mem)" by fastforce
  let ?e = "take k mem" and ?n = "of_nat (length d) :: u32" and ?m = "of_nat k :: u32"
  have b: "k \<le> length ?buf" "length mem = length ?buf" "length out = length d \<Longrightarrow> decodeBMC ?e out c = (True, d)" for out
    using bmc_decodes [OF _ k, of "replicate (length d) 0"] bmc_decodes(3) [OF _ k, of out] assms(2) by simp_all
  have im: "ok" "img = [0x02, 0xC0, 0xFF, 0xAB] @ writeInt ?m @ writeInt ?n @ ?e"
    using assms(1,3) k by (simp_all add: doEncodeBMC_def read_all_def Let_def split: if_splits)
  have le: "length ?e = k" using b(1,2) by simp
  have "k < 2 ^ 31" using b(1) assms(1) by simp
  note ok = unat_of_int_ok [OF this] unat_of_int_ok [of "length d"]
  have "drop (file_pos f) (file_bytes f) = [0x02, 0xC0, 0xFF, 0xAB] @ writeInt ?m @ writeInt ?n @ ?e @ r"
    using assms(4) by (simp add: im)
  from read_image [OF this, of c] show ?thesis
    using ok assms(1) im(1) b(3) le by (simp add: doDecodeBMC_def Let_def)
qed


text \<open>The command lines that encode and decode.\<close>

fun flag_of :: "encoding \<Rightarrow> char" where
  "flag_of Encoding_Boot = CHR ''b''"
| "flag_of Encoding_LZSS = CHR ''l''"
| "flag_of _ = CHR ''m''"

definition file_argument :: "string \<Rightarrow> bool" where
  "file_argument s \<longleftrightarrow> s = [] \<or> hd s \<noteq> CHR ''-''"

lemma parse_encode:
  assumes "enc \<noteq> Encoding_None" "file_argument a"
  shows "parse_args [CHR ''-'' # [flag_of enc], a, b] opts = Some (Some (opts\<lparr>img_enc := enc\<rparr>, [a, b]))"
  using assms by (cases enc) (auto simp: file_argument_def)

lemma parse_decode:
  assumes "enc \<noteq> Encoding_None" "file_argument a" "atoi n = Some k"
  shows "parse_args [''-d'' @ [flag_of enc], ''-o'', n, a, b] opts =
    Some (Some (opts\<lparr>img_decode := True, img_enc := enc, img_inOffset := k\<rparr>, [a, b]))"
  using assms by (cases enc) (auto simp: file_argument_def)

definition encode_fits :: "encoding \<Rightarrow> u8 list \<Rightarrow> bool" where
  "encode_fits enc d \<longleftrightarrow> length d < 2 ^ 30 \<and> (enc = Encoding_BMC \<longrightarrow> length d \<le> 4096)"

text \<open>C27:
  The image tool decodes what it encoded.  Encoding a file that it can open gives the exit code 0
  and an image; decoding any file that contains this image at the offset given by
  \<open>-o\<close>, a number in the range of \<open>int\<close> that is not negative, gives the exit code 0 and the original file, for each of the three encodings.  For the
  BMC encoding this needs a file of at most 4096 bytes: the output buffer, called the worst
  case by the code, has nine bits for each byte, and beyond that some matches take more.
\<close>

theorem imgtool_roundtrip:
  assumes "enc \<noteq> Encoding_None" "encode_fits enc d"
    and "file_argument a" "file_argument b" "a \<noteq> b" "b \<noteq> e" "canWrite b" "canWrite e" "fs a = Some d"
    and "atoi n = Some k" "0 \<le> k"
  shows "\<exists>image. imgtool_main c canWrite [CHR ''-'' # [flag_of enc], a, b] fs = Some (0, fs(b \<mapsto> image)) \<and>
    (\<forall>pre post. length pre = nat k \<longrightarrow>
      imgtool_main c' canWrite [''-d'' @ [flag_of enc], ''-o'', n, b, e] (fs(b \<mapsto> pre @ image @ post)) =
        Some (0, fs(b \<mapsto> pre @ image @ post, e \<mapsto> d)))"
proof -
  let ?f = "\<lparr>file_bytes = d, file_pos = 0\<rparr>"
  define run where "run = (case enc of Encoding_Boot \<Rightarrow> doEncodeBoot ?f | Encoding_LZSS \<Rightarrow> doEncodeLZSS ?f | _ \<Rightarrow> doEncodeBMC c ?f)"
  define unrun where "unrun = (\<lambda>f. case enc of Encoding_Boot \<Rightarrow> doDecodeBoot c' f | Encoding_LZSS \<Rightarrow> doDecodeLZSS c' f | _ \<Rightarrow> doDecodeBMC c' f)"
  have bits: "length (all_bits (bmc_tokens d 0)) \<le> 8 * (length d + (length d + 7) div 8)" if "enc = Encoding_BMC"
    using assms(2) that by (intro bmc_fits_small) (auto simp: encode_fits_def)
  have "run \<noteq> None"
    using assms(2) lzss_encodes [of d d] by (cases enc) (auto simp: run_def encode_fits_def read_all_def doEncodeBoot_def
      doEncodeLZSS_def doEncodeBMC_def Let_def split: prod.splits)
  then obtain ok img where img: "run = Some (ok, img)" by auto
  have ok: "ok \<and> unrun f = Some (True, d)" if "drop (file_pos f) (file_bytes f) = img @ r" for f r
    using assms(1,2) img that bits boot_image [of d 0 ok img f r c'] lzss_image [of d 0 ok img f r c'] bmc_image [of d c 0 ok img f r c']
    by (cases enc) (simp_all add: run_def unrun_def encode_fits_def)
  from ok [of "\<lparr>file_bytes = img, file_pos = 0\<rparr>" "[]"] have "ok" by simp
  then have enc: "imgtool_main c canWrite [CHR ''-'' # [flag_of enc], a, b] fs = Some (0, fs(b \<mapsto> img))"
    using img assms unfolding imgtool_main_def parse_encode [OF assms(1,3)]
    by (cases enc) (simp_all add: run_def)
  have dec: "imgtool_main c' canWrite [''-d'' @ [flag_of enc], ''-o'', n, b, e] (fs(b \<mapsto> pre @ img @ post)) =
        Some (0, fs(b \<mapsto> pre @ img @ post, e \<mapsto> d))" if "length pre = nat k" for pre post
    using ok [of "\<lparr>file_bytes = pre @ img @ post, file_pos = nat k\<rparr>" post] that assms
    unfolding imgtool_main_def parse_decode [OF assms(1,4,10)]
    by (cases enc) (simp_all add: unrun_def)
  show ?thesis using enc dec by blast
qed

lemma imgtool_roundtrip_witness:
  "\<exists>image. imgtool_main 0 (\<lambda>_. True) [''-m'', ''in'', ''img''] [''in'' \<mapsto> [7, 7, 7, 7]] = Some (0, [''in'' \<mapsto> [7, 7, 7, 7], ''img'' \<mapsto> image]) \<and>
    imgtool_main 0 (\<lambda>_. True) [''-dm'', ''-o'', ''2'', ''img'', ''out''] [''in'' \<mapsto> [7, 7, 7, 7], ''img'' \<mapsto> [1, 2] @ image] =
      Some (0, [''in'' \<mapsto> [7, 7, 7, 7], ''img'' \<mapsto> [1, 2] @ image, ''out'' \<mapsto> [7, 7, 7, 7]])"
proof -
  have "atoi ''2'' = Some 2" by (simp add: atoi_def)
  note a = this
  have "\<exists>image. imgtool_main 0 (\<lambda>_. True) [CHR ''-'' # [flag_of Encoding_BMC], ''in'', ''img''] [''in'' \<mapsto> [7, 7, 7, 7]] =
      Some (0, [''in'' \<mapsto> [7, 7, 7, 7], ''img'' \<mapsto> image]) \<and>
    (\<forall>pre post. length pre = nat 2 \<longrightarrow>
      imgtool_main 0 (\<lambda>_. True) [''-d'' @ [flag_of Encoding_BMC], ''-o'', ''2'', ''img'', ''out'']
        [''in'' \<mapsto> [7, 7, 7, 7], ''img'' \<mapsto> pre @ image @ post] =
        Some (0, [''in'' \<mapsto> [7, 7, 7, 7], ''img'' \<mapsto> pre @ image @ post, ''out'' \<mapsto> [7, 7, 7, 7]]))"
    by (rule imgtool_roundtrip) (simp_all add: encode_fits_def file_argument_def a)
  then show ?thesis
    by (elim exE conjE) (intro exI conjI, simp, drule spec [of _ "[1, 2]"], drule spec [of _ "[]"], simp add: a)
qed

end
