(* ===== verification/RSCode.thy ===== *)
theory RSCode
  imports Prelude
begin

text \<open>
  The Reed-Solomon code of \<open>RFSerial.cpp\<close>: the exponential and logarithm tables, the generator
  polynomials of 20 and 80 roots and the computation of the error correction bytes.  The
  lemmas show that multiplication by table lookup is multiplication by a power of the element
  2 of the field of 256 elements, that every word with its error correction bytes has all the
  roots of the generator, and that such words are far apart.
\<close>

section \<open>The code\<close>

text \<open>\<open>rsMod\<close>, on \<open>unsigned\<close>; its result is below 255 and fits the byte it is returned in.\<close>

function rsMod :: "nat \<Rightarrow> nat" where
  "rsMod v =
     (if v \<ge> 0xFF
      then let v = v - 0xFF in rsMod (and v 0xFF + and (drop_bit 8 v) 0xFF)
      else v)"
  by auto
termination
proof (relation "measure id", goal_cases)
  case (2 v w)
  have "and w 0xFF = w mod 256" "and (drop_bit 8 w) 0xFF = w div 256 mod 256"
    using split_nat [of w 8] split_nat [of "w div 256" 8] by (simp_all add: drop_bit_eq_div)
  moreover have "w mod 256 + w div 256 mod 256 \<le> w"
    using div_mult_mod_eq [of w 256] mod_less_eq_dividend [of "w div 256" 256] by linarith
  moreover have "w < v" using 2 by simp
  ultimately show ?case by (simp only: in_measure id_apply le_less_trans)
qed auto

declare rsMod.simps [simp del]

record rs_tables =
  rsExpTable :: "nat \<Rightarrow> u8"
  rsLogTable :: "nat \<Rightarrow> u8"

definition rs_next :: "nat \<Rightarrow> nat" where
  "rs_next e = (let e = e * 2 in if e \<ge> 256 then and (xor e 0x1D) 0xFF else e)"

definition rs_table_loop :: "nat list \<Rightarrow> nat \<times> rs_tables \<Rightarrow> nat \<times> rs_tables" where
  "rs_table_loop is s =
     fold (\<lambda>i (e, t). (rs_next e, t\<lparr>rsExpTable := (rsExpTable t)(i := of_nat e),
                                     rsLogTable := (rsLogTable t)(e := of_nat i)\<rparr>)) is s"

text \<open>The first part of \<open>eccInit\<close>; the tables are not initialised before.\<close>

definition rs_tables_init :: "rs_tables \<Rightarrow> rs_tables" where
  "rs_tables_init t =
     (let t = snd (rs_table_loop [0..<255] (1, t))
      in t\<lparr>rsExpTable := (rsExpTable t)(255 := 0), rsLogTable := (rsLogTable t)(0 := 255)\<rparr>)"

definition rs_exp :: "rs_tables \<Rightarrow> nat \<Rightarrow> u8" where
  "rs_exp t i = rsExpTable t (rsMod i)"

definition rs_log :: "rs_tables \<Rightarrow> u8 \<Rightarrow> nat" where
  "rs_log t v = unat (rsLogTable t (unat v))"

text \<open>\<open>genPoly\<close>: the factor of one root, the loop over the roots and the logarithms.\<close>

definition gen_root :: "rs_tables \<Rightarrow> nat \<Rightarrow> u8 list \<Rightarrow> u8 list" where
  "gen_root t i out =
     (let root = i + 1;
          out = out[i + 1 := 1];
          out = fold (\<lambda>j out. out[j := (if out ! j \<noteq> 0 then out ! (j - 1) XOR rs_exp t (rs_log t (out ! j) + root)
                                         else out ! (j - 1))]) (rev [1..<i + 1]) out
      in out[0 := rs_exp t (rs_log t (out ! 0) + root)])"

definition genPoly :: "rs_tables \<Rightarrow> nat \<Rightarrow> u8 list \<Rightarrow> u8 list" where
  "genPoly t numRoots out =
     (let out = fold (gen_root t) [0..<numRoots] (out[0 := 0])
      in fold (\<lambda>i out. out[i := of_nat (rs_log t (out ! i))]) [0..<numRoots + 1] out)"

text \<open>\<open>eccCalc\<close>: one byte shifted into the register, and the loop from the last byte to the first.\<close>

definition ecc_step :: "rs_tables \<Rightarrow> u8 list \<Rightarrow> u8 \<Rightarrow> u8 list \<Rightarrow> u8 list" where
  "ecc_step t poly d ecc =
     (let eccLen = length ecc; b = rs_log t (ecc ! (eccLen - 1) XOR d)
      in if b = 0xFF
         then let ecc = fold (\<lambda>j ecc. ecc[j := ecc ! (j - 1)]) (rev [1..<eccLen]) ecc in ecc[0 := 0]
         else let ecc = fold (\<lambda>j ecc. ecc[j := rs_exp t (b + unat (poly ! j)) XOR ecc ! (j - 1)]) (rev [1..<eccLen]) ecc
              in ecc[0 := rs_exp t (b + unat (poly ! 0))])"

definition eccCalc :: "rs_tables \<Rightarrow> u8 list \<Rightarrow> nat \<Rightarrow> u8 list \<Rightarrow> u8 list" where
  "eccCalc t poly eccLen data = fold (ecc_step t poly) (rev data) (replicate eccLen 0)"

section \<open>Multiplication by the element 2\<close>

definition rs_double :: "u8 \<Rightarrow> u8" where
  "rs_double v = push_bit 1 v XOR (if bit v 7 then 0x1D else 0)"

abbreviation rs_power :: "nat \<Rightarrow> u8 \<Rightarrow> u8" where
  "rs_power k \<equiv> rs_double ^^ k"

lemma rs_double_xor: "rs_double (v XOR w) = rs_double v XOR rs_double w"
  by (simp add: rs_double_def push_bit_xor bit_xor_iff ac_simps)

lemma rs_power_xor: "rs_power k (v XOR w) = rs_power k v XOR rs_power k w"
  by (induction k) (simp_all add: rs_double_xor)

lemma rs_double_0 [simp]: "rs_double 0 = 0"
  by (simp add: rs_double_def)

lemma rs_power_0 [simp]: "rs_power k 0 = 0"
  by (induction k) (simp_all add: rs_double_def)

lemma rs_power_add: "rs_power j (rs_power k v) = rs_power (j + k) v"
  by (simp add: funpow_add)

lemma rs_double_eq_0: "rs_double v = 0 \<longleftrightarrow> v = 0"
proof
  define w where "w = push_bit 1 v"
  have w: "bit w k \<longleftrightarrow> 1 \<le> k \<and> k < 8 \<and> bit v (k - 1)" for k by (simp only: w_def bit_push_bit_iff) auto
  assume "rs_double v = 0"
  then have b: "\<not> bit (w XOR (if bit v 7 then 0x1D else 0)) k" for k by (simp add: rs_double_def w_def)
  from b [of 0] have 7: "\<not> bit v 7" by (simp add: bit_xor_iff w split: if_splits)
  then have "\<not> bit v k" if "k < 7" for k using b [of "k + 1"] that by (simp add: w)
  with 7 show "v = 0" by (intro u8_eqI) simp_all
qed (simp add: rs_double_def)

lemma rs_double_inj: "rs_double v = rs_double w \<Longrightarrow> v = w"
  using rs_double_eq_0 [of "v XOR w"] by (simp add: rs_double_xor xor_zero)

lemma rs_power_inj: "rs_power k v = rs_power k w \<Longrightarrow> v = w"
  by (induction k) (auto dest: rs_double_inj)


subsection \<open>The powers of 2 are all the elements but 0\<close>

lemma rs_double_numeral:
  "rs_double 1 = 2" "rs_double (numeral n) = push_bit 1 (numeral n) XOR (if bit (numeral n :: u8) 7 then 0x1D else 0)"
  by (simp_all add: rs_double_def)

lemma rs_power_numeral: "rs_power (numeral n) v = rs_power (pred_numeral n) (rs_double v)" "rs_power (Suc 0) v = rs_double v"
  by (simp_all add: numeral_eq_Suc funpow_swap1)

lemma rs_power_15: "rs_power 15 1 = 38"
  by (simp add: rs_power_numeral rs_double_numeral)

lemma rs_power_51: "rs_power 51 1 = 10"
  using rs_power_add [of 36 15 1] by (simp add: rs_power_15, simp add: rs_power_numeral rs_double_numeral)

lemma rs_power_85: "rs_power 85 1 = 214"
  using rs_power_add [of 34 51 1] by (simp add: rs_power_51, simp add: rs_power_numeral rs_double_numeral)

lemma rs_power_170: "rs_power 170 1 = 215"
  using rs_power_add [of 85 85 1] by (simp add: rs_power_85, simp add: rs_power_numeral rs_double_numeral)

lemma rs_power_255: "rs_power 255 1 = 1"
  using rs_power_add [of 85 170 1] by (simp add: rs_power_170, simp add: rs_power_numeral rs_double_numeral)

lemma rs_power_multiple: "rs_power n 1 = 1 \<Longrightarrow> rs_power (n * k) 1 = 1"
  by (induction k) (simp_all flip: rs_power_add)

lemma rs_power_mod: "rs_power n 1 = 1 \<Longrightarrow> rs_power (m mod n) 1 = rs_power m 1"
  using rs_power_add [of "m mod n" "n * (m div n)" 1] rs_power_multiple [of n "m div n"] by simp

lemma rs_order_gcd: "rs_power m 1 = 1 \<Longrightarrow> rs_power n 1 = 1 \<Longrightarrow> rs_power (gcd m n) 1 = 1"
proof (induction m n rule: gcd_nat_induct)
  case (step m n)
  then have "rs_power (gcd n (m mod n)) 1 = 1" by (simp add: rs_power_mod)
  then show ?case by (simp add: gcd_red_nat [of m n])
qed simp

lemma divisors_255:
  assumes "g dvd 255" "g \<noteq> 255" shows "85 mod g = 0 \<or> 51 mod g = 0 \<or> 15 mod g = (0 :: nat)"
proof -
  have small: "list_all (\<lambda>g. 255 mod g = 0 \<longrightarrow> 85 mod g = 0 \<or> 51 mod g = 0 \<or> 15 mod g = (0 :: nat)) [2..<16]"
    by simp
  have large: "list_all (\<lambda>j. 255 mod j = 0 \<longrightarrow>
      85 mod (255 div j) = 0 \<or> 51 mod (255 div j) = 0 \<or> 15 mod (255 div j) = (0 :: nat)) [2..<16]"
    by simp
  from assms(1) obtain j where j: "255 = g * j" by (rule dvdE)
  then have "j \<noteq> 0" "g \<noteq> 0" "j \<noteq> 1" using assms(2) by (auto intro: ccontr)
  note nz = this
  have "j dvd 255" by (metis j dvd_triv_right)
  then have d: "255 mod j = 0" by (rule dvd_imp_mod_0)
  have d': "255 mod g = 0" using assms(1) by (rule dvd_imp_mod_0)
  have d'': "g = 255 div j" by (metis j nonzero_mult_div_cancel_right nz(1))
  show ?thesis
  proof (cases "g < 16")
    case True
    show ?thesis
    proof (cases "g = 1")
      case False
      then have "g \<in> set [2..<16]" using True nz(2) by (simp, arith)
      from bspec [OF small [unfolded list_all_iff] this] d' show ?thesis by (rule mp)
    qed simp
  next
    case False
    then have "j < 16" using j mult_le_mono [of 16 g 16 j] by (cases "j < 16") auto
    then have "j \<in> set [2..<16]" using nz by (simp, arith)
    from bspec [OF large [unfolded list_all_iff] this] d show ?thesis unfolding d'' by (rule mp)
  qed
qed

text \<open>The order of 2 is 255: it divides 255 and none of 85, 51 and 15.\<close>

lemma rs_order: assumes "0 < k" "k < 255" shows "rs_power k 1 \<noteq> 1"
proof
  assume "rs_power k 1 = 1"
  then have g: "rs_power (gcd k 255) 1 = 1" using rs_order_gcd rs_power_255 by blast
  have "gcd k 255 \<le> k" using assms by (intro gcd_le1_nat) simp
  then have "gcd k 255 \<noteq> 255" using assms(2) by (metis leD)
  then have "85 mod gcd k 255 = 0 \<or> 51 mod gcd k 255 = 0 \<or> 15 mod gcd k 255 = 0"
    by (intro divisors_255) simp_all
  then have "rs_power 85 1 = 1 \<or> rs_power 51 1 = 1 \<or> rs_power 15 1 = 1"
    using rs_power_mod [OF g, of 85] rs_power_mod [OF g, of 51] rs_power_mod [OF g, of 15] by auto
  then show False by (simp add: rs_power_85 rs_power_51 rs_power_15)
qed

lemma rs_powers_inj: "inj_on (\<lambda>i. rs_power i 1) {..<255}"
proof (rule inj_onI)
  have "i = j" if "i \<le> j" "j < 255" "rs_power i 1 = rs_power j 1" for i j
  proof -
    have "rs_power i 1 = rs_power i (rs_power (j - i) 1)" using that by (simp add: rs_power_add)
    then have "rs_power (j - i) 1 = 1" using rs_power_inj by metis
    then show "i = j" using rs_order [of "j - i"] that by (cases "i = j") auto
  qed
  then show "i = j" if "i \<in> {..<255}" "j \<in> {..<255}" "rs_power i 1 = rs_power j 1" for i j
    using that by (metis lessThan_iff nat_le_linear)
qed

lemma rs_powers_all: "v \<noteq> 0 \<Longrightarrow> \<exists>i < 255. v = rs_power i 1"
proof -
  have nz: "rs_power i 1 \<noteq> 0" for i using rs_power_inj [of i 1 0] by auto
  have "(\<lambda>i. rs_power i 1) ` {..<255} = UNIV - {0}"
  proof (rule card_subset_eq)
    show "card ((\<lambda>i. rs_power i 1) ` {..<255}) = card (UNIV - {0 :: u8})"
      by (simp add: card_image rs_powers_inj card_Diff_singleton card_word)
  qed (use nz in auto)
  moreover assume "v \<noteq> 0"
  ultimately show ?thesis by (metis (mono_tags) DiffI UNIV_I image_iff lessThan_iff singletonD)
qed


subsection \<open>Polynomials with few coefficients\<close>

text \<open>
  The value at the \<open>r\<close>th power of 2 of a list of coefficients, lowest first, and the number of
  its coefficients that are not 0.
\<close>

fun poly_at :: "nat \<Rightarrow> u8 list \<Rightarrow> u8" where
  "poly_at r [] = 0"
| "poly_at r (c # cs) = c XOR rs_power r (poly_at r cs)"

definition weight :: "u8 list \<Rightarrow> nat" where
  "weight cs = length (filter (\<lambda>c. c \<noteq> 0) cs)"

text \<open>Eliminating the coefficient \<open>s\<close>: what a root of the polynomial leaves of it.\<close>

fun eliminate :: "nat \<Rightarrow> nat \<Rightarrow> u8 list \<Rightarrow> u8 list" where
  "eliminate s j [] = []"
| "eliminate s j (c # cs) = (rs_power j c XOR rs_power s c) # eliminate s (j + 1) cs"

lemma poly_at_eliminate: "poly_at r (eliminate s j cs) = rs_power j (poly_at (r + 1) cs) XOR rs_power s (poly_at r cs)"
proof (induction cs arbitrary: j)
  case (Cons c cs)
  have "rs_power j (rs_power (r + 1) x) = rs_power r (rs_power (j + 1) x)" "rs_power s (rs_power r x) = rs_power r (rs_power s x)" for x
    unfolding rs_power_add by (simp_all add: ac_simps)
  then show ?case by (simp only: poly_at.simps eliminate.simps Cons.IH rs_power_xor) (simp only: ac_simps)
qed simp

lemma rs_powers_differ:
  assumes "i < j" "j < 255" "rs_power i v = rs_power j v" shows "v = 0"
proof (rule ccontr)
  assume "v \<noteq> 0"
  then obtain k where "v = rs_power k 1" using rs_powers_all by blast
  then have "rs_power k (rs_power i 1) = rs_power k (rs_power j 1)"
    using assms(3) by (simp add: rs_power_add add.commute)
  then have "rs_power i 1 = rs_power j 1" by (rule rs_power_inj)
  then show False using inj_onD [OF rs_powers_inj, of i j] assms(1,2) by auto
qed

lemma eliminate_nth:
  assumes "j + length cs \<le> 255" "s < 255" "i < length cs"
  shows "eliminate s j cs ! i \<noteq> 0 \<longleftrightarrow> cs ! i \<noteq> 0 \<and> j + i \<noteq> s"
  using assms
proof (induction cs arbitrary: i j)
  case (Cons c cs)
  show ?case
  proof (cases i)
    case 0
    have "rs_power j c = rs_power s c \<longleftrightarrow> c = 0 \<or> j = s"
      using rs_powers_differ [of j s c] rs_powers_differ [of s j c] Cons.prems(1,2) by (cases j s rule: linorder_cases) auto
    then show ?thesis using 0 by (simp add: xor_zero)
  next
    case (Suc n)
    then show ?thesis using Cons.IH [of "j + 1" n] Cons.prems by simp
  qed
qed simp

lemma poly_at_single:
  assumes "s < length cs" "\<And>i. i < length cs \<Longrightarrow> i \<noteq> s \<Longrightarrow> cs ! i = 0"
  shows "poly_at r cs = rs_power (r * s) (cs ! s)"
  using assms
proof (induction cs arbitrary: s)
  case (Cons c cs)
  show ?case
  proof (cases s)
    case 0
    have "poly_at r cs = 0" if "\<And>i. i < length cs \<Longrightarrow> cs ! i = 0" for cs
      using that by (induction cs) (simp, force)
    then show ?thesis using Cons.prems(2) [of "Suc i" for i] 0 by simp
  next
    case (Suc n)
    have "poly_at r cs = rs_power (r * n) (cs ! n)"
      using Cons.prems(1) Cons.prems(2) [of "Suc i" for i] Suc by (intro Cons.IH) auto
    then show ?thesis using Cons.prems(2) [of 0] Suc by (simp add: rs_power_add)
  qed
qed simp

lemma length_eliminate [simp]: "length (eliminate s j cs) = length cs"
  by (induction cs arbitrary: j) auto

lemma weight_set: "weight cs = card {i. i < length cs \<and> cs ! i \<noteq> 0}"
  by (simp add: weight_def length_filter_conv_card)

text \<open>A polynomial with as many consecutive powers as roots as it has coefficients is 0.\<close>

lemma few_coefficients:
  assumes "length cs \<le> 255" "weight cs \<le> n" "\<And>r. k \<le> r \<Longrightarrow> r < k + n \<Longrightarrow> poly_at r cs = 0"
  shows "weight cs = 0"
  using assms
proof (induction n arbitrary: cs)
  case (Suc n)
  show ?case
  proof (cases "weight cs = 0")
    case False
    then obtain s where s: "s < length cs" "cs ! s \<noteq> 0" by (auto simp: weight_set)
    let ?N = "\<lambda>cs. {i. i < length cs \<and> cs ! i \<noteq> (0 :: u8)}"
    have N: "?N (eliminate s 0 cs) = ?N cs - {s}"
      using eliminate_nth [of 0 cs s] Suc.prems(1) s by auto
    then have w: "weight (eliminate s 0 cs) = weight cs - 1" using s by (simp add: weight_set)
    have "weight (eliminate s 0 cs) = 0"
      using Suc.prems w by (intro Suc.IH) (auto simp: poly_at_eliminate)
    then have "?N cs - {s} = {}" unfolding N [symmetric] by (simp add: weight_set)
    then have zero: "cs ! i = 0" if "i < length cs" "i \<noteq> s" for i using that by auto
    show ?thesis using Suc.prems(3) [of k] poly_at_single [OF s(1) zero, of k] s(2) rs_power_inj [of "k * s" "cs ! s" 0] by simp
  qed
qed simp


section \<open>The tables\<close>

lemma rs_next_double: "rs_next (unat v) = unat (rs_double v)"
proof -
  have lt: "unat v < 256" using unsigned_less [of v, where ?'a = nat] by simp
  have b: "bit v 7 \<longleftrightarrow> 256 \<le> unat v * 2"
  proof -
    have "bit v 7 \<longleftrightarrow> odd (unat v div 128)" using bit_unsigned_iff [of v 7, where ?'a = nat] by (simp add: bit_iff_odd)
    moreover have "unat v div 128 = (if 128 \<le> unat v then 1 else 0)" using lt by auto
    ultimately show ?thesis by simp
  qed
  have push: "unat (push_bit 1 v) = take_bit 8 (unat v * 2)"
    by (subst unsigned_push_bit_eq) (simp add: push_bit_eq_mult)
  show ?thesis
  proof (cases "bit v 7")
    case True
    have "and (xor (unat v * 2) 0x1D) 0xFF = take_bit 8 (xor (unat v * 2) 0x1D)"
      using split_nat [of "xor (unat v * 2) 0x1D" 8] by (simp add: take_bit_eq_mod)
    also have "\<dots> = unat (push_bit 1 v XOR 0x1D)" unfolding unsigned_xor_eq push by simp
    finally show ?thesis using True b by (simp add: rs_next_def rs_double_def Let_def)
  next
    case False
    then have "unat v * 2 < 256" using b by simp
    then have "unat (push_bit 1 v) = unat v * 2" unfolding push by (simp add: take_bit_nat_eq_self)
    then show ?thesis using False b by (simp add: rs_next_def rs_double_def Let_def)
  qed
qed

lemma rs_table_loop_ok:
  assumes "n \<le> 255" "rs_table_loop [0..<n] (1, t) = (e, t')"
  shows "e = unat (rs_power n 1) \<and> (\<forall>i < n. rsExpTable t' i = rs_power i 1 \<and> rsLogTable t' (unat (rs_power i 1)) = of_nat i)"
  using assms
proof (induction n arbitrary: e t')
  case (Suc n)
  obtain e1 t1 where 1: "rs_table_loop [0..<n] (1, t) = (e1, t1)" by fastforce
  then have s: "e = rs_next e1" "t' = t1\<lparr>rsExpTable := (rsExpTable t1)(n := of_nat e1), rsLogTable := (rsLogTable t1)(e1 := of_nat n)\<rparr>"
    using Suc.prems(2) by (simp_all add: rs_table_loop_def)
  have ih: "e1 = unat (rs_power n 1)" "\<forall>i < n. rsExpTable t1 i = rs_power i 1 \<and> rsLogTable t1 (unat (rs_power i 1)) = of_nat i"
    using Suc.IH [OF _ 1] Suc.prems(1) by simp_all
  have "unat (rs_power i 1) \<noteq> unat (rs_power n 1)" if "i < n" for i
    using inj_onD [OF rs_powers_inj, of i n] that Suc.prems(1) by (auto simp: word_unat_eq_iff [symmetric])
  then show ?case using ih s by (auto simp: rs_next_double less_Suc_eq)
qed (simp add: rs_table_loop_def)

text \<open>What the tables are for: exponents up to the sum of two logarithms.\<close>

definition tables_ok :: "rs_tables \<Rightarrow> bool" where
  "tables_ok t \<longleftrightarrow> (\<forall>i \<le> 510. rs_exp t i = rs_power i 1) \<and> rs_log t 0 = 255 \<and>
     (\<forall>v. v \<noteq> 0 \<longrightarrow> rs_log t v < 255 \<and> rs_power (rs_log t v) 1 = v)"

lemma rsMod_mod: "v \<le> 510 \<Longrightarrow> rsMod v = v mod 255"
proof -
  have small: "rsMod v = v" if "v < 255" for v using that by (simp add: rsMod.simps)
  have step: "rsMod v = rsMod (v - 255)" if "255 \<le> v" "v \<le> 510" for v
  proof -
    have "and (v - 255) 0xFF = v - 255" "and (drop_bit 8 (v - 255)) 0xFF = 0"
      using split_nat [of "v - 255" 8] that by (simp_all add: drop_bit_eq_div)
    then show ?thesis using that by (simp add: rsMod.simps [of v] Let_def)
  qed
  assume "v \<le> 510"
  then consider "v < 255" | "255 \<le> v" "v < 510" | "v = 510" by linarith
  then show ?thesis
  proof cases
    case 2
    then show ?thesis using step [of v] small [of "v - 255"] by (simp add: mod_if)
  next
    case 3
    then show ?thesis using step [of 510] step [of 255] small [of 0] by simp
  qed (simp add: small)
qed

lemma tables_ok_init: "tables_ok (rs_tables_init t)"
proof -
  obtain e t' where 1: "rs_table_loop [0..<255] (1, t) = (e, t')" by fastforce
  then have i: "rs_tables_init t = t'\<lparr>rsExpTable := (rsExpTable t')(255 := 0), rsLogTable := (rsLogTable t')(0 := 255)\<rparr>"
    by (simp add: rs_tables_init_def)
  have ok: "\<forall>i < 255. rsExpTable t' i = rs_power i 1 \<and> rsLogTable t' (unat (rs_power i 1)) = of_nat i"
    using rs_table_loop_ok [OF _ 1] by simp
  have "rs_exp (rs_tables_init t) i = rs_power i 1" if "i \<le> 510" for i
  proof -
    have "rs_power (i mod 255) 1 = rs_power i 1" by (rule rs_power_mod [OF rs_power_255])
    moreover have "i mod 255 \<noteq> 255" using mod_less_divisor [of 255 i] by linarith
    ultimately show ?thesis using that ok by (simp add: rs_exp_def rsMod_mod i)
  qed
  moreover have "rs_log (rs_tables_init t) v < 255 \<and> rs_power (rs_log (rs_tables_init t) v) 1 = v" if nz: "v \<noteq> 0" for v
  proof -
    obtain k where k: "k < 255" "v = rs_power k 1" using rs_powers_all [OF nz] by blast
    have "unat v \<noteq> 0" using nz by (simp add: unat_eq_0)
    then have "rsLogTable (rs_tables_init t) (unat v) = of_nat k" using ok k by (simp add: i)
    then have "rs_log (rs_tables_init t) v = k" using k(1) by (simp add: rs_log_def unsigned_of_nat take_bit_nat_eq_self)
    then show ?thesis using k by simp
  qed
  ultimately show ?thesis by (simp add: tables_ok_def rs_log_def i)
qed

lemma rs_product:
  assumes "tables_ok t" "v \<noteq> 0" "k \<le> 255" shows "rs_exp t (rs_log t v + k) = rs_power k v"
proof -
  have "rs_log t v < 255" "rs_power (rs_log t v) 1 = v" using assms(1,2) by (auto simp: tables_ok_def)
  moreover from this have "rs_log t v + k \<le> 510" using assms(3) by simp
  then have "rs_exp t (rs_log t v + k) = rs_power (k + rs_log t v) 1"
    using assms(1) unfolding tables_ok_def add.commute [of k] by blast
  ultimately show ?thesis by (simp flip: rs_power_add)
qed


section \<open>The generator polynomial\<close>

lemma fold_shift:
  assumes "k \<le> length xs" "i < length xs"
  shows "fold (\<lambda>j xs. xs[j := f j (xs ! (j - 1)) (xs ! j)]) (rev [1..<k]) xs ! i =
    (if 1 \<le> i \<and> i < k then f i (xs ! (i - 1)) (xs ! i) else xs ! i)"
  using assms
proof (induction k arbitrary: xs)
  case (Suc k)
  show ?case
  proof (cases "k = 0")
    case False
    then have "rev [1..<Suc k] = k # rev [1..<k]" by simp
    then show ?thesis using Suc.prems Suc.IH [of "xs[k := f k (xs ! (k - 1)) (xs ! k)]"] False
      by (auto simp: nth_list_update)
  qed auto
qed simp

lemma length_fold_shift [simp]: "length (fold (\<lambda>j xs. xs[j := f j xs]) js xs) = length xs"
  by (induction js arbitrary: xs) auto

text \<open>Multiplication of a polynomial by one factor, and the product of the first \<open>n\<close> factors.\<close>

definition mul_root :: "nat \<Rightarrow> u8 list \<Rightarrow> u8 list" where
  "mul_root a g = map2 (XOR) (0 # g) (map (rs_power a) g @ [0])"

fun gen_product :: "nat \<Rightarrow> u8 list" where
  "gen_product 0 = [1]"
| "gen_product (Suc n) = mul_root (n + 1) (gen_product n)"

lemma poly_at_xor: "length xs = length ys \<Longrightarrow> poly_at r (map2 (XOR) xs ys) = poly_at r xs XOR poly_at r ys"
  by (induction xs ys rule: list_induct2) (simp_all add: rs_power_xor ac_simps)

lemma poly_at_append: "poly_at r (xs @ ys) = poly_at r xs XOR rs_power (r * length xs) (poly_at r ys)"
  by (induction xs) (simp_all add: rs_power_xor rs_power_add ac_simps)

lemma poly_at_map: "poly_at r (map (rs_power a) xs) = rs_power a (poly_at r xs)"
  by (induction xs) (simp_all add: rs_power_xor rs_power_add add.commute)

lemma poly_at_mul_root: "poly_at r (mul_root a g) = rs_power r (poly_at r g) XOR rs_power a (poly_at r g)"
  by (simp add: mul_root_def poly_at_xor poly_at_append poly_at_map del: map_append)

lemma length_gen_product [simp]: "length (gen_product n) = n + 1"
  by (induction n) (simp_all add: mul_root_def)

lemma gen_product_root: "1 \<le> r \<Longrightarrow> r \<le> n \<Longrightarrow> poly_at r (gen_product n) = 0"
  by (induction n) (auto simp: poly_at_mul_root le_Suc_eq)

lemma mul_root_nth: "i \<le> length g \<Longrightarrow>
   mul_root a g ! i = (if i = 0 then 0 else g ! (i - 1)) XOR (if i < length g then rs_power a (g ! i) else 0)"
  by (auto simp: mul_root_def nth_append nth_Cons split: nat.splits)

lemma gen_product_last: "gen_product n ! n = 1"
  by (induction n) (simp_all add: mul_root_nth)

lemma gen_product_nonzero:
  assumes "n \<le> 254" "i \<le> n" shows "gen_product n ! i \<noteq> 0"
proof
  assume z: "gen_product n ! i = 0"
  have "{j. j < n + 1 \<and> gen_product n ! j \<noteq> 0} \<subseteq> {..n} - {i}" using z by auto
  then have "weight (gen_product n) \<le> card ({..n} - {i})"
    unfolding weight_set length_gen_product by (intro card_mono) auto
  then have "weight (gen_product n) \<le> n" using assms(2) by simp
  then have "weight (gen_product n) = 0"
    using assms(1) gen_product_root by (intro few_coefficients [of _ n 1]) auto
  then have "\<not> (n < n + 1 \<and> gen_product n ! n \<noteq> 0)" by (simp add: weight_set)
  then show False by (simp add: gen_product_last)
qed

text \<open>The array after \<open>n\<close> factors; before the first the code represents 1 by 0.\<close>

lemma gen_root_ok:
  assumes "tables_ok t" "i \<le> 254" "i + 1 < length out"
    and "if i = 0 then out ! 0 = 0 else take (i + 1) out = gen_product i"
  shows "take (i + 2) (gen_root t i out) = gen_product (i + 1) \<and> length (gen_root t i out) = length out"
proof -
  let ?f = "\<lambda>j a b. if b \<noteq> 0 then a XOR rs_exp t (rs_log t b + (i + 1)) else a"
  define o1 where "o1 = out[i + 1 := 1]"
  define o2 where "o2 = fold (\<lambda>j out. out[j := ?f j (out ! (j - 1)) (out ! j)]) (rev [1..<i + 1]) o1"
  have r: "gen_root t i out = o2[0 := rs_exp t (rs_log t (o2 ! 0) + (i + 1))]"
    unfolding gen_root_def Let_def o1_def o2_def ..
  have len: "length o1 = length out" "length o2 = length out" by (simp_all add: o1_def o2_def)
  have ne: "out \<noteq> []" "o1 \<noteq> []" "o2 \<noteq> []" using assms(3) len by auto
  have f: "?f j a b = a XOR rs_power (i + 1) b" for j a b
    using rs_product [OF assms(1), of b "i + 1"] assms(2) by simp
  have o2: "o2 ! j = (if 1 \<le> j \<and> j < i + 1 then o1 ! (j - 1) XOR rs_power (i + 1) (o1 ! j) else o1 ! j)"
    if "j < length out" for j
    unfolding o2_def using fold_shift [of "i + 1" o1 j ?f] assms(3) len that by (simp only: f)
  have z: "rs_exp t (rs_log t (o2 ! 0) + (i + 1)) = rs_power (i + 1) (gen_product i ! 0)"
  proof (cases "i = 0")
    case True
    have "rs_exp t (255 + 1) = rs_power 256 1" using assms(1) by (simp add: tables_ok_def)
    moreover have "rs_power 256 1 = rs_power 1 1" using rs_power_mod [OF rs_power_255, of 256] by simp
    moreover have "o2 ! 0 = 0" using True assms(3,4) o2 [of 0] by (cases out) (simp_all add: o1_def)
    ultimately show ?thesis using True assms(1) by (simp add: tables_ok_def)
  next
    case False
    then have g: "out ! 0 = gen_product i ! 0" using assms(3,4) by (metis nth_take zero_less_Suc Suc_eq_plus1)
    have "o2 ! 0 = out ! 0" using False assms(3) o2 [of 0] by (cases out) (simp_all add: o1_def)
    then show ?thesis using rs_product [OF assms(1), of "o2 ! 0" "i + 1"] gen_product_nonzero [of i 0] assms(2) g by simp
  qed
  have "take (i + 2) (gen_root t i out) ! j = gen_product (i + 1) ! j" if j: "j < i + 2" for j
  proof -
    have g: "gen_product (i + 1) ! j = (if j = 0 then 0 else gen_product i ! (j - 1)) XOR
        (if j < i + 1 then rs_power (i + 1) (gen_product i ! j) else 0)"
      using j by (simp add: mul_root_nth)
    have o1: "o1 ! k = gen_product i ! k" if "k < i + 1" "i \<noteq> 0" for k
      using that assms(3,4) by (simp add: o1_def) (metis nth_take Suc_eq_plus1)
    have top: "o1 ! (i + 1) = 1" "gen_product i ! i = 1" using assms(3) by (simp_all add: o1_def gen_product_last)
    have t: "take (i + 2) (gen_root t i out) ! j = (if j = 0 then rs_power (i + 1) (gen_product i ! 0) else o2 ! j)"
      using j ne z by (simp add: r nth_list_update)
    consider "j = 0" | "j = i + 1" | "0 < j" "j < i + 1" using j by linarith
    then show ?thesis
    proof cases
      case 1
      then show ?thesis using g t by simp
    next
      case 2
      then show ?thesis using g t top o2 [of j] assms(3) by simp
    next
      case 3
      then show ?thesis using g t o1 [of j] o1 [of "j - 1"] o2 [of j] assms(3) by simp
    qed
  qed
  then have "take (i + 2) (gen_root t i out) = gen_product (i + 1)"
    using assms(3) len r by (intro nth_equalityI) (auto simp del: gen_product.simps)
  then show ?thesis using len r by simp
qed

text \<open>The result of \<open>genPoly\<close>: the logarithms of the product of all the factors.\<close>

lemma gen_fold_ok:
  assumes "tables_ok t" "n \<le> 254" "n < length out" "out ! 0 = 0" "0 < n"
  shows "take (n + 1) (fold (gen_root t) [0..<n] out) = gen_product n \<and> length (fold (gen_root t) [0..<n] out) = length out"
  using assms(2,3,5)
proof (induction n)
  case (Suc n)
  let ?o = "fold (gen_root t) [0..<n] out"
  have "(if n = 0 then ?o ! 0 = 0 else take (n + 1) ?o = gen_product n) \<and> length ?o = length out"
    using Suc assms(4) by (cases "n = 0") auto
  then show ?case using gen_root_ok [OF assms(1), of n ?o] Suc.prems by (cases "n = 0") simp_all
qed simp

lemma fold_map_prefix:
  "n \<le> length xs \<Longrightarrow> fold (\<lambda>i xs. xs[i := f (xs ! i)]) [0..<n] xs = map f (take n xs) @ drop n xs"
proof (induction n)
  case (Suc n)
  then show ?case by (simp add: nth_append list_update_append take_Suc_conv_app_nth Cons_nth_drop_Suc [symmetric])
qed simp

lemma genPoly_ok:
  assumes "tables_ok t" "n \<le> 254" "0 < n" "n + 1 = length out"
  shows "genPoly t n out = map (\<lambda>c. of_nat (rs_log t c)) (gen_product n)"
proof -
  define o1 where "o1 = fold (gen_root t) [0..<n] (out[0 := 0])"
  have "take (n + 1) o1 = gen_product n" "length o1 = length out"
    unfolding o1_def using gen_fold_ok [OF assms(1,2), of "out[0 := 0]"] assms by (cases out; simp)+
  then have "o1 = gen_product n" "length o1 = n + 1" using assms(4) by (metis take_all order_refl)+
  then show ?thesis
    using fold_map_prefix [of "n + 1" o1 "\<lambda>c. of_nat (rs_log t c)"]
    unfolding genPoly_def Let_def o1_def [symmetric] by simp
qed


section \<open>The error correction bytes\<close>

text \<open>What a table of logarithms is of: a monic polynomial of degree \<open>n\<close>, whose other coefficients are not 0.\<close>

definition poly_of :: "rs_tables \<Rightarrow> u8 list \<Rightarrow> u8 list \<Rightarrow> bool" where
  "poly_of t poly g \<longleftrightarrow> length poly = length g \<and>
     (\<forall>i < length g. unat (poly ! i) < 255 \<and> rs_power (unat (poly ! i)) 1 = g ! i)"

lemma genPoly_poly_of:
  assumes "tables_ok t" "n \<le> 254" "0 < n" "n + 1 = length out"
  shows "poly_of t (genPoly t n out) (gen_product n)"
proof -
  have "unat (of_nat (rs_log t c) :: u8) = rs_log t c" for c
    unfolding rs_log_def by simp
  moreover have "rs_log t (gen_product n ! i) < 255 \<and> rs_power (rs_log t (gen_product n ! i)) 1 = gen_product n ! i" if "i \<le> n" for i
    using gen_product_nonzero [OF assms(2) that] assms(1) by (simp add: tables_ok_def)
  ultimately show ?thesis by (simp add: poly_of_def genPoly_ok [OF assms])
qed

lemma rs_commute: "rs_power i (rs_power j v) = rs_power j (rs_power i v)"
  by (simp add: rs_power_add add.commute)

text \<open>One step multiplies the register by the unknown and adds the byte, up to multiples of the generator.\<close>

lemma ecc_step_length [simp]: "length (ecc_step t poly d R) = length R"
  by (simp add: ecc_step_def Let_def)

lemma butlast_nth_shift: "i < length xs \<Longrightarrow> (0 # butlast xs) ! i = (if i = 0 then 0 else xs ! (i - 1))"
  by (auto simp: nth_Cons nth_butlast split: nat.splits)

lemma ecc_step_zero:
  assumes "tables_ok t" "R \<noteq> []" "last R XOR d = 0"
  shows "ecc_step t poly d R = 0 # butlast R"
proof (rule nth_equalityI)
  fix i assume "i < length (ecc_step t poly d R)"
  then have i: "i < length R" by simp
  have "R ! (length R - 1) XOR d = 0" using assms(2,3) by (simp add: last_conv_nth)
  then have "ecc_step t poly d R =
      (fold (\<lambda>j xs. xs[j := xs ! (j - 1)]) (rev [1..<length R]) R)[0 := 0]"
    using assms(1) by (simp only: ecc_step_def Let_def tables_ok_def) simp
  then show "ecc_step t poly d R ! i = (0 # butlast R) ! i"
    using i fold_shift [of "length R" R i "\<lambda>_ a _. a"] butlast_nth_shift [OF i]
    by (cases i) simp_all
qed (use assms(2) in simp)

lemma ecc_step_nonzero:
  assumes "tables_ok t" "R \<noteq> []" "last R XOR d \<noteq> 0" "poly_of t poly g" "length g = length R + 1"
  shows "ecc_step t poly d R = map2 (XOR) (map (rs_power (rs_log t (last R XOR d))) (butlast g)) (0 # butlast R)"
proof (rule nth_equalityI)
  fix i assume "i < length (ecc_step t poly d R)"
  then have i: "i < length R" by simp
  define b where "b = rs_log t (R ! (length R - 1) XOR d)"
  have v: "R ! (length R - 1) = last R" using assms(2) by (simp add: last_conv_nth)
  then have "b < 255" using assms(1,3) by (simp add: b_def tables_ok_def)
  then have b: "(b = 255) = False" by simp
  have exp: "rs_exp t (b + unat (poly ! j)) = rs_power b (g ! j)" if "j < length R" for j
  proof -
    have p: "unat (poly ! j) < 255" "rs_power (unat (poly ! j)) 1 = g ! j" using assms(4,5) that by (simp_all add: poly_of_def)
    then have "rs_exp t (b + unat (poly ! j)) = rs_power (b + unat (poly ! j)) 1"
      using assms(1) \<open>b < 255\<close> by (simp add: tables_ok_def del: funpow.simps)
    then show ?thesis by (simp add: p rs_power_add [symmetric])
  qed
  have "ecc_step t poly d R =
      (fold (\<lambda>j xs. xs[j := rs_exp t (b + unat (poly ! j)) XOR xs ! (j - 1)]) (rev [1..<length R]) R)
        [0 := rs_exp t (b + unat (poly ! 0))]"
    by (simp only: ecc_step_def Let_def b_def [symmetric] b if_False)
  then show "ecc_step t poly d R ! i = map2 (XOR) (map (rs_power (rs_log t (last R XOR d))) (butlast g)) (0 # butlast R) ! i"
    using i assms(2,5) fold_shift [of "length R" R i "\<lambda>j a _. rs_exp t (b + unat (poly ! j)) XOR a"]
      butlast_nth_shift [OF i] exp [OF i] exp [of 0]
    unfolding v [symmetric] b_def [symmetric] by (cases i) (simp_all add: nth_butlast)
qed (use assms(2,5) in simp)

lemma poly_at_butlast: "xs \<noteq> [] \<Longrightarrow> poly_at r xs = poly_at r (butlast xs) XOR rs_power (r * (length xs - 1)) (last xs)"
  using poly_at_append [of r "butlast xs" "[last xs]"] by simp

lemma ecc_step_value:
  assumes "tables_ok t" "poly_of t poly (gen_product n)" "length R = n" "1 \<le> r" "r \<le> n"
  shows "poly_at r (ecc_step t poly d R) = rs_power r (poly_at r R) XOR rs_power (r * n) d"
proof -
  define v where "v = last R XOR d"
  have R: "R \<noteq> []" using assms by auto
  have "rs_power r (poly_at r R) = rs_power r (poly_at r (butlast R)) XOR rs_power (r * n) (last R)"
    using poly_at_butlast [OF R, of r] assms(3-5) by (cases n) (simp_all add: rs_power_xor rs_power_add)
  moreover have "rs_power (r * n) (last R) = rs_power (r * n) v XOR rs_power (r * n) d"
    by (simp add: v_def rs_power_xor [symmetric] ac_simps)
  moreover have "poly_at r (ecc_step t poly d R) = rs_power (r * n) v XOR rs_power r (poly_at r (butlast R))"
  proof (cases "v = 0")
    case True
    then show ?thesis using ecc_step_zero [OF assms(1) R] by (simp add: v_def)
  next
    case False
    let ?b = "rs_log t v"
    have len: "length (butlast (gen_product n)) = length (0 # butlast R)" using R assms(3) by (cases R) auto
    have g: "gen_product n \<noteq> []" by (metis length_gen_product list.size(3) add_is_0 zero_neq_one)
    have "poly_at r (butlast (gen_product n)) = rs_power (r * n) 1"
      using poly_at_butlast [OF g, of r] gen_product_root [OF assms(4,5)] gen_product_last [of n] g
      by (simp add: last_conv_nth xor_zero)
    moreover have "ecc_step t poly d R = map2 (XOR) (map (rs_power ?b) (butlast (gen_product n))) (0 # butlast R)"
      unfolding v_def using False assms(2,3) R by (intro ecc_step_nonzero [OF assms(1)]) (simp_all add: v_def)
    ultimately have "poly_at r (ecc_step t poly d R) = rs_power ?b (rs_power (r * n) 1) XOR rs_power r (poly_at r (butlast R))"
      using poly_at_xor [of "map (rs_power ?b) (butlast (gen_product n))" "0 # butlast R" r] len
      by (simp add: poly_at_map del: length_butlast)
    moreover have "rs_power ?b 1 = v" using assms(1) False by (simp add: tables_ok_def)
    ultimately show ?thesis using rs_commute [of ?b "r * n" 1] by simp
  qed
  ultimately show ?thesis by (simp add: ac_simps)
qed

lemma eccCalc_length [simp]: "length (eccCalc t poly n data) = n"
proof -
  have "length (fold (ecc_step t poly) ds R) = length R" for ds R by (induction ds arbitrary: R) simp_all
  then show ?thesis by (simp add: eccCalc_def)
qed

lemma poly_at_zeros: "poly_at r (replicate n 0) = 0"
  by (induction n) simp_all

lemma eccCalc_Cons: "eccCalc t poly n (d # data) = ecc_step t poly d (eccCalc t poly n data)"
  by (simp add: eccCalc_def)

text \<open>Every packet with its error correction bytes has the roots of the generator.\<close>

lemma eccCalc_root:
  assumes "tables_ok t" "poly_of t poly (gen_product n)" "1 \<le> r" "r \<le> n"
  shows "poly_at r (eccCalc t poly n data @ data) = 0"
proof -
  have "poly_at r (eccCalc t poly n data) = rs_power (r * n) (poly_at r data)"
  proof (induction data)
    case Nil
    then show ?case by (simp add: eccCalc_def poly_at_zeros)
  next
    case (Cons d data)
    have "rs_power r (rs_power (r * n) (poly_at r data)) = rs_power (r * n) (rs_power r (poly_at r data))"
      by (rule rs_commute)
    then show ?case
      unfolding eccCalc_Cons using ecc_step_value [OF assms(1,2) eccCalc_length assms(3,4)]
      by (simp add: Cons rs_power_xor ac_simps del: funpow.simps)
  qed
  then show ?thesis by (simp add: poly_at_append)
qed

text \<open>Hence two different words differ in more bytes than there are error correction bytes.\<close>

definition distance :: "u8 list \<Rightarrow> u8 list \<Rightarrow> nat" where
  "distance xs ys = length (filter (\<lambda>(x, y). x \<noteq> y) (zip xs ys))"

lemma distance_weight: "distance xs ys = weight (map2 (XOR) xs ys)"
  unfolding distance_def weight_def by (induction xs ys rule: list_induct2') (simp_all add: xor_zero)

lemma distance_0: "length xs = length ys \<Longrightarrow> distance xs ys = 0 \<Longrightarrow> xs = ys"
  unfolding distance_def by (induction xs ys rule: list_induct2) (simp_all split: if_splits)

lemma ecc_distance:
  assumes "tables_ok t" "poly_of t poly (gen_product n)" "length data = k" "length data' = k" "n + k \<le> 255" "data \<noteq> data'"
  shows "n < distance (eccCalc t poly n data @ data) (eccCalc t poly n data' @ data')"
proof (rule ccontr)
  let ?w = "eccCalc t poly n data @ data" and ?w' = "eccCalc t poly n data' @ data'"
  assume "\<not> n < distance ?w ?w'"
  then have "weight (map2 (XOR) ?w ?w') \<le> n" by (simp add: distance_weight)
  moreover have "length (map2 (XOR) ?w ?w') \<le> 255" using assms by simp
  moreover have "poly_at r (map2 (XOR) ?w ?w') = 0" if "1 \<le> r" "r < 1 + n" for r
    using eccCalc_root [OF assms(1,2)] that assms(3,4) by (subst poly_at_xor) simp_all
  ultimately have "weight (map2 (XOR) ?w ?w') = 0" by (intro few_coefficients [of _ n 1])
  then have "?w = ?w'" using assms(3,4) by (intro distance_0) (simp_all add: distance_weight)
  then show False using assms(6) by simp
qed

end
