(* ===== verification/RFSerial.thy ===== *)
theory RFSerial
  imports RSCode CyID
begin

text \<open>
  \<open>RFSerial.cpp\<close>: the serial device behind which the radio of the Cybiko is emulated.  The
  Cybiko writes commands and packets to it byte by byte; a whole packet is acknowledged and
  sent to the network as a datagram, and a datagram of another emulator is completed with its
  error correction bytes and queued to be read.  The sockets are parameters: whether they could
  be opened, and the datagram that is waiting.  \<open>None\<close> is an access outside an array.
\<close>

section \<open>State\<close>

record rf_serial =
  rf_buf :: "nat \<Rightarrow> u8"
  rf_bufOffset :: nat
  rf_messageLen :: nat
  rf_writeQueue :: "u8 list"
  rf_tables :: rs_tables
  rsPoly20 :: "u8 list"
  rsPoly80 :: "u8 list"
  rf_recvOpen :: bool
  rf_sendOpen :: bool
  rf_lastHead :: "u8 list"

definition RFSerial_eccInit :: "rf_serial \<Rightarrow> rf_serial" where
  "RFSerial_eccInit d =
     (let t = rs_tables_init (rf_tables d)
      in d\<lparr>rf_tables := t, rsPoly20 := genPoly t 20 (rsPoly20 d), rsPoly80 := genPoly t 80 (rsPoly80 d)\<rparr>)"

text \<open>The arrays are not initialised by C++: their contents are arguments.\<close>

definition RFSerial_new :: "bool \<Rightarrow> bool \<Rightarrow> (nat \<Rightarrow> u8) \<Rightarrow> rs_tables \<Rightarrow> u8 list \<Rightarrow> u8 list \<Rightarrow> u8 list \<Rightarrow> rf_serial" where
  "RFSerial_new recv send b t p20 p80 lastHead =
     RFSerial_eccInit \<lparr>rf_buf = b, rf_bufOffset = 0, rf_messageLen = 0, rf_writeQueue = [], rf_tables = t,
       rsPoly20 = p20, rsPoly80 = p80, rf_recvOpen = recv, rf_sendOpen = send, rf_lastHead = lastHead\<rparr>"

section \<open>The printed form of a packet\<close>

text \<open>
  \<open>dumpPacket\<close> prints a packet and has no other effect; it is modelled as the values printed, as its reads
  depend on lengths the packet contains.  The packet starts at a position of an array after
  which \<open>limit\<close> bytes are left.
\<close>

datatype dump_body =
    Dump_ping nat u8 u8 "u8 list" "u8 list" nat bool
  | Dump_message nat u8 u8 "(nat \<times> nat option \<times> nat option \<times> (u8 list + nat)) option" "u8 list"
  | Dump_other nat nat u8 u8 nat nat "u8 list" "u8 list"

record packet_dump =
  dump_src :: u32
  dump_dst :: u32
  dump_srcStr :: string
  dump_dstStr :: string
  dump_channel :: nat
  dump_body :: dump_body

definition peek :: "nat \<Rightarrow> (nat \<Rightarrow> u8) \<Rightarrow> nat \<Rightarrow> u8 option" where
  "peek limit p i = (if i < limit then Some (p i) else None)"

definition peek_list :: "nat \<Rightarrow> (nat \<Rightarrow> u8) \<Rightarrow> nat \<Rightarrow> nat \<Rightarrow> u8 list option" where
  "peek_list limit p i n = (if n = 0 \<or> i + n \<le> limit then Some (map p [i..<i + n]) else None)"

definition be :: "u8 list \<Rightarrow> nat" where
  "be bs = foldl (\<lambda>v b. v * 256 + unat b) 0 bs"

text \<open>\<open>strnlen\<close>: the bytes before the first 0, among the first \<open>n\<close>.\<close>

definition strn :: "nat \<Rightarrow> (nat \<Rightarrow> u8) \<Rightarrow> nat \<Rightarrow> nat \<Rightarrow> u8 list option" where
  "strn limit p i n = do { bs \<leftarrow> peek_list limit p i n; Some (takeWhile (\<lambda>b. b \<noteq> 0) bs) }"

text \<open>\<open>printf("%s")\<close>: the bytes before the next 0, which must be in the array.\<close>

definition peek_string :: "nat \<Rightarrow> (nat \<Rightarrow> u8) \<Rightarrow> nat \<Rightarrow> u8 list option" where
  "peek_string limit p i =
     (let bs = map p [i..<limit] in if 0 \<in> set bs then Some (takeWhile (\<lambda>b. b \<noteq> 0) bs) else None)"

text \<open>The optional parameter at \<open>offset\<close>.\<close>

definition dump_param :: "nat \<Rightarrow> (nat \<Rightarrow> u8) \<Rightarrow> bool \<Rightarrow> nat \<Rightarrow> (nat option \<times> nat) option" where
  "dump_param limit data present offset =
     (if present then do { bs \<leftarrow> peek_list limit data offset 4; Some (Some (be bs), offset + 4) }
      else Some (None, offset))"

text \<open>
  The name of the application is printed up to its 0, wherever that is, and skipped up to
  the end of the packet.
\<close>

definition dump_app :: "nat \<Rightarrow> (nat \<Rightarrow> u8) \<Rightarrow> nat \<Rightarrow> bool \<Rightarrow> nat \<Rightarrow> ((u8 list + nat) \<times> nat) option" where
  "dump_app limit data dataLen named offset =
     (if named then do { name \<leftarrow> strn limit data offset (dataLen - offset);
                         printed \<leftarrow> peek_string limit data offset;
                         Some (Inl printed, offset + length name) }
      else do { bs \<leftarrow> peek_list limit data offset 2; Some (Inr (be bs), offset + 2) })"

definition dump_message :: "nat \<Rightarrow> (nat \<Rightarrow> u8) \<Rightarrow> nat \<Rightarrow> u8 \<Rightarrow> u8 \<Rightarrow> dump_body option" where
  "dump_message limit data dataLen index sequence =
     do { flags \<leftarrow> map_option be (peek_list limit data 0 2);
          (head, bufLen, offset) \<leftarrow>
            (if index \<le> 1
             then do { msgId \<leftarrow> map_option be (peek_list limit data 2 2);
                       (param0, offset) \<leftarrow> dump_param limit data (bit flags 11) 4;
                       (param1, offset) \<leftarrow> dump_param limit data (bit flags 10) offset;
                       (app, offset) \<leftarrow> dump_app limit data dataLen (bit flags 13) offset;
                       (bufLen, offset) \<leftarrow>
                         (if bit flags 12
                          then if bit flags 9 then Some (dataLen - offset, offset)
                               else do { b \<leftarrow> peek limit data offset; Some (unat b, offset + 1) }
                          else Some (0, offset));
                       Some (Some (msgId, param0, param1, app), bufLen, offset) }
             else if bit flags 8 then do { b \<leftarrow> peek limit data 2; Some (None, unat b, 3) }
             else if bit flags 9 then Some (None, dataLen - 2, 2)
             else Some (None, 0, 2));
          bytes \<leftarrow> peek_list limit data offset bufLen;
          Some (Dump_message flags index sequence head bytes) }"

definition dumpPacket :: "nat \<Rightarrow> (nat \<Rightarrow> u8) \<Rightarrow> bool \<Rightarrow> packet_dump option" where
  "dumpPacket limit packetBuf longPkt =
     do { h \<leftarrow> peek_list limit packetBuf 0 16;
          let dst = of_nat (be (take 4 h)); src = of_nat (be (take 4 (drop 4 h)));
              channel = unat (h ! 8 AND 0x3F); type = unat (drop_bit 5 (h ! 9)); flags = unat (h ! 9 AND 0x1F);
              index = h ! 10; sequence = h ! 11; dataCRC = be [h ! 12, h ! 13]; headCRC = be [h ! 14, h ! 15];
              headLen = 16; dataLen = (if longPkt then 104 else 14); eccLen = (if longPkt then 80 else 20);
              data = (\<lambda>i. packetBuf (headLen + i));
              limit = limit - headLen
          in do { body \<leftarrow>
                    (if type = 0
                     then do { unk \<leftarrow> peek_list limit data 0 4; name \<leftarrow> strn limit data 4 8; a \<leftarrow> peek limit data 12;
                               Some (Dump_ping flags index sequence unk name (unat (a AND 0x7F)) (tst a 0x80)) }
                     else if type = 1 then dump_message limit data dataLen index sequence
                     else do { bytes \<leftarrow> peek_list limit data 0 dataLen; ecc \<leftarrow> peek_list limit data dataLen eccLen;
                               Some (Dump_other type flags index sequence dataCRC headCRC bytes ecc) });
                  Some \<lparr>dump_src = src, dump_dst = dst, dump_srcStr = cyIDToString src, dump_dstStr = cyIDToString dst,
                        dump_channel = channel, dump_body = body\<rparr> } }"

section \<open>Operations\<close>

text \<open>\<open>front\<close> and \<open>pop_front\<close> of an empty queue are undefined.\<close>

definition RFSerial_read :: "rf_serial \<Rightarrow> (u8 \<times> rf_serial) option" where
  "RFSerial_read d = (case rf_writeQueue d of [] \<Rightarrow> None | val # q \<Rightarrow> Some (val, d\<lparr>rf_writeQueue := q\<rparr>))"

definition RFSerial_canRead :: "rf_serial \<Rightarrow> bool" where
  "RFSerial_canRead d \<longleftrightarrow> rf_writeQueue d \<noteq> []"

text \<open>A whole packet: the acknowledgement, and the datagram sent.\<close>

definition rf_packet :: "rf_serial \<Rightarrow> (u8 list option \<times> rf_serial) option" where
  "rf_packet d =
     (let longPkt = rf_buf d 0 = 0xCF;
          packetBuf = (\<lambda>i. rf_buf d (2 + i));
          headLen = 16; dataLen = (if longPkt then 104 else 14)
      in do { _ \<leftarrow> dumpPacket (202 - 2) packetBuf longPkt;
              let d = d\<lparr>rf_writeQueue := rf_writeQueue d @ [0x03]\<rparr>
              in Some (if rf_sendOpen d
                       then (Some (replicate 6 0xAA @ [0, if longPkt then 0xC8 else 0x32] @ map packetBuf [0..<headLen + dataLen]),
                             d\<lparr>rf_lastHead := map packetBuf [0..<16]\<rparr>)
                       else (None, d)) })"

definition RFSerial_write :: "u8 \<Rightarrow> rf_serial \<Rightarrow> (u8 list option \<times> rf_serial) option" where
  "RFSerial_write val d =
     (if rf_bufOffset d \<ge> 202 then None
      else let d = d\<lparr>rf_buf := (rf_buf d)(rf_bufOffset d := val), rf_bufOffset := rf_bufOffset d + 1\<rparr>
           in if rf_messageLen d = 0
              then Some (None, if val = 0x01 then d\<lparr>rf_messageLen := 3\<rparr>
                               else if val = 0x30 then d\<lparr>rf_messageLen := 52\<rparr>
                               else if val = 0xCF then d\<lparr>rf_messageLen := 202\<rparr>
                               else d\<lparr>rf_bufOffset := 0\<rparr>)
              else if rf_bufOffset d = rf_messageLen d
              then do { (out, d) \<leftarrow>
                          (if rf_buf d 0 = 0x01 \<and> rf_buf d 1 = 2 then Some (None, d)
                           else if rf_buf d 0 = 0x30 \<or> rf_buf d 0 = 0xCF then rf_packet d
                           else Some (None, d));
                        Some (out, d\<lparr>rf_messageLen := 0, rf_bufOffset := 0\<rparr>) }
              else Some (None, d))"

text \<open>\<open>eccCalc\<close> on a packet in memory: the bytes after the data are replaced.\<close>

definition RFSerial_eccCalc :: "rf_serial \<Rightarrow> u8 list \<Rightarrow> bool \<Rightarrow> u8 list" where
  "RFSerial_eccCalc d data longPkt =
     (let dataLen = (if longPkt then 120 else 30);
          eccLen = (if longPkt then 80 else 20);
          poly = (if longPkt then rsPoly80 d else rsPoly20 d)
      in take dataLen data @ eccCalc (rf_tables d) poly eccLen (take dataLen data) @ drop (dataLen + eccLen) data)"

text \<open>
  The datagram that is waiting is received into a local array of 1024 bytes, whose contents
  before are not initialised.
\<close>

definition RFSerial_networkUpdate :: "u8 list \<Rightarrow> u8 list option \<Rightarrow> rf_serial \<Rightarrow> rf_serial option" where
  "RFSerial_networkUpdate stale received d =
     (if \<not> rf_recvOpen d then Some d
      else case received of None \<Rightarrow> Some d
      | Some datagram \<Rightarrow>
         let len = min 1024 (length datagram); buf = take 1024 datagram @ drop len stale
         in if len = 0 then Some d
            else let longPkt = buf ! 7 = 0xC8
                 in if take 16 (drop 8 buf) = rf_lastHead d then Some d
                    else let buf = take 8 buf @ RFSerial_eccCalc d (drop 8 buf) longPkt;
                             len = len + (if longPkt then 80 else 20)
                         in do { _ \<leftarrow> dumpPacket (1024 - 8) (\<lambda>i. buf ! (8 + i)) longPkt;
                                 if len \<le> 1024 then Some (d\<lparr>rf_writeQueue := rf_writeQueue d @ take len buf\<rparr>) else None })"

text \<open>A sequence of writes, with the datagrams sent.\<close>

fun rf_writes :: "u8 list \<Rightarrow> rf_serial \<Rightarrow> (u8 list list \<times> rf_serial) option" where
  "rf_writes [] d = Some ([], d)"
| "rf_writes (b # bs) d =
     do { (out, d) \<leftarrow> RFSerial_write b d; (outs, d) \<leftarrow> rf_writes bs d;
          Some ((case out of None \<Rightarrow> outs | Some x \<Rightarrow> x # outs), d) }"


section \<open>The error correction bytes\<close>

lemma distance_append:
  "length a = length b \<Longrightarrow> distance (a @ c) (b @ d) = distance a b + distance c d"
  by (simp add: distance_def)

lemma RFSerial_new_tables:
  fixes recv send b t p20 p80 lastHead
  defines "d \<equiv> RFSerial_new recv send b t p20 p80 lastHead"
  assumes "length p20 = 21" "length p80 = 81"
  shows "tables_ok (rf_tables d) \<and> poly_of (rf_tables d) (rsPoly20 d) (gen_product 20) \<and>
    poly_of (rf_tables d) (rsPoly80 d) (gen_product 80)"
  using tables_ok_init [of t] assms
  by (simp add: RFSerial_new_def RFSerial_eccInit_def Let_def genPoly_poly_of del: gen_product.simps)

lemma ecc_distance_data_first:
  assumes "tables_ok t" "poly_of t poly (gen_product n)" "length data = k" "length data' = k" "n + k \<le> 255" "data \<noteq> data'"
  shows "n < distance (data @ eccCalc t poly n data) (data' @ eccCalc t poly n data')"
  using ecc_distance [OF assms] assms(3,4) by (simp add: distance_append)

text \<open>C25:
  The Reed-Solomon code of the radio: with the tables and generator polynomials the constructor
  computes, two packets that differ in their header or data differ in more bytes than there
  are error correction bytes, in more than 20 of the 50 bytes of a short packet and in more than 80
  of the 200 bytes of a long one.  A receiver can correct 10 and 40 wrong bytes.
\<close>

theorem rf_packets_distant:
  assumes "length p20 = 21" "length p80 = 81"
    and "length p = (if longPkt then 200 else 50)" "length p' = (if longPkt then 200 else 50)"
    and "take (if longPkt then 120 else 30) p \<noteq> take (if longPkt then 120 else 30) p'"
  shows "(if longPkt then 80 else 20) <
    distance (RFSerial_eccCalc (RFSerial_new recv send b t p20 p80 lastHead) p longPkt)
             (RFSerial_eccCalc (RFSerial_new recv send b t p20 p80 lastHead) p' longPkt)"
  using assms RFSerial_new_tables [OF assms(1,2), of recv send b t lastHead]
    ecc_distance_data_first [of "rf_tables (RFSerial_new recv send b t p20 p80 lastHead)"]
  by (simp add: RFSerial_eccCalc_def Let_def del: gen_product.simps)

lemma rf_packets_distant_witness:
  "20 < distance
     (RFSerial_eccCalc (RFSerial_new True True (\<lambda>_. 0) \<lparr>rsExpTable = \<lambda>_. 0, rsLogTable = \<lambda>_. 0\<rparr> (replicate 21 0) (replicate 81 0) []) (replicate 50 0) False)
     (RFSerial_eccCalc (RFSerial_new True True (\<lambda>_. 0) \<lparr>rsExpTable = \<lambda>_. 0, rsLogTable = \<lambda>_. 0\<rparr> (replicate 21 0) (replicate 81 0) []) (1 # replicate 49 0) False)"
proof -
  have "replicate 30 0 \<noteq> 1 # replicate 29 (0 :: u8)" by (simp add: numeral_eq_Suc)
  then show ?thesis
    using rf_packets_distant [of "replicate 21 0" "replicate 81 0" "replicate 50 0" False "1 # replicate 49 0" True True
      "\<lambda>_. 0" "\<lparr>rsExpTable = \<lambda>_. 0, rsLogTable = \<lambda>_. 0\<rparr>" "[]"] by simp
qed


section \<open>Printing stays inside a large array\<close>

lemma peek_list_some [simp]: "i + n \<le> limit \<Longrightarrow> peek_list limit p i n = Some (map p [i..<i + n])"
  by (simp add: peek_list_def)

lemma peek_some [simp]: "i < limit \<Longrightarrow> peek limit p i = Some (p i)"
  by (simp add: peek_def)

lemma strn_some: "i + n \<le> limit \<Longrightarrow> \<exists>bs. strn limit p i n = Some bs \<and> length bs \<le> n"
  by (simp add: strn_def) (metis length_takeWhile_le length_map length_upt diff_add_inverse)

lemma dump_param_some:
  "i + 4 \<le> limit \<Longrightarrow> \<exists>v. dump_param limit p b i = Some (v, i + (if b then 4 else 0))"
  by (simp add: dump_param_def)

lemma dump_app_some:
  assumes "i + 2 \<le> dataLen" "dataLen \<le> limit" "b \<Longrightarrow> \<exists>k \<in> {i..<limit}. p k = 0"
  shows "\<exists>v j. dump_app limit p dataLen b i = Some (v, j) \<and> j \<le> dataLen"
proof (cases b)
  case True
  then have "0 \<in> p ` {i..<limit}" using assms(3) by force
  then show ?thesis using True strn_some [of i "dataLen - i" limit p] assms by (auto simp: dump_app_def peek_string_def)
qed (use assms in \<open>simp add: dump_app_def\<close>)

text \<open>The name of the application in the first packet of a message ends before the position \<open>n\<close>.\<close>

definition name_ends :: "nat \<Rightarrow> (nat \<Rightarrow> u8) \<Rightarrow> bool" where
  "name_ends n data \<longleftrightarrow>
     (let flags = be [data 0, data 1]; name = 4 + (if bit flags 11 then 4 else 0) + (if bit flags 10 then 4 else 0)
      in bit flags 13 \<longrightarrow> (\<exists>k \<in> {name..<n}. data k = 0))"

lemma dump_message_some:
  assumes "14 \<le> dataLen" "dataLen \<le> 104" "360 \<le> limit" "index \<le> 1 \<Longrightarrow> name_ends limit p"
  shows "dump_message limit p dataLen index sequence \<noteq> None"
proof -
  have byte: "unat (p i) < 256" for i using unsigned_less [of "p i", where ?'a = nat] by simp
  define fl where "fl = be (map p [0..<2])"
  have two: "map p [0..<2] = [p 0, p 1]" by (simp add: upt_rec)
  have fl: "map_option be (peek_list limit p 0 2) = Some fl" using assms(3) by (subst peek_list_some) (simp_all only: fl_def option.map add_0)
  define j0 j1 where "j0 = 4 + (if bit fl 11 then 4 else 0 :: nat)" and "j1 = j0 + (if bit fl 10 then 4 else 0 :: nat)"
  have j: "j0 \<le> 8" "j1 \<le> 12" by (simp_all add: j0_def j1_def)
  obtain v0 where 0: "dump_param limit p (bit fl 11) 4 = Some (v0, j0)"
    using dump_param_some [of 4 limit p] assms(3) by (fastforce simp: j0_def)
  obtain v1 where 1: "dump_param limit p (bit fl 10) j0 = Some (v1, j1)"
    using dump_param_some [of j0 limit p] assms(3) j by (fastforce simp: j1_def)
  have byte2: "2 + 1 + unat (p 2) \<le> limit" using byte [of 2] assms(3) by linarith
  show ?thesis
  proof (cases "index \<le> 1")
    case True
    then have "bit fl 13 \<Longrightarrow> \<exists>k \<in> {j1..<limit}. p k = 0"
      using assms(4) unfolding name_ends_def fl_def two j0_def j1_def Let_def by simp
    then obtain v2 j2 where 2: "dump_app limit p dataLen (bit fl 13) j1 = Some (v2, j2)" "j2 \<le> dataLen"
      using dump_app_some [of j1 dataLen limit "bit fl 13" p] assms(1-3) j by fastforce
    show ?thesis
      unfolding dump_message_def fl using True 0 1 2 assms byte [of j2] by (auto simp: Let_def)
  next
    case False
    then show ?thesis unfolding dump_message_def fl using assms byte2 by (auto simp: Let_def)
  qed
qed

lemma dumpPacket_not_message:
  assumes "drop_bit 5 (p 9) \<noteq> 1" shows "dumpPacket 200 p longPkt \<noteq> None"
proof -
  obtain name where "strn 184 (\<lambda>i. p (16 + i)) 4 8 = Some name"
    using strn_some [of 4 8 184 "\<lambda>i. p (16 + i)"] by auto
  moreover have "unat (drop_bit 5 (p 9)) \<noteq> 1" using assms by (simp add: word_unat_eq_iff)
  ultimately show ?thesis by (cases longPkt) (auto simp: dumpPacket_def Let_def)
qed

lemma dumpPacket_some:
  assumes "400 \<le> limit" "drop_bit 5 (p 9) = 1 \<Longrightarrow> p 10 \<le> 1 \<Longrightarrow> name_ends (limit - 16) (\<lambda>i. p (16 + i))"
  shows "dumpPacket limit p longPkt \<noteq> None"
proof -
  obtain name where "strn (limit - 16) (\<lambda>i. p (16 + i)) 4 8 = Some name"
    using strn_some [of 4 8 "limit - 16" "\<lambda>i. p (16 + i)"] assms by (auto simp: le_diff_conv2)
  moreover have "dump_message (limit - 16) (\<lambda>i. p (16 + i)) (if longPkt then 104 else 14) (p 10) (p 11) \<noteq> None"
    if "unat (drop_bit 5 (p 9)) = 1"
  proof -
    have "drop_bit 5 (p 9) = 1" using that by (simp add: word_unat_eq_iff)
    then show ?thesis
      using dump_message_some [of "if longPkt then 104 else 14" "limit - 16" "p 10" "\<lambda>i. p (16 + i)" "p 11"] assms
      by (cases longPkt) (auto simp: le_diff_conv2)
  qed
  ultimately show ?thesis using assms(1) by (auto simp: dumpPacket_def Let_def)
qed


section \<open>The message buffer\<close>

definition rf_idle :: "rf_serial \<Rightarrow> bool" where
  "rf_idle d \<longleftrightarrow> rf_messageLen d = 0 \<and> rf_bufOffset d = 0"

definition rf_expected :: "u8 \<Rightarrow> nat" where
  "rf_expected cmd = (if cmd = 0x01 then 3 else if cmd = 0x30 then 52 else if cmd = 0xCF then 202 else 0)"

definition rf_inv :: "rf_serial \<Rightarrow> bool" where
  "rf_inv d \<longleftrightarrow> rf_idle d \<or>
     (rf_messageLen d = rf_expected (rf_buf d 0) \<and> 0 < rf_bufOffset d \<and> rf_bufOffset d < rf_messageLen d)"

abbreviation rf_stored :: "u8 \<Rightarrow> rf_serial \<Rightarrow> rf_serial" where
  "rf_stored v d \<equiv> d\<lparr>rf_buf := (rf_buf d)(rf_bufOffset d := v), rf_bufOffset := rf_bufOffset d + 1\<rparr>"

lemma rf_expected_bound: "rf_expected cmd \<le> 202"
  by (simp add: rf_expected_def)

lemma rf_write_first:
  "rf_idle d \<Longrightarrow> RFSerial_write v d =
    Some (None, (rf_stored v d)\<lparr>rf_bufOffset := (if rf_expected v = 0 then 0 else 1), rf_messageLen := rf_expected v\<rparr>)"
  by (simp add: RFSerial_write_def rf_idle_def rf_expected_def Let_def)

lemma rf_write_store:
  "rf_bufOffset d + 1 < rf_messageLen d \<Longrightarrow> rf_messageLen d \<le> 202 \<Longrightarrow> RFSerial_write v d = Some (None, rf_stored v d)"
  by (simp add: RFSerial_write_def Let_def)

lemma rf_write_last:
  assumes "rf_bufOffset d + 1 = rf_messageLen d" "rf_messageLen d \<le> 202"
  shows "RFSerial_write v d = do { (out, d) \<leftarrow>
            (if rf_buf (rf_stored v d) 0 = 0x01 \<and> rf_buf (rf_stored v d) 1 = 2 then Some (None, rf_stored v d)
             else if rf_buf (rf_stored v d) 0 = 0x30 \<or> rf_buf (rf_stored v d) 0 = 0xCF then rf_packet (rf_stored v d)
             else Some (None, rf_stored v d));
          Some (out, d\<lparr>rf_messageLen := 0, rf_bufOffset := 0\<rparr>) }"
proof -
  have "\<not> 202 \<le> rf_bufOffset d" "rf_messageLen d \<noteq> 0" using assms by simp_all
  then show ?thesis using assms(1) by (simp only: RFSerial_write_def Let_def if_False) simp
qed

lemma RFSerial_write_inv:
  assumes "rf_inv d"
  shows "case RFSerial_write v d of
      Some (out, d') \<Rightarrow> rf_inv d'
    | None \<Rightarrow> rf_expected (rf_buf d 0) \<in> {52, 202} \<and> rf_bufOffset d + 1 = rf_expected (rf_buf d 0)"
proof -
  have "rf_idle d \<or> rf_bufOffset d + 1 < rf_messageLen d \<or> rf_bufOffset d + 1 = rf_messageLen d"
    using assms unfolding rf_inv_def by linarith
  then consider "rf_idle d" | "rf_bufOffset d + 1 < rf_messageLen d" "rf_inv d" "\<not> rf_idle d"
    | "rf_bufOffset d + 1 = rf_messageLen d" "rf_inv d" "\<not> rf_idle d"
    using assms by blast
  then show ?thesis
  proof cases
    case 1
    then show ?thesis by (auto simp: rf_write_first rf_inv_def) (auto simp: rf_idle_def rf_expected_def split: if_splits)
  next
    case 2
    then have "rf_messageLen d \<le> 202" using rf_expected_bound by (auto simp: rf_inv_def)
    then show ?thesis using 2 by (simp add: rf_write_store) (auto simp: rf_inv_def)
  next
    case 3
    then have e: "rf_messageLen d = rf_expected (rf_buf d 0)" "0 < rf_bufOffset d" by (auto simp: rf_inv_def)
    then have w: "rf_messageLen d \<le> 202" using rf_expected_bound by simp
    show ?thesis
    proof (cases "RFSerial_write v d")
      case (Some r)
      then have "rf_idle (snd r)" unfolding rf_write_last [OF 3(1) w] by (auto simp: rf_idle_def bind_eq_Some_conv)
      then show ?thesis using Some by (cases r) (simp add: rf_inv_def)
    next
      case None
      then have "rf_buf d 0 = 0x30 \<or> rf_buf d 0 = 0xCF"
        unfolding rf_write_last [OF 3(1) w] using e(2) by (simp add: bind_eq_None_conv split: if_splits)
      then show ?thesis using None e 3(1) by (auto simp: rf_expected_def)
    qed
  qed
qed

text \<open>Bytes that do not complete a message are stored.\<close>

definition overwrite :: "(nat \<Rightarrow> 'a) \<Rightarrow> nat \<Rightarrow> 'a list \<Rightarrow> nat \<Rightarrow> 'a" where
  "overwrite b off xs = (\<lambda>i. if off \<le> i \<and> i < off + length xs then xs ! (i - off) else b i)"

lemma overwrite_Nil [simp]: "overwrite b off [] = b"
  by (rule ext) (auto simp: overwrite_def)

lemma overwrite_Cons: "overwrite (b(off := x)) (Suc off) xs = overwrite b off (x # xs)"
  by (rule ext) (auto simp: overwrite_def nth_Cons' le_Suc_eq)

lemma rf_writes_append:
  "rf_writes (xs @ ys) d = do { (o1, d) \<leftarrow> rf_writes xs d; (o2, d) \<leftarrow> rf_writes ys d; Some (o1 @ o2, d) }"
  by (induction xs arbitrary: d) (auto simp: bind_eq_Some_conv split: option.splits Option.bind_splits)

lemma rf_writes_store:
  assumes "0 < rf_messageLen d" "rf_bufOffset d + length bs < rf_messageLen d" "rf_messageLen d \<le> 202"
  shows "rf_writes bs d =
    Some ([], d\<lparr>rf_buf := overwrite (rf_buf d) (rf_bufOffset d) bs, rf_bufOffset := rf_bufOffset d + length bs\<rparr>)"
  using assms
proof (induction bs arbitrary: d)
  case (Cons b bs)
  have "RFSerial_write b d = Some (None, d\<lparr>rf_buf := (rf_buf d)(rf_bufOffset d := b), rf_bufOffset := rf_bufOffset d + 1\<rparr>)"
    using Cons.prems by (simp add: rf_write_store)
  then show ?case using Cons.prems by (simp add: Cons.IH overwrite_Cons [symmetric] fun_upd_def)
qed simp


section \<open>From one emulator to another\<close>

definition rf_headed :: "bool \<Rightarrow> u8 list \<Rightarrow> u8 list" where
  "rf_headed longPkt p = replicate 6 0xAA @ [0, if longPkt then 0xC8 else 0x32] @ p"

lemma length_rf_headed [simp]: "length (rf_headed longPkt p) = length p + 8"
  by (simp add: rf_headed_def)

lemma rf_packet_sends:
  assumes "rf_sendOpen d" "dumpPacket 200 (\<lambda>i. rf_buf d (2 + i)) longPkt \<noteq> None" "longPkt \<longleftrightarrow> rf_buf d 0 = 0xCF"
  shows "rf_packet d = Some (Some (rf_headed longPkt (map (\<lambda>i. rf_buf d (2 + i)) [0..<if longPkt then 120 else 30])),
    d\<lparr>rf_writeQueue := rf_writeQueue d @ [0x03], rf_lastHead := map (\<lambda>i. rf_buf d (2 + i)) [0..<16]\<rparr>)"
  using assms by (auto simp: rf_packet_def rf_headed_def Let_def)

lemma rf_own:
  assumes "take 16 p = rf_lastHead d" "length p = (if longPkt then 120 else 30)"
  shows "RFSerial_networkUpdate stale (Some (rf_headed longPkt p)) d = Some d"
  using assms by (auto simp: RFSerial_networkUpdate_def rf_headed_def Let_def)

lemma rf_head7: "(replicate 6 x @ a # b # q) ! 7 = b"
  by (simp add: nth_append)

lemma rf_head8: "(\<lambda>i. (replicate 6 x @ a # b # q) ! (8 + i)) = (!) q"
  by (rule ext) (simp add: nth_append)

lemma name_ends_more:
  assumes "name_ends m g" "\<And>i. i < m \<Longrightarrow> h i = g i" "2 \<le> m" "m \<le> n" shows "name_ends n h"
proof -
  have "h 0 = g 0" "h 1 = g 1" using assms(2,3) by simp_all
  then show ?thesis using assms unfolding name_ends_def Let_def by fastforce
qed

lemma rf_receive:
  assumes "rf_recvOpen d" "take 16 p \<noteq> rf_lastHead d" "length p = (if longPkt then 120 else 30)"
    and ends: "drop_bit 5 (p ! 9) = 1 \<Longrightarrow> p ! 10 \<le> 1 \<Longrightarrow> name_ends (if longPkt then 104 else 14) (\<lambda>i. p ! (16 + i))"
  shows "RFSerial_networkUpdate stale (Some (rf_headed longPkt p)) d = Some (d\<lparr>rf_writeQueue :=
    rf_writeQueue d @ rf_headed longPkt (p @ eccCalc (rf_tables d) (if longPkt then rsPoly80 d else rsPoly20 d)
      (if longPkt then 80 else 20) p)\<rparr>)"
proof -
  have "\<exists>y. dumpPacket 1016 (\<lambda>i. (p @ q) ! i) longPkt = Some y" for q
  proof -
    have n: "(p @ q) ! i = p ! i" if "i < length p" for i using that by (simp add: nth_append)
    have "dumpPacket 1016 (\<lambda>i. (p @ q) ! i) longPkt \<noteq> None"
    proof (rule dumpPacket_some)
      assume "drop_bit 5 ((p @ q) ! 9) = 1" "(p @ q) ! 10 \<le> 1"
      then have "name_ends (if longPkt then 104 else 14) (\<lambda>i. p ! (16 + i))"
        using ends n [of 9] n [of 10] assms(3) by (simp split: if_splits)
      moreover have "(p @ q) ! (16 + i) = p ! (16 + i)" if "i < (if longPkt then 104 else 14)" for i
        using that assms(3) by (intro n) (simp split: if_splits)
      ultimately show "name_ends (1016 - 16) (\<lambda>i. (p @ q) ! (16 + i))"
        by (rule name_ends_more) simp_all
    qed simp
    then show ?thesis by auto
  qed
  then obtain f where "dumpPacket 1016 (\<lambda>i. (p @ q) ! i) longPkt = Some (f q)" for q by metis
  then show ?thesis
    using assms(1-3) by (cases longPkt) (auto simp: RFSerial_networkUpdate_def rf_headed_def RFSerial_eccCalc_def Let_def rf_head7 rf_head8)
qed

text \<open>The bytes of a whole message, in the buffer.\<close>

lemma rf_message:
  assumes "rf_idle d" "length msg = rf_expected (msg ! 0)" "msg ! 0 = 0x30 \<or> msg ! 0 = 0xCF"
  shows "\<exists>e. rf_buf e = overwrite (rf_buf d) 0 msg \<and> rf_sendOpen e = rf_sendOpen d \<and> rf_recvOpen e = rf_recvOpen d \<and>
    rf_writeQueue e = rf_writeQueue d \<and>
    rf_writes msg d = do { (out, s) \<leftarrow> rf_packet e; Some (case out of None \<Rightarrow> [] | Some x \<Rightarrow> [x], s\<lparr>rf_messageLen := 0, rf_bufOffset := 0\<rparr>) }"
proof -
  have L: "rf_expected (msg ! 0) \<in> {52, 202}" using assms(3) by (auto simp: rf_expected_def)
  define cmd bs l where "cmd = msg ! 0" and "bs = butlast (tl msg)" and "l = last msg"
  have "tl msg \<noteq> []" using L assms(2) by (cases msg; cases "tl msg") auto
  then have msg: "msg = [cmd] @ bs @ [l]" unfolding cmd_def bs_def l_def by (cases msg) auto
  have len: "length bs + 2 = rf_expected cmd" using assms(2) msg unfolding cmd_def [symmetric] by simp
  define d1 where "d1 = (rf_stored cmd d)\<lparr>rf_bufOffset := 1, rf_messageLen := rf_expected cmd\<rparr>"
  define d2 where "d2 = d1\<lparr>rf_buf := overwrite (rf_buf d1) 1 bs, rf_bufOffset := 1 + length bs\<rparr>"
  define e where "e = rf_stored l d2"
  have o: "rf_bufOffset d = 0" using assms(1) by (simp add: rf_idle_def)
  have 1: "RFSerial_write cmd d = Some (None, d1)"
    using rf_write_first [OF assms(1), of cmd] L by (auto simp: d1_def cmd_def)
  have 2: "rf_writes bs d1 = Some ([], d2)"
    using rf_writes_store [of d1 bs] len rf_expected_bound [of cmd] by (simp add: d1_def d2_def)
  have b: "rf_buf e = overwrite (rf_buf d) 0 msg"
    by (rule ext) (auto simp: e_def d2_def d1_def msg overwrite_def nth_append nth_Cons' o)
  then have z: "rf_buf e 0 = cmd" by (simp add: msg overwrite_def)
  have 3: "RFSerial_write l d2 = do { (out, d) \<leftarrow> rf_packet e; Some (out, d\<lparr>rf_messageLen := 0, rf_bufOffset := 0\<rparr>) }"
    using rf_write_last [of d2 l] len rf_expected_bound [of cmd] assms(3) z unfolding e_def [symmetric]
    by (auto simp: d2_def d1_def cmd_def)
  have "rf_writes msg d = do { (out, s) \<leftarrow> rf_packet e; Some (case out of None \<Rightarrow> [] | Some x \<Rightarrow> [x], s\<lparr>rf_messageLen := 0, rf_bufOffset := 0\<rparr>) }"
    unfolding msg rf_writes_append using 1 2 3 by (auto split: Option.bind_splits option.splits)
  then show ?thesis using b by (intro exI [of _ e]) (simp add: e_def d2_def d1_def)
qed


text \<open>C26:
  A packet gets from one emulator to another.  A Cybiko whose radio is idle writes a command byte
  (short or long packet), a byte that is ignored and the packet: the radio is idle again, it
  has queued one acknowledgement and sent one datagram, the emulator that sent it
  ignores it when the network returns it, and every other emulator queues for its Cybiko the
  six bytes of the preamble, the two of the packet's kind, the header and data as
  written and the error correction bytes of the Reed-Solomon code.  Two conditions are on what both emulators
  print of the packet: that the sender does not read past its buffer for a length the packet contains, and that the
  name of an application in the first packet of a message ends with a 0 before the packet does, as both print it up to the next 0.
\<close>

theorem rf_link:
  assumes "rf_idle s" "rf_sendOpen s" "cmd = 0x30 \<or> cmd = 0xCF" "longPkt \<longleftrightarrow> cmd = 0xCF"
    and "length p = (if longPkt then 120 else 30)" "length e = (if longPkt then 80 else 20)"
    and "dumpPacket 200 (\<lambda>i. overwrite (rf_buf s) 0 (cmd # x # p @ e) (2 + i)) longPkt \<noteq> None"
    and "drop_bit 5 (p ! 9) = 1 \<and> p ! 10 \<le> 1 \<longrightarrow> name_ends (if longPkt then 104 else 14) (\<lambda>i. p ! (16 + i))"
    and "rf_recvOpen r" "rf_lastHead r \<noteq> take 16 p"
  shows "\<exists>s' datagram. rf_writes (cmd # x # p @ e) s = Some ([datagram], s') \<and>
    rf_idle s' \<and> rf_writeQueue s' = rf_writeQueue s @ [0x03] \<and>
    RFSerial_networkUpdate stale (Some datagram) s' = Some s' \<and>
    RFSerial_networkUpdate stale (Some datagram) r = Some (r\<lparr>rf_writeQueue :=
      rf_writeQueue r @ replicate 6 0xAA @ [0, if longPkt then 0xC8 else 0x32] @ p @
        eccCalc (rf_tables r) (if longPkt then rsPoly80 r else rsPoly20 r) (length e) p\<rparr>)"
proof -
  let ?msg = "cmd # x # p @ e" and ?n = "if longPkt then 120 else 30 :: nat"
  have "length ?msg = rf_expected (?msg ! 0)" using assms(3-6) by (auto simp: rf_expected_def)
  from rf_message [OF assms(1) this] assms(2,3) obtain d where
    d: "rf_buf d = overwrite (rf_buf s) 0 ?msg" "rf_sendOpen d" "rf_writeQueue d = rf_writeQueue s"
    and w: "rf_writes ?msg s = do { (out, s) \<leftarrow> rf_packet d;
        Some (case out of None \<Rightarrow> [] | Some x \<Rightarrow> [x], s\<lparr>rf_messageLen := 0, rf_bufOffset := 0\<rparr>) }"
    by (simp only: nth_Cons_0) metis
  have m: "map (\<lambda>i. rf_buf d (2 + i)) [0..<k] = take k p" if "k \<le> length p" for k
    using that by (intro nth_equalityI) (simp_all add: d overwrite_def nth_append)
  have m16: "map (\<lambda>i. rf_buf d (2 + i)) [0..<16] = take 16 p" using assms(5) by (intro m) (simp split: if_splits)
  have mn: "map (\<lambda>i. rf_buf d (2 + i)) [0..<?n] = p" using m [of ?n] assms(5) by (cases longPkt) simp_all
  have dp: "dumpPacket 200 (\<lambda>i. rf_buf d (2 + i)) longPkt \<noteq> None" unfolding d(1) by (rule assms(7))
  have z: "longPkt \<longleftrightarrow> rf_buf d 0 = 0xCF" unfolding d(1) assms(4) by (simp add: overwrite_def)
  have "rf_packet d = Some (Some (rf_headed longPkt p),
      d\<lparr>rf_writeQueue := rf_writeQueue s @ [0x03], rf_lastHead := take 16 p\<rparr>)"
    using rf_packet_sends [OF d(2) dp z] by (simp only: m16 mn d(3))
  moreover define s' where "s' = d\<lparr>rf_writeQueue := rf_writeQueue s @ [0x03], rf_lastHead := take 16 p,
      rf_messageLen := 0, rf_bufOffset := 0\<rparr>"
  ultimately have "rf_writes ?msg s = Some ([rf_headed longPkt p], s')" unfolding w by simp
  moreover have "rf_idle s'" "rf_writeQueue s' = rf_writeQueue s @ [0x03]" by (simp_all add: s'_def rf_idle_def)
  moreover have "RFSerial_networkUpdate stale (Some (rf_headed longPkt p)) s' = Some s'"
    using assms(5) by (intro rf_own) (simp_all add: s'_def)
  moreover have "RFSerial_networkUpdate stale (Some (rf_headed longPkt p)) r = Some (r\<lparr>rf_writeQueue :=
      rf_writeQueue r @ replicate 6 0xAA @ [0, if longPkt then 0xC8 else 0x32] @ p @
        eccCalc (rf_tables r) (if longPkt then rsPoly80 r else rsPoly20 r) (length e) p\<rparr>)"
    using rf_receive [OF assms(9), of p longPkt stale] assms(5,6,8,10) by (auto simp: rf_headed_def)
  ultimately show ?thesis by blast
qed

text \<open>A packet that is neither a ping nor a message, from an emulator just started to another one.\<close>

definition rf_example :: rf_serial where
  "rf_example = RFSerial_new True True (\<lambda>_. 0) \<lparr>rsExpTable = \<lambda>_. 0, rsLogTable = \<lambda>_. 0\<rparr>
     (replicate 21 0) (replicate 81 0) (replicate 16 0)"

lemma rf_link_witness:
  "\<exists>s' datagram. rf_writes (0x30 # 0 # replicate 30 0xFF @ replicate 20 0) rf_example = Some ([datagram], s') \<and>
    RFSerial_networkUpdate [] (Some datagram) rf_example = Some (rf_example\<lparr>rf_writeQueue :=
      replicate 6 0xAA @ [0, 0x32] @ replicate 30 0xFF @
        eccCalc (rf_tables rf_example) (rsPoly20 rf_example) 20 (replicate 30 0xFF)\<rparr>)"
proof -
  let ?s = rf_example
  have s: "rf_idle ?s" "rf_sendOpen ?s" "rf_recvOpen ?s" "rf_lastHead ?s = replicate 16 0" "rf_writeQueue ?s = []"
    by (simp_all add: rf_example_def RFSerial_new_def RFSerial_eccInit_def Let_def rf_idle_def)
  have "dumpPacket 200 (\<lambda>i. overwrite (rf_buf ?s) 0 (0x30 # 0 # replicate 30 0xFF @ replicate 20 0) (2 + i)) False \<noteq> None"
    by (rule dumpPacket_not_message) (simp add: overwrite_def nth_append)
  moreover have "replicate 16 0 ! 0 \<noteq> replicate 16 (0xFF :: u8) ! 0" by simp
  then have "replicate 16 0 \<noteq> replicate 16 (0xFF :: u8)" by metis
  ultimately show ?thesis
    using rf_link [of ?s "0x30" False "replicate 30 0xFF" "replicate 20 0" 0 ?s "[]"] s by auto
qed

end
