(* ===== verification/SDCard.thy ===== *)
theory SDCard
  imports Prelude
begin

text \<open>
  \<open>BootSerial.cpp\<close>, first part: the SD card, behind the second serial port of the Xtreme.  It is
  a state machine over the bytes written to it, with a queue of the bytes to be read, on a
  file.  The refinement lemmas show that the commands that read and write blocks implement
  an array of bytes.
\<close>

section \<open>The file\<close>

text \<open>
  A \<open>fstream\<close> of the standard library, \<open>None\<close> when it is not open.  An address is an \<open>int\<close>; a
  seek to a negative one fails, and what follows has no effect.  A short read leaves the
  rest of the destination as it was, and a write after the end fills the gap with zeros.
\<close>

type_synonym disk = "u8 list option"

definition file_read :: "u32 \<Rightarrow> nat \<Rightarrow> disk \<Rightarrow> u8 list" where
  "file_read a n f =
     (case f of None \<Rightarrow> [] | Some bs \<Rightarrow> if sint a < 0 then [] else take n (drop (unat a) bs))"

definition overlay :: "nat \<Rightarrow> 'a list \<Rightarrow> 'a list \<Rightarrow> 'a list" where
  "overlay i xs bs = take i bs @ xs @ drop (i + length xs) bs"

definition file_write :: "u32 \<Rightarrow> u8 list \<Rightarrow> disk \<Rightarrow> disk" where
  "file_write a xs f =
     (case f of None \<Rightarrow> None
      | Some bs \<Rightarrow> if sint a < 0 then Some bs
                  else Some (overlay (unat a) xs (bs @ replicate (unat a - length bs) 0)))"

section \<open>State\<close>

abbreviation Status_Idle :: u8 where "Status_Idle \<equiv> 1"
abbreviation Status_AppCmd :: u8 where "Status_AppCmd \<equiv> 2"
abbreviation Status_MultiBlock :: u8 where "Status_MultiBlock \<equiv> 4"
abbreviation Status_Reading :: u8 where "Status_Reading \<equiv> 8"
abbreviation Status_Writing :: u8 where "Status_Writing \<equiv> 16"
abbreviation Status_WriteGotToken :: u8 where "Status_WriteGotToken \<equiv> 32"

record sdcard =
  sd_didWrite :: bool
  sd_status :: u8
  sd_readAddress :: u32
  sd_writeAddress :: u32
  sd_writeBuf :: "nat \<Rightarrow> u8"
  sd_writeOffset :: nat
  sd_cmd :: "nat \<Rightarrow> u8"
  sd_cmdOff :: nat
  sd_readQueue :: "u8 list"
  sd_file :: disk

text \<open>The two arrays are not initialised by C++.\<close>

definition SDCard_new :: "(nat \<Rightarrow> u8) \<Rightarrow> (nat \<Rightarrow> u8) \<Rightarrow> sdcard" where
  "SDCard_new wb cb =
     \<lparr>sd_didWrite = False, sd_status = 0, sd_readAddress = 0, sd_writeAddress = 0, sd_writeBuf = wb, sd_writeOffset = 0,
      sd_cmd = cb, sd_cmdOff = 0, sd_readQueue = [], sd_file = None\<rparr>"

abbreviation sd_set :: "u8 \<Rightarrow> sdcard \<Rightarrow> sdcard" where
  "sd_set m d \<equiv> d\<lparr>sd_status := sd_status d OR m\<rparr>"

abbreviation sd_clear :: "u8 \<Rightarrow> sdcard \<Rightarrow> sdcard" where
  "sd_clear m d \<equiv> d\<lparr>sd_status := sd_status d AND NOT m\<rparr>"

abbreviation sd_push :: "u8 list \<Rightarrow> sdcard \<Rightarrow> sdcard" where
  "sd_push bs d \<equiv> d\<lparr>sd_readQueue := sd_readQueue d @ bs\<rparr>"

section \<open>Operations\<close>

definition SDCard_read :: "sdcard \<Rightarrow> u8 \<times> sdcard" where
  "SDCard_read d =
     (let d = d\<lparr>sd_didWrite := False\<rparr>
      in case sd_readQueue d of [] \<Rightarrow> (0xFF, d) | ret # q \<Rightarrow> (ret, d\<lparr>sd_readQueue := q\<rparr>))"

definition SDCard_canRead :: "sdcard \<Rightarrow> bool" where
  "SDCard_canRead d = sd_didWrite d"

text \<open>\<open>stale\<close> is what the local array of a block contains before it is read.\<close>

definition SDCard_sendBlock :: "u8 list \<Rightarrow> sdcard \<Rightarrow> sdcard" where
  "SDCard_sendBlock stale d =
     (let bs = file_read (sd_readAddress d) 512 (sd_file d);
          buf = bs @ drop (length bs) stale;
          d = sd_push ([0xFF, 0xFE] @ buf @ [0xFF, 0xFF]) d
      in d\<lparr>sd_readAddress := sd_readAddress d + 512\<rparr>)"

definition sd_idle :: "sdcard \<Rightarrow> u8" where
  "sd_idle d = (if tst (sd_status d) Status_Idle then 0x01 else 0x00)"

definition sd_csd :: "u8 list" where
  "sd_csd = [0x00, 0x36, 0x00, 0x32, 0x17, 0x59, 0x81, 0xD7, 0xF6, 0xDA, 0x7F, 0x81, 0x96, 0x40, 0x00, 0x51]"

definition sd_cid :: "u8 list" where
  "sd_cid = [0x00, 0x4D, 0x4D, 0x41, 0x41, 0x41, 0x41, 0x41, 0x00, 0x00, 0x00, 0x00, 0x00, 0x00, 0x00, 0xF1]"

definition sd_appCommand :: "sdcard \<Rightarrow> sdcard" where
  "sd_appCommand d =
     (let d = sd_clear Status_AppCmd d
      in if sd_cmd d 0 AND 0x3F = 41 then sd_push [0x00] (sd_clear Status_Idle d) else d)"

definition sd_arg :: "(nat \<Rightarrow> u8) \<Rightarrow> u32" where
  "sd_arg cmd = push_bit 24 (ucast (cmd 1)) OR push_bit 16 (ucast (cmd 2)) OR push_bit 8 (ucast (cmd 3)) OR ucast (cmd 4)"

definition sd_command :: "u8 list \<Rightarrow> sdcard \<Rightarrow> sdcard" where
  "sd_command stale d =
     (let arg = sd_arg (sd_cmd d); command = sd_cmd d 0 AND 0x3F
      in if command = 0 then sd_push [0x01] (sd_set Status_Idle d)
         else if command = 9 then sd_push ([sd_idle d, 0xFE] @ sd_csd @ [0xFF, 0xFF]) d
         else if command = 10 then sd_push ([sd_idle d, 0xFE] @ sd_cid @ [0xFF, 0xFF]) d
         else if command = 12 then
           (sd_clear (Status_Reading OR Status_Writing OR Status_MultiBlock) d)\<lparr>sd_readQueue := [0xFF, 0x00]\<rparr>
         else if command = 17 then SDCard_sendBlock stale ((sd_push [0x00] d)\<lparr>sd_readAddress := arg\<rparr>)
         else if command = 18 then
           SDCard_sendBlock stale (sd_set (Status_Reading OR Status_MultiBlock) ((sd_push [0x00] d)\<lparr>sd_readAddress := arg\<rparr>))
         else if command = 24 then
           (sd_clear Status_WriteGotToken (sd_set Status_Writing ((sd_push [0x00] d)\<lparr>sd_writeAddress := arg\<rparr>)))\<lparr>sd_writeOffset := 0\<rparr>
         else if command = 25 then
           (sd_clear Status_WriteGotToken (sd_set (Status_Writing OR Status_MultiBlock)
             ((sd_push [0x00] d)\<lparr>sd_writeAddress := arg\<rparr>)))\<lparr>sd_writeOffset := 0\<rparr>
         else if command = 55 then (let d = sd_set Status_AppCmd d in sd_push [sd_idle d] d)
         else sd_push [if tst (sd_status d) Status_Idle then 0x05 else 0x04] d)"

text \<open>A byte of a block, of its check sum, or a token.\<close>

definition sd_blockByte :: "u8 \<Rightarrow> sdcard \<Rightarrow> sdcard" where
  "sd_blockByte val d =
     (let token = (if tst (sd_status d) Status_MultiBlock then 0xFC else 0xFE)
      in if \<not> tst (sd_status d) Status_WriteGotToken \<and> val = token then sd_set Status_WriteGotToken d
         else if tst (sd_status d) Status_WriteGotToken
         then if sd_writeOffset d = 512 + 1
              then let d = sd_push [0x05, 0x00] d;
                       d = (if tst (sd_status d) Status_MultiBlock
                            then sd_clear Status_WriteGotToken (d\<lparr>sd_writeOffset := 0\<rparr>)
                            else sd_clear Status_Writing d);
                       d = d\<lparr>sd_file := file_write (sd_writeAddress d) (map (sd_writeBuf d) [0..<512]) (sd_file d)\<rparr>
                   in d\<lparr>sd_writeAddress := sd_writeAddress d + 512\<rparr>
              else let d = (if sd_writeOffset d < 512 then d\<lparr>sd_writeBuf := (sd_writeBuf d)(sd_writeOffset d := val)\<rparr> else d)
                   in d\<lparr>sd_writeOffset := sd_writeOffset d + 1\<rparr>
         else if tst (sd_status d) Status_MultiBlock \<and> val = 0xFD
         then sd_clear (Status_Writing OR Status_MultiBlock) d
         else d)"

definition SDCard_write :: "u8 list \<Rightarrow> u8 \<Rightarrow> sdcard \<Rightarrow> sdcard" where
  "SDCard_write stale val d =
     (let d = d\<lparr>sd_didWrite := True\<rparr>;
          d = (if sd_cmdOff d \<noteq> 0
               then let d = d\<lparr>sd_cmd := (sd_cmd d)(sd_cmdOff d := val), sd_cmdOff := sd_cmdOff d + 1\<rparr>
                    in if sd_cmdOff d = 6
                       then (if tst (sd_status d) Status_AppCmd then sd_appCommand d else sd_command stale d)\<lparr>sd_cmdOff := 0\<rparr>
                       else d
               else if tst (sd_status d) Status_Writing then sd_blockByte val d
               else if val AND 0xC0 = 0x40 then d\<lparr>sd_cmd := (sd_cmd d)(sd_cmdOff d := val), sd_cmdOff := sd_cmdOff d + 1\<rparr>
               else d);
          multiRead = Status_Reading OR Status_MultiBlock
      in if sd_status d AND multiRead = multiRead \<and> sd_readQueue d = [] then SDCard_sendBlock stale d else d)"

text \<open>\<open>setFile\<close>: \<open>existing\<close> is the contents of the file when there is one; otherwise it is created.\<close>

definition SDCard_setFile :: "disk \<Rightarrow> sdcard \<Rightarrow> sdcard" where
  "SDCard_setFile existing d = d\<lparr>sd_file := Some (case existing of Some bs \<Rightarrow> bs | None \<Rightarrow> [])\<rparr>"


section \<open>Steps\<close>

definition multi_reading :: "sdcard \<Rightarrow> bool" where
  "multi_reading d \<longleftrightarrow> bit (sd_status d) 2 \<and> bit (sd_status d) 3"

lemma multi_status: "s AND (Status_Reading OR Status_MultiBlock) = Status_Reading OR Status_MultiBlock \<longleftrightarrow> bit s 2 \<and> bit s 3"
  for s :: u8
proof -
  have "Status_Reading OR Status_MultiBlock = (12 :: u8)" by simp
  moreover have "s AND 12 = 12 \<longleftrightarrow> bit s 2 \<and> bit s 3"
  proof
    assume "s AND 12 = 12"
    then have "bit (s AND 12) n = bit (12 :: u8) n" for n by simp
    from this [of 2] this [of 3] show "bit s 2 \<and> bit s 3" by (simp add: bit_and_iff)
  qed (rule u8_eqI; simp add: bit_and_iff)
  ultimately show ?thesis by simp
qed

text \<open>The block that is sent when the last one has been read.\<close>

definition sd_refill :: "u8 list \<Rightarrow> sdcard \<Rightarrow> sdcard" where
  "sd_refill stale d = (if multi_reading d \<and> sd_readQueue d = [] then SDCard_sendBlock stale d else d)"

lemma SDCard_write_cases:
  "0 < sd_cmdOff d \<Longrightarrow> sd_cmdOff d \<noteq> 5 \<Longrightarrow>
     SDCard_write stale v d = sd_refill stale (d\<lparr>sd_didWrite := True, sd_cmd := (sd_cmd d)(sd_cmdOff d := v), sd_cmdOff := sd_cmdOff d + 1\<rparr>)"
  "sd_cmdOff d = 5 \<Longrightarrow> \<not> bit (sd_status d) 1 \<Longrightarrow>
     SDCard_write stale v d = sd_refill stale ((sd_command stale (d\<lparr>sd_didWrite := True, sd_cmd := (sd_cmd d)(5 := v), sd_cmdOff := 6\<rparr>))\<lparr>sd_cmdOff := 0\<rparr>)"
  "sd_cmdOff d = 0 \<Longrightarrow> bit (sd_status d) 4 \<Longrightarrow>
     SDCard_write stale v d = sd_refill stale (sd_blockByte v (d\<lparr>sd_didWrite := True\<rparr>))"
  "sd_cmdOff d = 0 \<Longrightarrow> \<not> bit (sd_status d) 4 \<Longrightarrow> v AND 0xC0 = 0x40 \<Longrightarrow>
     SDCard_write stale v d = sd_refill stale (d\<lparr>sd_didWrite := True, sd_cmd := (sd_cmd d)(0 := v), sd_cmdOff := 1\<rparr>)"
  "sd_cmdOff d = 0 \<Longrightarrow> \<not> bit (sd_status d) 4 \<Longrightarrow> v AND 0xC0 \<noteq> 0x40 \<Longrightarrow>
     SDCard_write stale v d = sd_refill stale (d\<lparr>sd_didWrite := True\<rparr>)"
  unfolding SDCard_write_def sd_refill_def multi_reading_def Let_def multi_status
  by (simp_all del: bit_or_iff)


lemma refill_more [simp]:
  "sd_didWrite (sd_refill stale d) = sd_didWrite d" "sd_status (sd_refill stale d) = sd_status d"
  "sd_cmd (sd_refill stale d) = sd_cmd d" "sd_cmdOff (sd_refill stale d) = sd_cmdOff d" "sd_file (sd_refill stale d) = sd_file d"
  by (simp_all add: sd_refill_def SDCard_sendBlock_def Let_def)

lemma refill_cmd: "(sd_refill stale d)\<lparr>sd_cmd := c, sd_cmdOff := n\<rparr> = sd_refill stale (d\<lparr>sd_cmd := c, sd_cmdOff := n\<rparr>)"
  by (simp add: sd_refill_def SDCard_sendBlock_def multi_reading_def Let_def)

lemma refill_didWrite: "(sd_refill stale d)\<lparr>sd_didWrite := w\<rparr> = sd_refill stale (d\<lparr>sd_didWrite := w\<rparr>)"
  by (simp add: sd_refill_def SDCard_sendBlock_def multi_reading_def Let_def)

lemma refill_queue: "sd_readQueue d \<noteq> [] \<Longrightarrow> sd_refill stale d = d" "\<not> multi_reading d \<Longrightarrow> sd_refill stale d = d"
  by (simp_all add: sd_refill_def)

lemma refill_refill [simp]: "sd_refill stale (sd_refill stale d) = sd_refill stale d"
  by (simp add: sd_refill_def SDCard_sendBlock_def Let_def)

section \<open>What a host sends and receives\<close>

abbreviation sd_sends :: "u8 list \<Rightarrow> u8 list \<Rightarrow> sdcard \<Rightarrow> sdcard" where
  "sd_sends stale \<equiv> fold (SDCard_write stale)"

text \<open>The host writes 0xFF while it reads.\<close>

fun sd_receive :: "u8 list \<Rightarrow> nat \<Rightarrow> sdcard \<Rightarrow> u8 list \<times> sdcard" where
  "sd_receive stale 0 d = ([], d)"
| "sd_receive stale (Suc n) d =
     (let (b, d) = SDCard_read (SDCard_write stale 0xFF d); (bs, d) = sd_receive stale n d in (b # bs, d))"

definition sd_message :: "u8 \<Rightarrow> u32 \<Rightarrow> u8 list" where
  "sd_message command a =
     [0x40 OR command, ucast (drop_bit 24 a), ucast (drop_bit 16 a), ucast (drop_bit 8 a), ucast a, 0xFF]"

lemma sends_message:
  assumes "sd_cmdOff d = 0" "\<not> bit (sd_status d) 1" "\<not> bit (sd_status d) 4" "(0x40 OR command) AND 0xC0 = 0x40"
  shows "\<exists>cmd. cmd 0 = 0x40 OR command \<and> sd_arg cmd = a \<and> sd_sends stale (sd_message command a) d =
    sd_refill stale ((sd_command stale (sd_refill stale (d\<lparr>sd_didWrite := True, sd_cmd := cmd, sd_cmdOff := 6\<rparr>)))\<lparr>sd_cmdOff := 0\<rparr>)"
proof -
  define c where "c = (\<lambda>k :: nat. (sd_cmd d)(0 := 0x40 OR command, 1 := (if 1 < k then ucast (drop_bit 24 a) else sd_cmd d 1),
    2 := (if 2 < k then ucast (drop_bit 16 a) else sd_cmd d 2), 3 := (if 3 < k then ucast (drop_bit 8 a) else sd_cmd d 3),
    4 := (if 4 < k then ucast a else sd_cmd d 4), 5 := (if 5 < k then 0xFF else sd_cmd d 5)))"
  have c: "c 1 = (sd_cmd d)(0 := 0x40 OR command)" "(c 1)(1 := ucast (drop_bit 24 a)) = c 2" "(c 2)(2 := ucast (drop_bit 16 a)) = c 3"
    "(c 3)(3 := ucast (drop_bit 8 a)) = c 4" "(c 4)(4 := ucast a) = c 5" "(c 5)(5 := 0xFF) = c 6"
    by (rule ext; auto simp: c_def)+
  define e where "e = (\<lambda>k. sd_refill stale (d\<lparr>sd_didWrite := True, sd_cmd := c k, sd_cmdOff := k\<rparr>))"
  have 0: "SDCard_write stale (0x40 OR command) d = e 1"
    unfolding e_def c(1) using assms by (intro SDCard_write_cases(4))
  have next_byte: "SDCard_write stale v (e k) = e (k + 1)" if "0 < k" "k < 5" "(c k)(k := v) = c (k + 1)" for k v
  proof -
    have o: "sd_cmdOff (e k) = k" "sd_cmd (e k) = c k" by (simp_all add: e_def)
    have "SDCard_write stale v (e k) = sd_refill stale ((e k)\<lparr>sd_didWrite := True, sd_cmd := (c k)(k := v), sd_cmdOff := k + 1\<rparr>)"
      using SDCard_write_cases(1) [of "e k" stale v] that by (simp add: o)
    also have "\<dots> = sd_refill stale ((e k)\<lparr>sd_didWrite := True\<rparr>\<lparr>sd_cmd := c (k + 1), sd_cmdOff := k + 1\<rparr>)" using that(3) by simp
    finally show ?thesis by (simp add: e_def refill_cmd refill_didWrite)
  qed
  have "sd_sends stale (sd_message command a) d = SDCard_write stale 0xFF (e 5)"
    using next_byte [of 1 "ucast (drop_bit 24 a)"] next_byte [of 2 "ucast (drop_bit 16 a)"] next_byte [of 3 "ucast (drop_bit 8 a)"]
      next_byte [of 4 "ucast a"] c(2-5)
    by (simp add: sd_message_def 0 fun_upd_def del: One_nat_def)
  also have "\<dots> = sd_refill stale ((sd_command stale ((e 5)\<lparr>sd_didWrite := True\<rparr>\<lparr>sd_cmd := c 6, sd_cmdOff := 6\<rparr>))\<lparr>sd_cmdOff := 0\<rparr>)"
    using SDCard_write_cases(2) [of "e 5" stale "0xFF"] assms(2) c(6) by (simp add: e_def fun_upd_def)
  also have "(e 5)\<lparr>sd_didWrite := True\<rparr>\<lparr>sd_cmd := c 6, sd_cmdOff := 6\<rparr> = sd_refill stale (d\<lparr>sd_didWrite := True, sd_cmd := c 6, sd_cmdOff := 6\<rparr>)"
    by (simp add: e_def refill_cmd refill_didWrite)
  finally show ?thesis
    by (intro exI [of _ "c 6"]) (simp add: c_def sd_arg_def u32_bytes)
qed


text \<open>Reading what is queued; after the last byte of a block of a multiple read the next is queued.\<close>

definition sd_listens :: "sdcard \<Rightarrow> bool" where
  "sd_listens d \<longleftrightarrow> sd_cmdOff d = 0 \<and>
     (bit (sd_status d) 4 \<longrightarrow> \<not> bit (sd_status d) 5)"

lemma tst_status [simp]:
  "tst (sd_status d) Status_AppCmd \<longleftrightarrow> bit (sd_status d) 1" "tst (sd_status d) Status_Idle \<longleftrightarrow> bit (sd_status d) 0"
  by simp_all

lemma write_FF: "sd_listens d \<Longrightarrow> SDCard_write stale 0xFF d = sd_refill stale (d\<lparr>sd_didWrite := True\<rparr>)"
  using SDCard_write_cases(3) [where d = d and v = "0xFF" and stale = stale] SDCard_write_cases(5) [where d = d and v = "0xFF" and stale = stale] by (cases "bit (sd_status d) 4") (auto simp: sd_listens_def sd_blockByte_def Let_def)

lemma receive_queue:
  assumes "sd_listens d" "sd_readQueue d = xs @ q" "xs \<noteq> []"
  shows "sd_receive stale (length xs) d = (xs, d\<lparr>sd_didWrite := False, sd_readQueue := q\<rparr>)"
  using assms
proof (induction xs arbitrary: d)
  case (Cons x xs)
  let ?d = "d\<lparr>sd_didWrite := False, sd_readQueue := xs @ q\<rparr>"
  have w: "SDCard_write stale 0xFF d = d\<lparr>sd_didWrite := True\<rparr>"
    using Cons.prems by (simp add: write_FF refill_queue(1))
  have r: "SDCard_read (SDCard_write stale 0xFF d) = (x, ?d)"
    using Cons.prems(2) by (simp add: w SDCard_read_def Let_def)
  show ?case
  proof (cases xs)
    case Nil
    then show ?thesis using r by simp
  next
    case (Cons y ys)
    then have "sd_receive stale (length xs) ?d = (xs, ?d\<lparr>sd_didWrite := False, sd_readQueue := q\<rparr>)"
      using \<open>sd_listens d\<close> by (intro Cons.IH) (auto simp: sd_listens_def)
    then show ?thesis using r by simp
  qed
qed simp

lemma receive_add:
  "sd_receive stale (m + n) d = (let (a, d) = sd_receive stale m d; (b, d) = sd_receive stale n d in (a @ b, d))"
  by (induction m arbitrary: d) (auto split: prod.splits)

text \<open>The block at an address of the file.\<close>

definition block_at :: "u8 list \<Rightarrow> nat \<Rightarrow> u8 list" where
  "block_at f a = take 512 (drop a f)"

lemma sint_address: "a < 2 ^ 31 \<Longrightarrow> sint (of_nat a :: u32) = int a \<and> unat (of_nat a :: u32) = a"
proof -
  assume a: "a < 2 ^ 31"
  then have u: "unat (of_nat a :: u32) = a" by (simp add: unsigned_of_nat take_bit_nat_eq_self)
  moreover have "uint (of_nat a :: u32) = int a" using u by (metis uint_nat)
  then have "sint (of_nat a :: u32) = int a" using a by (simp add: sint_uint signed_take_bit_int_eq_self)
  ultimately show ?thesis by simp
qed

lemma sendBlock_at:
  assumes "sd_file d = Some f" "sd_readAddress d = of_nat a" "a + 512 \<le> length f" "length f \<le> 2 ^ 31" "length stale = 512"
  shows "SDCard_sendBlock stale d =
    d\<lparr>sd_readQueue := sd_readQueue d @ [0xFF, 0xFE] @ block_at f a @ [0xFF, 0xFF], sd_readAddress := of_nat (a + 512)\<rparr>"
  using assms sint_address [of a] by (simp add: SDCard_sendBlock_def file_read_def block_at_def Let_def add.commute)


section \<open>The card as an array of blocks\<close>

text \<open>The operations of a block device, and what they mean for the bytes of the file.\<close>

datatype sd_op =
    Read_block nat
  | Read_blocks nat nat
  | Write_block nat "u8 list"
  | Write_blocks nat "u8 list list"

fun sd_spec :: "sd_op \<Rightarrow> u8 list \<Rightarrow> u8 list list \<times> u8 list" where
  "sd_spec (Read_block a) f = ([block_at f a], f)"
| "sd_spec (Read_blocks a n) f = (map (\<lambda>i. block_at f (a + 512 * i)) [0..<n], f)"
| "sd_spec (Write_block a b) f = ([], overlay a b f)"
| "sd_spec (Write_blocks a bs) f = ([], overlay a (concat bs) f)"

fun sd_valid :: "nat \<Rightarrow> sd_op \<Rightarrow> bool" where
  "sd_valid n (Read_block a) \<longleftrightarrow> a + 512 \<le> n"
| "sd_valid n (Read_blocks a k) \<longleftrightarrow> 0 < k \<and> a + 512 * k \<le> n"
| "sd_valid n (Write_block a b) \<longleftrightarrow> a + 512 \<le> n \<and> length b = 512"
| "sd_valid n (Write_blocks a bs) \<longleftrightarrow> a + 512 * length bs \<le> n \<and> (\<forall>b \<in> set bs. length b = 512)"

text \<open>
  The host: it sends the command, and checks every response and token.  \<open>None\<close> is an
  unexpected byte.
\<close>

definition sd_expect :: "u8 list \<Rightarrow> u8 list \<Rightarrow> sdcard \<Rightarrow> sdcard option" where
  "sd_expect stale bs d =
     (let (r, d) = sd_receive stale (length bs) d in if r = bs then Some d else None)"

definition host_readBlock :: "u8 list \<Rightarrow> sdcard \<Rightarrow> (u8 list \<times> sdcard) option" where
  "host_readBlock stale d =
     do { d \<leftarrow> sd_expect stale [0xFF, 0xFE] d;
          let (b, d) = sd_receive stale 512 d in do { d \<leftarrow> sd_expect stale [0xFF, 0xFF] d; Some (b, d) } }"

fun host_readBlocks :: "u8 list \<Rightarrow> nat \<Rightarrow> sdcard \<Rightarrow> (u8 list list \<times> sdcard) option" where
  "host_readBlocks stale 0 d = Some ([], d)"
| "host_readBlocks stale (Suc n) d =
     do { (b, d) \<leftarrow> host_readBlock stale d; (bs, d) \<leftarrow> host_readBlocks stale n d; Some (b # bs, d) }"

definition host_writeBlock :: "u8 list \<Rightarrow> u8 \<Rightarrow> u8 list \<Rightarrow> sdcard \<Rightarrow> sdcard option" where
  "host_writeBlock stale token b d = sd_expect stale [0x05, 0x00] (sd_sends stale ([token] @ b @ [0xFF, 0xFF]) d)"

fun host_writeBlocks :: "u8 list \<Rightarrow> u8 list list \<Rightarrow> sdcard \<Rightarrow> sdcard option" where
  "host_writeBlocks stale [] d = Some d"
| "host_writeBlocks stale (b # bs) d = do { d \<leftarrow> host_writeBlock stale 0xFC b d; host_writeBlocks stale bs d }"

fun sd_host :: "u8 list \<Rightarrow> sd_op \<Rightarrow> sdcard \<Rightarrow> (u8 list list \<times> sdcard) option" where
  "sd_host stale (Read_block a) d =
     do { d \<leftarrow> sd_expect stale [0x00] (sd_sends stale (sd_message 17 (of_nat a)) d);
          (b, d) \<leftarrow> host_readBlock stale d; Some ([b], d) }"
| "sd_host stale (Read_blocks a n) d =
     do { d \<leftarrow> sd_expect stale [0x00] (sd_sends stale (sd_message 18 (of_nat a)) d);
          (bs, d) \<leftarrow> host_readBlocks stale n d;
          d \<leftarrow> sd_expect stale [0xFF, 0x00] (sd_sends stale (sd_message 12 0) d);
          Some (bs, d) }"
| "sd_host stale (Write_block a b) d =
     do { d \<leftarrow> sd_expect stale [0x00] (sd_sends stale (sd_message 24 (of_nat a)) d);
          d \<leftarrow> host_writeBlock stale 0xFE b d; Some ([], d) }"
| "sd_host stale (Write_blocks a bs) d =
     do { d \<leftarrow> sd_expect stale [0x00] (sd_sends stale (sd_message 25 (of_nat a)) d);
          d \<leftarrow> host_writeBlocks stale bs d; Some ([], SDCard_write stale 0xFD d) }"

text \<open>No command, no data and nothing queued.\<close>

definition sd_ready :: "u8 list \<Rightarrow> sdcard \<Rightarrow> bool" where
  "sd_ready f d \<longleftrightarrow> sd_cmdOff d = 0 \<and> sd_readQueue d = [] \<and> sd_file d = Some f \<and>
     \<not> bit (sd_status d) 1 \<and> \<not> bit (sd_status d) 2 \<and> \<not> bit (sd_status d) 3 \<and> \<not> bit (sd_status d) 4"

lemma expect_queue:
  "sd_listens d \<Longrightarrow> sd_readQueue d = bs @ q \<Longrightarrow> bs \<noteq> [] \<Longrightarrow>
   sd_expect stale bs d = Some (d\<lparr>sd_didWrite := False, sd_readQueue := q\<rparr>)"
  by (simp add: sd_expect_def receive_queue)

lemma flag_bits:
  "bit (4 :: u8) n \<longleftrightarrow> n = 2" "bit (8 :: u8) n \<longleftrightarrow> n = 3" "bit (16 :: u8) n \<longleftrightarrow> n = 4" "bit (32 :: u8) n \<longleftrightarrow> n = 5"
  using bit_exp_iff [of 2 n, where ?'a = u8] apply auto[1]
  using bit_exp_iff [of 3 n, where ?'a = u8] apply auto[1]
  using bit_exp_iff [of 4 n, where ?'a = u8] apply auto[1]
  using bit_exp_iff [of 5 n, where ?'a = u8] apply auto[1]
  done

lemma status_bits:
  "bit (s OR 16 :: u8) n \<longleftrightarrow> bit s n \<or> n = 4" "bit (s OR (8 OR 4) :: u8) n \<longleftrightarrow> bit s n \<or> n = 2 \<or> n = 3"
  "bit (s OR (16 OR 4) :: u8) n \<longleftrightarrow> bit s n \<or> n = 2 \<or> n = 4" "bit (s OR 32 :: u8) n \<longleftrightarrow> bit s n \<or> n = 5"
  "bit (s AND NOT 32 :: u8) n \<longleftrightarrow> bit s n \<and> n \<noteq> 5" "bit (s AND NOT 16 :: u8) n \<longleftrightarrow> bit s n \<and> n \<noteq> 4"
  "bit (s AND NOT (8 OR 16 OR 4) :: u8) n \<longleftrightarrow> bit s n \<and> n \<notin> {2, 3, 4}"
  "bit (s AND NOT (16 OR 4) :: u8) n \<longleftrightarrow> bit s n \<and> n \<notin> {2, 4}"
  unfolding bit_or_iff bit_and_iff bit_not_iff flag_bits by (blast dest: bit_imp_possible_bit)+

subsection \<open>Reading\<close>

abbreviation sd_frame :: "u8 list \<Rightarrow> u8 list" where
  "sd_frame b \<equiv> [0xFF, 0xFE] @ b @ [0xFF, 0xFF]"

lemma host_readBlock_frame:
  assumes "sd_listens d" "sd_readQueue d = sd_frame b @ q" "length b = 512"
  shows "host_readBlock stale d = Some (b, d\<lparr>sd_didWrite := False, sd_readQueue := q\<rparr>)"
proof -
  let ?q = "\<lambda>q. d\<lparr>sd_didWrite := False, sd_readQueue := q\<rparr>"
  have "b \<noteq> []" using assms(3) by auto
  note b = this
  have l: "sd_listens (?q q)" for q using assms(1) by (simp add: sd_listens_def)
  have 1: "sd_expect stale [0xFF, 0xFE] d = Some (?q (b @ [0xFF, 0xFF] @ q))"
    using expect_queue [OF assms(1), of "[0xFF, 0xFE]"] assms(2) by simp
  have 2: "sd_receive stale 512 (?q (b @ [0xFF, 0xFF] @ q)) = (b, ?q ([0xFF, 0xFF] @ q))"
    using receive_queue [OF l, of "b @ [0xFF, 0xFF] @ q" b "[0xFF, 0xFF] @ q" stale] assms(3) b by simp
  have 3: "sd_expect stale [0xFF, 0xFF] (?q ([0xFF, 0xFF] @ q)) = Some (?q q)"
    using expect_queue [OF l, of "[0xFF, 0xFF] @ q" "[0xFF, 0xFF]" q stale] by simp
  show ?thesis by (simp only: host_readBlock_def 1 2 3 Let_def prod.case Option.bind.bind_lunit)
qed

lemma receive_refill: "sd_listens d \<Longrightarrow> sd_receive stale (Suc n) (sd_refill stale d) = sd_receive stale (Suc n) d"
proof -
  assume l: "sd_listens d"
  then have "SDCard_write stale 0xFF (sd_refill stale d) = SDCard_write stale 0xFF d"
    using write_FF [of "sd_refill stale d"] write_FF [OF l] by (simp add: sd_listens_def refill_didWrite)
  then show ?thesis by simp
qed

lemma readBlock_refill: "sd_listens d \<Longrightarrow> host_readBlock stale (sd_refill stale d) = host_readBlock stale d"
  using receive_refill [of d stale 1] by (simp add: host_readBlock_def sd_expect_def numeral_2_eq_2 del: sd_receive.simps)

text \<open>In a multiple read: the block at \<open>a\<close> is queued, or is queued before the next byte is read.\<close>

definition sd_reading :: "u8 list \<Rightarrow> nat \<Rightarrow> u8 list \<Rightarrow> sdcard \<Rightarrow> bool" where
  "sd_reading f a stale d \<longleftrightarrow> sd_cmdOff d = 0 \<and> sd_file d = Some f \<and> \<not> bit (sd_status d) 1 \<and> multi_reading d \<and> \<not> bit (sd_status d) 4 \<and>
     (a + 512 \<le> length f \<longrightarrow> sd_readQueue (sd_refill stale d) = sd_frame (block_at f a) \<and> sd_readAddress (sd_refill stale d) = of_nat (a + 512))"

lemma length_block_at [simp]: "a + 512 \<le> length f \<Longrightarrow> length (block_at f a) = 512"
  by (simp add: block_at_def)

lemma sd_reading_next:
  assumes "sd_reading f a stale d" "a + 512 \<le> length f" "length f \<le> 2 ^ 31" "length stale = 512"
  shows "\<exists>d'. host_readBlock stale d = Some (block_at f a, d') \<and> sd_reading f (a + 512) stale d'"
proof -
  let ?r = "sd_refill stale d" and ?d = "(sd_refill stale d)\<lparr>sd_didWrite := False, sd_readQueue := []\<rparr>"
  have l: "sd_listens d" "sd_listens ?r" using assms(1) by (simp_all add: sd_reading_def sd_listens_def)
  have "host_readBlock stale ?r = Some (block_at f a, ?d)"
    using assms(1,2) by (intro host_readBlock_frame [OF l(2)]) (simp_all add: sd_reading_def)
  moreover have "sd_reading f (a + 512) stale ?d"
    using assms sendBlock_at [of ?d f "a + 512" stale] by (auto simp: sd_reading_def multi_reading_def sd_refill_def [of _ ?d])
  ultimately show ?thesis using readBlock_refill [OF l(1)] by auto
qed

lemma host_readBlocks_reading:
  assumes "sd_reading f a stale d" "a + 512 * n \<le> length f" "length f \<le> 2 ^ 31" "length stale = 512"
  shows "\<exists>d'. host_readBlocks stale n d = Some (map (\<lambda>i. block_at f (a + 512 * i)) [0..<n], d') \<and>
    sd_reading f (a + 512 * n) stale d'"
  using assms(1,2)
proof (induction n arbitrary: a d)
  case (Suc n)
  obtain d1 where d1: "host_readBlock stale d = Some (block_at f a, d1)" "sd_reading f (a + 512) stale d1"
    using sd_reading_next [OF Suc.prems(1) _ assms(3,4)] Suc.prems(2) by auto
  then obtain d2 where "host_readBlocks stale n d1 = Some (map (\<lambda>i. block_at f (a + 512 + 512 * i)) [0..<n], d2)"
    "sd_reading f (a + 512 + 512 * n) stale d2"
    using Suc.IH [OF d1(2)] Suc.prems(2) by auto
  then show ?case using d1(1)
    by (auto simp: upt_Suc_map add.assoc simp del: upt_Suc)
qed simp

lemma ready_message:
  assumes "sd_ready f d" "(0x40 OR command) AND 0xC0 = 0x40"
  shows "\<exists>cmd. cmd 0 = 0x40 OR command \<and> sd_arg cmd = a \<and> sd_sends stale (sd_message command a) d =
    sd_refill stale ((sd_command stale (d\<lparr>sd_didWrite := True, sd_cmd := cmd, sd_cmdOff := 6\<rparr>))\<lparr>sd_cmdOff := 0\<rparr>)"
  using sends_message [where d = d and command = command and stale = stale and a = a] assms by (auto simp: sd_ready_def sd_refill_def multi_reading_def)


lemma expect_shape:
  assumes "sd_listens d" "sd_readQueue d = bs @ q" "bs \<noteq> []"
  shows "\<exists>d'. sd_expect stale bs d = Some d' \<and> sd_readQueue d' = q \<and> sd_cmdOff d' = sd_cmdOff d \<and> sd_status d' = sd_status d \<and>
    sd_file d' = sd_file d \<and> sd_readAddress d' = sd_readAddress d \<and> sd_writeAddress d' = sd_writeAddress d \<and>
    sd_writeOffset d' = sd_writeOffset d"
  using expect_queue [OF assms] by simp

lemma host_Read_block:
  assumes "sd_ready f d" "a + 512 \<le> length f" "length f \<le> 2 ^ 31" "length stale = 512"
  shows "\<exists>d'. sd_host stale (Read_block a) d = Some ([block_at f a], d') \<and> sd_ready f d'"
proof -
  obtain cmd where cmd: "cmd 0 = 0x40 OR 17" "sd_arg cmd = of_nat a"
    and s: "sd_sends stale (sd_message 17 (of_nat a)) d = sd_refill stale ((sd_command stale (d\<lparr>sd_didWrite := True, sd_cmd := cmd, sd_cmdOff := 6\<rparr>))\<lparr>sd_cmdOff := 0\<rparr>)"
    using ready_message [OF assms(1), of 17 "of_nat a" stale] by auto
  define d1 where "d1 = sd_sends stale (sd_message 17 (of_nat a)) d"
  let ?e = "(sd_push [0x00] (d\<lparr>sd_didWrite := True, sd_cmd := cmd, sd_cmdOff := 6\<rparr>))\<lparr>sd_readAddress := of_nat a\<rparr>"
  have c: "sd_command stale (d\<lparr>sd_didWrite := True, sd_cmd := cmd, sd_cmdOff := 6\<rparr>) = SDCard_sendBlock stale ?e"
    by (simp add: sd_command_def cmd)
  have e: "sd_file ?e = Some f" "sd_readAddress ?e = of_nat a" using assms(1) by (simp_all add: sd_ready_def)
  have d1: "sd_cmdOff d1 = 0" "sd_status d1 = sd_status d" "sd_file d1 = Some f" "sd_readQueue d1 = [0x00] @ sd_frame (block_at f a)"
    using assms(1) unfolding d1_def s c sendBlock_at [OF e assms(2-4)]
    by (simp_all add: sd_ready_def sd_refill_def multi_reading_def)
  then have "sd_listens d1" using assms(1) by (simp add: sd_listens_def sd_ready_def)
  from expect_shape [OF this d1(4)] obtain d2 where d2: "sd_expect stale [0x00] d1 = Some d2" "sd_readQueue d2 = sd_frame (block_at f a)"
    "sd_cmdOff d2 = 0" "sd_status d2 = sd_status d" "sd_file d2 = Some f" using d1 by auto
  then have "sd_listens d2" using assms(1) by (simp add: sd_listens_def sd_ready_def)
  from host_readBlock_frame [OF this _ length_block_at [OF assms(2)], of "[]" stale] d2
  have "host_readBlock stale d2 = Some (block_at f a, d2\<lparr>sd_didWrite := False, sd_readQueue := []\<rparr>)" by simp
  then show ?thesis using d2 assms(1) by (simp add: d1_def [symmetric] sd_ready_def)
qed

lemma host_Read_blocks:
  assumes "sd_ready f d" "0 < n" "a + 512 * n \<le> length f" "length f \<le> 2 ^ 31" "length stale = 512"
  shows "\<exists>d'. sd_host stale (Read_blocks a n) d = Some (map (\<lambda>i. block_at f (a + 512 * i)) [0..<n], d') \<and> sd_ready f d'"
proof -
  have a: "a + 512 \<le> length f" using assms(2,3) by (cases n) simp_all
  obtain cmd where cmd: "cmd 0 = 0x40 OR 18" "sd_arg cmd = of_nat a"
    and s: "sd_sends stale (sd_message 18 (of_nat a)) d = sd_refill stale ((sd_command stale (d\<lparr>sd_didWrite := True, sd_cmd := cmd, sd_cmdOff := 6\<rparr>))\<lparr>sd_cmdOff := 0\<rparr>)"
    using ready_message [OF assms(1), of 18 "of_nat a" stale] by auto
  define d1 where "d1 = sd_sends stale (sd_message 18 (of_nat a)) d"
  let ?e = "sd_set (Status_Reading OR Status_MultiBlock) ((sd_push [0x00] (d\<lparr>sd_didWrite := True, sd_cmd := cmd, sd_cmdOff := 6\<rparr>))\<lparr>sd_readAddress := of_nat a\<rparr>)"
  have c: "sd_command stale (d\<lparr>sd_didWrite := True, sd_cmd := cmd, sd_cmdOff := 6\<rparr>) = SDCard_sendBlock stale ?e"
    unfolding sd_command_def cmd Let_def by (simp add: cmd)
  have e: "sd_file ?e = Some f" "sd_readAddress ?e = of_nat a" using assms(1) by (simp_all add: sd_ready_def)
  have d1: "sd_cmdOff d1 = 0" "sd_status d1 = sd_status d OR (Status_Reading OR Status_MultiBlock)" "sd_file d1 = Some f"
    "sd_readQueue d1 = [0x00] @ sd_frame (block_at f a)" "sd_readAddress d1 = of_nat (a + 512)"
    using assms(1) unfolding d1_def s c sendBlock_at [OF e a assms(4,5)]
    by (simp_all add: sd_ready_def sd_refill_def)
  have b: "\<not> bit (sd_status d1) 1" "\<not> bit (sd_status d1) 4" "multi_reading d1"
    using assms(1) unfolding d1(2) multi_reading_def status_bits by (simp_all add: sd_ready_def)
  then have "sd_listens d1" using d1 by (simp add: sd_listens_def)
  from expect_shape [OF this d1(4)] obtain d2 where d2: "sd_expect stale [0x00] d1 = Some d2" "sd_readQueue d2 = sd_frame (block_at f a)"
    "sd_cmdOff d2 = 0" "sd_status d2 = sd_status d1" "sd_file d2 = Some f" "sd_readAddress d2 = of_nat (a + 512)" using d1 by auto
  then have "sd_reading f a stale d2" using b by (simp add: sd_reading_def sd_refill_def multi_reading_def)
  from host_readBlocks_reading [OF this assms(3-5)] obtain d3 where
    d3: "host_readBlocks stale n d2 = Some (map (\<lambda>i. block_at f (a + 512 * i)) [0..<n], d3)" "sd_reading f (a + 512 * n) stale d3" by blast
  then have r: "sd_cmdOff d3 = 0" "sd_file d3 = Some f" "\<not> bit (sd_status d3) 1" "\<not> bit (sd_status d3) 4" by (simp_all add: sd_reading_def)
  from sends_message [OF r(1,3,4), of 12 0 stale] obtain cmd' where cmd': "cmd' 0 = 0x40 OR 12"
    and s': "sd_sends stale (sd_message 12 0) d3 = sd_refill stale ((sd_command stale (sd_refill stale (d3\<lparr>sd_didWrite := True, sd_cmd := cmd', sd_cmdOff := 6\<rparr>)))\<lparr>sd_cmdOff := 0\<rparr>)"
    by auto
  define e6 where "e6 = sd_refill stale (d3\<lparr>sd_didWrite := True, sd_cmd := cmd', sd_cmdOff := 6\<rparr>)"
  have e6: "sd_cmd e6 0 = 0x40 OR 12" "sd_status e6 = sd_status d3" "sd_file e6 = Some f" using r cmd' by (simp_all add: e6_def)
  have c': "sd_command stale e6 = (sd_clear (8 OR 16 OR 4) e6)\<lparr>sd_readQueue := [0xFF, 0x00]\<rparr>"
    unfolding sd_command_def Let_def e6(1) by simp
  define d4 where "d4 = sd_sends stale (sd_message 12 0) d3"
  have d4: "sd_cmdOff d4 = 0" "sd_status d4 = sd_status d3 AND NOT (8 OR 16 OR 4)" "sd_file d4 = Some f" "sd_readQueue d4 = [0xFF, 0x00]"
    unfolding d4_def s' e6_def [symmetric] c' using r e6 by (simp_all add: refill_queue(1))
  then have b4: "\<not> bit (sd_status d4) 1" "\<not> bit (sd_status d4) 2" "\<not> bit (sd_status d4) 3" "\<not> bit (sd_status d4) 4"
    using r(3) unfolding d4(2) status_bits by simp_all
  then have "sd_listens d4" using d4 by (simp add: sd_listens_def)
  from expect_shape [OF this, of "[0xFF, 0x00]" "[]" stale] obtain d5 where d5: "sd_expect stale [0xFF, 0x00] d4 = Some d5" "sd_ready f d5"
    using d4 b4 by (auto simp: sd_ready_def)
  show ?thesis using d2(1) d3(1) d5 by (simp add: d1_def [symmetric] d4_def [symmetric])
qed


subsection \<open>Writing\<close>

definition sd_writing :: "u8 list \<Rightarrow> nat \<Rightarrow> bool \<Rightarrow> sdcard \<Rightarrow> bool" where
  "sd_writing f a multi d \<longleftrightarrow> sd_cmdOff d = 0 \<and> sd_readQueue d = [] \<and> sd_file d = Some f \<and> sd_writeOffset d = 0 \<and>
     sd_writeAddress d = of_nat a \<and> \<not> bit (sd_status d) 1 \<and> (bit (sd_status d) 2 \<longleftrightarrow> multi) \<and> \<not> bit (sd_status d) 3 \<and>
     bit (sd_status d) 4 \<and> \<not> bit (sd_status d) 5"

text \<open>After the token, the bytes of a block are stored.\<close>

lemma block_byte:
  assumes "sd_cmdOff d = 0" "\<not> bit (sd_status d) 3" "bit (sd_status d) 4" "bit (sd_status d) 5" "sd_writeOffset d \<noteq> 513"
  shows "SDCard_write stale v d = d\<lparr>sd_didWrite := True, sd_writeBuf := (if sd_writeOffset d < 512 then (sd_writeBuf d)(sd_writeOffset d := v) else sd_writeBuf d),
    sd_writeOffset := sd_writeOffset d + 1\<rparr>"
  using assms SDCard_write_cases(3) [of d stale v] by (auto simp: sd_blockByte_def Let_def sd_refill_def multi_reading_def)

lemma block_bytes:
  assumes "sd_cmdOff d = 0" "\<not> bit (sd_status d) 3" "bit (sd_status d) 4" "bit (sd_status d) 5" "sd_writeOffset d + length b \<le> 512" "b \<noteq> []"
  shows "\<exists>wb. sd_sends stale b d = d\<lparr>sd_didWrite := True, sd_writeBuf := wb, sd_writeOffset := sd_writeOffset d + length b\<rparr> \<and>
    (\<forall>i < sd_writeOffset d. wb i = sd_writeBuf d i) \<and> (\<forall>i < length b. wb (sd_writeOffset d + i) = b ! i)"
  using assms
proof (induction b arbitrary: d)
  case (Cons v b)
  let ?k = "sd_writeOffset d"
  let ?d = "d\<lparr>sd_didWrite := True, sd_writeBuf := (sd_writeBuf d)(?k := v), sd_writeOffset := ?k + 1\<rparr>"
  have w: "SDCard_write stale v d = ?d" using Cons.prems block_byte [of d stale v] by simp
  show ?case
  proof (cases "b = []")
    case True
    then show ?thesis using w by auto
  next
    case False
    then obtain wb where wb: "sd_sends stale b ?d = ?d\<lparr>sd_didWrite := True, sd_writeBuf := wb, sd_writeOffset := ?k + 1 + length b\<rparr>"
      "\<forall>i < ?k + 1. wb i = ((sd_writeBuf d)(?k := v)) i" "\<forall>i < length b. wb (?k + 1 + i) = b ! i"
      using Cons.IH [of ?d] Cons.prems by auto
    have "wb (?k + i) = (v # b) ! i" if "i < length (v # b)" for i
      using wb(2,3) that by (cases i) auto
    then show ?thesis using w wb by (intro exI [of _ wb]) auto
  qed
qed simp

text \<open>A block with its token and check sum.\<close>

lemma host_writeBlock_writing:
  assumes "sd_writing f a multi d" "token = (if multi then 0xFC else 0xFE)" "length b = 512" "a + 512 \<le> length f" "length f \<le> 2 ^ 31"
  shows "\<exists>d'. host_writeBlock stale token b d = Some d' \<and>
    (if multi then sd_writing (overlay a b f) (a + 512) multi d' else sd_ready (overlay a b f) d')"
proof -
  define d1 where "d1 = SDCard_write stale token d"
  have d1: "d1 = sd_set Status_WriteGotToken (d\<lparr>sd_didWrite := True\<rparr>)"
    using assms(1,2) SDCard_write_cases(3) [of d stale token] unfolding d1_def
    by (cases multi) (simp_all add: sd_writing_def sd_blockByte_def Let_def sd_refill_def multi_reading_def status_bits)
  have s1: "sd_cmdOff d1 = 0" "\<not> bit (sd_status d1) 3" "bit (sd_status d1) 4" "bit (sd_status d1) 5" "sd_writeOffset d1 = 0"
    using assms(1) by (auto simp: d1 sd_writing_def status_bits)
  from block_bytes [OF s1(1-4), of b stale] s1(5) assms(3) obtain wb where
    2: "sd_sends stale b d1 = d1\<lparr>sd_didWrite := True, sd_writeBuf := wb, sd_writeOffset := 512\<rparr>" "\<forall>i < 512. wb i = b ! i"
    by force
  define d2 where "d2 = d1\<lparr>sd_didWrite := True, sd_writeBuf := wb, sd_writeOffset := 512\<rparr>"
  define d3 where "d3 = d2\<lparr>sd_writeOffset := 513\<rparr>"
  have 3: "SDCard_write stale 0xFF d2 = d3"
    using block_byte [of d2 stale "0xFF"] s1 by (simp add: d2_def d3_def)
  have b: "map wb [0..<512] = b" using 2(2) assms(3) by (intro nth_equalityI) auto
  have f: "file_write (of_nat a) b (Some f) = Some (overlay a b f)"
    using sint_address [of a] assms(4,5) by (simp add: file_write_def)
  have o3: "sd_cmdOff d3 = 0" "sd_writeOffset d3 = 513" "sd_readQueue d3 = []" "sd_file d3 = Some f" "sd_writeAddress d3 = of_nat a"
    "sd_writeBuf d3 = wb" "sd_status d3 = sd_status d1" "bit (sd_status d1) 4" "bit (sd_status d1) 5" "bit (sd_status d1) 2 \<longleftrightarrow> multi"
    using s1 assms(1) by (simp_all add: d3_def d2_def d1 sd_writing_def status_bits)
  define d4 where "d4 = SDCard_write stale 0xFF d3"
  have s4: "sd_cmdOff d4 = 0" "sd_file d4 = Some (overlay a b f)" "sd_writeAddress d4 = of_nat (a + 512)" "sd_readQueue d4 = [0x05, 0x00]"
    "sd_status d4 = (if multi then sd_status d1 AND NOT Status_WriteGotToken else sd_status d1 AND NOT Status_Writing)"
    "multi \<Longrightarrow> sd_writeOffset d4 = 0"
    using SDCard_write_cases(3) [of d3 stale "0xFF"] o3 assms(1) b f unfolding d4_def
    by (cases multi; simp add: sd_blockByte_def Let_def refill_queue(1) sd_writing_def)+
  have e: "sd_sends stale ([token] @ b @ [0xFF, 0xFF]) d = d4" by (simp add: d1_def [symmetric] 2(1) d2_def [symmetric] 3 d4_def)
  have st: "bit (sd_status d4) n \<longleftrightarrow> bit (sd_status d1) n \<and> n \<noteq> (if multi then 5 else 4)" for n
    unfolding s4(5) by (cases multi) (simp_all only: if_True if_False status_bits)
  then have "sd_listens d4" using s4(1) by (auto simp: sd_listens_def)
  from expect_shape [OF this, of "[0x05, 0x00]" "[]" stale] s4 obtain d5 where
    5: "sd_expect stale [0x05, 0x00] d4 = Some d5" "sd_readQueue d5 = []" "sd_cmdOff d5 = 0" "sd_status d5 = sd_status d4"
      "sd_file d5 = Some (overlay a b f)" "sd_writeAddress d5 = of_nat (a + 512)" "sd_writeOffset d5 = sd_writeOffset d4" by auto
  then have "if multi then sd_writing (overlay a b f) (a + 512) multi d5 else sd_ready (overlay a b f) d5"
    using s4(6) st s1 assms(1) by (cases multi) (auto simp: sd_writing_def sd_ready_def d1 status_bits)
  then show ?thesis using 5(1) e by (auto simp: host_writeBlock_def)
qed


lemma start_writing:
  assumes "sd_ready f d"
  shows "\<exists>d'. sd_expect stale [0x00] (sd_sends stale (sd_message (if multi then 25 else 24) (of_nat a)) d) = Some d' \<and> sd_writing f a multi d'"
proof -
  let ?c = "if multi then 25 else 24 :: u8"
  have "(0x40 OR ?c) AND 0xC0 = 0x40" by simp
  from ready_message [OF assms this, of "of_nat a" stale] obtain cmd where cmd: "cmd 0 = 0x40 OR ?c" "sd_arg cmd = of_nat a"
    and s: "sd_sends stale (sd_message ?c (of_nat a)) d = sd_refill stale ((sd_command stale (d\<lparr>sd_didWrite := True, sd_cmd := cmd, sd_cmdOff := 6\<rparr>))\<lparr>sd_cmdOff := 0\<rparr>)"
    by blast
  let ?e = "d\<lparr>sd_didWrite := True, sd_cmd := cmd, sd_cmdOff := 6\<rparr>"
  have c: "sd_command stale ?e = (sd_clear Status_WriteGotToken (sd_set (if multi then Status_Writing OR Status_MultiBlock else Status_Writing)
      ((sd_push [0x00] ?e)\<lparr>sd_writeAddress := of_nat a\<rparr>)))\<lparr>sd_writeOffset := 0\<rparr>"
    unfolding sd_command_def Let_def by (simp add: cmd)
  define d1 where "d1 = sd_sends stale (sd_message ?c (of_nat a)) d"
  have d1: "sd_cmdOff d1 = 0" "sd_file d1 = Some f" "sd_readQueue d1 = [0x00] @ []" "sd_writeOffset d1 = 0" "sd_writeAddress d1 = of_nat a"
    "sd_status d1 = (sd_status d OR (if multi then Status_Writing OR Status_MultiBlock else Status_Writing)) AND NOT Status_WriteGotToken"
    using assms unfolding d1_def s c by (simp_all add: sd_ready_def refill_queue(1))
  have b: "bit (sd_status d1) n \<longleftrightarrow> (bit (sd_status d) n \<or> n = 4 \<or> multi \<and> n = 2) \<and> n \<noteq> 5" for n
    unfolding d1(6) by (cases multi) (simp_all only: if_True if_False status_bits, auto)
  then have "sd_listens d1" using d1(1) by (simp add: sd_listens_def)
  from expect_shape [OF this d1(3), of stale] obtain d2 where
    "sd_expect stale [0x00] d1 = Some d2" "sd_readQueue d2 = []" "sd_cmdOff d2 = 0" "sd_status d2 = sd_status d1"
    "sd_file d2 = Some f" "sd_writeAddress d2 = of_nat a" "sd_writeOffset d2 = 0"
    using d1(1-5) by auto
  with b assms show ?thesis
    unfolding d1_def [symmetric] by (intro exI [of _ d2]) (simp add: sd_writing_def sd_ready_def)
qed

lemma overlay_length: "a + length b \<le> length f \<Longrightarrow> length (overlay a b f) = length f"
  by (simp add: overlay_def)

lemma overlay_append:
  "a + length b + length c \<le> length f \<Longrightarrow> overlay (a + length b) c (overlay a b f) = overlay a (b @ c) f"
  by (simp add: overlay_def ac_simps)

lemma host_writeBlocks_writing:
  assumes "sd_writing f a True d" "\<forall>b \<in> set bs. length b = 512" "a + 512 * length bs \<le> length f" "length f \<le> 2 ^ 31"
  shows "\<exists>d'. host_writeBlocks stale bs d = Some d' \<and> sd_writing (overlay a (concat bs) f) (a + 512 * length bs) True d'"
  using assms
proof (induction bs arbitrary: f a d)
  case Nil
  then show ?case by (simp add: overlay_def)
next
  case (Cons b bs)
  then have b: "length b = 512" "a + 512 \<le> length f" by simp_all
  from host_writeBlock_writing [OF Cons.prems(1) refl b Cons.prems(4), of stale] obtain d1 where
    d1: "host_writeBlock stale 0xFC b d = Some d1" "sd_writing (overlay a b f) (a + 512) True d1" by auto
  have l: "length (overlay a b f) = length f" using b by (simp add: overlay_length)
  have c: "length (concat bs) = 512 * length bs"
    using Cons.prems(2) by (induction bs) simp_all
  from Cons.IH [OF d1(2)] obtain d2 where "host_writeBlocks stale bs d1 = Some d2"
    "sd_writing (overlay (a + 512) (concat bs) (overlay a b f)) (a + 512 + 512 * length bs) True d2"
    using Cons.prems l by auto
  then show ?case using d1(1) overlay_append [of a b "concat bs" f] b Cons.prems(3) c by (simp add: add.assoc)
qed

lemma host_step:
  assumes "sd_ready f d" "sd_valid (length f) op" "length f \<le> 2 ^ 31" "length stale = 512"
  shows "\<exists>d'. sd_host stale op d = Some (fst (sd_spec op f), d') \<and> sd_ready (snd (sd_spec op f)) d' \<and> length (snd (sd_spec op f)) = length f"
proof (cases op)
  case (Read_block a)
  then show ?thesis using host_Read_block [OF assms(1) _ assms(3,4), of a] assms(2) by auto
next
  case (Read_blocks a n)
  then show ?thesis using host_Read_blocks [OF assms(1) _ _ assms(3,4), of n a] assms(2) by auto
next
  case (Write_block a b)
  then have v: "length b = 512" "a + 512 \<le> length f" using assms(2) by simp_all
  obtain d1 where "sd_expect stale [0x00] (sd_sends stale (sd_message 24 (of_nat a)) d) = Some d1" "sd_writing f a False d1"
    using start_writing [OF assms(1), of stale False a] by auto
  then show ?thesis
    using host_writeBlock_writing [of f a False d1 "0xFE" b stale] v assms(3) Write_block by (auto simp: overlay_length)
next
  case (Write_blocks a bs)
  then have v: "\<forall>b \<in> set bs. length b = 512" "a + 512 * length bs \<le> length f" using assms(2) by simp_all
  obtain d1 where d1: "sd_expect stale [0x00] (sd_sends stale (sd_message 25 (of_nat a)) d) = Some d1" "sd_writing f a True d1"
    using start_writing [OF assms(1), of stale True a] by auto
  from host_writeBlocks_writing [OF d1(2) v assms(3)] obtain d2 where
    d2: "host_writeBlocks stale bs d1 = Some d2" "sd_writing (overlay a (concat bs) f) (a + 512 * length bs) True d2" by blast
  then have "sd_blockByte 0xFD (d2\<lparr>sd_didWrite := True\<rparr>) = sd_clear (Status_Writing OR Status_MultiBlock) (d2\<lparr>sd_didWrite := True\<rparr>)"
    by (simp add: sd_writing_def sd_blockByte_def Let_def)
  moreover have "\<not> multi_reading (sd_clear (Status_Writing OR Status_MultiBlock) (d2\<lparr>sd_didWrite := True\<rparr>))"
    using d2(2) by (simp add: sd_writing_def multi_reading_def bit_and_iff)
  ultimately have "SDCard_write stale 0xFD d2 = sd_clear (Status_Writing OR Status_MultiBlock) (d2\<lparr>sd_didWrite := True\<rparr>)"
    using SDCard_write_cases(3) [of d2 stale "0xFD"] d2(2) by (simp add: sd_writing_def refill_queue(2))
  then have "sd_ready (overlay a (concat bs) f) (SDCard_write stale 0xFD d2)"
    using d2(2) status_bits(8) [of "sd_status d2" 1] status_bits(8) [of "sd_status d2" 2] status_bits(8) [of "sd_status d2" 3]
      status_bits(8) [of "sd_status d2" 4] by (simp add: sd_writing_def sd_ready_def)
  moreover have "length (concat bs) = 512 * length bs" using v(1) by (induction bs) simp_all
  ultimately show ?thesis using d1(1) d2(1) v(2) Write_blocks by (simp add: overlay_length)
qed

text \<open>A sequence of operations, on the bytes and on the card.\<close>

fun sd_specs :: "sd_op list \<Rightarrow> u8 list \<Rightarrow> u8 list list \<times> u8 list" where
  "sd_specs [] f = ([], f)"
| "sd_specs (op # ops) f = (let (r, f) = sd_spec op f; (rs, f) = sd_specs ops f in (r @ rs, f))"

fun sd_hosts :: "u8 list \<Rightarrow> sd_op list \<Rightarrow> sdcard \<Rightarrow> (u8 list list \<times> sdcard) option" where
  "sd_hosts stale [] d = Some ([], d)"
| "sd_hosts stale (op # ops) d =
     do { (r, d) \<leftarrow> sd_host stale op d; (rs, d) \<leftarrow> sd_hosts stale ops d; Some (r @ rs, d) }"

text \<open>C28:
  The SD card is a block device.  A card with a file that is not busy answers every sequence of
  single and multiple block reads and writes inside the file as the protocol requires, the blocks
  read are those of an array of bytes to which the writes before have been made, and at the
  end its file is this array and the card is ready again.
\<close>

theorem sd_refines_blocks:
  assumes "sd_ready f d" "\<forall>op \<in> set ops. sd_valid (length f) op" "length f \<le> 2 ^ 31" "length stale = 512"
  shows "\<exists>d'. sd_hosts stale ops d = Some (fst (sd_specs ops f), d') \<and> sd_file d' = Some (snd (sd_specs ops f)) \<and>
    sd_ready (snd (sd_specs ops f)) d'"
  using assms(1-3)
proof (induction ops arbitrary: f d)
  case Nil
  then show ?case by (simp add: sd_ready_def)
next
  case (Cons op ops)
  let ?s = "sd_spec op f"
  obtain d1 where d1: "sd_host stale op d = Some (fst ?s, d1)" "sd_ready (snd ?s) d1" "length (snd ?s) = length f"
    using host_step [OF Cons.prems(1) _ Cons.prems(3) assms(4), of op] Cons.prems(2) by auto
  with Cons.IH [OF d1(2)] Cons.prems show ?case by (auto simp: split_beta)
qed

lemma sd_refines_blocks_witness:
  "\<exists>d'. sd_hosts (replicate 512 0)
      [Write_block 512 (replicate 512 1), Write_blocks 0 [replicate 512 2], Read_block 512, Read_blocks 0 2]
      (SDCard_setFile (Some (replicate 1024 0)) (SDCard_new (\<lambda>_. 0) (\<lambda>_. 0))) =
    Some ([replicate 512 1, replicate 512 2, replicate 512 1], d')"
proof -
  let ?ops = "[Write_block 512 (replicate 512 1), Write_blocks 0 [replicate 512 2], Read_block 512, Read_blocks 0 2]"
  have "sd_ready (replicate 1024 0) (SDCard_setFile (Some (replicate 1024 0)) (SDCard_new (\<lambda>_. 0) (\<lambda>_. 0)))"
    by (simp add: sd_ready_def SDCard_setFile_def SDCard_new_def)
  from sd_refines_blocks [OF this, of ?ops "replicate 512 0"]
  have "\<exists>d'. sd_hosts (replicate 512 0) ?ops (SDCard_setFile (Some (replicate 1024 0)) (SDCard_new (\<lambda>_. 0) (\<lambda>_. 0))) =
    Some (fst (sd_specs ?ops (replicate 1024 0)), d')" by auto
  moreover have "fst (sd_specs ?ops (replicate 1024 0)) = [replicate 512 1, replicate 512 2, replicate 512 (1 :: u8)]"
    by (simp add: overlay_def block_at_def upt_rec)
  ultimately show ?thesis by simp
qed

end
