(* ===== verification/Decimal.thy ===== *)
theory Decimal
  imports Prelude
begin

text \<open>
  Numbers in decimal, as the formatted output of the standard library prints them and its input
  functions read them; used by the boot protocol and by the USB/IP server.
\<close>

section \<open>Numbers as text\<close>

fun dec :: "nat \<Rightarrow> u8 list" where
  "dec n = (if n < 10 then [of_nat (48 + n)] else dec (n div 10) @ [of_nat (48 + n mod 10)])"

declare dec.simps [simp del]

definition dec_int :: "int \<Rightarrow> u8 list" where
  "dec_int i = (if i < 0 then 45 # dec (nat (- i)) else dec (nat i))"

definition is_space :: "u8 \<Rightarrow> bool" where
  "is_space b \<longleftrightarrow> b = 32 \<or> 9 \<le> b \<and> b \<le> 13"

definition is_dec :: "u8 \<Rightarrow> bool" where
  "is_dec b \<longleftrightarrow> 48 \<le> b \<and> b \<le> 57"

definition dec_value :: "u8 list \<Rightarrow> int" where
  "dec_value ds = foldl (\<lambda>v b. v * 10 + (int (unat b) - 48)) 0 ds"

definition ascii :: "string \<Rightarrow> u8 list" where
  "ascii s = map of_char s"

section \<open>Numbers are read as they are printed\<close>

lemma dec_digit: "n < 10 \<Longrightarrow> is_dec (of_nat (48 + n)) \<and> int (unat (of_nat (48 + n) :: u8)) - 48 = int n"
proof -
  assume "n < 10"
  then have "unat (of_nat (48 + n) :: u8) = 48 + n" by (simp only: unsigned_of_nat) (simp add: take_bit_nat_eq_self)
  then show ?thesis using \<open>n < 10\<close> by (simp add: is_dec_def word_le_nat_alt)
qed

lemma dec_value_append: "dec_value (ds @ [b]) = dec_value ds * 10 + (int (unat b) - 48)"
  by (simp add: dec_value_def)

lemma dec_ok: "dec n \<noteq> [] \<and> (\<forall>b \<in> set (dec n). is_dec b) \<and> dec_value (dec n) = int n"
proof (induction n rule: dec.induct)
  case (1 n)
  show ?case
  proof (cases "n < 10")
    case True
    then show ?thesis using dec_digit [OF True] by (subst (1 2 3) dec.simps) (simp add: dec_value_def)
  next
    case False
    then have e: "dec n = dec (n div 10) @ [of_nat (48 + n mod 10)]" by (subst dec.simps) (simp only: if_False)
    have m: "n mod 10 < 10" by simp
    have "int (n div 10) * 10 + int (n mod 10) = int n" by presburger
    then show ?thesis using 1 [OF False] dec_digit [OF m] unfolding e dec_value_append by auto
  qed
qed

lemma dec_byte: "is_dec b \<Longrightarrow> b \<noteq> 10 \<and> b \<noteq> 0xFF \<and> \<not> is_space b \<and> b \<noteq> 45 \<and> b \<noteq> 43"
  by (auto simp: is_dec_def is_space_def word_le_nat_alt)


lemma dec_length: "n < 10 ^ k \<Longrightarrow> 0 < k \<Longrightarrow> length (dec n) \<le> k"
proof (induction k arbitrary: n)
  case (Suc k)
  show ?case
  proof (cases "n < 10")
    case True
    then show ?thesis by (subst dec.simps) simp
  next
    case False
    then have "0 < k" "n div 10 < 10 ^ k" using Suc.prems by (cases k; simp)+
    then show ?thesis using Suc.IH [of "n div 10"] False by (subst dec.simps) simp
  qed
qed simp

text \<open>The first digit of a positive number is not zero.\<close>

lemma dec_first: "0 < n \<Longrightarrow> hd (dec n) \<noteq> 48"
proof (induction n rule: dec.induct)
  case (1 n)
  show ?case
  proof (cases "n < 10")
    case True
    then have "of_nat (48 + n) = (48 :: u8) \<longleftrightarrow> 48 + n = 48" by (subst word_unat_eq_iff, simp only: unsigned_of_nat) (simp add: take_bit_nat_eq_self)
    then show ?thesis using 1(2) True by (subst dec.simps) simp
  next
    case False
    then have "dec n = dec (n div 10) @ [of_nat (48 + n mod 10)]" "0 < n div 10" by (subst dec.simps, simp) (use False in presburger)
    then show ?thesis using 1(1) [OF False] dec_ok [of "n div 10"] by (simp add: hd_append)
  qed
qed

end
