(* ===== verification/BootSerial.thy ===== *)
theory BootSerial
  imports SDCard CRC Decimal
begin

text \<open>
  \<open>BootSerial.cpp\<close>, second part: the serial port over which the boot loader reports and loads a
  file in chunks, or the SD card is reached.  Files and the port of the host are arguments.
  \<open>None\<close> is a run that ends with an exception of the standard library or an overflow.
\<close>

text \<open>\<open>std::stoi\<close>: \<open>None\<close> is one of its exceptions.\<close>

definition stoi :: "u8 list \<Rightarrow> int option" where
  "stoi s =
     (let s = dropWhile is_space s;
          (neg, s) = (case s of [] \<Rightarrow> (False, []) | b # bs \<Rightarrow> if b = 45 then (True, bs) else if b = 43 then (False, bs) else (False, s));
          ds = takeWhile is_dec s; v = (if neg then - dec_value ds else dec_value ds)
      in if ds = [] \<or> v < - (2 ^ 31) \<or> 2 ^ 31 \<le> v then None else Some v)"

section \<open>State\<close>

text \<open>The port of the host: the bytes that can be read from it, and those written to it.\<close>

record boot_serial =
  boot_index :: int
  logBuffer :: "u8 list"
  sdMode :: bool
  boot_sd :: sdcard
  gotPrepareMsg :: bool
  bootBuf :: "u8 list"
  bootBufLen :: nat
  bootBufOff :: nat
  bootFile :: "u8 list option"
  boot_fd :: "(u8 list \<times> u8 list) option"

definition BootSerial_new :: "int \<Rightarrow> sdcard \<Rightarrow> u8 list \<Rightarrow> boot_serial" where
  "BootSerial_new index sd buf =
     \<lparr>boot_index = index, logBuffer = [], sdMode = False, boot_sd = sd, gotPrepareMsg = False, bootBuf = buf,
      bootBufLen = 0, bootBufOff = 0, bootFile = None, boot_fd = None\<rparr>"

section \<open>Operations\<close>

definition BootSerial_read :: "boot_serial \<Rightarrow> u8 \<times> boot_serial" where
  "BootSerial_read d =
     (if sdMode d then let (b, sd) = SDCard_read (boot_sd d) in (b, d\<lparr>boot_sd := sd\<rparr>)
      else if gotPrepareMsg d \<and> bootBufOff d < bootBufLen d
      then (bootBuf d ! bootBufOff d, d\<lparr>bootBufOff := bootBufOff d + 1\<rparr>)
      else case boot_fd d of
             Some (b # inp, out) \<Rightarrow> (b, d\<lparr>boot_fd := Some (inp, out)\<rparr>)
           | _ \<Rightarrow> (0xFF, d))"

definition le32 :: "u32 \<Rightarrow> u8 list" where
  "le32 v = [ucast v, ucast (drop_bit 8 v), ucast (drop_bit 16 v), ucast (drop_bit 24 v)]"

text \<open>The chunk of the boot file with its header and check sum, written over the buffer.\<close>

definition boot_chunk :: "int \<Rightarrow> u8 list \<Rightarrow> u8 list" where
  "boot_chunk chunkIndex file =
     (let chunkSize = 512;
          data = (if chunkIndex < 0 then [] else take chunkSize (drop (nat chunkIndex * chunkSize) file));
          read = length data;
          hd = [of_int chunkIndex, of_int (chunkIndex div 256), of_nat read, of_nat (read div 256)];
          crc = NOT (crc32 (hd @ data))
      in 0x43 # hd @ data @ le32 crc)"

definition boot_sendChunk :: "u8 list \<Rightarrow> boot_serial \<Rightarrow> boot_serial option" where
  "boot_sendChunk file d =
     do { chunkIndex \<leftarrow> stoi (drop 4 (logBuffer d));
          if chunkIndex * 512 < - (2 ^ 31) \<or> 2 ^ 31 \<le> chunkIndex * 512 then None
          else let bytes = boot_chunk chunkIndex file
               in Some (d\<lparr>bootBuf := bytes @ drop (length bytes) (bootBuf d), bootBufOff := 0, bootBufLen := length bytes\<rparr>) }"

definition BootSerial_write :: "u8 list \<Rightarrow> u8 \<Rightarrow> boot_serial \<Rightarrow> boot_serial option" where
  "BootSerial_write stale val d =
     (if sdMode d then Some (d\<lparr>boot_sd := SDCard_write stale val (boot_sd d)\<rparr>)
      else case boot_fd d of Some (inp, out) \<Rightarrow> Some (d\<lparr>boot_fd := Some (inp, out @ [val])\<rparr>)
      | None \<Rightarrow>
        let d = d\<lparr>logBuffer := logBuffer d @ [val]\<rparr>
        in if val = 10
           then do { d \<leftarrow> (if logBuffer d = ascii ''Preparing to load CyOS'' @ [13, 10] then Some (d\<lparr>gotPrepareMsg := True\<rparr>)
                          else if take 4 (logBuffer d) = ascii ''send''
                          then case bootFile d of Some file \<Rightarrow> boot_sendChunk file d | None \<Rightarrow> Some d
                          else Some d);
                     Some (d\<lparr>logBuffer := []\<rparr>) }
           else if val = 0xFF \<and> boot_index d = 1 then Some (d\<lparr>sdMode := True\<rparr>)
           else Some d)"

definition BootSerial_canRead :: "boot_serial \<Rightarrow> bool" where
  "BootSerial_canRead d \<longleftrightarrow>
     (if sdMode d then SDCard_canRead (boot_sd d)
      else if gotPrepareMsg d \<and> bootBufOff d < bootBufLen d then True
      else case boot_fd d of Some (inp, out) \<Rightarrow> inp \<noteq> [] | None \<Rightarrow> False)"

text \<open>\<open>BootSerial::crc\<close>\<close>

definition boot_crc :: "u8 list \<Rightarrow> u16" where
  "boot_crc data =
     (let crc = fold (\<lambda>b crc. push_bit 1 crc XOR push_bit 1 (ucast b)) data (0 :: u32)
      in ucast ((crc AND 0xFFFF) XOR drop_bit 17 crc))"

text \<open>\<open>contents\<close> is what the file contains, \<open>None\<close> when it cannot be opened; \<open>tellg\<close> is -1 then.\<close>

definition BootSerial_setBootFile :: "u8 list option \<Rightarrow> boot_serial \<Rightarrow> boot_serial" where
  "BootSerial_setBootFile contents d =
     (let fileSize = (case contents of Some bs \<Rightarrow> int32 (int (length bs)) | None \<Rightarrow> -1);
          msg = ascii ''rcv file.boot '' @ dec_int fileSize @ [10];
          crcVal = boot_crc (butlast msg);
          bytes = msg @ [ucast crcVal, ucast (drop_bit 8 crcVal)]
      in d\<lparr>bootFile := contents, bootBuf := bytes @ drop (length bytes) (bootBuf d), bootBufLen := length bytes\<rparr>)"

definition BootSerial_attachPort :: "u8 list option \<Rightarrow> boot_serial \<Rightarrow> boot_serial" where
  "BootSerial_attachPort port d = d\<lparr>boot_fd := (case port of Some inp \<Rightarrow> Some (inp, []) | None \<Rightarrow> None)\<rparr>"

section \<open>The loader\<close>

text \<open>
  The other side of the protocol, on the device: it writes a line, it reads only when a byte is
  there, and it checks the index and the check sum of every chunk.  It stops at the first
  short chunk; \<open>m\<close> is the number of chunks it is ready to take.
\<close>

fun boot_writes :: "u8 list \<Rightarrow> u8 list \<Rightarrow> boot_serial \<Rightarrow> boot_serial option" where
  "boot_writes stale [] d = Some d"
| "boot_writes stale (b # bs) d = do { d \<leftarrow> BootSerial_write stale b d; boot_writes stale bs d }"

fun boot_receive :: "nat \<Rightarrow> boot_serial \<Rightarrow> (u8 list \<times> boot_serial) option" where
  "boot_receive 0 d = Some ([], d)"
| "boot_receive (Suc n) d =
     (if BootSerial_canRead d
      then let (b, d) = BootSerial_read d in do { (bs, d) \<leftarrow> boot_receive n d; Some (b # bs, d) }
      else None)"

fun boot_load :: "u8 list \<Rightarrow> nat \<Rightarrow> nat \<Rightarrow> boot_serial \<Rightarrow> (u8 list \<times> boot_serial) option" where
  "boot_load stale 0 k d = None"
| "boot_load stale (Suc m) k d =
     do { d \<leftarrow> boot_writes stale (ascii ''send '' @ dec k @ [13, 10]) d;
          (c, d) \<leftarrow> boot_receive 1 d;
          (h, d) \<leftarrow> boot_receive 4 d;
          let n = unat (h ! 2) + 256 * unat (h ! 3)
          in do { (data, d) \<leftarrow> boot_receive n d;
                  (crc, d) \<leftarrow> boot_receive 4 d;
                  if c \<noteq> [0x43] \<or> take 2 h \<noteq> [of_nat k, of_nat (k div 256)] \<or> crc \<noteq> le32 (NOT (crc32 (h @ data))) then None
                  else if n < 512 then Some (data, d)
                  else do { (rest, d) \<leftarrow> boot_load stale m (k + 1) d; Some (data @ rest, d) } } }"


lemma stoi_dec:
  assumes "k < 2 ^ 31" shows "stoi (32 # dec k @ [13, 10]) = Some (int k)"
proof -
  obtain b bs where b: "dec k = b # bs" "is_dec b" using dec_ok [of k] by (cases "dec k") auto
  have "dropWhile is_space (32 # dec k @ [13, 10]) = b # bs @ [13, 10]"
    using b dec_byte [OF b(2)] by simp (simp add: is_space_def)
  moreover have "takeWhile is_dec (b # bs @ [13, 10]) = dec k"
    using dec_ok [of k] b(1) by (simp add: takeWhile_append) (auto simp: is_dec_def takeWhile_eq_all_conv)
  moreover have "b \<noteq> 45" "b \<noteq> 43" using dec_byte [OF b(2)] by simp_all
  ultimately show ?thesis using dec_ok [of k] assms by (simp add: stoi_def Let_def)
qed


section \<open>Lines and chunks\<close>

text \<open>A port in boot mode, with nothing attached.\<close>

definition boot_mode :: "u8 list \<Rightarrow> boot_serial \<Rightarrow> bool" where
  "boot_mode file d \<longleftrightarrow> \<not> sdMode d \<and> boot_fd d = None \<and> bootFile d = Some file"

lemma boot_write_log:
  "boot_mode file d \<Longrightarrow> v \<noteq> 10 \<Longrightarrow> v \<noteq> 0xFF \<Longrightarrow> BootSerial_write stale v d = Some (d\<lparr>logBuffer := logBuffer d @ [v]\<rparr>)"
  by (simp add: BootSerial_write_def boot_mode_def Let_def)

lemma boot_writes_append: "boot_writes stale (xs @ ys) d = do { d \<leftarrow> boot_writes stale xs d; boot_writes stale ys d }"
  by (induction xs arbitrary: d) (auto split: Option.bind_splits)

lemma boot_writes_log:
  "boot_mode file d \<Longrightarrow> 10 \<notin> set l \<Longrightarrow> 0xFF \<notin> set l \<Longrightarrow> boot_writes stale l d = Some (d\<lparr>logBuffer := logBuffer d @ l\<rparr>)"
proof (induction l arbitrary: d)
  case (Cons v l)
  then have w: "BootSerial_write stale v d = Some (d\<lparr>logBuffer := logBuffer d @ [v]\<rparr>)" by (intro boot_write_log) auto
  have "boot_mode file (d\<lparr>logBuffer := logBuffer d @ [v]\<rparr>)" using Cons.prems(1) by (simp add: boot_mode_def)
  from Cons.IH [OF this] Cons.prems w show ?case by simp
qed simp

lemma boot_receive_buffer:
  assumes "boot_mode file d" "gotPrepareMsg d" "bootBufOff d + n \<le> bootBufLen d" "bootBufLen d \<le> length (bootBuf d)"
  shows "boot_receive n d = Some (take n (drop (bootBufOff d) (bootBuf d)), d\<lparr>bootBufOff := bootBufOff d + n\<rparr>)"
  using assms
proof (induction n arbitrary: d)
  case (Suc n)
  let ?d = "d\<lparr>bootBufOff := bootBufOff d + 1\<rparr>"
  have "boot_receive n ?d = Some (take n (drop (bootBufOff d + 1) (bootBuf d)), d\<lparr>bootBufOff := bootBufOff d + 1 + n\<rparr>)"
    using Suc.prems Suc.IH [of ?d] by (simp add: boot_mode_def)
  moreover have "drop (bootBufOff d) (bootBuf d) = bootBuf d ! bootBufOff d # drop (bootBufOff d + 1) (bootBuf d)"
    using Suc.prems by (simp add: Cons_nth_drop_Suc)
  ultimately show ?case using Suc.prems by (simp add: BootSerial_canRead_def BootSerial_read_def boot_mode_def)
qed simp

lemma length_boot_chunk: "0 \<le> i \<Longrightarrow> length (boot_chunk i file) = 9 + length (take 512 (drop (nat i * 512) file))"
  by (simp add: boot_chunk_def le32_def Let_def)


text \<open>A line that asks for a chunk puts the chunk into the buffer.\<close>

lemma boot_send:
  assumes "boot_mode file d" "logBuffer d = []" "k * 512 < 2 ^ 31" "length (bootBuf d) = 521"
  shows "\<exists>d'. boot_writes stale (ascii ''send '' @ dec k @ [13, 10]) d = Some d' \<and> boot_mode file d' \<and> logBuffer d' = [] \<and>
    gotPrepareMsg d' = gotPrepareMsg d \<and> bootBufOff d' = 0 \<and> bootBufLen d' = length (boot_chunk (int k) file) \<and>
    length (bootBuf d') = 521 \<and> take (bootBufLen d') (bootBuf d') = boot_chunk (int k) file"
proof -
  let ?l = "ascii ''send '' @ dec k @ [13]" and ?c = "boot_chunk (int k) file"
  have len: "length ?c \<le> 521" by (simp add: length_boot_chunk)
  have "10 \<notin> set ?l" "0xFF \<notin> set ?l" using dec_ok [of k] dec_byte by (auto simp: ascii_def)
  from boot_writes_log [OF assms(1) this] have w: "boot_writes stale ?l d = Some (d\<lparr>logBuffer := ?l\<rparr>)" using assms(2) by simp
  have "int (k * 512) < int (2 ^ 31)" using assms(3) by (simp only: of_nat_less_iff)
  then have k: "int k * 512 < 2 ^ 31" by simp
  have line: "?l @ [10] \<noteq> ascii ''Preparing to load CyOS'' @ [13, 10]" "take 4 (?l @ [10]) = ascii ''send''" "drop 4 (?l @ [10]) = 32 # dec k @ [13, 10]"
    by (simp_all add: ascii_def)
  have "stoi (drop 4 (?l @ [10])) = Some (int k)" unfolding line(3) using assms(3) by (intro stoi_dec) simp
  then have "boot_sendChunk file (d\<lparr>logBuffer := ?l @ [10]\<rparr>) =
      Some (d\<lparr>logBuffer := ?l @ [10], bootBuf := ?c @ drop (length ?c) (bootBuf d), bootBufOff := 0, bootBufLen := length ?c\<rparr>)"
    using k by (simp add: boot_sendChunk_def Let_def del: append_assoc)
  then have "BootSerial_write stale 10 (d\<lparr>logBuffer := ?l\<rparr>) =
      Some (d\<lparr>logBuffer := [], bootBuf := ?c @ drop (length ?c) (bootBuf d), bootBufOff := 0, bootBufLen := length ?c\<rparr>)"
    using assms(1) line(1,2) by (simp add: BootSerial_write_def Let_def boot_mode_def)
  then show ?thesis
    using w assms(1,4) len boot_writes_append [of stale ?l "[10]" d] by (simp add: boot_mode_def)
qed

lemma boot_receive_ready:
  assumes "boot_mode file d" "gotPrepareMsg d" "bootBufLen d \<le> length (bootBuf d)" "take (bootBufLen d) (bootBuf d) = pre @ xs @ post" "bootBufOff d = length pre"
    "n = length xs"
  shows "boot_receive n d = Some (xs, d\<lparr>bootBufOff := length pre + n\<rparr>)"
proof -
  have l: "length pre + n + length post = bootBufLen d" using arg_cong [OF assms(4), of length] assms(3,6) by simp
  have "drop (length pre) (take (bootBufLen d) (bootBuf d)) = xs @ post" using assms(4) by simp
  then have "take n (drop (length pre) (bootBuf d)) = xs"
    using l assms(6) by (metis (no_types) append_eq_conv_conj take_take min.absorb1 le_add1 drop_take add_diff_cancel_left' add.assoc)
  then show ?thesis using boot_receive_buffer [OF assms(1,2), of n] assms(3,5) l by simp
qed

lemma chunk_length_bytes:
  "n \<le> 512 \<Longrightarrow> unat (of_nat n :: u8) + 256 * unat (of_nat (n div 256) :: u8) = n"
proof -
  assume "n \<le> 512"
  then have "n div 256 < 256" by simp
  then have "unat (of_nat (n div 256) :: u8) = n div 256" by (simp add: unsigned_of_nat take_bit_nat_eq_self)
  moreover have "unat (of_nat n :: u8) = n mod 256" by (simp add: unsigned_of_nat take_bit_eq_mod)
  ultimately show ?thesis by simp
qed

lemma boot_load_file:
  assumes "boot_mode file d" "gotPrepareMsg d" "logBuffer d = []" "length (bootBuf d) = 521" "k * 512 \<le> length file"
    and "length file < 2 ^ 31 - 512" "length file < (k + m) * 512"
  shows "\<exists>d'. boot_load stale m k d = Some (drop (k * 512) file, d')"
  using assms
proof (induction m arbitrary: k d)
  case 0
  then show ?case by simp
next
  case (Suc m)
  define data where "data = take 512 (drop (k * 512) file)"
  define h where "h = [of_nat k, of_nat (k div 256), of_nat (length data), of_nat (length data div 256) :: u8]"
  define c where "c = le32 (NOT (crc32 (h @ data)))"
  have chunk: "boot_chunk (int k) file = [0x43] @ h @ data @ c"
  proof -
    have "of_int (int k div 256) = (of_nat (k div 256) :: u8)" by (metis of_int_of_nat_eq of_nat_numeral zdiv_int)
    then show ?thesis by (simp add: boot_chunk_def Let_def data_def h_def c_def)
  qed
  have "k * 512 < 2 ^ 31" using Suc.prems(5,6) by simp
  from boot_send [OF Suc.prems(1,3) this Suc.prems(4), of stale] obtain d1 where
    w: "boot_writes stale (ascii ''send '' @ dec k @ [13, 10]) d = Some d1"
    and d1: "boot_mode file d1" "logBuffer d1 = []" "gotPrepareMsg d1" "bootBufOff d1 = 0" "length (bootBuf d1) = 521"
      "bootBufLen d1 = length (boot_chunk (int k) file)" "take (bootBufLen d1) (bootBuf d1) = [0x43] @ h @ data @ c"
    unfolding chunk using Suc.prems(2) by auto
  have len: "length data \<le> 512" "length h = 4" "length c = 4" by (simp_all add: data_def h_def c_def le32_def)
  have lb: "bootBufLen d1 \<le> 521" unfolding d1(6) chunk using len by simp
  define at where "at = (\<lambda>n. d1\<lparr>bootBufOff := n\<rparr>)"
  have at: "boot_mode file (at n)" "gotPrepareMsg (at n)" "bootBufLen (at n) = bootBufLen d1" "bootBuf (at n) = bootBuf d1"
    "bootBufOff (at n) = n" "logBuffer (at n) = []" "(at n)\<lparr>bootBufOff := n'\<rparr> = at n'" for n n'
    using d1 by (simp_all add: at_def boot_mode_def)
  have rcv: "boot_receive n (at (length pre)) = Some (xs, at (length pre + n))"
    if "[0x43] @ h @ data @ c = pre @ xs @ post" "n = length xs" for pre xs post n
    using boot_receive_ready [OF at(1) at(2), where pre = pre and xs = xs and post = post and n = n] that d1 lb by (simp add: at)
  have "at 0 = d1" using d1(4) by (simp add: at_def)
  have r1: "boot_receive 1 d1 = Some ([0x43], at 1)" using rcv [of "[]" "[0x43]" "h @ data @ c" 1] \<open>at 0 = d1\<close> by simp
  have r2: "boot_receive 4 (at 1) = Some (h, at 5)" using rcv [of "[0x43]" h "data @ c" 4] len by simp
  have n: "unat (h ! 2) + 256 * unat (h ! 3) = length data" using chunk_length_bytes [OF len(1)] by (simp add: h_def)
  have r3: "boot_receive (length data) (at 5) = Some (data, at (5 + length data))"
    using rcv [of "[0x43] @ h" data c "length data"] len by simp
  have r4: "boot_receive 4 (at (5 + length data)) = Some (c, at (9 + length data))"
    using rcv [of "[0x43] @ h @ data" c "[]" 4] len by (simp add: add.commute)
  let ?d = "at (9 + length data)"
  have step: "boot_load stale (Suc m) k d =
      (if length data < 512 then Some (data, ?d)
       else do { (rest, d) \<leftarrow> boot_load stale m (k + 1) ?d; Some (data @ rest, d) })"
    by (simp only: boot_load.simps w r1 r2 r3 r4 n Let_def prod.case Option.bind.bind_lunit) (simp add: h_def c_def)
  show ?case
  proof (cases "length data < 512")
    case True
    then have "drop (k * 512) file = data" by (simp add: data_def)
    then show ?thesis using step True by simp
  next
    case False
    then have "(k + 1) * 512 \<le> length file" by (simp add: data_def)
    then obtain d2 where "boot_load stale m (k + 1) ?d = Some (drop ((k + 1) * 512) file, d2)"
      using Suc.IH [of ?d "k + 1"] Suc.prems(6,7) d1(5) by (auto simp: at)
    moreover have "data @ drop ((k + 1) * 512) file = drop (k * 512) file"
      using append_take_drop_id [of 512 "drop (k * 512) file"] by (simp add: data_def add.commute)
    ultimately show ?thesis using step False by simp
  qed
qed


section \<open>Booting a file\<close>

text \<open>C29:
  A file is booted over the serial port.  When the boot loader reports that it prepares to load,
  it reads the announcement of the file with its size and check sum; asking for one chunk
  after the other by line, reading only when a byte is there and checking the index and the
  check sum of every chunk, it gets the whole file, and it stops at the first chunk that is
  shorter than 512 bytes.  So many chunks as there are 512 bytes in the file, and one more, are enough.
\<close>

theorem boot_transfer:
  assumes "length file < 2 ^ 31 - 512" "length buf = 521"
  shows "\<exists>d1 d2 msg d3. boot_writes stale (ascii ''Preparing to load CyOS'' @ [13, 10])
        (BootSerial_setBootFile (Some file) (BootSerial_new index sd buf)) = Some d1 \<and>
      msg = ascii ''rcv file.boot '' @ dec (length file) @ [10] \<and>
      boot_receive (length msg + 2) d1 = Some (msg @ [ucast (boot_crc (butlast msg)), ucast (drop_bit 8 (boot_crc (butlast msg)))], d2) \<and>
      \<not> BootSerial_canRead d2 \<and>
      boot_load stale (length file div 512 + 1) 0 d2 = Some (file, d3)"
proof -
  let ?d = "BootSerial_setBootFile (Some file) (BootSerial_new index sd buf)"
  define msg where "msg = ascii ''rcv file.boot '' @ dec (length file) @ [10]"
  define bytes where "bytes = msg @ [ucast (boot_crc (butlast msg)), ucast (drop_bit 8 (boot_crc (butlast msg))) :: u8]"
  have "int32 (int (length file)) = int (length file)" using assms(1) sint_address [of "length file"] by (simp add: int32_def)
  then have m: "ascii ''rcv file.boot '' @ dec_int (int32 (int (length file))) @ [10] = msg" by (simp add: msg_def dec_int_def)
  have "length file < 10 ^ 10" using assms(1) by simp
  from dec_length [OF this] have len: "length bytes \<le> 521" by (simp add: bytes_def msg_def ascii_def)
  have d: "?d = (BootSerial_new index sd buf)\<lparr>bootFile := Some file, bootBuf := bytes @ drop (length bytes) buf, bootBufLen := length bytes\<rparr>"
    unfolding BootSerial_setBootFile_def option.case m Let_def bytes_def [symmetric] by (simp add: BootSerial_new_def)
  have mode: "boot_mode file ?d" unfolding d by (simp add: boot_mode_def BootSerial_new_def)
  let ?l = "ascii ''Preparing to load CyOS'' @ [13]"
  have "10 \<notin> set ?l" "0xFF \<notin> set ?l" by (simp_all add: ascii_def)
  from boot_writes_log [OF mode this] have "boot_writes stale ?l ?d = Some (?d\<lparr>logBuffer := ?l\<rparr>)"
    unfolding d by (simp add: BootSerial_new_def)
  moreover have "BootSerial_write stale 10 (?d\<lparr>logBuffer := ?l\<rparr>) = Some (?d\<lparr>gotPrepareMsg := True\<rparr>)"
    unfolding d by (simp add: BootSerial_write_def BootSerial_new_def Let_def)
  ultimately have 1: "boot_writes stale (ascii ''Preparing to load CyOS'' @ [13, 10]) ?d = Some (?d\<lparr>gotPrepareMsg := True\<rparr>)"
    using boot_writes_append [of stale ?l "[10]" ?d] by simp
  define d1 where "d1 = ?d\<lparr>gotPrepareMsg := True\<rparr>"
  have d1: "boot_mode file d1" "gotPrepareMsg d1" "bootBufOff d1 = 0" "bootBufLen d1 = length bytes" "length (bootBuf d1) = 521"
    "logBuffer d1 = []" "take (length bytes) (bootBuf d1) = bytes"
    using len assms(2) unfolding d1_def d by (simp_all add: boot_mode_def BootSerial_new_def)
  define d2 where "d2 = d1\<lparr>bootBufOff := length bytes\<rparr>"
  have 2: "boot_receive (length msg + 2) d1 = Some (bytes, d2)"
    using boot_receive_buffer [OF d1(1,2), of "length bytes"] d1(3-5,7) len by (simp add: d2_def bytes_def)
  have "\<not> BootSerial_canRead d2" using d1 by (simp add: d2_def BootSerial_canRead_def boot_mode_def)
  moreover obtain d3 where "boot_load stale (length file div 512 + 1) 0 d2 = Some (file, d3)"
  proof -
    have "boot_mode file d2" "gotPrepareMsg d2" "logBuffer d2 = []" "length (bootBuf d2) = 521"
      using d1(1,2,5,6) by (simp_all add: d2_def boot_mode_def)
    moreover have "length file < (0 + (length file div 512 + 1)) * 512" using dividend_less_div_times [of 512 "length file"] by simp
    ultimately show ?thesis using that boot_load_file [of "file" d2 0 "length file div 512 + 1" stale] assms(1) by auto
  qed
  ultimately show ?thesis using 1 2 unfolding d1_def [symmetric] bytes_def msg_def by blast
qed

lemma boot_transfer_witness:
  "\<exists>d1 d2 d3. boot_writes [] (ascii ''Preparing to load CyOS'' @ [13, 10])
        (BootSerial_setBootFile (Some (replicate 600 7)) (BootSerial_new 2 (SDCard_new (\<lambda>_. 0) (\<lambda>_. 0)) (replicate 521 0))) = Some d1 \<and>
      boot_receive (length (ascii ''rcv file.boot '' @ dec 600 @ [10]) + 2) d1 =
        Some (ascii ''rcv file.boot '' @ dec 600 @ [10] @
          [ucast (boot_crc (ascii ''rcv file.boot '' @ dec 600)), ucast (drop_bit 8 (boot_crc (ascii ''rcv file.boot '' @ dec 600)))], d2) \<and>
      boot_load [] 2 0 d2 = Some (replicate 600 7, d3)"
proof -
  have "length (replicate 600 (7 :: u8)) < 2 ^ 31 - 512" "length (replicate 521 (0 :: u8)) = 521" by simp_all
  from boot_transfer [OF this, of "[]" 2 "SDCard_new (\<lambda>_. 0) (\<lambda>_. 0)"] show ?thesis
    by (auto simp: butlast_append numeral_2_eq_2 simp del: boot_load.simps boot_receive.simps boot_writes.simps)
qed

end
