(* ===== verification/Sercon.thy ===== *)
theory Sercon
  imports BootSerial
begin

text \<open>
  \<open>tools/sercon.c\<close>: the tool on the host that boots a device, sends it a file or talks to its
  console over a serial port.  The port library is an argument, the two operations that the tool uses;
  the locale \<open>serial_port\<close> says what they do.  Messages to the user are left out.  \<open>None\<close> is an access
  outside a buffer, arithmetic that overflows or a run that does not end.
\<close>

section \<open>The port\<close>

text \<open>\<open>sp_blocking_read\<close> of one byte with a timeout, and \<open>sp_blocking_write\<close>, whose result tells an error.\<close>

record 'p sp_ops =
  sp_read :: "nat \<Rightarrow> 'p \<Rightarrow> u8 option \<times> 'p"
  sp_write :: "u8 list \<Rightarrow> 'p \<Rightarrow> bool \<times> 'p"

section \<open>Checksums\<close>

definition serial_step :: "u8 \<Rightarrow> u32 \<Rightarrow> u32" where
  "serial_step b ret = (let ret = ret XOR ucast b in push_bit 1 ret OR (drop_bit 16 ret AND 1))"

definition serialChecksum :: "u8 list \<Rightarrow> u16" where
  "serialChecksum data = ucast (fold serial_step data 0)"

text \<open>\<open>tools/crc.c\<close>\<close>

definition tools_crc32 :: "u8 list \<Rightarrow> u32" where
  "tools_crc32 data = fold (crc_byte 0xEDB88320) data 0xFFFFFFFF"

section \<open>Lines and commands\<close>

text \<open>\<open>sizeof(buf)\<close> is 1024 everywhere; a line leaves the rest of the buffer as it was.\<close>

fun readLine_loop :: "'p sp_ops \<Rightarrow> nat \<Rightarrow> 'p \<Rightarrow> u8 list \<times> 'p" where
  "readLine_loop S 0 p = ([], p)"
| "readLine_loop S (Suc n) p =
     (case sp_read S 10000 p of (None, p) \<Rightarrow> ([], p)
      | (Some c, p) \<Rightarrow> if c = 10 then ([c], p) else let (bs, p) = readLine_loop S n p in (c # bs, p))"

definition serialReadLine :: "'p sp_ops \<Rightarrow> u8 list \<Rightarrow> 'p \<Rightarrow> int \<times> u8 list \<times> 'p" where
  "serialReadLine S buf p =
     (let (bs, p) = readLine_loop S 1024 p in (if bs = [] then - 1 else int (length bs), bs @ drop (length bs) buf, p))"

definition checkOSConsole :: "'p sp_ops \<Rightarrow> nat \<Rightarrow> 'p \<Rightarrow> bool \<times> 'p" where
  "checkOSConsole S timeout p =
     (let (_, p) = sp_write S [10, 0, 0] p; (b, p) = sp_read S timeout p in (b = Some 2, p))"

partial_function (option) wait_ready :: "'p sp_ops \<Rightarrow> u8 list \<Rightarrow> 'p \<Rightarrow> (bool \<times> 'p) option" where
  "wait_ready S buf p =
     (case serialReadLine S buf p of (len, buf, p) \<Rightarrow>
        if len < 0 then Some (False, p)
        else if take 9 buf = ascii ''Ready >'' @ [13, 10] then Some (True, snd (sp_read S 10000 p))
        else wait_ready S buf p)"

definition waitOSConsoleReady :: "'p sp_ops \<Rightarrow> u8 list \<Rightarrow> 'p \<Rightarrow> (bool \<times> 'p) option" where
  "waitOSConsoleReady S stale p = wait_ready S stale p"

text \<open>The answer is looked up in the buffer, which holds the checksum if no answer came.\<close>

definition sendCyOSCommand :: "'p sp_ops \<Rightarrow> u8 list \<Rightarrow> bool \<Rightarrow> 'p \<Rightarrow> bool \<times> 'p" where
  "sendCyOSCommand S cmd checkRes p =
     (let checksum = serialChecksum (take (length cmd - 1) cmd);
          (_, p) = sp_write S cmd p;
          buf0 = ucast checksum; buf1 = ucast (drop_bit 8 checksum);
          (_, p) = sp_write S [buf0, buf1] p
      in if \<not> checkRes then (True, p)
         else let (r, p) = sp_read S 1000 p; buf0 = (case r of Some b \<Rightarrow> b | None \<Rightarrow> buf0) in (buf0 = 2, p))"

section \<open>Sending a file\<close>

text \<open>\<open>atoi\<close>; \<open>None\<close> is a number without an end or beyond the range of \<open>int\<close>.\<close>

definition atoi_bytes :: "u8 list \<Rightarrow> int option" where
  "atoi_bytes s =
     (let s = dropWhile is_space s;
          (neg, s) = (case s of [] \<Rightarrow> (False, []) | b # bs \<Rightarrow> if b = 45 then (True, bs) else if b = 43 then (False, bs) else (False, s));
          ds = takeWhile is_dec s; v = (if neg then - dec_value ds else dec_value ds)
      in if length ds = length s \<or> v < - (2 ^ 31) \<or> 2 ^ 31 \<le> v then None else Some v)"

definition sercon_chunk :: "int \<Rightarrow> u8 list \<Rightarrow> u8 list" where
  "sercon_chunk chunkIndex file =
     (let maxChunkSize = 512; size = length file; chunkOff = nat chunkIndex * maxChunkSize;
          chunkSize = (if (nat chunkIndex + 1) * maxChunkSize > size then size - chunkOff else maxChunkSize);
          hd = [of_int chunkIndex, of_int (chunkIndex div 256), of_nat chunkSize, of_nat (chunkSize div 256)];
          data = take chunkSize (drop chunkOff file);
          crc = NOT (tools_crc32 (hd @ data))
      in 67 # hd @ data @ [ucast crc, ucast (drop_bit 8 crc), ucast (drop_bit 16 crc), ucast (drop_bit 24 crc)])"

partial_function (option) send_loop :: "'p sp_ops \<Rightarrow> u8 list \<Rightarrow> u8 list \<Rightarrow> 'p \<Rightarrow> (bool \<times> 'p) option" where
  "send_loop S file buf p =
     (case serialReadLine S buf p of (len, buf, p) \<Rightarrow>
        if len < 0 then Some (False, p)
        else if take 4 buf = ascii ''send''
        then (case atoi_bytes (drop 4 buf) of None \<Rightarrow> None
              | Some chunkIndex \<Rightarrow>
                if chunkIndex * 512 < - (2 ^ 31) \<or> 2 ^ 31 \<le> chunkIndex * 512 then None
                else if chunkIndex < 0 \<or> int (length file) \<le> chunkIndex * 512 then Some (False, p)
                else if 2 ^ 31 \<le> (chunkIndex + 1) * 512 then None
                else (case sercon_chunk chunkIndex file of bytes \<Rightarrow>
                        send_loop S file (bytes @ drop (length bytes) buf) (snd (sp_write S bytes p))))
        else if take 4 buf = ascii ''done'' \<or> take 7 buf = ascii ''Ready >'' then Some (True, p)
        else send_loop S file buf p)"

definition sendFileData :: "'p sp_ops \<Rightarrow> u8 list \<Rightarrow> u8 list \<Rightarrow> u8 list \<Rightarrow> bool \<Rightarrow> 'p \<Rightarrow> (bool \<times> 'p) option" where
  "sendFileData S stale destName file isBoot p =
     (let cmd = ascii ''rcv '' @ destName @ [32] @ dec (length file) @ [10]
      in if 1024 < length cmd + 1 then None
         else let (_, p) = sendCyOSCommand S cmd (\<not> isBoot) p
              in send_loop S file (cmd @ [0] @ drop (length cmd + 1) stale) p)"

partial_function (option) wait_load :: "'p sp_ops \<Rightarrow> u8 list \<Rightarrow> 'p \<Rightarrow> (bool \<times> 'p) option" where
  "wait_load S buf p =
     (case serialReadLine S buf p of (len, buf, p) \<Rightarrow>
        if len < 0 then Some (False, p)
        else if take 24 buf = ascii ''Preparing to load CyOS'' @ [13, 10] then Some (True, p)
        else wait_load S buf p)"

text \<open>\<open>file\<close> is what the file contains, \<open>None\<close> when it cannot be opened; its header is read without a check of its length.\<close>

definition bootDevice :: "'p sp_ops \<Rightarrow> u8 list \<Rightarrow> u8 list option \<Rightarrow> 'p \<Rightarrow> 'p option" where
  "bootDevice S stale contents p =
     (case contents of None \<Rightarrow> Some p
      | Some file \<Rightarrow>
        if length file < 4 then None
        else if take 4 file \<noteq> [0x12, 0x34, 0xAB, 0xCD] then Some p
        else do { (ok, p) \<leftarrow> wait_load S stale p;
                  if \<not> ok then Some p
                  else do { (_, p) \<leftarrow> sendFileData S stale (ascii ''file.boot'') file True p; Some p } })"

definition sercon_sendFile :: "'p sp_ops \<Rightarrow> u8 list \<Rightarrow> u8 list option \<Rightarrow> u8 list \<Rightarrow> 'p \<Rightarrow> 'p option" where
  "sercon_sendFile S stale contents deviceName p =
     (let (console, p) = checkOSConsole S 10000 p
      in if \<not> console then Some p
         else do { (_, p) \<leftarrow> waitOSConsoleReady S stale p;
                   case contents of None \<Rightarrow> Some p
                   | Some file \<Rightarrow> do { (_, p) \<leftarrow> sendFileData S stale deviceName file False p; Some p } })"

text \<open>The lines of the standard input; at its end the loop prompts for ever.\<close>

fun console_loop :: "'p sp_ops \<Rightarrow> u8 list \<Rightarrow> u8 list list \<Rightarrow> 'p \<Rightarrow> 'p option" where
  "console_loop S stale [] p = None"
| "console_loop S stale (line # lines) p =
     (let (ok, p) = sendCyOSCommand S line True p
      in if \<not> ok then Some p
         else do { (ready, p) \<leftarrow> waitOSConsoleReady S stale p;
                   if \<not> ready then Some p else console_loop S stale lines p })"

definition serialConsole :: "'p sp_ops \<Rightarrow> u8 list \<Rightarrow> u8 list list \<Rightarrow> 'p \<Rightarrow> 'p option" where
  "serialConsole S stale lines p =
     (let (console, p) = checkOSConsole S 10000 p
      in if \<not> console then Some p
         else do { (_, p) \<leftarrow> waitOSConsoleReady S stale p; console_loop S stale lines p })"

section \<open>The command line\<close>

record sercon_args =
  arg_port :: "string option"
  arg_boot :: "string option"
  arg_send :: "string option"
  arg_dst :: "string option"

fun sercon_parse :: "string list \<Rightarrow> sercon_args \<Rightarrow> sercon_args option" where
  "sercon_parse [] a = Some a"
| "sercon_parse [x] a = None"
| "sercon_parse (x # y # r) a =
     (if x = ''-b'' then sercon_parse r (a\<lparr>arg_boot := Some y\<rparr>)
      else if x = ''-s'' then sercon_parse r (a\<lparr>arg_send := Some y\<rparr>)
      else if x = ''-d'' then sercon_parse r (a\<lparr>arg_dst := Some y\<rparr>)
      else if x = ''-p'' then sercon_parse r (a\<lparr>arg_port := Some y\<rparr>)
      else None)"

text \<open>
  The environment: the default port, opening a port, the files and the lines of the input.  The
  result is the exit code and the port that was used; without any port the library is asked for a null name.
\<close>

definition sercon_main ::
  "'p sp_ops \<Rightarrow> u8 list \<Rightarrow> string option \<Rightarrow> (string \<Rightarrow> 'p option) \<Rightarrow> (string \<Rightarrow> u8 list option) \<Rightarrow> u8 list list \<Rightarrow> string list \<Rightarrow> (int \<times> 'p option) option" where
  "sercon_main S stale first_port open_port files lines args =
     (case sercon_parse args \<lparr>arg_port = None, arg_boot = None, arg_send = None, arg_dst = None\<rparr> of None \<Rightarrow> Some (1, None)
      | Some a \<Rightarrow>
        case (case arg_port a of Some n \<Rightarrow> Some n | None \<Rightarrow> first_port) of None \<Rightarrow> None
        | Some portName \<Rightarrow>
          case open_port portName of None \<Rightarrow> Some (1, None)
          | Some p \<Rightarrow>
            do { p \<leftarrow> (case arg_boot a of Some f \<Rightarrow>
                        do { p \<leftarrow> (let (console, p) = checkOSConsole S 1000 p
                                  in if \<not> console then Some p
                                     else do { (_, p) \<leftarrow> waitOSConsoleReady S stale p;
                                               Some (snd (sendCyOSCommand S (ascii ''reboot'' @ [10]) True p)) });
                             bootDevice S stale (files f) p }
                      | None \<Rightarrow>
                        case arg_send a of Some f \<Rightarrow>
                          sercon_sendFile S stale (files f) (ascii (case arg_dst a of Some n \<Rightarrow> n | None \<Rightarrow> f)) p
                        | None \<Rightarrow> serialConsole S stale lines p);
                 Some (0, Some p) })"

section \<open>Requests, chunks and checksums\<close>

text \<open>The two sides of the boot protocol compute the same chunks.\<close>

lemma sercon_chunk_boot:
  assumes "k * 512 < length file" shows "sercon_chunk (int k) file = boot_chunk (int k) file"
proof -
  define c where "c = (if (k + 1) * 512 > length file then length file - k * 512 else 512)"
  define data where "data = take 512 (drop (k * 512) file)"
  have c: "c = length data" "take (length data) (drop (k * 512) file) = data" using assms by (auto simp: c_def data_def min_def)
  have "sercon_chunk (int k) file = (let hd = [of_int (int k), of_int (int k div 256), of_nat c, of_nat (c div 256)];
      data = take c (drop (k * 512) file); crc = NOT (tools_crc32 (hd @ data))
    in 67 # hd @ data @ [ucast crc, ucast (drop_bit 8 crc), ucast (drop_bit 16 crc), ucast (drop_bit 24 crc)])"
    unfolding sercon_chunk_def Let_def nat_int c_def ..
  moreover have "boot_chunk (int k) file = (let hd = [of_int (int k), of_int (int k div 256), of_nat (length data), of_nat (length data div 256)];
      crc = NOT (crc32 (hd @ data)) in 67 # hd @ data @ le32 crc)"
    unfolding boot_chunk_def Let_def nat_int data_def by (simp del: of_int_of_nat_eq)
  ultimately show ?thesis unfolding c(1) c(2) by (simp add: Let_def le32_def tools_crc32_def crc32_def)
qed

lemma atoi_dec:
  assumes "k < 2 ^ 31" shows "atoi_bytes (32 # dec k @ 13 # r) = Some (int k)"
proof -
  obtain b bs where b: "dec k = b # bs" "is_dec b" using dec_ok [of k] by (cases "dec k") auto
  have "dropWhile is_space (32 # dec k @ 13 # r) = dec k @ 13 # r"
    using b dec_byte [OF b(2)] by simp (simp add: is_space_def)
  moreover have "takeWhile is_dec (dec k @ 13 # r) = dec k"
    using dec_ok [of k] by (simp add: takeWhile_append2 is_dec_def)
  moreover have "b \<noteq> 45" "b \<noteq> 43" using dec_byte [OF b(2)] by simp_all
  ultimately show ?thesis using dec_ok [of k] assms b(1) by (simp add: atoi_bytes_def Let_def)
qed

text \<open>
  The check sum of the tool rotates, with a delay of one step, where the emulator shifts a wide
  register and folds its upper part at the end.  Both agree while the register does not overflow.
\<close>

definition wide_step :: "u8 \<Rightarrow> u32 \<Rightarrow> u32" where
  "wide_step b crc = push_bit 1 crc XOR push_bit 1 (ucast b)"

lemma wide_step_bit: "bit (wide_step d a) i \<longleftrightarrow> 0 < i \<and> i < 32 \<and> (bit a (i - 1) \<noteq> bit d (i - 1))"
  unfolding wide_step_def bit_xor_iff bit_push_bit_iff bit_unsigned_iff by auto

lemma serial_step_bit:
  "bit (serial_step d s) i \<longleftrightarrow> (if i = 0 then bit s 16 else i < 32 \<and> (bit s (i - 1) \<noteq> bit d (i - 1)))"
proof -
  have d: "\<not> bit d 16" using bit_imp_le_length [of d 16] by auto
  show ?thesis
    unfolding serial_step_def Let_def bit_or_iff bit_and_iff bit_xor_iff bit_push_bit_iff bit_drop_bit_eq comp_def bit_unsigned_iff bit_1_iff
    using d by auto
qed

lemma wide_bits: "bit (fold wide_step ds 0) i \<Longrightarrow> i < length ds + 8"
proof (induction ds arbitrary: i rule: rev_induct)
  case (snoc d ds)
  then have "i \<noteq> 0 \<and> (bit (fold wide_step ds 0) (i - 1) \<or> bit d (i - 1))" by (auto simp: wide_step_bit)
  then show ?case using snoc.IH [of "i - 1"] bit_imp_le_length [of d "i - 1"] by auto
qed simp

lemma serial_wide:
  "length ds \<le> 24 \<Longrightarrow> fold serial_step ds 0 = fold wide_step ds 0 XOR drop_bit 17 (fold wide_step ds 0)"
proof (induction ds rule: rev_induct)
  case (snoc d ds)
  let ?a = "fold wide_step ds 0" and ?s = "fold serial_step ds 0"
  have IH: "?s = ?a XOR drop_bit 17 ?a" using snoc by simp
  have s: "bit ?s i \<longleftrightarrow> bit ?a i \<noteq> bit ?a (17 + i)" for i unfolding IH bit_xor_iff bit_drop_bit_eq comp_def ..
  have hi: "\<not> bit ?a i" if "31 \<le> i" for i using wide_bits [of ds i] snoc.prems that by auto
  have d: "\<not> bit d i" if "8 \<le> i" for i using bit_imp_le_length [of d i] that by auto
  have "bit (serial_step d ?s) i \<longleftrightarrow> bit (wide_step d ?a) i \<noteq> bit (wide_step d ?a) (17 + i)" for i
  proof (cases "i = 0")
    case True
    then show ?thesis unfolding serial_step_bit wide_step_bit s using hi [of 33] d [of 16] by simp
  next
    case False
    then have e: "17 + (i - 1) = 16 + i" "17 + i - 1 = 16 + i" by simp_all
    show ?thesis unfolding serial_step_bit wide_step_bit s e using False hi [of "16 + i"] d [of "16 + i"] by auto
  qed
  then have "serial_step d ?s = wide_step d ?a XOR drop_bit 17 (wide_step d ?a)"
    by (intro bit_word_eqI) (simp only: bit_xor_iff bit_drop_bit_eq comp_def)
  then show ?case by simp
qed simp

lemma serialChecksum_boot:
  assumes "length data \<le> 24" shows "serialChecksum data = boot_crc data"
proof -
  let ?w = "fold wide_step data 0"
  have m: "(0xFFFF :: u32) = mask 16" by (simp add: mask_eq_exp_minus_1)
  have "boot_crc data = ucast ((?w AND mask 16) XOR drop_bit 17 ?w)"
    unfolding boot_crc_def m wide_step_def [abs_def] Let_def ..
  moreover have "bit (ucast (?w XOR drop_bit 17 ?w) :: u16) i = bit (ucast ((?w AND mask 16) XOR drop_bit 17 ?w) :: u16) i" for i
    by (auto simp: bit_unsigned_iff bit_xor_iff bit_and_iff bit_mask_iff)
  ultimately show ?thesis unfolding serialChecksum_def serial_wide [OF assms] by (auto intro: bit_eqI)
qed

section \<open>What a port does\<close>

text \<open>
  The bytes that a port still delivers, where \<open>None\<close> is a pause in which a read times out, and
  those it has taken.
\<close>

locale serial_port =
  fixes S :: "'p sp_ops" and incoming :: "'p \<Rightarrow> u8 option list" and taken :: "'p \<Rightarrow> u8 list"
  assumes read_byte: "incoming p = Some b # r \<Longrightarrow> fst (sp_read S t p) = Some b \<and> incoming (snd (sp_read S t p)) = r \<and>
      taken (snd (sp_read S t p)) = taken p"
    and read_pause: "incoming p = None # r \<Longrightarrow> fst (sp_read S t p) = None \<and> incoming (snd (sp_read S t p)) = r \<and>
      taken (snd (sp_read S t p)) = taken p"
    and write_bytes: "incoming (snd (sp_write S bs p)) = incoming p \<and> taken (snd (sp_write S bs p)) = taken p @ bs"
begin

abbreviation port_at :: "'p \<Rightarrow> u8 option list \<Rightarrow> u8 list \<Rightarrow> bool" where
  "port_at p xs ys \<equiv> incoming p = xs \<and> taken p = ys"

lemma readLine_loop_line:
  "incoming p = map Some l @ Some 10 # r \<Longrightarrow> 10 \<notin> set l \<Longrightarrow> length l < n \<Longrightarrow>
   \<exists>p'. readLine_loop S n p = (l @ [10], p') \<and> port_at p' r (taken p)"
proof (induction l arbitrary: p n)
  case Nil
  then obtain m where m: "n = Suc m" by (cases n) auto
  obtain c p' where c: "sp_read S 10000 p = (c, p')" by fastforce
  then show ?case using read_byte [of p 10 r 10000] Nil m by auto
next
  case (Cons b l)
  then obtain m where m: "n = Suc m" "length l < m" by (cases n) auto
  obtain c p1 where c: "sp_read S 10000 p = (c, p1)" by fastforce
  then have p1: "c = Some b" "port_at p1 (map Some l @ Some 10 # r) (taken p)" using read_byte [of p b _ 10000] Cons.prems(1) by auto
  from Cons.IH [of p1 m] p1(2) Cons.prems(2) m(2) obtain p' where "readLine_loop S m p1 = (l @ [10], p')" "port_at p' r (taken p)" by auto
  then show ?case using c p1(1) m(1) Cons.prems(2) by auto
qed

lemma read_line:
  assumes "incoming p = map Some l @ Some 10 # r" "10 \<notin> set l" "length l < 1024"
  shows "\<exists>p'. serialReadLine S buf p = (int (length l + 1), (l @ [10]) @ drop (length l + 1) buf, p') \<and> port_at p' r (taken p)"
  using readLine_loop_line [OF assms] by (auto simp: serialReadLine_def)

lemma write_line:
  "\<exists>r p'. sp_write S bs p = (r, p') \<and> port_at p' (incoming p) (taken p @ bs)"
  using write_bytes [of bs p] by (cases "sp_write S bs p") auto

lemma send_command: "\<exists>p'. sendCyOSCommand S cmd False p = (True, p') \<and>
    port_at p' (incoming p) (taken p @ cmd @ [ucast (serialChecksum (take (length cmd - 1) cmd)), ucast (drop_bit 8 (serialChecksum (take (length cmd - 1) cmd)))])"
proof -
  obtain a p1 where 1: "sp_write S cmd p = (a, p1)" "port_at p1 (incoming p) (taken p @ cmd)" using write_line by blast
  let ?c = "[ucast (serialChecksum (take (length cmd - 1) cmd)), ucast (drop_bit 8 (serialChecksum (take (length cmd - 1) cmd)))]"
  obtain b p2 where "sp_write S ?c p1 = (b, p2)" "port_at p2 (incoming p1) (taken p1 @ ?c)" using write_line by blast
  then show ?thesis using 1 by (auto simp: sendCyOSCommand_def Let_def)
qed

abbreviation request_line :: "nat \<Rightarrow> u8 list" where
  "request_line k \<equiv> ascii ''send '' @ dec k @ [13, 10]"

lemma send_requests:
  "incoming p = concat (map (\<lambda>k. map Some (request_line k)) ks) @ map Some (ascii ''done'' @ [13, 10]) @ r \<Longrightarrow>
   \<forall>k \<in> set ks. k * 512 < length file \<Longrightarrow> length file < 2 ^ 31 - 512 \<Longrightarrow>
   \<exists>p'. send_loop S file buf p = Some (True, p') \<and> port_at p' r (taken p @ concat (map (\<lambda>k. boot_chunk (int k) file) ks))"
proof (induction ks arbitrary: buf p)
  case Nil
  have "incoming p = map Some (ascii ''done'' @ [13]) @ Some 10 # r" using Nil by simp
  from read_line [OF this, of buf] obtain p' where
    "serialReadLine S buf p = (int (length (ascii ''done'' @ [13]) + 1), ((ascii ''done'' @ [13]) @ [10]) @ drop (length (ascii ''done'' @ [13]) + 1) buf, p')"
    "port_at p' r (taken p)" by (auto simp: ascii_def)
  then show ?case by (subst send_loop.simps) (simp add: ascii_def)
next
  case (Cons k ks)
  let ?l = "ascii ''send '' @ dec k @ [13]" and ?r = "concat (map (\<lambda>k. map Some (request_line k)) ks) @ map Some (ascii ''done'' @ [13, 10]) @ r"
  have k: "k * 512 < length file" "length file < 2 ^ 31 - 512" using Cons.prems by simp_all
  have "k < 10 ^ 10" using k by simp
  from dec_length [OF this] have "length ?l < 1024" by (simp add: ascii_def)
  moreover have "10 \<notin> set ?l" using dec_ok [of k] dec_byte by (auto simp: ascii_def)
  moreover have "incoming p = map Some ?l @ Some 10 # ?r" using Cons.prems(1) by simp
  ultimately obtain p1 where p1: "serialReadLine S buf p = (int (length ?l + 1), (?l @ [10]) @ drop (length ?l + 1) buf, p1)"
    "port_at p1 ?r (taken p)" using read_line [of p ?l ?r buf] by blast
  let ?b = "(?l @ [10]) @ drop (length ?l + 1) buf"
  have a: "take 4 ?b = ascii ''send''" "drop 4 ?b = 32 # dec k @ 13 # 10 # drop (length ?l + 1) buf" by (simp_all add: ascii_def)
  have n: "atoi_bytes (drop 4 ?b) = Some (int k)" unfolding a(2) using k by (intro atoi_dec) simp
  let ?c = "boot_chunk (int k) file"
  obtain x p2 where p2: "sp_write S ?c p1 = (x, p2)" "port_at p2 ?r (taken p @ ?c)" using write_line [of ?c p1] p1(2) by auto
  from Cons.IH [of p2 "?c @ drop (length ?c) ?b"] p2(2) Cons.prems obtain p' where
    p': "send_loop S file (?c @ drop (length ?c) ?b) p2 = Some (True, p')" "port_at p' r (taken p @ ?c @ concat (map (\<lambda>k. boot_chunk (int k) file) ks))"
    by auto
  have "\<not> 2 ^ 31 \<le> (int k + 1) * 512" "\<not> 2 ^ 31 \<le> int k * 512" "\<not> int k * 512 < - (2 ^ 31)" "\<not> int (length file) \<le> int k * 512"
    using k by simp_all
  then have "send_loop S file buf p = Some (True, p')"
    unfolding send_loop.simps [of S "file" buf p] p1(1) prod.case a(1) n option.case
    using p' p2(1) sercon_chunk_boot [OF k(1)] by (simp del: append_assoc)
  then show ?case using p'(2) by simp
qed

text \<open>Booting: what the port takes when the loader of the device asks for chunks.\<close>

lemma boot_device:
  assumes p: "incoming p = map Some (ascii ''Preparing to load CyOS'' @ [13, 10]) @
      concat (map (\<lambda>k. map Some (request_line k)) ks) @ map Some (ascii ''done'' @ [13, 10]) @ r"
    and f: "take 4 file = [0x12, 0x34, 0xAB, 0xCD]" "length file < 2 ^ 31 - 512" "\<forall>k \<in> set ks. k * 512 < length file"
    and msg: "msg = ascii ''rcv file.boot '' @ dec (length file) @ [10]"
  shows "\<exists>p'. bootDevice S stale (Some file) p = Some p' \<and>
    port_at p' r (taken p @ msg @ [ucast (boot_crc (butlast msg)), ucast (drop_bit 8 (boot_crc (butlast msg)))] @
      concat (map (\<lambda>k. boot_chunk (int k) file) ks))"
proof -
  let ?l = "ascii ''Preparing to load CyOS'' @ [13]" and ?q = "concat (map (\<lambda>k. map Some (request_line k)) ks) @ map Some (ascii ''done'' @ [13, 10]) @ r"
  have "incoming p = map Some ?l @ Some 10 # ?q" "10 \<notin> set ?l" "length ?l < 1024" using p by (simp_all add: ascii_def)
  from read_line [OF this, of stale] obtain p1 where p1: "serialReadLine S stale p = (int (length ?l + 1), (?l @ [10]) @ drop (length ?l + 1) stale, p1)"
    "port_at p1 ?q (taken p)" by blast
  have w: "wait_load S stale p = Some (True, p1)"
    unfolding wait_load.simps [of S stale p] p1(1) prod.case by (simp add: ascii_def)
  have "length file < 10 ^ 10" using f(2) by simp
  from dec_length [OF this] have len: "length msg \<le> 25" by (simp add: msg ascii_def)
  have m: "ascii ''rcv '' @ ascii ''file.boot'' @ [32] @ dec (length file) @ [10] = msg" by (simp add: msg ascii_def)
  have c: "take (length msg - 1) msg = butlast msg" "serialChecksum (butlast msg) = boot_crc (butlast msg)"
    using len by (simp_all add: butlast_conv_take serialChecksum_boot)
  let ?c = "[ucast (boot_crc (butlast msg)), ucast (drop_bit 8 (boot_crc (butlast msg)))] :: u8 list"
  obtain p2 where p2: "sendCyOSCommand S msg False p1 = (True, p2)" "port_at p2 ?q (taken p @ msg @ ?c)"
    using send_command [of msg p1] p1(2) unfolding c by auto
  from send_requests [OF _ f(3,2), of p2 r "msg @ [0] @ drop (length msg + 1) stale"] p2(2) obtain p' where
    s: "send_loop S file (msg @ [0] @ drop (length msg + 1) stale) p2 = Some (True, p')"
      "port_at p' r ((taken p @ msg @ ?c) @ concat (map (\<lambda>k. boot_chunk (int k) file) ks))" by auto
  have "sendFileData S stale (ascii ''file.boot'') file True p1 = Some (True, p')"
    unfolding sendFileData_def m Let_def using len p2(1) s(1) by simp
  moreover have "4 \<le> length file" using arg_cong [OF f(1), of length] by simp
  ultimately show ?thesis using w f(1) s(2) by (simp add: bootDevice_def)
qed

end

section \<open>A port as two lists\<close>

text \<open>The port that keeps exactly what a port is said to deliver and to take.\<close>

type_synonym stream_port = "u8 option list \<times> u8 list"

fun stream_read :: "nat \<Rightarrow> stream_port \<Rightarrow> u8 option \<times> stream_port" where
  "stream_read t ([], out) = (None, [], out)"
| "stream_read t (b # inp, out) = (b, inp, out)"

fun stream_write :: "u8 list \<Rightarrow> stream_port \<Rightarrow> bool \<times> stream_port" where
  "stream_write bs (inp, out) = (True, inp, out @ bs)"

definition stream_ops :: "stream_port sp_ops" where
  "stream_ops = \<lparr>sp_read = stream_read, sp_write = stream_write\<rparr>"

interpretation stream: serial_port stream_ops fst snd
proof
  show "fst p = Some b # r \<Longrightarrow> fst (sp_read stream_ops t p) = Some b \<and> fst (snd (sp_read stream_ops t p)) = r \<and>
      snd (snd (sp_read stream_ops t p)) = snd p" for p b r t by (cases p) (auto simp: stream_ops_def)
  show "fst p = None # r \<Longrightarrow> fst (sp_read stream_ops t p) = None \<and> fst (snd (sp_read stream_ops t p)) = r \<and>
      snd (snd (sp_read stream_ops t p)) = snd p" for p r t by (cases p) (auto simp: stream_ops_def)
  show "fst (snd (sp_write stream_ops bs p)) = fst p \<and> snd (snd (sp_write stream_ops bs p)) = snd p @ bs" for bs p
    by (cases p) (simp add: stream_ops_def)
qed

section \<open>The tool and the emulator\<close>

text \<open>C34:
  The boot tool of the host and the boot port of the emulator are interchangeable for the loader of
  a device.  On any port that delivers and takes bytes in order, when the loader announces itself, asks for
  any sequence of chunks of the file and reports that it is done, the tool returns after it has
  sent the announcement of the file with the very check sum of the emulator, though the two
  compute it differently, and then for every request the very chunk that the emulated port would have.
\<close>

theorem sercon_boots:
  fixes S :: "'p sp_ops"
  assumes "serial_port S incoming taken"
    and "incoming p = map Some (ascii ''Preparing to load CyOS'' @ [13, 10]) @
      concat (map (\<lambda>k. map Some (ascii ''send '' @ dec k @ [13, 10])) ks) @ map Some (ascii ''done'' @ [13, 10]) @ r"
    and "take 4 img = [0x12, 0x34, 0xAB, 0xCD]" "length img < 2 ^ 31 - 512" "\<forall>k \<in> set ks. k * 512 < length img"
    and "length buf = 521" "msg = take (bootBufLen d) (bootBuf d)" "d = BootSerial_setBootFile (Some img) (BootSerial_new index sd buf)"
  shows "\<exists>p'. bootDevice S stale (Some img) p = Some p' \<and> incoming p' = r \<and>
    taken p' = taken p @ msg @ concat (map (\<lambda>k. boot_chunk (int k) img) ks)"
proof -
  define line where "line = ascii ''rcv file.boot '' @ dec (length img) @ [10]"
  have "int32 (int (length img)) = int (length img)" using assms(4) sint_address [of "length img"] by (simp add: int32_def)
  then have m: "ascii ''rcv file.boot '' @ dec_int (int32 (int (length img))) @ [10] = line" by (simp add: line_def dec_int_def)
  have "msg = line @ [ucast (boot_crc (butlast line)), ucast (drop_bit 8 (boot_crc (butlast line)))]"
    unfolding assms(7,8) BootSerial_setBootFile_def option.case m Let_def by simp
  then show ?thesis using serial_port.boot_device [OF assms(1-5) line_def, of stale] by auto
qed

lemma sercon_boots_witness:
  "\<exists>p'. bootDevice stream_ops (replicate 1024 0) (Some ([0x12, 0x34, 0xAB, 0xCD] @ replicate 600 1))
      (map Some (ascii ''Preparing to load CyOS'' @ [13, 10]) @
       concat (map (\<lambda>k. map Some (ascii ''send '' @ dec k @ [13, 10])) [0, 1, 1]) @ map Some (ascii ''done'' @ [13, 10]) @ [None], []) = Some p' \<and>
    fst p' = [None] \<and>
    snd p' = [] @ take (bootBufLen (BootSerial_setBootFile (Some ([0x12, 0x34, 0xAB, 0xCD] @ replicate 600 1))
          (BootSerial_new 1 (SDCard_new (\<lambda>_. 0) (\<lambda>_. 0)) (replicate 521 0))))
        (bootBuf (BootSerial_setBootFile (Some ([0x12, 0x34, 0xAB, 0xCD] @ replicate 600 1))
          (BootSerial_new 1 (SDCard_new (\<lambda>_. 0) (\<lambda>_. 0)) (replicate 521 0)))) @
      concat (map (\<lambda>k. boot_chunk (int k) ([0x12, 0x34, 0xAB, 0xCD] @ replicate 600 1)) [0, 1, 1])"
proof -
  let ?f = "[0x12, 0x34, 0xAB, 0xCD] @ replicate 600 (1 :: u8)"
  let ?p = "(map Some (ascii ''Preparing to load CyOS'' @ [13, 10]) @
    concat (map (\<lambda>k. map Some (ascii ''send '' @ dec k @ [13, 10])) [0, 1, 1]) @ map Some (ascii ''done'' @ [13, 10]) @ [None],
    [] :: u8 list)"
  have f: "take 4 ?f = [0x12, 0x34, 0xAB, 0xCD]" "length ?f < 2 ^ 31 - 512" "\<forall>k \<in> set [0, 1, 1]. k * 512 < length ?f"
    "length (replicate 521 (0 :: u8)) = 521" by simp_all
  note sercon_boots [OF stream.serial_port_axioms, where p = ?p and ks = "[0, 1, 1]" and r = "[None]" and img = ?f
      and buf = "replicate 521 0" and index = 1 and sd = "SDCard_new (\<lambda>_. 0) (\<lambda>_. 0)" and stale = "replicate 1024 0",
      OF fst_conv f refl refl]
  then show ?thesis unfolding snd_conv .
qed

end
