(* ===== verification/LCDDriver.thy ===== *)
theory LCDDriver
  imports LCDDevice
begin

text \<open>
  \<open>lib/H8/LCDDriver.cpp\<close>, the library that a program for the device uses to show its frame buffer, and its
  composition with the display controller of the emulator.  The driver writes to the bus, an
  argument of its definitions.
\<close>

section \<open>The driver\<close>

record lcd_driver =
  framebuffer :: "u8 list"
  minDirtyY :: u8
  maxDirtyY :: u8

text \<open>The index and the data register, on the Xtreme and on the classic model.\<close>

definition LCD_INDEX :: "bool \<Rightarrow> u32" where
  "LCD_INDEX xtreme = (if xtreme then 0x100000 else 0x600000)"

definition LCD_DATA :: "bool \<Rightarrow> u32" where
  "LCD_DATA xtreme = (if xtreme then 0x100001 else 0x600001)"

type_synonym 'd bus = "u32 \<Rightarrow> u8 \<Rightarrow> 'd \<Rightarrow> 'd option"

definition lcd_writeReg :: "'d bus \<Rightarrow> bool \<Rightarrow> u8 \<Rightarrow> u8 \<Rightarrow> 'd \<Rightarrow> 'd option" where
  "lcd_writeReg wr xtreme reg val d = do { d \<leftarrow> wr (LCD_INDEX xtreme) reg d; wr (LCD_DATA xtreme) val d }"

definition setDirty :: "u8 \<Rightarrow> u8 \<Rightarrow> lcd_driver \<Rightarrow> lcd_driver" where
  "setDirty minY maxY s =
     (let s = (if minY < minDirtyY s then s\<lparr>minDirtyY := minY\<rparr> else s)
      in if maxY \<ge> maxDirtyY s then s\<lparr>maxDirtyY := (if maxY \<ge> 100 then 100 else maxY + 1)\<rparr> else s)"

text \<open>The bytes of one line, and the lines in the order of the loop with the rest of the frame buffer.\<close>

fun write_bytes :: "'d bus \<Rightarrow> bool \<Rightarrow> u8 list \<Rightarrow> 'd \<Rightarrow> 'd option" where
  "write_bytes wr xtreme [] d = Some d"
| "write_bytes wr xtreme (b # bs) d = do { d \<leftarrow> wr (LCD_DATA xtreme) b d; write_bytes wr xtreme bs d }"

fun write_lines :: "'d bus \<Rightarrow> bool \<Rightarrow> nat list \<Rightarrow> u8 list \<Rightarrow> 'd \<Rightarrow> 'd option" where
  "write_lines wr xtreme [] p d = Some d"
| "write_lines wr xtreme (y # ys) p d =
     do { d \<leftarrow> lcd_writeReg wr xtreme 3 (of_nat y) d; d \<leftarrow> wr (LCD_INDEX xtreme) 4 d;
          d \<leftarrow> write_bytes wr xtreme (take 40 p) d; write_lines wr xtreme ys (drop 40 p) d }"

definition updateDisplay :: "'d bus \<Rightarrow> bool \<Rightarrow> lcd_driver \<Rightarrow> 'd \<Rightarrow> (lcd_driver \<times> 'd) option" where
  "updateDisplay wr xtreme s d =
     (if maxDirtyY s = 0 then Some (s, d)
      else do { d \<leftarrow> write_lines wr xtreme (rev [0..<100]) (framebuffer s) d; Some (s\<lparr>maxDirtyY := 0\<rparr>, d) })"

definition LCDDriver_new :: "'d bus \<Rightarrow> bool \<Rightarrow> 'd \<Rightarrow> (lcd_driver \<times> 'd) option" where
  "LCDDriver_new wr xtreme d =
     do { d \<leftarrow> lcd_writeReg wr xtreme 0 (16 OR 8 OR 1) d; d \<leftarrow> lcd_writeReg wr xtreme 1 2 d;
          d \<leftarrow> lcd_writeReg wr xtreme 0 (64 OR 16 OR 8 OR 1) d;
          updateDisplay wr xtreme \<lparr>framebuffer = replicate (40 * 100) 0, minDirtyY = 0, maxDirtyY = 100\<rparr> d }"

section \<open>The driver on the controller\<close>

text \<open>An access of the bus reaches the controller with the address inside its area.\<close>

definition lcd_bus :: "lcd bus" where
  "lcd_bus addr val d = LCDDevice_write (addr AND 0x1FFFFF) val d"

lemma bus_index [simp]: "lcd_bus (LCD_INDEX xtreme) val d = Some (d\<lparr>regIndex := val\<rparr>)"
  by (simp add: lcd_bus_def LCD_INDEX_def LCDDevice_write_def)

lemma bus_data: "lcd_bus (LCD_DATA xtreme) val d = LCDDevice_write 1 val d"
  by (simp add: lcd_bus_def LCD_DATA_def LCDDevice_write_def)

lemma data_register: "regIndex d = 4 \<Longrightarrow> LCDDevice_write 1 val d = LCDDevice_data val d"
  by (simp add: LCDDevice_write_def)

text \<open>
  What the driver needs of the controller: the column counter runs through a line of 40 bytes.  It begins
  wherever it is, as the driver does not set it, and is there again after the line.
\<close>

definition lcd_counting :: "lcd \<Rightarrow> bool" where
  "lcd_counting d \<longleftrightarrow> tst (control2 d) C2_INC \<and> \<not> tst (control1 d) C2_WLS"

lemma write_bytes_ok:
  "lcd_counting d \<Longrightarrow> regIndex d = 4 \<Longrightarrow> lcd_x d = of_nat x \<Longrightarrow> lcd_y d = of_nat y \<Longrightarrow> x < 40 \<Longrightarrow> y < 100 \<Longrightarrow> length bs \<le> 40 \<Longrightarrow>
   \<exists>mem. write_bytes lcd_bus xtreme bs d = Some (d\<lparr>lcd_mem := mem, lcd_x := of_nat ((x + length bs) mod 40)\<rparr>) \<and>
     (\<forall>c < length bs. mem (y * 40 + (x + c) mod 40) = bs ! c) \<and>
     (\<forall>i. (\<forall>c < length bs. i \<noteq> y * 40 + (x + c) mod 40) \<longrightarrow> mem i = lcd_mem d i)"
proof (induction bs arbitrary: d x)
  case Nil
  then show ?case by (intro exI [of _ "lcd_mem d"]) simp
next
  case (Cons b bs)
  have u: "unat (of_nat x :: u8) = x" "unat (of_nat y :: u8) = y"
    using Cons.prems(5,6) by (simp_all add: unat_of_nat take_bit_nat_eq_self)
  have a: "x + y * 40 < 4000" using Cons.prems(5,6) by simp
  define d1 where "d1 = d\<lparr>lcd_mem := (lcd_mem d)(y * 40 + x := b), lcd_x := of_nat ((x + 1) mod 40)\<rparr>"
  have w: "lcd_bus (LCD_DATA xtreme) b d = Some d1"
    using Cons.prems(1-4) u a by (simp add: bus_data data_register LCDDevice_data_def lcd_counting_def d1_def add.commute)
  have s: "((x + 1) mod 40 + c) mod 40 = (x + Suc c) mod 40" for c by (simp add: mod_simps)
  have "(x + 1) mod 40 < 40" "length bs \<le> 40" using Cons.prems(7) by simp_all
  with Cons.IH [of d1 "(x + 1) mod 40"] Cons.prems obtain mem where
    m: "write_bytes lcd_bus xtreme bs d1 = Some (d1\<lparr>lcd_mem := mem, lcd_x := of_nat (((x + 1) mod 40 + length bs) mod 40)\<rparr>)"
    "\<forall>c < length bs. mem (y * 40 + (x + Suc c) mod 40) = bs ! c"
    "\<forall>i. (\<forall>c < length bs. i \<noteq> y * 40 + (x + Suc c) mod 40) \<longrightarrow> mem i = lcd_mem d1 i"
    unfolding s by (auto simp: d1_def lcd_counting_def)
  have "write_bytes lcd_bus xtreme (b # bs) d = Some (d\<lparr>lcd_mem := mem, lcd_x := of_nat ((x + length (b # bs)) mod 40)\<rparr>)"
    using w m(1) unfolding s by (simp add: d1_def)
  moreover have "mem (y * 40 + (x + c) mod 40) = (b # bs) ! c" if c: "c < length (b # bs)" for c
  proof (cases c)
    case 0
    have "x \<noteq> (x + Suc c) mod 40" if "c < length bs" for c
      using that Cons.prems(5,7) by (cases "x + Suc c < 40") (auto simp: mod_if)
    then have "mem (y * 40 + x) = lcd_mem d1 (y * 40 + x)" using m(3) by simp
    then show ?thesis using 0 Cons.prems(5) by (simp add: d1_def)
  next
    case (Suc c')
    then show ?thesis using m(2) c by simp
  qed
  moreover have "mem i = lcd_mem d i" if i: "\<forall>c < length (b # bs). i \<noteq> y * 40 + (x + c) mod 40" for i
  proof -
    have "i \<noteq> y * 40 + x" using i [rule_format, of 0] Cons.prems(5) by simp
    moreover have "i \<noteq> y * 40 + (x + Suc c) mod 40" if "c < length bs" for c using i [rule_format, of "Suc c"] that by simp
    ultimately show ?thesis using m(3) by (simp add: d1_def)
  qed
  ultimately show ?case by blast
qed

lemma write_line_ok:
  assumes d: "lcd_counting d" "lcd_x d = of_nat x" "x < 40" "y < 100" "length bs = 40"
  shows "\<exists>mem. (do { d \<leftarrow> lcd_writeReg lcd_bus xtreme 3 (of_nat y) d; d \<leftarrow> lcd_bus (LCD_INDEX xtreme) 4 d; write_bytes lcd_bus xtreme bs d }) =
      Some (d\<lparr>regIndex := 4, lcd_y := of_nat y, lcd_mem := mem\<rparr>) \<and>
    (\<forall>c < 40. mem (y * 40 + (x + c) mod 40) = bs ! c) \<and> (\<forall>i. i < y * 40 \<or> y * 40 + 40 \<le> i \<longrightarrow> mem i = lcd_mem d i)"
proof -
  let ?d = "d\<lparr>lcd_y := of_nat y, regIndex := 4\<rparr>"
  have "lcd_writeReg lcd_bus xtreme 3 (of_nat y) d = Some (d\<lparr>regIndex := 3, lcd_y := of_nat y\<rparr>)"
    by (simp add: lcd_writeReg_def bus_data LCDDevice_write_def)
  moreover obtain mem where m: "write_bytes lcd_bus xtreme bs ?d = Some (?d\<lparr>lcd_mem := mem, lcd_x := of_nat x\<rparr>)"
    "\<forall>c < 40. mem (y * 40 + (x + c) mod 40) = bs ! c"
    "\<forall>i. (\<forall>c < 40. i \<noteq> y * 40 + (x + c) mod 40) \<longrightarrow> mem i = lcd_mem d i"
    using write_bytes_ok [of ?d x y bs xtreme] d by (auto simp: lcd_counting_def)
  moreover have "mem i = lcd_mem d i" if i: "i < y * 40 \<or> y * 40 + 40 \<le> i" for i
  proof -
    have "(x + c) mod 40 < 40" for c by simp
    then have "i \<noteq> y * 40 + (x + c) mod 40" for c using i by (metis add_less_cancel_left le_add1 not_le)
    then show ?thesis using m(3) by blast
  qed
  ultimately show ?thesis using d(2) by (intro exI [of _ mem]) simp
qed

text \<open>The line \<open>r\<close> of the frame buffer is written to the line \<open>99 - r\<close> of the controller, turned by the column counter.\<close>

lemma write_lines_ok:
  "lcd_counting d \<Longrightarrow> lcd_x d = of_nat x \<Longrightarrow> x < 40 \<Longrightarrow> n \<le> 100 \<Longrightarrow> length p = n * 40 \<Longrightarrow>
   \<exists>mem ri y. write_lines lcd_bus xtreme (rev [0..<n]) p d = Some (d\<lparr>regIndex := ri, lcd_y := y, lcd_mem := mem\<rparr>) \<and>
     (\<forall>r < n. \<forall>c < 40. mem ((n - 1 - r) * 40 + (x + c) mod 40) = p ! (r * 40 + c)) \<and> (\<forall>i \<ge> n * 40. mem i = lcd_mem d i)"
proof (induction n arbitrary: d p)
  case 0
  show ?case by (intro exI [of _ "lcd_mem d"] exI [of _ "regIndex d"] exI [of _ "lcd_y d"]) simp
next
  case (Suc n)
  obtain mem where m: "(do { d \<leftarrow> lcd_writeReg lcd_bus xtreme 3 (of_nat n) d; d \<leftarrow> lcd_bus (LCD_INDEX xtreme) 4 d;
        write_bytes lcd_bus xtreme (take 40 p) d }) = Some (d\<lparr>regIndex := 4, lcd_y := of_nat n, lcd_mem := mem\<rparr>)"
    "\<forall>c < 40. mem (n * 40 + (x + c) mod 40) = take 40 p ! c" "\<forall>i. i < n * 40 \<or> n * 40 + 40 \<le> i \<longrightarrow> mem i = lcd_mem d i"
    using write_line_ok [of d x n "take 40 p" xtreme] Suc.prems by auto
  define d1 where "d1 = d\<lparr>regIndex := 4, lcd_y := of_nat n, lcd_mem := mem\<rparr>"
  obtain mem' ri y where w: "write_lines lcd_bus xtreme (rev [0..<n]) (drop 40 p) d1 = Some (d1\<lparr>regIndex := ri, lcd_y := y, lcd_mem := mem'\<rparr>)"
    "\<forall>r < n. \<forall>c < 40. mem' ((n - 1 - r) * 40 + (x + c) mod 40) = drop 40 p ! (r * 40 + c)" "\<forall>i \<ge> n * 40. mem' i = lcd_mem d1 i"
    using Suc.IH [of d1 "drop 40 p"] Suc.prems by (auto simp: d1_def lcd_counting_def)
  have "write_lines lcd_bus xtreme (rev [0..<Suc n]) p d = Some (d\<lparr>regIndex := ri, lcd_y := y, lcd_mem := mem'\<rparr>)"
    using m(1) w(1) by (auto simp: d1_def bind_eq_Some_conv)
  moreover have "mem' ((Suc n - 1 - r) * 40 + (x + c) mod 40) = p ! (r * 40 + c)" if "r < Suc n" "c < 40" for r c
  proof (cases r)
    case 0
    then show ?thesis using w(3) m(2) that(2) Suc.prems(5) by (simp add: d1_def)
  next
    case (Suc r')
    then have "mem' ((n - 1 - r') * 40 + (x + c) mod 40) = drop 40 p ! (r' * 40 + c)" using w(2) that by auto
    moreover have "Suc n - 1 - r = n - 1 - r'" using Suc by simp
    ultimately show ?thesis using Suc \<open>length p = Suc n * 40\<close> that by (simp add: add.assoc)
  qed
  moreover have "mem' i = lcd_mem d i" if "Suc n * 40 \<le> i" for i using w(3) m(3) that by (simp add: d1_def)
  ultimately show ?case by blast
qed

lemma update_ok:
  assumes d: "lcd_counting d" "lcd_x d = of_nat x" "x < 40" and s: "maxDirtyY s \<noteq> 0" "length (framebuffer s) = 4000"
  shows "\<exists>mem ri y. updateDisplay lcd_bus xtreme s d = Some (s\<lparr>maxDirtyY := 0\<rparr>, d\<lparr>regIndex := ri, lcd_y := y, lcd_mem := mem\<rparr>) \<and>
    (\<forall>r < 100. \<forall>c < 40. mem ((99 - r) * 40 + (x + c) mod 40) = framebuffer s ! (r * 40 + c))"
  using write_lines_ok [OF d, of 100 "framebuffer s" xtreme] s unfolding updateDisplay_def by force

text \<open>The first update writes the last line of the controller first: a column counter behind the line loses a byte there, or leaves the array.\<close>

lemma first_update:
  assumes d: "lcd_counting d" and s: "maxDirtyY s \<noteq> 0" "length (framebuffer s) = 4000"
  shows "unat (lcd_x d) = 40 \<Longrightarrow> updateDisplay lcd_bus xtreme s d = None"
    "unat (lcd_x d) \<noteq> 40 \<Longrightarrow> \<exists>mem ri y. updateDisplay lcd_bus xtreme s d =
       Some (s\<lparr>maxDirtyY := 0\<rparr>, d\<lparr>regIndex := ri, lcd_y := y, lcd_mem := mem, lcd_x := of_nat (unat (lcd_x d) mod 40)\<rparr>)"
proof -
  let ?x = "unat (lcd_x d)" and ?d = "d\<lparr>lcd_y := 99, regIndex := 4\<rparr>"
  obtain b p where p: "framebuffer s = b # p" "length p = 3999" using s(2) by (cases "framebuffer s") auto
  have r: "rev [0..<100] = 99 # rev [0..<99 :: nat]" by (simp add: upt_Suc_append [of 0 99, simplified] del: upt_rec_numeral)
  have wr: "lcd_writeReg lcd_bus xtreme 3 99 d = Some (d\<lparr>regIndex := 3, lcd_y := 99\<rparr>)"
    by (simp add: lcd_writeReg_def bus_data LCDDevice_write_def)
  have lines: "write_lines lcd_bus xtreme (rev [0..<100]) (framebuffer s) d =
    do { d1 \<leftarrow> LCDDevice_data b ?d; d1 \<leftarrow> write_bytes lcd_bus xtreme (take 39 p) d1; write_lines lcd_bus xtreme (rev [0..<99]) (drop 39 p) d1 }"
    unfolding r p(1) by (simp add: wr bus_data data_register del: upt_rec_numeral)
  show "updateDisplay lcd_bus xtreme s d = None" if "?x = 40"
    using lines s(1) that by (simp add: updateDisplay_def LCDDevice_data_def del: upt_rec_numeral)
  show "\<exists>mem ri y. updateDisplay lcd_bus xtreme s d =
       Some (s\<lparr>maxDirtyY := 0\<rparr>, d\<lparr>regIndex := ri, lcd_y := y, lcd_mem := mem, lcd_x := of_nat (?x mod 40)\<rparr>)" if "?x \<noteq> 40"
  proof (cases "?x < 40")
    case True
    then have "lcd_x d = of_nat ?x" by simp
    from update_ok [OF d this True s] obtain mem ri y where
      u: "updateDisplay lcd_bus xtreme s d = Some (s\<lparr>maxDirtyY := 0\<rparr>, d\<lparr>regIndex := ri, lcd_y := y, lcd_mem := mem\<rparr>)" by blast
    have "d\<lparr>regIndex := ri, lcd_y := y, lcd_mem := mem\<rparr> = d\<lparr>regIndex := ri, lcd_y := y, lcd_mem := mem, lcd_x := of_nat (?x mod 40)\<rparr>"
      using True by simp
    then show ?thesis using u by metis
  next
    case False
    define d1 where "d1 = ?d\<lparr>lcd_x := of_nat ((?x + 1) mod 40)\<rparr>"
    have b: "LCDDevice_data b ?d = Some d1" using False that d by (simp add: LCDDevice_data_def lcd_counting_def d1_def)
    have "lcd_counting d1" "regIndex d1 = 4" "lcd_y d1 = of_nat 99" "(?x + 1) mod 40 < 40" "length (take 39 p) = 39"
      using d p(2) by (simp_all add: d1_def lcd_counting_def)
    with write_bytes_ok [of d1 "(?x + 1) mod 40" 99 "take 39 p" xtreme] obtain m1 where
      m1: "write_bytes lcd_bus xtreme (take 39 p) d1 = Some (d1\<lparr>lcd_mem := m1, lcd_x := of_nat (?x mod 40)\<rparr>)"
      by (auto simp: d1_def mod_simps)
    define d2 where "d2 = d1\<lparr>lcd_mem := m1, lcd_x := of_nat (?x mod 40)\<rparr>"
    have "lcd_counting d2" "lcd_x d2 = of_nat (?x mod 40)" "?x mod 40 < 40" "(99 :: nat) \<le> 100" "length (drop 39 p) = 99 * 40"
      using d p(2) by (simp_all add: d1_def d2_def lcd_counting_def)
    from write_lines_ok [OF this, of xtreme] obtain m2 ri y where
      m2: "write_lines lcd_bus xtreme (rev [0..<99]) (drop 39 p) d2 = Some (d2\<lparr>regIndex := ri, lcd_y := y, lcd_mem := m2\<rparr>)" by blast
    have "write_lines lcd_bus xtreme (rev [0..<100]) (framebuffer s) d = Some (d2\<lparr>regIndex := ri, lcd_y := y, lcd_mem := m2\<rparr>)"
      unfolding lines b Option.bind.bind_lunit m1 d2_def [symmetric] m2 ..
    then show ?thesis using s(1)
      by (intro exI [of _ m2] exI [of _ ri] exI [of _ y]) (simp add: updateDisplay_def d2_def d1_def del: upt_rec_numeral)
  qed
qed

text \<open>The constructor leaves a controller that counts and shows.\<close>

definition lcd_driven :: "lcd \<Rightarrow> bool" where
  "lcd_driven d \<longleftrightarrow> control1 d = 64 OR 16 OR 8 OR 1 \<and> control2 d = 2"

lemma lcd_driven_counting: "lcd_driven d \<Longrightarrow> lcd_counting d"
  by (simp add: lcd_driven_def lcd_counting_def)

lemma driver_new_ok:
  shows "unat (lcd_x d) = 40 \<Longrightarrow> LCDDriver_new lcd_bus xtreme d = None"
    "unat (lcd_x d) \<noteq> 40 \<Longrightarrow> \<exists>s d'. LCDDriver_new lcd_bus xtreme d = Some (s, d') \<and> lcd_driven d' \<and>
       lcd_x d' = of_nat (unat (lcd_x d) mod 40) \<and> maxDirtyY s = 0"
proof -
  let ?s = "\<lparr>framebuffer = replicate (40 * 100) 0, minDirtyY = 0, maxDirtyY = 100\<rparr>"
  define d1 where "d1 = d\<lparr>control2 := 2, regIndex := 0, control1 := 64 OR 16 OR 8 OR 1\<rparr>"
  have n: "LCDDriver_new lcd_bus xtreme d = updateDisplay lcd_bus xtreme ?s d1"
    by (simp add: LCDDriver_new_def lcd_writeReg_def bus_data LCDDevice_write_def d1_def)
  have "lcd_driven d1" by (simp add: lcd_driven_def d1_def)
  note f = first_update [OF lcd_driven_counting [OF this], of ?s xtreme]
  have x: "lcd_x d1 = lcd_x d" by (simp add: d1_def)
  show "LCDDriver_new lcd_bus xtreme d = None" if "unat (lcd_x d) = 40" using f(1) that n x by simp
  show "\<exists>s d'. LCDDriver_new lcd_bus xtreme d = Some (s, d') \<and> lcd_driven d' \<and> lcd_x d' = of_nat (unat (lcd_x d) mod 40) \<and> maxDirtyY s = 0"
    if "unat (lcd_x d) \<noteq> 40" using f(2) that n x \<open>lcd_driven d1\<close> by (auto simp: lcd_driven_def)
qed

lemma image_ok:
  assumes "\<not> tst (control1 d) C1_STBY" "tst (control1 d) C1_DISP" "px < 160" "py < 100" "k < 3"
  shows "LCDDevice_convertDisplay d rgba (lcd_offset d px py + k) = 0xFF - lcd_gray d (lcd_index d px py)"
proof -
  have "pixel_done d (snd (lcd_lines d [0..<100] (0, rgba))) px py"
    using lines_done [OF assms(3,4), of 0 100 d rgba] assms(4) by auto
  then show ?thesis using assms by (simp add: LCDDevice_convertDisplay_def pixel_done_def)
qed

text \<open>
  What a program draws is what the emulator shows.  The driver initialises the display, and whatever rows it is then
  told are dirty, an update shows the whole frame buffer, on both models of the device.  The driver does not set the
  column counter: its value is the column of bytes where the lines of the image begin.
\<close>

lemma turned_pixel:
  "((px + 4 * x) mod 160) div 4 = (x mod 40 + px div 4) mod 40" "((px + 4 * x) mod 160) mod 4 = px mod (4 :: nat)"
proof -
  have m: "(px + 4 * x) mod (4 * 40) = 4 * ((px + 4 * x) div 4 mod 40) + (px + 4 * x) mod 4" by (rule mod_mult2_eq)
  then show "((px + 4 * x) mod 160) mod 4 = px mod (4 :: nat)" by simp
  show "((px + 4 * x) mod 160) div 4 = (x mod 40 + px div 4) mod 40" using m by (simp add: mod_simps add.commute)
qed

definition lcd_shows :: "lcd \<Rightarrow> (nat \<Rightarrow> u8) \<Rightarrow> nat \<Rightarrow> u8 list \<Rightarrow> nat \<Rightarrow> nat \<Rightarrow> nat \<Rightarrow> bool" where
  "lcd_shows d rgba x fb px py k \<longleftrightarrow>
     LCDDevice_convertDisplay d rgba (((px + 4 * x) mod 160 + py * 160) * 4 + k) =
       0xFF - of_nat (unat (drop_bit (6 - px mod 4 * 2) (fb ! (py * 40 + px div 4)) AND 3) * 85)"

lemma lcd_driver_shows:
  assumes "unat (lcd_x d) = x" "x \<noteq> 40" "length fb = 4000" "px < 160" "py < 100" "k < 3"
  shows "\<exists>s d1 s' d2. LCDDriver_new lcd_bus xtreme d = Some (s, d1) \<and>
    updateDisplay lcd_bus xtreme (setDirty minY maxY (s\<lparr>framebuffer := fb\<rparr>)) d1 = Some (s', d2) \<and> maxDirtyY s' = 0 \<and>
    lcd_shows d2 rgba x fb px py k"
proof -
  from driver_new_ok(2) [of d xtreme] assms(1,2) obtain s d1 where
    n: "LCDDriver_new lcd_bus xtreme d = Some (s, d1)" "lcd_driven d1" "lcd_x d1 = of_nat (x mod 40)" "maxDirtyY s = 0" by blast
  define s1 where "s1 = setDirty minY maxY (s\<lparr>framebuffer := fb\<rparr>)"
  have "maxY + 1 \<noteq> 0" if "\<not> 100 \<le> maxY"
  proof
    assume "maxY + 1 = 0"
    then have "maxY = - 1" by (simp add: eq_neg_iff_add_eq_0)
    then show False using that by simp
  qed
  then have s1: "maxDirtyY s1 \<noteq> 0" "framebuffer s1 = fb" using n(4) by (auto simp: s1_def setDirty_def Let_def)
  from update_ok [OF lcd_driven_counting [OF n(2)] n(3), of s1 xtreme] s1 assms(3) obtain mem ri y where
    u: "updateDisplay lcd_bus xtreme s1 d1 = Some (s1\<lparr>maxDirtyY := 0\<rparr>, d1\<lparr>regIndex := ri, lcd_y := y, lcd_mem := mem\<rparr>)"
      "\<forall>r < 100. \<forall>c < 40. mem ((99 - r) * 40 + (x mod 40 + c) mod 40) = fb ! (r * 40 + c)" by auto
  define d2 where "d2 = d1\<lparr>regIndex := ri, lcd_y := y, lcd_mem := mem\<rparr>"
  define qx where "qx = (px + 4 * x) mod 160"
  have q: "qx < 160" "qx div 4 = (x mod 40 + px div 4) mod 40" "qx mod 4 = px mod 4" using turned_pixel by (simp_all add: qx_def)
  have c: "\<not> tst (control1 d2) C1_STBY" "tst (control1 d2) C1_DISP" "tst (control1 d2) C1_ADC" "\<not> tst (control2 d2) C2_GRAY"
    using n(2) by (simp_all add: d2_def lcd_driven_def)
  have o: "lcd_offset d2 qx (99 - py) = (qx + py * 160) * 4" using c(3) assms(5) by (simp add: lcd_offset_def)
  have "px div 4 < 40" using assms(4) by simp
  then have "mem ((99 - py) * 40 + qx div 4) = fb ! (py * 40 + px div 4)" using u(2) assms(5) unfolding q(2) by blast
  then have "lcd_gray d2 (lcd_index d2 qx (99 - py)) = of_nat (unat (drop_bit (6 - px mod 4 * 2) (fb ! (py * 40 + px div 4)) AND 3) * 85)"
    using c(4) q(3) by (simp add: lcd_gray_def lcd_index_def d2_def)
  then have "lcd_shows d2 rgba x fb px py k"
    using image_ok [OF c(1,2) q(1), of "99 - py" k rgba] assms(5,6) o by (simp add: lcd_shows_def qx_def)
  then show ?thesis using n(1) u(1) by (simp add: s1_def d2_def)
qed

section \<open>The driver on any bus with a controller\<close>

text \<open>A system of which the controller is a part, as the driver needs it.\<close>

locale lcd_host =
  fixes xtreme :: bool and wr :: "'s bus" and get :: "'s \<Rightarrow> lcd" and put :: "lcd \<Rightarrow> 's \<Rightarrow> 's" and ok :: "'s \<Rightarrow> bool"
  assumes bus_access: "ok s \<Longrightarrow> a = LCD_INDEX xtreme \<or> a = LCD_DATA xtreme \<Longrightarrow> wr a v s = map_option (\<lambda>d. put d s) (lcd_bus a v (get s))"
    and ok_put: "ok (put d s) = ok s"
    and get_put: "get (put d s) = d"
    and put_put: "put d (put e s) = put d s"
    and put_get: "put (get s) s = s"
begin

lemmas laws = ok_put get_put put_put put_get

lemma writeReg_host: "ok s \<Longrightarrow> lcd_writeReg wr xtreme r v s = map_option (\<lambda>d. put d s) (lcd_writeReg lcd_bus xtreme r v (get s))"
  by (simp add: lcd_writeReg_def bus_access laws option.map_comp comp_def)

lemma write_bytes_host: "ok s \<Longrightarrow> write_bytes wr xtreme bs s = map_option (\<lambda>d. put d s) (write_bytes lcd_bus xtreme bs (get s))"
  by (induction bs arbitrary: s) (auto simp: laws bus_access split: bind_split)

lemma write_lines_host: "ok s \<Longrightarrow> write_lines wr xtreme ys p s = map_option (\<lambda>d. put d s) (write_lines lcd_bus xtreme ys p (get s))"
proof (induction ys arbitrary: p s)
  case (Cons y ys)
  then show ?case
    by (auto simp: laws bus_access writeReg_host write_bytes_host split: bind_split)
qed (simp add: laws)

lemma updateDisplay_host:
  "ok s \<Longrightarrow> updateDisplay wr xtreme u s = map_option (map_prod id (\<lambda>d. put d s)) (updateDisplay lcd_bus xtreme u (get s))"
  by (auto simp: updateDisplay_def write_lines_host laws split: bind_split)

lemma new_host: "ok s \<Longrightarrow> LCDDriver_new wr xtreme s = map_option (map_prod id (\<lambda>d. put d s)) (LCDDriver_new lcd_bus xtreme (get s))"
  by (auto simp: LCDDriver_new_def writeReg_host updateDisplay_host laws split: bind_split)

lemma host_stops: "ok s \<Longrightarrow> unat (lcd_x (get s)) = 40 \<Longrightarrow> LCDDriver_new wr xtreme s = None"
  by (simp add: new_host driver_new_ok(1))

lemma host_shows:
  assumes "ok s" "unat (lcd_x (get s)) = x" "x \<noteq> 40" "length fb = 4000" "px < 160" "py < 100" "k < 3"
  shows "\<exists>u s1 u' s2. LCDDriver_new wr xtreme s = Some (u, s1) \<and>
    updateDisplay wr xtreme (setDirty minY maxY (u\<lparr>framebuffer := fb\<rparr>)) s1 = Some (u', s2) \<and> maxDirtyY u' = 0 \<and>
    lcd_shows (get s2) rgba x fb px py k"
proof -
  from lcd_driver_shows [OF assms(2-7), of xtreme minY maxY rgba] obtain u d1 u' d2 where
    "LCDDriver_new lcd_bus xtreme (get s) = Some (u, d1)" "updateDisplay lcd_bus xtreme (setDirty minY maxY (u\<lparr>framebuffer := fb\<rparr>)) d1 = Some (u', d2)"
    "maxDirtyY u' = 0" "lcd_shows d2 rgba x fb px py k" by (elim exE conjE)
  then show ?thesis using new_host [OF assms(1)] updateDisplay_host [of "put d1 s"] assms(1) by (simp add: laws)
qed

end

end
