(* ===== verification/FrontPorts.thy ===== *)
theory FrontPorts
  imports SerialFlash
begin

text \<open>
  The devices that \<open>emu2/Main.cpp\<close> defines: the port with the loudspeaker of the Xtreme, the ports of both
  models, and the serial port with several flash chips.
\<close>

section \<open>Sound\<close>

text \<open>Samples are 8 bits; \<open>queued\<close> are the blocks given to the audio device, when there is one.\<close>

record sound =
  lastWriteTime :: u32
  lastSoundValue :: bool
  audioCounter :: u32
  audioDev :: bool
  audioBuf :: "u8 list"
  bufOffset :: nat
  queued :: "u8 list list"

definition Port1Sound_new :: "u8 list \<Rightarrow> sound" where
  "Port1Sound_new buf = \<lparr>lastWriteTime = 0, lastSoundValue = False, audioCounter = 0, audioDev = False,
     audioBuf = buf, bufOffset = 0, queued = []\<rparr>"

definition Port1Sound_setAudioDevice :: "bool \<Rightarrow> sound \<Rightarrow> sound" where
  "Port1Sound_setAudioDevice dev d = d\<lparr>audioDev := dev\<rparr>"

definition sound_sample :: "sound \<Rightarrow> sound" where
  "sound_sample d =
     (let v = (if lastSoundValue d then 127 else -128);
          d = d\<lparr>audioBuf := (audioBuf d)[bufOffset d := v], bufOffset := bufOffset d + 1\<rparr>
      in if bufOffset d = 512
         then d\<lparr>queued := (if audioDev d then queued d @ [audioBuf d] else queued d), bufOffset := 0\<rparr> else d)"

lemma counter_sample [simp]: "audioCounter (sound_sample d) = audioCounter d"
  by (simp add: sound_sample_def Let_def)

function sound_loop :: "sound \<Rightarrow> sound" where
  "sound_loop d =
     (if 384 \<le> audioCounter d then sound_loop (sound_sample (d\<lparr>audioCounter := audioCounter d - 384\<rparr>)) else d)"
  by pat_completeness auto

termination
proof (relation "measure (\<lambda>d. unat (audioCounter d))", rule wf_measure)
  fix d :: sound assume "384 \<le> audioCounter d"
  then have "unat (audioCounter d - 384) < unat (audioCounter d)"
    by (simp add: unat_sub word_le_nat_alt)
  then show "(sound_sample (d\<lparr>audioCounter := audioCounter d - 384\<rparr>), d) \<in> measure (\<lambda>d. unat (audioCounter d))"
    by simp
qed

declare sound_loop.simps [simp del]

text \<open>The clock of the CPU, 18.432 MHz, over 48000 is the number of cycles of a sample.\<close>

definition Port1Sound_updateAudio :: "u32 \<Rightarrow> sound \<Rightarrow> sound" where
  "Port1Sound_updateAudio time d =
     (sound_loop (d\<lparr>audioCounter := audioCounter d + (time - lastWriteTime d)\<rparr>))\<lparr>lastWriteTime := time\<rparr>"

definition Port1Sound_write :: "u8 \<Rightarrow> u32 \<Rightarrow> sound \<Rightarrow> sound" where
  "Port1Sound_write val time d =
     (let newSoundValue = bit val 5
      in if newSoundValue \<noteq> lastSoundValue d
         then (Port1Sound_updateAudio time d)\<lparr>lastSoundValue := newSoundValue\<rparr> else d)"

text \<open>A read gives 0, and the direction does not matter.\<close>

definition Port1Sound_read :: "u8" where
  "Port1Sound_read = 0"

section \<open>The ports of both models\<close>

text \<open>The red light is off and the switch is on; the pull-ups of the classic model; the flash is ready.\<close>

definition PortA_read :: "u8" where
  "PortA_read = 0x80 OR 0x40"

definition Port1Classic_read :: "bool \<Rightarrow> u8" where
  "Port1Classic_read cart = bitv 3 OR (if cart then bitv 4 else 0)"

definition Port1Classic_write :: "u8 \<Rightarrow> flash option \<Rightarrow> flash option option" where
  "Port1Classic_write val cart =
     (case cart of None \<Rightarrow> Some None | Some f \<Rightarrow> do { f \<leftarrow> SerialFlash_setCS (tst val 16) f; Some (Some f) })"

definition Port2Classic_write :: "u8 \<Rightarrow> flash option \<Rightarrow> flash option option" where
  "Port2Classic_write val cart =
     (case cart of None \<Rightarrow> Some None | Some f \<Rightarrow> do { f \<leftarrow> SerialFlash_setCS (tst val 2) f; Some (Some f) })"

definition Port2Classic_read :: "u8" where
  "Port2Classic_read = 0"

definition Port3Classic_read :: "u8" where
  "Port3Classic_read = 0"

definition Port3Classic_write :: "u8 \<Rightarrow> flash \<Rightarrow> flash option" where
  "Port3Classic_write val f = SerialFlash_setCS (tst val 0x10) f"

definition PortFClassic_read :: "u8" where
  "PortFClassic_read = 4"

section \<open>Several flash chips on one port\<close>

text \<open>The chips are an array of flash chips, the list holds those of the expansion in order; the first one selected answers.\<close>

fun multi_read :: "nat list \<Rightarrow> (nat \<Rightarrow> flash) \<Rightarrow> (u8 \<times> (nat \<Rightarrow> flash)) option" where
  "multi_read [] fs = Some (0xFF, fs)"
| "multi_read (i # is) fs =
     (if \<not> chipSelect (fs i) then do { (v, f) \<leftarrow> SerialFlash_read (fs i); Some (v, fs(i := f)) }
      else multi_read is fs)"

fun multi_write :: "u8 \<Rightarrow> nat list \<Rightarrow> (nat \<Rightarrow> flash) \<Rightarrow> (nat \<Rightarrow> flash) option" where
  "multi_write val [] fs = Some fs"
| "multi_write val (i # is) fs =
     do { fs \<leftarrow> (if \<not> chipSelect (fs i) then do { f \<leftarrow> SerialFlash_write val (fs i); Some (fs(i := f)) } else Some fs);
          multi_write val is fs }"

fun multi_canRead :: "nat list \<Rightarrow> (nat \<Rightarrow> flash) \<Rightarrow> bool" where
  "multi_canRead [] fs \<longleftrightarrow> False"
| "multi_canRead (i # is) fs \<longleftrightarrow> (if \<not> chipSelect (fs i) then SerialFlash_canRead (fs i) else multi_canRead is fs)"

text \<open>With one chip selected the port is that chip.\<close>

lemma multi_selected:
  assumes "distinct is" "i \<in> set is" "\<not> chipSelect (fs i)" "\<forall>j \<in> set is. j \<noteq> i \<longrightarrow> chipSelect (fs j)"
  shows "multi_read is fs = map_option (\<lambda>(v, f). (v, fs(i := f))) (SerialFlash_read (fs i)) \<and>
    multi_write val is fs = map_option (\<lambda>f. fs(i := f)) (SerialFlash_write val (fs i)) \<and>
    multi_canRead is fs = SerialFlash_canRead (fs i)"
  using assms
proof (induction "is")
  case (Cons j js)
  have idle: "\<forall>k \<in> set ks. chipSelect (gs k) \<Longrightarrow> multi_write val ks gs = Some gs" for ks gs
    by (induction ks) auto
  show ?case
  proof (cases "j = i")
    case True
    then have "\<forall>k \<in> set js. chipSelect ((fs(i := f)) k)" for f using Cons.prems by auto
    then show ?thesis using True Cons.prems(3) idle by (auto split: option.split simp: map_option_case)
  next
    case False
    then show ?thesis using Cons by auto
  qed
qed simp

section \<open>What is heard\<close>

text \<open>
  The samples that have been made, in the blocks and in the buffer, and a port that has made all
  samples until the cycle \<open>t\<close>, counted without a bound on the width.
\<close>

definition sound_out :: "sound \<Rightarrow> u8 list" where
  "sound_out d = concat (queued d) @ take (bufOffset d) (audioBuf d)"

definition sound_at :: "nat \<Rightarrow> sound \<Rightarrow> bool" where
  "sound_at t d \<longleftrightarrow> audioDev d \<and> length (audioBuf d) = 512 \<and> bufOffset d < 512 \<and>
     lastWriteTime d = of_nat t \<and> unat (audioCounter d) = t mod 384"

definition sound_level :: "bool \<Rightarrow> u8" where
  "sound_level b = (if b then 127 else -128)"

lemma sample_out:
  assumes "audioDev d" "length (audioBuf d) = 512" "bufOffset d < 512"
  shows "sound_out (sound_sample d) = sound_out d @ [sound_level (lastSoundValue d)]"
    "audioDev (sound_sample d)" "length (audioBuf (sound_sample d)) = 512" "bufOffset (sound_sample d) < 512"
    "lastSoundValue (sound_sample d) = lastSoundValue d"
proof -
  let ?xs = "(audioBuf d)[bufOffset d := sound_level (lastSoundValue d)]"
  have "take (Suc (bufOffset d)) ?xs = take (bufOffset d) (audioBuf d) @ [sound_level (lastSoundValue d)]"
    using assms by (simp add: take_Suc_conv_app_nth)
  moreover have "take 512 ?xs = ?xs" using assms by simp
  ultimately have "bufOffset d + 1 = 512 \<Longrightarrow> ?xs = take (bufOffset d) (audioBuf d) @ [sound_level (lastSoundValue d)]"
    "bufOffset d + 1 \<noteq> 512 \<Longrightarrow> take (bufOffset d + 1) ?xs = take (bufOffset d) (audioBuf d) @ [sound_level (lastSoundValue d)]" by simp_all
  then show "sound_out (sound_sample d) = sound_out d @ [sound_level (lastSoundValue d)]"
    using assms(1) by (auto simp: sound_sample_def sound_out_def Let_def simp flip: sound_level_def)
  show "audioDev (sound_sample d)" "length (audioBuf (sound_sample d)) = 512" "bufOffset (sound_sample d) < 512"
    "lastSoundValue (sound_sample d) = lastSoundValue d"
    using assms by (auto simp: sound_sample_def Let_def)
qed

lemma loop_out:
  "audioDev d \<Longrightarrow> length (audioBuf d) = 512 \<Longrightarrow> bufOffset d < 512 \<Longrightarrow>
   sound_out (sound_loop d) = sound_out d @ replicate (unat (audioCounter d) div 384) (sound_level (lastSoundValue d)) \<and>
   audioDev (sound_loop d) \<and> length (audioBuf (sound_loop d)) = 512 \<and> bufOffset (sound_loop d) < 512 \<and>
   lastSoundValue (sound_loop d) = lastSoundValue d \<and> unat (audioCounter (sound_loop d)) = unat (audioCounter d) mod 384"
proof (induction d rule: sound_loop.induct)
  case (1 d)
  show ?case
  proof (cases "384 \<le> audioCounter d")
    case False
    then have "unat (audioCounter d) < 384" by (simp add: word_le_nat_alt)
    then show ?thesis using False 1(2-4) by (subst (1 2 3 4 5 6) sound_loop.simps) simp
  next
    case True
    let ?d = "d\<lparr>audioCounter := audioCounter d - 384\<rparr>"
    have u: "unat (audioCounter d) = unat (audioCounter d - 384) + 384" using True by (simp add: unat_sub word_le_nat_alt)
    have s: "sound_out ?d = sound_out d" by (simp add: sound_out_def)
    have "(unat (audioCounter d - 384) + 384) div 384 = Suc (unat (audioCounter d - 384) div 384)" by simp
    note u = u this
    note o = sample_out [of ?d]
    have "sound_loop d = sound_loop (sound_sample ?d)" using True by (subst sound_loop.simps) simp
    then show ?thesis using 1(1) [OF True] o 1(2-4) by (simp del: div_add_self2 add: u s)
  qed
qed

text \<open>The samples of a level that holds from a cycle to another.\<close>

lemma update_out:
  assumes d: "sound_at s d" and t: "s \<le> t" "t - s < 2 ^ 32 - 384"
  shows "sound_at t (Port1Sound_updateAudio (of_nat t) d) \<and>
    lastSoundValue (Port1Sound_updateAudio (of_nat t) d) = lastSoundValue d \<and>
    sound_out (Port1Sound_updateAudio (of_nat t) d) = sound_out d @ replicate (t div 384 - s div 384) (sound_level (lastSoundValue d))"
proof -
  define c where "c = audioCounter d + (of_nat t - lastWriteTime d)"
  have s: "unat (audioCounter d) = s mod 384" "lastWriteTime d = of_nat s" using d by (simp_all only: sound_at_def)
  have "of_nat t - lastWriteTime d = of_nat (t - s)" unfolding s(2) using t(1) by (simp only: of_nat_diff)
  moreover have "audioCounter d = of_nat (s mod 384)" unfolding s(1) [symmetric] by simp
  ultimately have "c = of_nat (s mod 384 + (t - s))" by (simp only: c_def of_nat_add)
  moreover have "s mod 384 < 384" by simp
  then have "s mod 384 + (t - s) < 2 ^ LENGTH(32)" using t(2) by simp
  ultimately have c: "unat c = s mod 384 + (t - s)" by (simp only: unat_of_nat mod_less)
  have e: "t = s mod 384 + (t - s) + 384 * (s div 384)" using t(1) mult_div_mod_eq [of 384 s] by linarith
  have "t div 384 = (s mod 384 + (t - s)) div 384 + s div 384" "t mod 384 = (s mod 384 + (t - s)) mod 384"
    by (subst e, simp only: div_mult_self2 mod_mult_self2 zero_neq_numeral not_False_eq_True)+
  then have m: "unat c div 384 = t div 384 - s div 384" "unat c mod 384 = t mod 384" using c by simp_all
  let ?d = "d\<lparr>audioCounter := c\<rparr>"
  have "sound_out ?d = sound_out d" by (simp add: sound_out_def)
  moreover have "audioDev ?d" "length (audioBuf ?d) = 512" "bufOffset ?d < 512" using d by (simp_all add: sound_at_def)
  note loop_out [OF this]
  moreover have "sound_out (x\<lparr>lastWriteTime := n\<rparr>) = sound_out x" for x n by (simp add: sound_out_def)
  ultimately show ?thesis
    unfolding Port1Sound_updateAudio_def c_def [symmetric] sound_at_def by (simp add: m)
qed

text \<open>What a program writes, and when.  The level at a cycle is that of the last write before it.\<close>

fun sound_writes :: "(nat \<times> u8) list \<Rightarrow> sound \<Rightarrow> sound" where
  "sound_writes [] d = d"
| "sound_writes ((t, v) # ws) d = sound_writes ws (Port1Sound_write v (of_nat t) d)"

fun level_at :: "bool \<Rightarrow> (nat \<times> u8) list \<Rightarrow> nat \<Rightarrow> bool" where
  "level_at b [] t = b"
| "level_at b ((s, v) # ws) t = (if s < t then level_at (bit v 5) ws t else b)"

lemma level_constant: "\<forall>(s, v) \<in> set ws. t \<le> s \<Longrightarrow> level_at b ws t = b"
  by (cases ws) auto

lemma level_same:
  assumes "bit v 5 = b" "\<forall>(r, w) \<in> set ws. t \<le> r" shows "level_at b ((t, v) # ws) n = level_at b ws n"
proof (cases "t < n")
  case False
  then have "\<forall>(r, w) \<in> set ws. n \<le> r" using assms(2) by force
  from level_constant [OF this] False show ?thesis by simp
qed (use assms(1) in simp)

definition sound_spec :: "bool \<Rightarrow> (nat \<times> u8) list \<Rightarrow> nat \<Rightarrow> nat \<Rightarrow> u8 list" where
  "sound_spec b ws s t = map (\<lambda>k. sound_level (level_at b ws (384 * Suc k))) [s div 384..<t div 384]"

lemma sound_spec_split:
  assumes "s \<le> t" "t \<le> u" "\<forall>(r, v) \<in> set ws. t \<le> r"
  shows "sound_spec b ((t, v) # ws) s u = replicate (t div 384 - s div 384) (sound_level b) @ sound_spec (bit v 5) ws t u"
proof -
  have l: "level_at b ((t, v) # ws) (384 * Suc k) = (if k < t div 384 then b else level_at (bit v 5) ws (384 * Suc k))" for k
  proof -
    have "k < t div 384 \<longleftrightarrow> 384 * Suc k \<le> t" using less_eq_div_iff_mult_less_eq [of 384 "Suc k" t] by (simp add: mult.commute Suc_le_eq)
    then show ?thesis by auto
  qed
  have "s div 384 \<le> t div 384" "t div 384 \<le> u div 384" using assms(1,2) by (simp_all add: div_le_mono)
  then have "[s div 384..<u div 384] = [s div 384..<t div 384] @ [t div 384..<u div 384]"
    using upt_add_eq_append [of "s div 384" "t div 384" "u div 384 - t div 384"] by simp
  moreover have "map (\<lambda>k. sound_level (level_at b ((t, v) # ws) (384 * Suc k))) [s div 384..<t div 384] =
      map (\<lambda>k. sound_level b) [s div 384..<t div 384]" unfolding l by (intro map_cong) simp_all
  moreover have "map (\<lambda>k. sound_level (level_at b ((t, v) # ws) (384 * Suc k))) [t div 384..<u div 384] =
      map (\<lambda>k. sound_level (level_at (bit v 5) ws (384 * Suc k))) [t div 384..<u div 384]" unfolding l by (intro map_cong) simp_all
  ultimately show ?thesis by (simp only: sound_spec_def map_append map_replicate_const length_upt)
qed

text \<open>C38:
  What the loudspeaker of the Xtreme plays: whatever a program writes to port 1, in order of time,
  once the audio is brought up to date at a cycle \<open>u\<close> there is one sample for every 384 cycles,
  and it has the level of bit 5 of the last write before it.  The port does not lose the
  remainder of a sample, so the runs can be put together, over any number of cycles and turns of the 32-bit counters.
\<close>

theorem sound_samples:
  assumes "sound_at s d" and "sorted (map fst ws)" and "\<forall>(t, v) \<in> set ws. s \<le> t \<and> t \<le> u" and "s \<le> u" "u - s < 2 ^ 32 - 384"
  shows "sound_at u (Port1Sound_updateAudio (of_nat u) (sound_writes ws d)) \<and>
    sound_out (Port1Sound_updateAudio (of_nat u) (sound_writes ws d)) = sound_out d @ sound_spec (lastSoundValue d) ws s u"
  using assms
proof (induction ws arbitrary: s d)
  case Nil
  then show ?case using update_out [of s d u] by (simp add: sound_spec_def map_replicate_const)
next
  case (Cons w ws)
  obtain t v where w: "w = (t, v)" by fastforce
  have t: "s \<le> t" "t \<le> u" "\<forall>(r, v) \<in> set ws. t \<le> r" using Cons.prems(2,3) w by auto
  show ?case
  proof (cases "bit v 5 = lastSoundValue d")
    case True
    then have "sound_writes (w # ws) d = sound_writes ws d" by (simp add: w Port1Sound_write_def)
    moreover have "sound_spec (lastSoundValue d) (w # ws) s u = sound_spec (lastSoundValue d) ws s u"
      unfolding w sound_spec_def level_same [OF True t(3)] ..
    moreover have "\<forall>(r, v) \<in> set ws. s \<le> r \<and> r \<le> u" "sorted (map fst ws)" using Cons.prems(2,3) w by auto
    ultimately show ?thesis using Cons.IH [of s d] Cons.prems(1,4,5) by simp
  next
    case False
    let ?d = "(Port1Sound_updateAudio (of_nat t) d)\<lparr>lastSoundValue := bit v 5\<rparr>"
    have e: "sound_at n (x\<lparr>lastSoundValue := b\<rparr>) = sound_at n x" "sound_out (x\<lparr>lastSoundValue := b\<rparr>) = sound_out x" for n x b
      by (simp_all add: sound_at_def sound_out_def)
    have "t - s < 2 ^ 32 - 384" "u - t < 2 ^ 32 - 384" using t(1,2) Cons.prems(5) by linarith+
    note o = update_out [OF Cons.prems(1) t(1) this(1)] this(2)
    have p: "Port1Sound_write v (of_nat t) d = ?d" using False by (simp add: Port1Sound_write_def)
    have "\<forall>(r, v) \<in> set ws. t \<le> r \<and> r \<le> u" "sorted (map fst ws)" using Cons.prems(2,3) t(3) w by auto
    then have "sound_at u (Port1Sound_updateAudio (of_nat u) (sound_writes ws ?d)) \<and>
      sound_out (Port1Sound_updateAudio (of_nat u) (sound_writes ws ?d)) = sound_out ?d @ sound_spec (lastSoundValue ?d) ws t u"
      using Cons.IH [of t ?d] o t(2) unfolding e by blast
    then show ?thesis unfolding w sound_spec_split [OF t] using o by (simp add: e p)
  qed
qed

lemma sound_samples_witness:
  "sound_out (Port1Sound_updateAudio 2000 (Port1Sound_write 0 1153 (Port1Sound_write 0x3F 384
     ((Port1Sound_new (replicate 512 0))\<lparr>audioDev := True\<rparr>)))) = [-128, 127, 127, -128, -128]"
proof -
  define d where "d = (Port1Sound_new (replicate 512 0))\<lparr>audioDev := True\<rparr>"
  have d: "sound_at 0 d" "sound_out d = []" "\<not> lastSoundValue d" unfolding d_def
    by (simp_all add: sound_at_def sound_out_def Port1Sound_new_def)
  have l: "[0..<5] = [0, 1, 2, 3, 4 :: nat]" by (simp add: upt_rec)
  have "sound_spec False [(384, 0x3F), (1153, 0)] 0 2000 = [-128, 127, 127, -128, -128]"
    by (simp add: sound_spec_def l sound_level_def)
  moreover have "sorted (map fst [(384 :: nat, 0x3F :: u8), (1153, 0)])" "\<forall>(t, v) \<in> set [(384 :: nat, 0x3F :: u8), (1153, 0)]. 0 \<le> t \<and> t \<le> 2000"
    "(0 :: nat) \<le> 2000" "2000 - 0 < (2 ^ 32 - 384 :: nat)" by simp_all
  note sound_samples [OF d(1) this, THEN conjunct2]
  ultimately show ?thesis unfolding d_def [symmetric] using d(2,3) by simp
qed

end
