(* ===== verification/FrontImages.thy ===== *)
theory FrontImages
  imports MemoryDevice SerialFlash CRC CyID Decimal
begin

text \<open>
  How \<open>emu2/Main.cpp\<close> changes the images of the memories before the emulator starts: the identifier
  in the flash of both models, with the checksums that protect it, and the record of the battery in
  the memory of the Xtreme.
\<close>

section \<open>Bytes in a memory\<close>

definition bytes_at :: "(nat \<Rightarrow> u8) \<Rightarrow> nat \<Rightarrow> nat \<Rightarrow> u8 list" where
  "bytes_at m i n = map m [i..<i + n]"

definition put_bytes :: "nat \<Rightarrow> u8 list \<Rightarrow> (nat \<Rightarrow> u8) \<Rightarrow> nat \<Rightarrow> u8" where
  "put_bytes i bs m = (\<lambda>j. if i \<le> j \<and> j < i + length bs then bs ! (j - i) else m j)"

text \<open>The most significant byte first.\<close>

definition be_word :: "u32 \<Rightarrow> u8 list" where
  "be_word w = [ucast (drop_bit 24 w), ucast (drop_bit 16 w), ucast (drop_bit 8 w), ucast w]"

definition be_half :: "u16 \<Rightarrow> u8 list" where
  "be_half w = [ucast (drop_bit 8 w), ucast w]"

lemma be_length [simp]: "length (be_word w) = 4" "length (be_half h) = 2"
  unfolding be_word_def be_half_def by simp_all

lemma bytes_at_length [simp]: "length (bytes_at m i n) = n"
  by (simp add: bytes_at_def)

lemma put_bytes_at [simp]: "n = length bs \<Longrightarrow> bytes_at (put_bytes i bs m) i n = bs"
  by (rule nth_equalityI) (simp_all add: bytes_at_def put_bytes_def)

lemma put_bytes_outside: "j < i \<or> i + length bs \<le> j \<Longrightarrow> put_bytes i bs m j = m j"
  by (auto simp: put_bytes_def)

lemma bytes_at_outside: "j + n \<le> i \<or> i + length bs \<le> j \<Longrightarrow> bytes_at (put_bytes i bs m) j n = bytes_at m j n"
  by (auto simp: bytes_at_def put_bytes_def)

lemma bytes_at_cong: "(\<And>j. i \<le> j \<Longrightarrow> j < i + n \<Longrightarrow> m j = m' j) \<Longrightarrow> bytes_at m i n = bytes_at m' i n"
  by (simp add: bytes_at_def)

text \<open>A region with a checksum that is stored outside of it.\<close>

definition seal :: "(u8 list \<Rightarrow> u8 list) \<Rightarrow> nat \<Rightarrow> nat \<Rightarrow> nat \<Rightarrow> (nat \<Rightarrow> u8) \<Rightarrow> nat \<Rightarrow> u8" where
  "seal f i j n m = put_bytes i (f (bytes_at m j n)) m"

definition sealed :: "(u8 list \<Rightarrow> u8 list) \<Rightarrow> nat \<Rightarrow> nat \<Rightarrow> nat \<Rightarrow> (nat \<Rightarrow> u8) \<Rightarrow> bool" where
  "sealed f i j n m \<longleftrightarrow> bytes_at m i (length (f (bytes_at m j n))) = f (bytes_at m j n)"

lemma sealed_seal:
  assumes "i + length (f (bytes_at m j n)) \<le> j \<or> j + n \<le> i" shows "sealed f i j n (seal f i j n m)"
  using assms by (simp add: sealed_def seal_def bytes_at_outside disj_commute)

lemma seal_outside: "k < i \<or> i + length (f (bytes_at m j n)) \<le> k \<Longrightarrow> seal f i j n m k = m k"
  by (simp add: seal_def put_bytes_outside)

lemma sealed_cong:
  assumes "\<And>k. i \<le> k \<and> k < i + length (f (bytes_at m j n)) \<or> j \<le> k \<and> k < j + n \<Longrightarrow> m' k = m k"
  shows "sealed f i j n m' = sealed f i j n m"
proof -
  have "bytes_at m' j n = bytes_at m j n" "bytes_at m' i (length (f (bytes_at m j n))) = bytes_at m i (length (f (bytes_at m j n)))"
    using assms by (auto intro!: bytes_at_cong)
  then show ?thesis by (simp add: sealed_def)
qed

definition crc_bytes :: "u8 list \<Rightarrow> u8 list" where
  "crc_bytes bs = be_word (NOT (crc32 bs))"

definition fs_bytes :: "u8 list \<Rightarrow> u8 list" where
  "fs_bytes bs = be_half (fsChecksum bs)"

lemma checksum_length [simp]: "length (crc_bytes bs) = 4" "length (fs_bytes bs) = 2"
  by (simp_all add: crc_bytes_def fs_bytes_def)

section \<open>The Xtreme\<close>

text \<open>Consecutive writes to a memory.\<close>

fun mem_writes :: "nat \<Rightarrow> u8 list \<Rightarrow> memory \<Rightarrow> memory option" where
  "mem_writes i [] d = Some d"
| "mem_writes i (b # bs) d = do { d \<leftarrow> MemoryDevice_write (of_nat i) b d; mem_writes (i + 1) bs d }"

definition setXtremeCyID :: "u32 \<Rightarrow> memory \<Rightarrow> memory option" where
  "setXtremeCyID cyID d =
     do { d \<leftarrow> mem_writes 0x7F818 (be_word cyID) d;
          let crc = NOT (crc32 (bytes_at (mem d) 0x7F800 0x7FC));
          mem_writes 0x7FFFC (be_word crc) d }"

definition battery_block :: "u32 \<Rightarrow> u32 \<Rightarrow> nat \<Rightarrow> memory \<Rightarrow> memory option" where
  "battery_block timestamp batLevel i d =
     (let blockOff = i * 258; dataOff = blockOff + 115
      in do { d \<leftarrow> mem_writes dataOff (be_word timestamp) d;
              d \<leftarrow> mem_writes (dataOff + 4) (be_word batLevel) d;
              d \<leftarrow> mem_writes (dataOff + 8) (be_word timestamp) d;
              let crc = NOT (crc32 (bytes_at (mem d) (blockOff + 102) 146));
              d \<leftarrow> mem_writes (blockOff + 248) (be_word crc) d;
              let fsCheck = fsChecksum (bytes_at (mem d) (blockOff + 2) 250);
              mem_writes blockOff (be_half fsCheck) d })"

fun battery_blocks :: "u32 \<Rightarrow> u32 \<Rightarrow> nat list \<Rightarrow> memory \<Rightarrow> memory option" where
  "battery_blocks timestamp batLevel [] d = Some d"
| "battery_blocks timestamp batLevel (i # is) d =
     do { d \<leftarrow> battery_block timestamp batLevel i d; battery_blocks timestamp batLevel is d }"

text \<open>The part of \<open>setXtremeBatteryLevel\<close> on the memory; the inputs of the converter are set in \<open>Machine\<close>.\<close>

definition setXtremeBattery :: "u32 \<Rightarrow> memory \<Rightarrow> memory option" where
  "setXtremeBattery timestamp d = battery_blocks timestamp 0x2673C0 [2..<5] d"

section \<open>The classic model\<close>

definition classic_block :: "u32 \<Rightarrow> nat \<Rightarrow> (nat \<Rightarrow> u8) \<Rightarrow> nat \<Rightarrow> u8" where
  "classic_block cyID blockIndex m =
     (let base = blockIndex * pageSize; blockDataLen = pageSize - 10
      in if \<not> bit (m (base + 8)) 7 then m
         else if m (base + 12) \<noteq> 0 \<or> m (base + 13) \<noteq> 0 then m
         else if bytes_at m (base + 15) 9 = ascii ''cyos.cfg'' @ [0]
         then let m = put_bytes (base + 86 + 2) (be_word cyID) m;
                  crc = NOT (crc32 (bytes_at m (base + 8) blockDataLen));
                  m = put_bytes base (be_word crc) m;
                  something = push_bit 8 (ucast (m (base + 4))) OR ucast (m (base + 5));
                  check2 = (ucast (crc XOR drop_bit 16 crc XOR 0xAF17) XOR something :: u16)
              in put_bytes (base + 6) [ucast check2, ucast (drop_bit 8 check2)] m
         else m)"

definition setClassicCyID :: "u32 \<Rightarrow> flash \<Rightarrow> flash" where
  "setClassicCyID cyID d = d\<lparr>flash_mem := fold (classic_block cyID) [5..<2048] (flash_mem d)\<rparr>"

text \<open>The pages of a new flash chip of the expansion, as formatting would leave them.\<close>

definition format_pages :: "(nat \<Rightarrow> u8) \<Rightarrow> nat \<Rightarrow> u8" where
  "format_pages m = fold (\<lambda>page. put_bytes (page * pageSize) [0x5E, 0xC9, 0x8D, 0x30, 0x00, 0x01, 0xEF, 0x7C]) [0..<2048] m"

section \<open>The images are consistent\<close>

lemma mem_writes_put:
  "addressMask d = mask k \<Longrightarrow> k \<le> 21 \<Longrightarrow> i + length bs \<le> 2 ^ k \<Longrightarrow>
   mem_writes i bs d = Some (d\<lparr>mem := put_bytes i bs (mem d)\<rparr>)"
proof (induction bs arbitrary: i d)
  case Nil
  have "put_bytes i [] (mem d) = mem d" by (rule ext) (auto simp: put_bytes_def)
  then show ?case by simp
next
  case (Cons b bs)
  have "(2 :: nat) ^ k \<le> 2 ^ 21" using Cons.prems(2) by (rule power_increasing) simp
  then have u: "i < 2 ^ k" "i < 2 ^ 21" using Cons.prems(3) by simp_all
  then have "take_bit k (of_nat i :: u32) = of_nat i"
    by (metis take_bit_nat_eq_self take_bit_of_nat)
  then have "of_nat i AND mask k = (of_nat i :: u32)" by (simp add: take_bit_eq_mask)
  moreover have "unat (of_nat i :: u32) = i" using u(2) by (simp add: unat_of_nat take_bit_nat_eq_self)
  ultimately have w: "MemoryDevice_write (of_nat i) b d = Some (d\<lparr>mem := (mem d)(i := b)\<rparr>)"
    using u(2) Cons.prems(1) by (simp add: MemoryDevice_write_def)
  have "put_bytes (i + 1) bs ((mem d)(i := b)) = put_bytes i (b # bs) (mem d)"
    by (auto simp: put_bytes_def fun_eq_iff nth_Cons' Suc_le_eq)
  then show ?case using w Cons.IH [of "d\<lparr>mem := (mem d)(i := b)\<rparr>" "i + 1"] Cons.prems by (simp del: fun_upd_apply)
qed


text \<open>What a write to the image keeps of the settings, so that the next ones succeed too.\<close>

lemma xtreme_id:
  assumes "addressMask d = mask 19"
  shows "setXtremeCyID cyID d = Some (d\<lparr>mem := seal crc_bytes 0x7FFFC 0x7F800 0x7FC (put_bytes 0x7F818 (be_word cyID) (mem d))\<rparr>)"
  using assms by (simp add: setXtremeCyID_def mem_writes_put Let_def seal_def crc_bytes_def)

definition battery_mem :: "u32 \<Rightarrow> u32 \<Rightarrow> nat \<Rightarrow> (nat \<Rightarrow> u8) \<Rightarrow> nat \<Rightarrow> u8" where
  "battery_mem ts lvl b m = seal fs_bytes b (b + 2) 250 (seal crc_bytes (b + 248) (b + 102) 146
     (put_bytes (b + 123) (be_word ts) (put_bytes (b + 119) (be_word lvl) (put_bytes (b + 115) (be_word ts) m))))"

lemma battery_block_mem:
  assumes "addressMask d = mask k" "k \<le> 21" "i * 258 + 258 \<le> 2 ^ k"
  shows "battery_block ts lvl i d = Some (d\<lparr>mem := battery_mem ts lvl (i * 258) (mem d)\<rparr>)"
proof -
  note w = mem_writes_put [of _ k, OF _ assms(2)]
  show ?thesis using assms(1,3)
    by (simp add: battery_block_def w Let_def battery_mem_def seal_def crc_bytes_def fs_bytes_def add.commute)
qed

definition battery_ok :: "u32 \<Rightarrow> u32 \<Rightarrow> nat \<Rightarrow> (nat \<Rightarrow> u8) \<Rightarrow> bool" where
  "battery_ok ts lvl b m \<longleftrightarrow> bytes_at m (b + 115) 12 = be_word ts @ be_word lvl @ be_word ts \<and>
     sealed crc_bytes (b + 248) (b + 102) 146 m \<and> sealed fs_bytes b (b + 2) 250 m"

lemma bytes_at_append: "bytes_at m i (a + b) = bytes_at m i a @ bytes_at m (i + a) b"
  using upt_add_eq_append [of i "i + a" b] by (simp add: bytes_at_def add.assoc)

lemma battery_mem_outside: "j < b \<or> b + 252 \<le> j \<Longrightarrow> battery_mem ts lvl b m j = m j"
  unfolding battery_mem_def by (auto simp: seal_outside put_bytes_outside)

text \<open>Where the record of a block is: its checksum, the time, the level and the time again, and the checksum of the end.\<close>

definition battery_place :: "nat \<Rightarrow> nat \<Rightarrow> bool" where
  "battery_place b j \<longleftrightarrow> b \<le> j \<and> j < b + 2 \<or> b + 115 \<le> j \<and> j < b + 127 \<or> b + 248 \<le> j \<and> j < b + 252"

lemma battery_mem_rest: "\<not> battery_place b j \<Longrightarrow> battery_mem ts lvl b m j = m j"
  unfolding battery_mem_def battery_place_def by (auto simp: seal_outside put_bytes_outside)

lemma battery_mem_ok: "battery_ok ts lvl b (battery_mem ts lvl b m)"
proof -
  let ?p = "put_bytes (b + 123) (be_word ts) (put_bytes (b + 119) (be_word lvl) (put_bytes (b + 115) (be_word ts) m))"
  let ?c = "seal crc_bytes (b + 248) (b + 102) 146 ?p" and ?f = "battery_mem ts lvl b m"
  have o: "?f k = ?c k" if "b + 2 \<le> k" for k using that by (simp add: battery_mem_def seal_outside)
  have "bytes_at ?f (b + 115) 12 = bytes_at ?p (b + 115) 12"
    by (rule bytes_at_cong) (simp add: o seal_outside)
  also have "\<dots> = bytes_at ?p (b + 115) 4 @ bytes_at ?p (b + 119) 4 @ bytes_at ?p (b + 123) 4"
    using bytes_at_append [of ?p "b + 115" 4 8] bytes_at_append [of ?p "b + 119" 4 4] by (simp add: add.assoc)
  also have "\<dots> = be_word ts @ be_word lvl @ be_word ts" by (simp add: bytes_at_outside)
  finally have "bytes_at ?f (b + 115) 12 = be_word ts @ be_word lvl @ be_word ts" .
  moreover have "sealed crc_bytes (b + 248) (b + 102) 146 ?c" by (rule sealed_seal) simp
  then have "sealed crc_bytes (b + 248) (b + 102) 146 ?f" by (subst sealed_cong) (auto simp: o)
  moreover have "sealed fs_bytes b (b + 2) 250 ?f" unfolding battery_mem_def by (rule sealed_seal) simp
  ultimately show ?thesis by (simp add: battery_ok_def)
qed

lemma battery_ok_cong: "(\<And>j. b \<le> j \<Longrightarrow> j < b + 252 \<Longrightarrow> m' j = m j) \<Longrightarrow> battery_ok ts lvl b m' = battery_ok ts lvl b m"
  unfolding battery_ok_def by (intro conj_cong arg_cong2 [where f = "(=)"] bytes_at_cong sealed_cong refl) auto

text \<open>The three blocks are apart.\<close>

lemma battery_three:
  assumes "addressMask d = mask k" "10 < k" "k \<le> 21"
  shows "\<exists>m. setXtremeBattery ts d = Some (d\<lparr>mem := m\<rparr>) \<and> (\<forall>i \<in> {2, 3, 4}. battery_ok ts 0x2673C0 (i * 258) m) \<and>
    (\<forall>j. (\<forall>i \<in> {2, 3, 4}. \<not> battery_place (i * 258) j) \<longrightarrow> m j = mem d j)"
proof -
  have "(2 :: nat) ^ 11 \<le> 2 ^ k" using assms(2) by (intro power_increasing) simp_all
  then have k: "i * 258 + 258 \<le> 2 ^ k" if "i \<le> 4" for i :: nat using that by simp
  let ?b = "battery_mem ts 0x2673C0"
  let ?m = "?b 1032 (?b 774 (?b 516 (mem d)))"
  have "[2..<5] = [2, 3, 4 :: nat]" by (simp add: upt_rec)
  then have "setXtremeBattery ts d = Some (d\<lparr>mem := ?m\<rparr>)"
    using assms(1) by (simp add: setXtremeBattery_def battery_block_mem [OF _ assms(3) k])
  moreover have "battery_ok ts 0x2673C0 1032 ?m" by (rule battery_mem_ok)
  moreover have "battery_ok ts 0x2673C0 774 ?m" "battery_ok ts 0x2673C0 516 ?m"
    by (subst battery_ok_cong, simp add: battery_mem_outside, rule battery_mem_ok)
      (subst battery_ok_cong, simp add: battery_mem_outside, subst battery_ok_cong, simp add: battery_mem_outside, rule battery_mem_ok)
  ultimately show ?thesis by (intro exI [of _ ?m]) (simp add: battery_mem_rest)
qed


text \<open>A page of the classic flash that begins the file with the identifier.\<close>

definition config_page :: "(nat \<Rightarrow> u8) \<Rightarrow> nat \<Rightarrow> bool" where
  "config_page m p \<longleftrightarrow> (let base = p * pageSize in bit (m (base + 8)) 7 \<and> m (base + 12) = 0 \<and> m (base + 13) = 0 \<and>
     bytes_at m (base + 15) 9 = ascii ''cyos.cfg'' @ [0])"

definition page_check :: "(nat \<Rightarrow> u8) \<Rightarrow> nat \<Rightarrow> u8 list" where
  "page_check m b =
     (let crc = NOT (crc32 (bytes_at m (b + 8) 254)); id = push_bit 8 (ucast (m (b + 4))) OR ucast (m (b + 5));
          check = ucast (crc XOR drop_bit 16 crc XOR 0xAF17) XOR id :: u16
      in [ucast check, ucast (drop_bit 8 check)])"

definition page_ok :: "u32 \<Rightarrow> nat \<Rightarrow> (nat \<Rightarrow> u8) \<Rightarrow> bool" where
  "page_ok cyID b m \<longleftrightarrow> bytes_at m (b + 88) 4 = be_word cyID \<and> sealed crc_bytes b (b + 8) 254 m \<and>
     bytes_at m (b + 6) 2 = page_check m b"

lemma page_check_length [simp]: "length (page_check m b) = 2"
  by (simp add: page_check_def Let_def)

lemma page_cong:
  assumes "\<And>j. p * pageSize \<le> j \<Longrightarrow> j < (p + 1) * pageSize \<Longrightarrow> m' j = m j"
  shows "config_page m' p = config_page m p" "page_ok cyID (p * pageSize) m' = page_ok cyID (p * pageSize) m"
    "page_check m' (p * pageSize) = page_check m (p * pageSize)"
proof -
  have b: "bytes_at m' (p * pageSize + i) n = bytes_at m (p * pageSize + i) n" if "i + n \<le> pageSize" for i n
    using that assms by (intro bytes_at_cong) simp
  have v: "m' (p * pageSize + i) = m (p * pageSize + i)" if "i < pageSize" for i using that assms by simp
  show "config_page m' p = config_page m p" by (simp add: config_page_def b v)
  show c: "page_check m' (p * pageSize) = page_check m (p * pageSize)" by (simp add: page_check_def b v)
  show "page_ok cyID (p * pageSize) m' = page_ok cyID (p * pageSize) m"
    using b [of 0 4] unfolding page_ok_def sealed_def by (simp add: b c)
qed

lemma classic_block_step:
  "classic_block cyID p m = (if config_page m p
     then let b = p * pageSize; m1 = seal crc_bytes b (b + 8) 254 (put_bytes (b + 88) (be_word cyID) m)
          in put_bytes (b + 6) (page_check m1 b) m1
     else m)"
proof -
  let ?b = "p * pageSize"
  let ?m0 = "put_bytes (?b + 88) (be_word cyID) m"
  let ?m1 = "seal crc_bytes ?b (?b + 8) 254 ?m0"
  have "bytes_at ?m1 (?b + 8) 254 = bytes_at ?m0 (?b + 8) 254" by (simp add: seal_def bytes_at_outside)
  then show ?thesis
    by (simp add: classic_block_def config_page_def Let_def page_check_def seal_def crc_bytes_def add.commute)
qed

lemma classic_block_config:
  assumes "config_page m p"
  shows "page_ok cyID (p * pageSize) (classic_block cyID p m) \<and>
    (\<forall>j. (\<forall>i \<in> {0, 1, 2, 3, 6, 7, 88, 89, 90, 91}. j \<noteq> p * pageSize + i) \<longrightarrow> classic_block cyID p m j = m j)"
proof -
  define b where "b = p * pageSize"
  define m1 where "m1 = seal crc_bytes b (b + 8) 254 (put_bytes (b + 88) (be_word cyID) m)"
  define m2 where "m2 = put_bytes (b + 6) (page_check m1 b) m1"
  have c: "classic_block cyID p m = m2" using assms by (simp add: classic_block_step b_def [symmetric] m1_def [symmetric] m2_def Let_def)
  have s: "sealed crc_bytes b (b + 8) 254 m1" unfolding m1_def by (rule sealed_seal) simp
  have o: "m2 j = m1 j" if "j < b + 6 \<or> b + 8 \<le> j" for j unfolding m2_def using that by (intro put_bytes_outside) auto
  have "bytes_at m1 (b + 88) 4 = be_word cyID" by (simp add: m1_def seal_def bytes_at_outside)
  moreover have "bytes_at m2 (b + 88) 4 = bytes_at m1 (b + 88) 4" by (rule bytes_at_cong) (simp add: o)
  moreover have "sealed crc_bytes b (b + 8) 254 m2" using s by (subst sealed_cong [of b crc_bytes m1]) (auto simp: o)
  moreover have "bytes_at m2 (b + 8) 254 = bytes_at m1 (b + 8) 254" by (rule bytes_at_cong) (simp add: o)
  then have "page_check m2 b = page_check m1 b" by (simp add: page_check_def o)
  then have "bytes_at m2 (b + 6) 2 = page_check m2 b" by (simp add: m2_def)
  moreover have "m2 j = m j" if "\<forall>i \<in> {0, 1, 2, 3, 6, 7, 88, 89, 90, 91}. j \<noteq> b + i" for j
  proof -
    have "j < b \<or> b + 4 \<le> j" "j < b + 6 \<or> b + 8 \<le> j" "j < b + 88 \<or> b + 92 \<le> j" using that by (auto simp: not_less_eq_eq) presburger+
    then have "put_bytes (b + 88) (be_word cyID) m j = m j" "m1 j = put_bytes (b + 88) (be_word cyID) m j"
      unfolding m1_def by (auto intro!: seal_outside put_bytes_outside)
    then show ?thesis using o [of j] \<open>j < b + 6 \<or> b + 8 \<le> j\<close> by simp
  qed
  ultimately show ?thesis unfolding c b_def [symmetric] by (simp add: page_ok_def)
qed


lemma page_apart:
  assumes "p \<noteq> q" "q * pageSize \<le> j" "j < (q + 1) * pageSize"
  shows "j < p * pageSize \<or> (p + 1) * pageSize \<le> j"
  using assms by (cases "p < q") auto

lemma classic_block_outside:
  assumes "j < p * pageSize \<or> (p + 1) * pageSize \<le> j" shows "classic_block cyID p m j = m j"
proof (cases "config_page m p")
  case True
  have "\<forall>i \<in> {0, 1, 2, 3, 6, 7, 88, 89, 90, 91}. j \<noteq> p * pageSize + i" using assms by auto
  then show ?thesis using classic_block_config [OF True] by blast
qed (simp add: classic_block_step)

lemma classic_block_cong:
  assumes m: "\<And>k. p * pageSize \<le> k \<Longrightarrow> k < (p + 1) * pageSize \<Longrightarrow> m' k = m k"
    and j: "p * pageSize \<le> j" "j < (p + 1) * pageSize"
  shows "classic_block cyID p m' j = classic_block cyID p m j"
proof -
  define b where "b = p * pageSize"
  let ?s = "\<lambda>m. seal crc_bytes b (b + 8) 254 (put_bytes (b + 88) (be_word cyID) m)"
  have p: "put_bytes i bs n' k = put_bytes i bs n k" if "n' k = n k" for i bs n' n k using that by (simp add: put_bytes_def)
  have "bytes_at (put_bytes (b + 88) (be_word cyID) m') (b + 8) 254 = bytes_at (put_bytes (b + 88) (be_word cyID) m) (b + 8) 254"
    by (rule bytes_at_cong, rule p, rule m) (simp_all add: b_def)
  moreover have "put_bytes (b + 88) (be_word cyID) m' k = put_bytes (b + 88) (be_word cyID) m k" if "b \<le> k" "k < (p + 1) * pageSize" for k
    by (rule p, rule m) (use that in \<open>simp_all add: b_def\<close>)
  ultimately have s: "?s m' k = ?s m k" if "b \<le> k" "k < (p + 1) * pageSize" for k
    unfolding seal_def using that by (simp add: put_bytes_def)
  then have c: "page_check (?s m') b = page_check (?s m) b" using page_cong(3) [of p "?s m'" "?s m"] by (simp add: b_def)
  have "put_bytes (b + 6) (page_check (?s m') b) (?s m') j = put_bytes (b + 6) (page_check (?s m) b) (?s m) j"
    unfolding c by (rule p, rule s) (use j in \<open>simp_all add: b_def\<close>)
  moreover have "config_page m' p = config_page m p" using m by (rule page_cong(1))
  moreover have "m' j = m j" using j by (rule m)
  ultimately show ?thesis unfolding classic_block_step b_def [symmetric] Let_def by simp
qed

text \<open>The blocks that are done do not touch the others.\<close>

lemma classic_blocks:
  assumes "distinct ps"
  shows "p \<in> set ps \<Longrightarrow> p * pageSize \<le> j \<Longrightarrow> j < (p + 1) * pageSize \<Longrightarrow>
      fold (classic_block cyID) ps m j = classic_block cyID p m j"
    "(\<forall>p \<in> set ps. j < p * pageSize \<or> (p + 1) * pageSize \<le> j) \<Longrightarrow> fold (classic_block cyID) ps m j = m j"
  using assms
proof (induction ps arbitrary: m)
  case (Cons q ps)
  { case 1
    show ?case
    proof (cases "p = q")
      case True
      then have "\<forall>r \<in> set ps. r \<noteq> p" using 1(4) by auto
      then have "\<forall>r \<in> set ps. j < r * pageSize \<or> (r + 1) * pageSize \<le> j" using page_apart [OF _ 1(2,3)] by blast
      then show ?thesis using Cons.IH(2) 1(4) True by simp
    next
      case False
      have "classic_block cyID q m k = m k" if "p * pageSize \<le> k" "k < (p + 1) * pageSize" for k
        using page_apart [OF _ that] False by (intro classic_block_outside) auto
      from classic_block_cong [OF this 1(2,3)]
      have "classic_block cyID p (classic_block cyID q m) j = classic_block cyID p m j" .
      then show ?thesis using Cons.IH(1) 1 False by simp
    qed
  next
    case 2
    then show ?case using Cons.IH(2) classic_block_outside by simp
  }
qed simp_all


lemma classic_in_page:
  assumes "5 \<le> p" "p < 2048" "p * pageSize \<le> j" "j < (p + 1) * pageSize"
  shows "fold (classic_block cyID) [5..<2048] m j = classic_block cyID p m j"
  using assms by (intro classic_blocks(1)) (simp_all del: upt_rec_numeral)

lemma classic_page_ok:
  assumes "5 \<le> p" "p < 2048" "config_page (flash_mem d) p"
  shows "page_ok cyID (p * pageSize) (flash_mem (setClassicCyID cyID d))"
proof -
  have "page_ok cyID (p * pageSize) (fold (classic_block cyID) [5..<2048] (flash_mem d)) = page_ok cyID (p * pageSize) (classic_block cyID p (flash_mem d))"
    by (rule page_cong(2)) (rule classic_in_page [OF assms(1,2)])
  then show ?thesis using classic_block_config [OF assms(3), THEN conjunct1] by (simp del: upt_rec_numeral add: setClassicCyID_def)
qed

lemma classic_rest:
  assumes "i < pageSize" "p < 5 \<or> 2048 \<le> p \<or> \<not> config_page (flash_mem d) p \<or> i \<notin> {0, 1, 2, 3, 6, 7, 88, 89, 90, 91}"
  shows "flash_mem (setClassicCyID cyID d) (p * pageSize + i) = flash_mem d (p * pageSize + i)"
proof (cases "5 \<le> p \<and> p < 2048")
  case True
  then have "flash_mem (setClassicCyID cyID d) (p * pageSize + i) = classic_block cyID p (flash_mem d) (p * pageSize + i)"
    using assms(1) by (simp del: upt_rec_numeral add: setClassicCyID_def classic_in_page)
  also have "\<dots> = flash_mem d (p * pageSize + i)"
  proof (cases "config_page (flash_mem d) p")
    case config: True
    then have "\<forall>k \<in> {0, 1, 2, 3, 6, 7, 88, 89, 90, 91}. p * pageSize + i \<noteq> p * pageSize + k"
      using assms(2) True by auto
    then show ?thesis using classic_block_config [OF config, THEN conjunct2] by blast
  qed (simp add: classic_block_step)
  finally show ?thesis .
next
  case False
  have "p * pageSize + i < q * pageSize \<or> (q + 1) * pageSize \<le> p * pageSize + i" if "q \<in> set [5..<2048]" for q
    by (rule page_apart [where q = p]) (use False that assms(1) in \<open>auto simp del: upt_rec_numeral\<close>)
  then have "\<forall>q \<in> set [5..<2048]. p * pageSize + i < q * pageSize \<or> (q + 1) * pageSize \<le> p * pageSize + i" by blast
  from classic_blocks(2) [OF distinct_upt this] show ?thesis by (simp del: upt_rec_numeral add: setClassicCyID_def)
qed

lemma xtreme_flash:
  assumes "addressMask d = 0x7FFFF"
  shows "\<exists>f. setXtremeCyID cyID d = Some (d\<lparr>mem := f\<rparr>) \<and> bytes_at f 0x7F818 4 = be_word cyID \<and> sealed crc_bytes 0x7FFFC 0x7F800 0x7FC f \<and>
      (\<forall>j. j < 0x7F818 \<or> 0x7F81C \<le> j \<and> j < 0x7FFFC \<or> 0x80000 \<le> j \<longrightarrow> f j = mem d j)"
proof -
  have m: "(0x7FFFF :: u32) = mask 19" by (simp add: mask_eq_exp_minus_1)
  let ?p = "put_bytes 0x7F818 (be_word cyID) (mem d)"
  let ?f = "seal crc_bytes 0x7FFFC 0x7F800 0x7FC ?p"
  have "setXtremeCyID cyID d = Some (d\<lparr>mem := ?f\<rparr>)" using xtreme_id assms unfolding m by blast
  moreover have "bytes_at ?f 0x7F818 4 = be_word cyID" by (simp add: seal_def bytes_at_outside)
  moreover have "sealed crc_bytes 0x7FFFC 0x7F800 0x7FC ?f" by (rule sealed_seal) simp
  moreover have "?f j = mem d j" if "j < 0x7F818 \<or> 0x7F81C \<le> j \<and> j < 0x7FFFC \<or> 0x80000 \<le> j" for j
  proof -
    have "?f j = ?p j" using that by (intro seal_outside) auto
    also have "?p j = mem d j" using that by (intro put_bytes_outside) auto
    finally show ?thesis .
  qed
  ultimately show ?thesis by blast
qed

lemma xtreme_battery:
  assumes "addressMask d = 0x1FFFFF"
  shows "\<exists>r. setXtremeBattery ts d = Some (d\<lparr>mem := r\<rparr>) \<and> (\<forall>i \<in> {2, 3, 4}. battery_ok ts 0x2673C0 (i * 258) r) \<and>
      (\<forall>j. (\<forall>i \<in> {2, 3, 4}. \<not> battery_place (i * 258) j) \<longrightarrow> r j = mem d j)"
proof -
  have "(0x1FFFFF :: u32) = mask 21" by (simp add: mask_eq_exp_minus_1)
  with assms have "addressMask d = mask 21" by simp
  from battery_three [OF this] show ?thesis by simp
qed

text \<open>C37:
  The images of both models stay consistent when the emulator puts its identifier into them.
  Xtreme: the identifier is in the configuration at the end of the flash, the checksum stored after it is that
  of the configuration, each of the three copies of the battery record has the time and the level
  and both of its checksums are right, and nothing else changes: in the flash only the four bytes of the identifier and
  the four of the checksum, in the RAM, in each of the three blocks, only the two bytes of the checksum at its begin, the twelve
  of the record from byte 115 on and the four of the checksum at byte 248.  Classic: exactly the pages from number 5 on that
  begin the configuration file get the identifier, the checksum of their contents and the check of that sum and the
  number of the page, and all other pages and bytes are as before.
\<close>

theorem images_consistent:
  assumes "addressMask flash = 0x7FFFF" "addressMask ram = 0x1FFFFF"
  shows "\<exists>f r. setXtremeCyID cyID flash = Some (flash\<lparr>mem := f\<rparr>) \<and> setXtremeBattery ts ram = Some (ram\<lparr>mem := r\<rparr>) \<and>
      bytes_at f 0x7F818 4 = be_word cyID \<and> sealed crc_bytes 0x7FFFC 0x7F800 0x7FC f \<and>
      (\<forall>j. j < 0x7F818 \<or> 0x7F81C \<le> j \<and> j < 0x7FFFC \<or> 0x80000 \<le> j \<longrightarrow> f j = mem flash j) \<and>
      (\<forall>i \<in> {2, 3, 4}. battery_ok ts 0x2673C0 (i * 258) r) \<and>
      (\<forall>j. (\<forall>i \<in> {2, 3, 4}. \<not> battery_place (i * 258) j) \<longrightarrow> r j = mem ram j) \<and>
      (\<forall>m p. 5 \<le> p \<and> p < 2048 \<and> config_page (flash_mem m) p \<longrightarrow> page_ok cyID (p * pageSize) (flash_mem (setClassicCyID cyID m))) \<and>
      (\<forall>m p i. i < pageSize \<and> (p < 5 \<or> 2048 \<le> p \<or> \<not> config_page (flash_mem m) p \<or> i \<notin> {0, 1, 2, 3, 6, 7, 88, 89, 90, 91}) \<longrightarrow>
         flash_mem (setClassicCyID cyID m) (p * pageSize + i) = flash_mem m (p * pageSize + i))"
proof -
  obtain f where "setXtremeCyID cyID flash = Some (flash\<lparr>mem := f\<rparr>)" "bytes_at f 0x7F818 4 = be_word cyID" "sealed crc_bytes 0x7FFFC 0x7F800 0x7FC f"
      "\<forall>j. j < 0x7F818 \<or> 0x7F81C \<le> j \<and> j < 0x7FFFC \<or> 0x80000 \<le> j \<longrightarrow> f j = mem flash j"
    using xtreme_flash [OF assms(1)] by blast
  moreover obtain r where "setXtremeBattery ts ram = Some (ram\<lparr>mem := r\<rparr>)" "\<forall>i \<in> {2, 3, 4}. battery_ok ts 0x2673C0 (i * 258) r"
      "\<forall>j. (\<forall>i \<in> {2, 3, 4}. \<not> battery_place (i * 258) j) \<longrightarrow> r j = mem ram j"
    using xtreme_battery [OF assms(2)] by blast
  moreover have "\<forall>m p. 5 \<le> p \<and> p < 2048 \<and> config_page (flash_mem m) p \<longrightarrow> page_ok cyID (p * pageSize) (flash_mem (setClassicCyID cyID m))"
    using classic_page_ok by blast
  moreover have "\<forall>m p i. i < pageSize \<and> (p < 5 \<or> 2048 \<le> p \<or> \<not> config_page (flash_mem m) p \<or> i \<notin> {0, 1, 2, 3, 6, 7, 88, 89, 90, 91}) \<longrightarrow>
         flash_mem (setClassicCyID cyID m) (p * pageSize + i) = flash_mem m (p * pageSize + i)"
    by (intro allI impI, elim conjE, rule classic_rest)
  ultimately show ?thesis by (intro exI [of _ f] exI [of _ r] conjI)
qed

lemma images_consistent_witness:
  "\<exists>f r. setXtremeCyID 0x12345678 (MemoryDevice_new 0x7FFFF False) = Some ((MemoryDevice_new 0x7FFFF False)\<lparr>mem := f\<rparr>) \<and>
    setXtremeBattery 7 (MemoryDevice_new 0x1FFFFF False) = Some ((MemoryDevice_new 0x1FFFFF False)\<lparr>mem := r\<rparr>) \<and>
    sealed crc_bytes 0x7FFFC 0x7F800 0x7FC f \<and> battery_ok 7 0x2673C0 516 r \<and> r 643 = 0"
proof -
  have "addressMask (MemoryDevice_new 0x7FFFF False) = 0x7FFFF" "addressMask (MemoryDevice_new 0x1FFFFF False) = 0x1FFFFF"
    by (simp_all add: MemoryDevice_new_def)
  from images_consistent [OF this, where cyID = "0x12345678" and ts = 7] obtain f r where
    "setXtremeCyID 0x12345678 (MemoryDevice_new 0x7FFFF False) = Some ((MemoryDevice_new 0x7FFFF False)\<lparr>mem := f\<rparr>)"
    "setXtremeBattery 7 (MemoryDevice_new 0x1FFFFF False) = Some ((MemoryDevice_new 0x1FFFFF False)\<lparr>mem := r\<rparr>)"
    "sealed crc_bytes 0x7FFFC 0x7F800 0x7FC f" and b: "\<forall>i \<in> {2, 3, 4}. battery_ok 7 0x2673C0 (i * 258) r"
    and o: "\<forall>j. (\<forall>i \<in> {2, 3, 4}. \<not> battery_place (i * 258) j) \<longrightarrow>
      r j = mem (MemoryDevice_new 0x1FFFFF False) j" by (elim exE conjE)
  moreover from b have "battery_ok 7 0x2673C0 (2 * 258) r" by blast
  moreover have "r 643 = 0" using o [THEN spec, of 643] by (simp add: MemoryDevice_new_def battery_place_def)
  ultimately show ?thesis by (intro exI [of _ f] exI [of _ r] conjI) (assumption | simp)+
qed

end
