(* ===== verification/USBFifo.thy ===== *)
theory USBFifo
  imports Prelude
begin

text \<open>
  The \<open>FIFO\<close> of \<open>USBDevice.h\<close>: a ring buffer of a fixed size with a read and a write offset
  and a flag that tells a full buffer from an empty one.  The locale \<open>bounded_queue\<close> says what a
  client relies on, a queue of at most so many bytes; the ring buffer is an interpretation of it for the two
  sizes of the controller.
\<close>

section \<open>The ring buffer\<close>

record fifo =
  fifo_buf :: "nat \<Rightarrow> u8"
  writeOff :: nat
  readOff :: nat
  fullFlag :: bool

definition FIFO_reset :: "fifo \<Rightarrow> fifo" where
  "FIFO_reset f = f\<lparr>readOff := 0, writeOff := 0, fullFlag := False\<rparr>"

definition FIFO_pop :: "nat \<Rightarrow> fifo \<Rightarrow> u8 \<times> fifo" where
  "FIFO_pop sz f = (fifo_buf f (readOff f), f\<lparr>readOff := (readOff f + 1) mod sz, fullFlag := False\<rparr>)"

definition FIFO_push :: "nat \<Rightarrow> u8 \<Rightarrow> fifo \<Rightarrow> fifo" where
  "FIFO_push sz v f =
     (let f = f\<lparr>fifo_buf := (fifo_buf f)(writeOff f := v), writeOff := (writeOff f + 1) mod sz\<rparr>
      in if readOff f = writeOff f then f\<lparr>fullFlag := True\<rparr> else f)"

definition FIFO_getFilled :: "nat \<Rightarrow> fifo \<Rightarrow> nat" where
  "FIFO_getFilled sz f =
     (if fullFlag f then sz
      else if writeOff f \<ge> readOff f then writeOff f - readOff f else writeOff f + sz - readOff f)"

definition FIFO_empty :: "fifo \<Rightarrow> bool" where
  "FIFO_empty f \<longleftrightarrow> \<not> fullFlag f \<and> readOff f = writeOff f"

definition FIFO_full :: "fifo \<Rightarrow> bool" where
  "FIFO_full f = fullFlag f"

text \<open>The loops of the controller that pop while the buffer is not empty, at most \<open>n\<close> times.\<close>

fun FIFO_drain :: "nat \<Rightarrow> nat \<Rightarrow> fifo \<Rightarrow> u8 list \<times> fifo" where
  "FIFO_drain sz 0 f = ([], f)"
| "FIFO_drain sz (Suc n) f =
     (if FIFO_empty f then ([], f)
      else let (v, f) = FIFO_pop sz f; (vs, f) = FIFO_drain sz n f in (v # vs, f))"

section \<open>Queues of bounded length\<close>

locale bounded_queue =
  fixes sz :: nat and ok :: "'q \<Rightarrow> bool" and contents :: "'q \<Rightarrow> 'a list"
    and reset :: "'q \<Rightarrow> 'q" and push :: "'a \<Rightarrow> 'q \<Rightarrow> 'q" and pop :: "'q \<Rightarrow> 'a \<times> 'q"
    and filled :: "'q \<Rightarrow> nat" and is_empty is_full :: "'q \<Rightarrow> bool"
  assumes reset: "ok (reset q) \<and> contents (reset q) = []"
    and push: "ok q \<Longrightarrow> \<not> is_full q \<Longrightarrow> ok (push v q) \<and> contents (push v q) = contents q @ [v]"
    and pop: "ok q \<Longrightarrow> contents q = v # vs \<Longrightarrow> fst (pop q) = v \<and> ok (snd (pop q)) \<and> contents (snd (pop q)) = vs"
    and filled: "ok q \<Longrightarrow> filled q = length (contents q)"
    and empty: "ok q \<Longrightarrow> is_empty q \<longleftrightarrow> contents q = []"
    and full: "ok q \<Longrightarrow> is_full q \<longleftrightarrow> length (contents q) = sz"
    and bounded: "ok q \<Longrightarrow> length (contents q) \<le> sz"
begin

lemma push_list:
  "ok q \<Longrightarrow> length (contents q) + length vs \<le> sz \<Longrightarrow> ok (fold push vs q) \<and> contents (fold push vs q) = contents q @ vs"
proof (induction vs arbitrary: q)
  case (Cons v vs)
  then have "\<not> is_full q" by (simp add: full)
  with Cons.prems have "ok (push v q)" "contents (push v q) = contents q @ [v]" by (simp_all add: push)
  then show ?case using Cons by simp
qed simp

fun drain :: "nat \<Rightarrow> 'q \<Rightarrow> 'a list \<times> 'q" where
  "drain 0 q = ([], q)"
| "drain (Suc n) q = (if is_empty q then ([], q) else let (v, q) = pop q; (vs, q) = drain n q in (v # vs, q))"

lemma drain:
  "ok q \<Longrightarrow> fst (drain n q) = take n (contents q) \<and> ok (snd (drain n q)) \<and> contents (snd (drain n q)) = drop n (contents q)"
proof (induction n arbitrary: q)
  case (Suc n)
  show ?case
  proof (cases "contents q")
    case Nil
    then show ?thesis using Suc.prems by (simp add: empty)
  next
    case (Cons v vs)
    from pop [OF Suc.prems Cons] Suc.IH [of "snd (pop q)"] Cons Suc.prems show ?thesis
      by (auto simp: empty split: prod.splits)
  qed
qed simp

end

text \<open>The contents of the ring buffer, from the read offset on.\<close>

definition fifo_ok :: "nat \<Rightarrow> fifo \<Rightarrow> bool" where
  "fifo_ok sz f \<longleftrightarrow> readOff f < sz \<and> writeOff f < sz \<and> (fullFlag f \<longrightarrow> readOff f = writeOff f)"

definition fifo_contents :: "nat \<Rightarrow> fifo \<Rightarrow> u8 list" where
  "fifo_contents sz f = map (\<lambda>i. fifo_buf f ((readOff f + i) mod sz)) [0..<FIFO_getFilled sz f]"

lemma fifo_filled_bound: "fifo_ok sz f \<Longrightarrow> FIFO_getFilled sz f \<le> sz"
  by (auto simp: fifo_ok_def FIFO_getFilled_def)

lemma fifo_write_position:
  "fifo_ok sz f \<Longrightarrow> \<not> fullFlag f \<Longrightarrow> (readOff f + FIFO_getFilled sz f) mod sz = writeOff f \<and> FIFO_getFilled sz f < sz"
  by (auto simp: fifo_ok_def FIFO_getFilled_def mod_if)

lemma fifo_push_ok:
  assumes "fifo_ok sz f" "\<not> FIFO_full f"
  shows "fifo_ok sz (FIFO_push sz v f) \<and> fifo_contents sz (FIFO_push sz v f) = fifo_contents sz f @ [v]"
proof -
  let ?n = "FIFO_getFilled sz f" and ?g = "FIFO_push sz v f"
  have p: "(readOff f + ?n) mod sz = writeOff f" "?n < sz" "0 < sz"
    using fifo_write_position [of sz f] assms by (auto simp: FIFO_full_def fifo_ok_def)
  have ok: "fifo_ok sz ?g" using assms by (auto simp: FIFO_push_def fifo_ok_def FIFO_full_def Let_def)
  have g: "readOff ?g = readOff f" "fifo_buf ?g = (fifo_buf f)(writeOff f := v)" by (simp_all add: FIFO_push_def Let_def)
  have n: "FIFO_getFilled sz ?g = ?n + 1"
    using assms by (auto simp: FIFO_push_def FIFO_getFilled_def fifo_ok_def FIFO_full_def Let_def mod_if)
  have "(readOff f + i) mod sz \<noteq> writeOff f" if "i < ?n" for i
  proof
    assume "(readOff f + i) mod sz = writeOff f"
    with p(1) have "(readOff f + i) mod sz = (readOff f + ?n) mod sz" by simp
    then have "sz dvd (readOff f + ?n) - (readOff f + i)" using that mod_eq_dvd_iff_nat [of "readOff f + i" "readOff f + ?n" sz] by simp
    then show False using that p(2) nat_dvd_not_less [of "?n - i" sz] by simp
  qed
  then show ?thesis using ok p(1) by (simp add: fifo_contents_def n g cong: map_cong)
qed

lemma fifo_pop_ok:
  assumes "fifo_ok sz f" "fifo_contents sz f = v # vs"
  shows "fst (FIFO_pop sz f) = v \<and> fifo_ok sz (snd (FIFO_pop sz f)) \<and> fifo_contents sz (snd (FIFO_pop sz f)) = vs"
proof -
  let ?n = "FIFO_getFilled sz f" and ?g = "snd (FIFO_pop sz f)"
  have l: "?n = Suc (length vs)" using arg_cong [OF assms(2), of length] by (simp add: fifo_contents_def)
  have r: "readOff f < sz" using assms(1) by (simp add: fifo_ok_def)
  have n: "FIFO_getFilled sz ?g = length vs"
    using assms(1) l by (auto simp: FIFO_pop_def FIFO_getFilled_def fifo_ok_def mod_if split: if_splits)
  have e: "fifo_contents sz f = fifo_buf f (readOff f) # map (\<lambda>i. fifo_buf f ((readOff f + Suc i) mod sz)) [0..<length vs]"
    unfolding fifo_contents_def l upt_Suc_map using r by simp
  have "fifo_contents sz ?g = map (\<lambda>i. fifo_buf f ((readOff f + Suc i) mod sz)) [0..<length vs]"
    unfolding fifo_contents_def n by (simp add: FIFO_pop_def mod_simps)
  moreover have "fifo_ok sz ?g" using assms(1) by (auto simp: FIFO_pop_def fifo_ok_def)
  ultimately show ?thesis using e assms(2) by (simp add: FIFO_pop_def)
qed

lemma fifo_queue:
  assumes "0 < sz"
  shows "bounded_queue sz (fifo_ok sz) (fifo_contents sz) FIFO_reset (FIFO_push sz) (FIFO_pop sz) (FIFO_getFilled sz) FIFO_empty FIFO_full"
proof
  show "fifo_ok sz (FIFO_reset q) \<and> fifo_contents sz (FIFO_reset q) = []" for q
    using assms by (simp add: FIFO_reset_def fifo_ok_def fifo_contents_def FIFO_getFilled_def)
next
  fix q assume q: "fifo_ok sz q"
  show "FIFO_getFilled sz q = length (fifo_contents sz q)" by (simp add: fifo_contents_def)
  show "FIFO_empty q \<longleftrightarrow> fifo_contents sz q = []" "FIFO_full q \<longleftrightarrow> length (fifo_contents sz q) = sz" "length (fifo_contents sz q) \<le> sz"
    using q by (auto simp: fifo_contents_def FIFO_empty_def FIFO_full_def FIFO_getFilled_def fifo_ok_def)
qed (simp_all add: fifo_push_ok fifo_pop_ok)

interpretation fifo8: bounded_queue 8 "fifo_ok 8" "fifo_contents 8" FIFO_reset "FIFO_push 8" "FIFO_pop 8" "FIFO_getFilled 8" FIFO_empty FIFO_full
  by (rule fifo_queue) simp

interpretation fifo64: bounded_queue 64 "fifo_ok 64" "fifo_contents 64" FIFO_reset "FIFO_push 64" "FIFO_pop 64" "FIFO_getFilled 64" FIFO_empty FIFO_full
  by (rule fifo_queue) simp

lemma FIFO_drain8: "FIFO_drain 8 = fifo8.drain"
proof (intro ext)
  show "FIFO_drain 8 n f = fifo8.drain n f" for n f by (induction n arbitrary: f) simp_all
qed

lemma FIFO_drain64: "FIFO_drain 64 = fifo64.drain"
proof (intro ext)
  show "FIFO_drain 64 n f = fifo64.drain n f" for n f by (induction n arbitrary: f) simp_all
qed

lemmas fifo8_drain = fifo8.drain [folded FIFO_drain8]
lemmas fifo64_drain = fifo64.drain [folded FIFO_drain64]

end
