(* ===== verification/USBDevice.thy ===== *)
theory USBDevice
  imports USBFifo
begin

text \<open>
  \<open>USBDevice.cpp\<close>: the USB controller as an external device with an address and a data register,
  the enumeration the emulator performs on the emulated program, and the transfers of a host
  that reach the controller through the USB/IP server.  The server library is outside: its
  calls are events of a log, as are the interrupts raised, and the calls it makes are the
  operations \<open>usbip\<dots>\<close>.  \<open>None\<close> is an access outside an array.
\<close>

section \<open>State\<close>

datatype enum_state =
    NotStarted | RequestDeviceDesc | ReadDeviceDesc | SetAddress | RequestConfigDesc | RequestFullConfigDesc
  | ReadConfigDesc | EnumDone

text \<open>A client of the server is a number; a reply has the sequence number, the data sent and the length.\<close>

datatype usb_event =
    Ev_irq
  | Ev_reply nat u32 "u8 list" nat
  | Ev_stall nat u32
  | Ev_destroyServer
  | Ev_createServer
  | Ev_removeDevice
  | Ev_addDevice "u8 list" "u8 list"

record usb =
  usb_regAddr :: u8
  mainMask :: u8
  altMask :: u8
  txMask :: u8
  rxMask :: u8
  nakMask :: u8
  altEvent :: u8
  txEvent :: u8
  rxEvent :: u8
  nakEvent :: u8
  endpointControl :: "nat \<Rightarrow> u8"
  txCommand :: "nat \<Rightarrow> u8"
  rxCommand :: "nat \<Rightarrow> u8"
  endpointSetupRecv :: u8
  txEnable :: "nat \<Rightarrow> bool"
  rxEnable :: "nat \<Rightarrow> bool"
  controlFIFO :: fifo
  txFifo :: "nat \<Rightarrow> fifo"
  rxFifo :: "nat \<Rightarrow> fifo"
  enumerationState :: enum_state
  deviceDesc :: "u8 list"
  deviceDescOffset :: nat
  configDesc :: "u8 list option"
  configDescLen :: nat
  configDescOffset :: nat
  usbipServer :: bool
  usbipLastClient :: nat
  inSeqnum :: "nat \<Rightarrow> u32"
  outSeqnum :: "nat \<Rightarrow> u32"
  inData :: "nat \<Rightarrow> u8 list option"
  inDataLen :: "nat \<Rightarrow> nat"
  inDataOffset :: "nat \<Rightarrow> nat"
  outData :: "nat \<Rightarrow> u8 list option"
  outDataLen :: "nat \<Rightarrow> nat"
  outDataOffset :: "nat \<Rightarrow> nat"
  usb_log :: "usb_event list"

text \<open>
  What the environment decides: whether the server can be created, and the byte that an array
  contains before it is written.
\<close>

record usb_env =
  env_created :: bool
  env_stale :: u8

section \<open>Interrupts\<close>

definition usb_event :: "usb_event \<Rightarrow> usb \<Rightarrow> usb" where
  "usb_event e d = d\<lparr>usb_log := usb_log d @ [e]\<rparr>"

definition getMAEV :: "usb \<Rightarrow> u8" where
  "getMAEV d =
     (let v = 0;
          v = (if tst (altEvent d) (altMask d) then v OR 0x02 else v);
          v = (if tst (txEvent d) (txMask d) then v OR 0x04 else v);
          v = (if tst (rxEvent d) (rxMask d) then v OR 0x40 else v);
          v = (if tst (nakEvent d) (nakMask d) then v OR 0x10 else v)
      in v)"

definition updateInterrupt :: "usb \<Rightarrow> usb" where
  "updateInterrupt d = (if tst (getMAEV d) (mainMask d) then usb_event Ev_irq d else d)"

section \<open>Enumeration\<close>

definition usb_pushes :: "u8 list \<Rightarrow> usb \<Rightarrow> usb" where
  "usb_pushes vs d = d\<lparr>controlFIFO := fold (FIFO_push 8) vs (controlFIFO d)\<rparr>"

definition setup_bytes :: "u8 \<Rightarrow> u8 \<Rightarrow> u16 \<Rightarrow> u16 \<Rightarrow> u16 \<Rightarrow> u8 list" where
  "setup_bytes requestType request value index len =
     [requestType, request, ucast value, ucast (drop_bit 8 value), ucast index, ucast (drop_bit 8 index),
      ucast len, ucast (drop_bit 8 len)]"

definition setupPacket :: "u8 \<Rightarrow> u8 \<Rightarrow> u16 \<Rightarrow> u16 \<Rightarrow> u16 \<Rightarrow> usb \<Rightarrow> usb" where
  "setupPacket requestType request value index len d =
     (let d = usb_pushes (setup_bytes requestType request value index len) d;
          d = d\<lparr>rxEvent := rxEvent d OR 1, endpointSetupRecv := endpointSetupRecv d OR 1\<rparr>
      in updateInterrupt d)"

definition canSendPacket :: "usb \<Rightarrow> bool" where
  "canSendPacket d \<longleftrightarrow> rxEnable d 0 \<and> FIFO_empty (controlFIFO d) \<and> \<not> tst (txEvent d) 1"

text \<open>\<open>buf[off++] = controlFIFO.pop()\<close> for at most \<open>n\<close> bytes; \<open>None\<close> past the end of the array.\<close>

definition pop_into :: "u8 list \<Rightarrow> nat \<Rightarrow> nat \<Rightarrow> usb \<Rightarrow> (u8 list \<times> nat \<times> usb) option" where
  "pop_into buf off n d =
     (let (vs, f) = FIFO_drain 8 n (controlFIFO d)
      in if vs = [] \<or> off + length vs \<le> length buf
         then Some (take off buf @ vs @ drop (off + length vs) buf, off + length vs, d\<lparr>controlFIFO := f\<rparr>)
         else None)"

text \<open>
  The descriptors printed when the configuration descriptor is complete.  The end of the loop
  is computed as 9 bytes after the end of the array.
\<close>

datatype usb_descriptor = Interface_desc "u8 list" | Endpoint_desc "u8 list" | Other_desc u8 u8

definition desc_bytes :: "u8 list \<Rightarrow> nat \<Rightarrow> nat \<Rightarrow> u8 list option" where
  "desc_bytes cfg pos n = (if pos + n \<le> length cfg then Some (take n (drop pos cfg)) else None)"

function usb_descriptors :: "u8 list \<Rightarrow> nat \<Rightarrow> nat \<Rightarrow> nat \<Rightarrow> nat \<Rightarrow> usb_descriptor list option" where
  "usb_descriptors cfg end_pos pos interfaces endpoints =
     (if \<not> pos < end_pos \<or> interfaces = 0 \<and> endpoints = 0 then Some []
      else case desc_bytes cfg pos 1 of None \<Rightarrow> None
      | Some l \<Rightarrow>
        if l ! 0 = 0 then Some []
        else do { t \<leftarrow> desc_bytes cfg pos 2;
                  let next_pos = pos + unat (l ! 0)
                  in if endpoints > 0
                     then if t ! 1 = 5
                          then do { b \<leftarrow> desc_bytes cfg pos 7;
                                    ds \<leftarrow> usb_descriptors cfg end_pos next_pos interfaces (endpoints - 1);
                                    Some (Endpoint_desc b # ds) }
                          else do { ds \<leftarrow> usb_descriptors cfg end_pos next_pos interfaces endpoints;
                                    Some (Other_desc (t ! 1) (l ! 0) # ds) }
                     else if t ! 1 = 4
                          then do { b \<leftarrow> desc_bytes cfg pos 9;
                                    ds \<leftarrow> usb_descriptors cfg end_pos next_pos (interfaces - 1) (unat (b ! 4));
                                    Some (Interface_desc b # ds) }
                          else do { ds \<leftarrow> usb_descriptors cfg end_pos next_pos interfaces endpoints;
                                    Some (Other_desc (t ! 1) (l ! 0) # ds) } })"
  by pat_completeness auto
termination
  by (relation "measure (\<lambda>(cfg, end_pos, pos, interfaces, endpoints). end_pos - pos)") (auto simp: unat_gt_0 diff_less_mono2)

declare usb_descriptors.simps [simp del]

definition updateEnumeration :: "usb_env \<Rightarrow> usb \<Rightarrow> usb option" where
  "updateEnumeration E d =
     (case enumerationState d of
        NotStarted \<Rightarrow> Some d
      | EnumDone \<Rightarrow> Some d
      | RequestDeviceDesc \<Rightarrow>
          Some (if \<not> canSendPacket d then d
                else (setupPacket 0x80 6 0x100 0 18 d)\<lparr>enumerationState := ReadDeviceDesc, deviceDescOffset := 0\<rparr>)
      | ReadDeviceDesc \<Rightarrow>
          if \<not> txEnable d 0 then Some d
          else do { (b, off, d) \<leftarrow> pop_into (deviceDesc d) (deviceDescOffset d) (18 - deviceDescOffset d) d;
                    let d = d\<lparr>deviceDesc := b, deviceDescOffset := off\<rparr>
                    in Some (if off = 18 then d\<lparr>enumerationState := SetAddress\<rparr> else d) }
      | SetAddress \<Rightarrow>
          Some (if \<not> canSendPacket d then d
                else (setupPacket 0 5 1 0 0 d)\<lparr>enumerationState := RequestConfigDesc\<rparr>)
      | RequestConfigDesc \<Rightarrow>
          Some (if \<not> canSendPacket d then d
                else (setupPacket 0x80 6 0x200 0 9 d)\<lparr>configDescOffset := 0, enumerationState := RequestFullConfigDesc\<rparr>)
      | RequestFullConfigDesc \<Rightarrow>
          if \<not> txEnable d 0 \<and> configDescOffset d < 9 then Some d
          else if configDescOffset d < 8
          then do { (buf, off, d) \<leftarrow> pop_into (replicate 8 (env_stale E)) (configDescOffset d) (FIFO_getFilled 8 (controlFIFO d)) d;
                    Some (d\<lparr>configDescOffset := off, configDescLen := unat (buf ! 2) + 256 * unat (buf ! 3)\<rparr>) }
          else if configDescOffset d < 9
          then let (vs, f) = FIFO_drain 8 (FIFO_getFilled 8 (controlFIFO d)) (controlFIFO d)
               in Some (d\<lparr>controlFIFO := f, configDescOffset := configDescOffset d + length vs\<rparr>)
          else Some (if \<not> canSendPacket d then d
                     else (setupPacket 0x80 6 0x200 0 (of_nat (configDescLen d)) d)
                            \<lparr>enumerationState := ReadConfigDesc, configDesc := Some (replicate (configDescLen d) (env_stale E)),
                             configDescOffset := 0\<rparr>)
      | ReadConfigDesc \<Rightarrow>
          if \<not> txEnable d 0 then Some d
          else do { (cfg, off, d) \<leftarrow> pop_into (case configDesc d of Some b \<Rightarrow> b | None \<Rightarrow> []) (configDescOffset d)
                                       (FIFO_getFilled 8 (controlFIFO d)) d;
                    let d = d\<lparr>configDesc := Some cfg, configDescOffset := off\<rparr>
                    in if off = configDescLen d
                       then do { hd \<leftarrow> desc_bytes cfg 0 9;
                                 _ \<leftarrow> usb_descriptors cfg (9 + off) 9 (unat (hd ! 4)) 0;
                                 let d = usb_event (Ev_addDevice (deviceDesc d) cfg) (usb_event Ev_removeDevice d)
                                 in Some (d\<lparr>enumerationState := EnumDone\<rparr>) }
                       else Some d })"

definition startEnumeration :: "usb_env \<Rightarrow> usb \<Rightarrow> usb option" where
  "startEnumeration E d =
     (if enumerationState d \<noteq> NotStarted then Some d
      else updateEnumeration E (d\<lparr>enumerationState := RequestDeviceDesc\<rparr>))"

definition USBDevice_reset :: "usb_env \<Rightarrow> usb \<Rightarrow> usb option" where
  "USBDevice_reset E d =
     (let d = d\<lparr>mainMask := 0, altMask := 0, txMask := 0, rxMask := 0, nakMask := 0, altEvent := 0, txEvent := 0,
                rxEvent := 0, nakEvent := 0,
                txEnable := (\<lambda>i. if i < 4 then False else txEnable d i), rxEnable := (\<lambda>i. if i < 4 then False else rxEnable d i),
                controlFIFO := FIFO_reset (controlFIFO d)\<rparr>;
          enumEnabled = enumerationState d \<noteq> NotStarted;
          d = d\<lparr>enumerationState := NotStarted, configDesc := None, configDescLen := 0, configDescOffset := 0\<rparr>
      in if \<not> enumEnabled then Some d
         else do { d \<leftarrow> startEnumeration E d;
                   let d = (if usbipServer d then (usb_event Ev_destroyServer d)\<lparr>usbipServer := False\<rparr> else d);
                       d = (usb_event Ev_createServer d)\<lparr>usbipServer := env_created E\<rparr>
                   in Some (d\<lparr>inSeqnum := (\<lambda>_. 0), outSeqnum := (\<lambda>_. 0), inData := (\<lambda>_. None), inDataLen := (\<lambda>_. 0),
                             inDataOffset := (\<lambda>_. 0), outData := (\<lambda>_. None), outDataLen := (\<lambda>_. 0), outDataOffset := (\<lambda>_. 0)\<rparr>) })"


section \<open>The registers\<close>

abbreviation R_MCNTRL :: u8 where "R_MCNTRL \<equiv> 0x00"
abbreviation R_RID :: u8 where "R_RID \<equiv> 0x03"
abbreviation R_MAEV :: u8 where "R_MAEV \<equiv> 0x06"
abbreviation R_MAMSK :: u8 where "R_MAMSK \<equiv> 0x07"
abbreviation R_ALTEV :: u8 where "R_ALTEV \<equiv> 0x08"
abbreviation R_ALTMSK :: u8 where "R_ALTMSK \<equiv> 0x09"
abbreviation R_TXEV :: u8 where "R_TXEV \<equiv> 0x0A"
abbreviation R_TXMSK :: u8 where "R_TXMSK \<equiv> 0x0B"
abbreviation R_RXEV :: u8 where "R_RXEV \<equiv> 0x0C"
abbreviation R_RXMSK :: u8 where "R_RXMSK \<equiv> 0x0D"
abbreviation R_NAKEV :: u8 where "R_NAKEV \<equiv> 0x0E"
abbreviation R_NAKMSK :: u8 where "R_NAKMSK \<equiv> 0x0F"
abbreviation R_EPC0 :: u8 where "R_EPC0 \<equiv> 0x20"
abbreviation R_TXD0 :: u8 where "R_TXD0 \<equiv> 0x21"
abbreviation R_TXS0 :: u8 where "R_TXS0 \<equiv> 0x22"
abbreviation R_TXC0 :: u8 where "R_TXC0 \<equiv> 0x23"
abbreviation R_RXD0 :: u8 where "R_RXD0 \<equiv> 0x25"
abbreviation R_RXS0 :: u8 where "R_RXS0 \<equiv> 0x26"
abbreviation R_RXC0 :: u8 where "R_RXC0 \<equiv> 0x27"

text \<open>\<open>reg_group base step r\<close>: the index of \<open>r\<close> among the registers that follow each other in steps of \<open>step\<close>.\<close>

definition reg_group :: "nat \<Rightarrow> nat \<Rightarrow> nat \<Rightarrow> u8 \<Rightarrow> nat option" where
  "reg_group first step n r =
     (if first \<le> unat r \<and> unat r \<le> first + step * (n - 1) \<and> (unat r - first) mod step = 0
      then Some ((unat r - first) div step) else None)"

text \<open>A command register is read at an index computed from the address of the access, not the register.\<close>

definition read_command :: "(nat \<Rightarrow> u8) \<Rightarrow> u32 \<Rightarrow> u32 \<Rightarrow> u8 option" where
  "read_command commands addr first =
     (let i = unat (addr - first) div 8 in if i < 4 then Some (commands i) else None)"

definition read_txStatus :: "nat \<Rightarrow> usb \<Rightarrow> u8 \<times> usb" where
  "read_txStatus index d =
     (let level = min 31 (64 - FIFO_getFilled 64 (txFifo d index)); evMask = bitv (index + 1);
          evt = tst (txEvent d) evMask; d = updateInterrupt (d\<lparr>txEvent := txEvent d AND NOT evMask\<rparr>)
      in ((if evt then 0x60 else 0) OR of_nat level, d))"

definition read_rxStatus :: "nat \<Rightarrow> usb \<Rightarrow> u8 \<times> usb" where
  "read_rxStatus index d =
     (let level = min 15 (FIFO_getFilled 64 (rxFifo d index)); evMask = bitv (index + 1);
          d = updateInterrupt (d\<lparr>rxEvent := rxEvent d AND NOT evMask\<rparr>);
          setup = tst (endpointSetupRecv d) evMask;
          d = d\<lparr>endpointSetupRecv := endpointSetupRecv d AND NOT evMask\<rparr>
      in ((if setup then 0x40 else 0) OR of_nat level, d))"

definition read_rxData :: "nat \<Rightarrow> usb \<Rightarrow> u8 \<times> usb" where
  "read_rxData index d =
     (if FIFO_empty (rxFifo d index) then (0, d)
      else let (v, f) = FIFO_pop 64 (rxFifo d index) in (v, d\<lparr>rxFifo := (rxFifo d)(index := f)\<rparr>))"

definition read_endpoint :: "u8 \<Rightarrow> usb \<Rightarrow> u8 \<times> usb" where
  "read_endpoint r d =
     (case reg_group 0x28 4 6 r of Some i \<Rightarrow> (endpointControl d (i + 1), d)
      | None \<Rightarrow> case reg_group 0x2A 8 3 r of Some i \<Rightarrow> read_txStatus i d
      | None \<Rightarrow> case reg_group 0x2E 8 3 r of Some i \<Rightarrow> read_rxStatus i d
      | None \<Rightarrow> case reg_group 0x2D 8 3 r of Some i \<Rightarrow> read_rxData i d
      | None \<Rightarrow> (0, d))"

definition USBDevice_read :: "u32 \<Rightarrow> usb \<Rightarrow> (u8 \<times> usb) option" where
  "USBDevice_read addr d =
     (let r = usb_regAddr d
      in if tst addr 1 then Some (0, d)
         else if r = R_RID then Some (2, d)
         else if r = R_MAEV then Some (getMAEV d, d)
         else if r = R_MAMSK then Some (mainMask d, d)
         else if r = R_ALTEV then
           Some (altEvent d, updateInterrupt (d\<lparr>altEvent := altEvent d AND NOT (0x08 OR 0x10 OR 0x20 OR 0x40 OR 0x80)\<rparr>))
         else if r = R_ALTMSK then Some (altMask d, d)
         else if r = R_TXEV then Some (txEvent d, d)
         else if r = R_TXMSK then Some (txMask d, d)
         else if r = R_RXEV then Some (rxEvent d, d)
         else if r = R_RXMSK then Some (rxMask d, d)
         else if r = R_NAKEV then Some (nakEvent d, updateInterrupt (d\<lparr>nakEvent := 0\<rparr>))
         else if r = R_NAKMSK then Some (nakMask d, d)
         else if r = R_EPC0 then Some (endpointControl d 0, d)
         else if r = R_TXS0 then
           (let sent = tst (txEvent d) 1; d = updateInterrupt (d\<lparr>txEvent := txEvent d AND NOT 1\<rparr>)
            in Some ((if sent then 0x60 else 0) OR of_nat (8 - FIFO_getFilled 8 (controlFIFO d)), d))
         else if r = R_TXC0 \<or> reg_group 0x2B 8 3 r \<noteq> None then
           map_option (\<lambda>v. (v, d)) (read_command (txCommand d) addr 0x23)
         else if r = R_RXS0 then
           (let d = updateInterrupt (d\<lparr>rxEvent := rxEvent d AND NOT 1\<rparr>); setup = tst (endpointSetupRecv d) 1;
                d = d\<lparr>endpointSetupRecv := endpointSetupRecv d AND NOT 1\<rparr>
            in Some ((if setup then 0x40 else 0) OR of_nat (FIFO_getFilled 8 (controlFIFO d)), d))
         else if r = R_RXC0 \<or> reg_group 0x2F 8 3 r \<noteq> None then
           map_option (\<lambda>v. (v, d)) (read_command (rxCommand d) addr 0x27)
         else if r = R_RXD0 then
           (if FIFO_empty (controlFIFO d) then Some (0, d)
            else let (v, f) = FIFO_pop 8 (controlFIFO d) in Some (v, d\<lparr>controlFIFO := f\<rparr>))
         else Some (read_endpoint r d))"

section \<open>Replies to the host\<close>

text \<open>Bytes from a FIFO added to the data of an endpoint, and the reply with the first \<open>n\<close> of them.\<close>

definition store_in :: "nat \<Rightarrow> u8 list \<Rightarrow> usb \<Rightarrow> usb option" where
  "store_in ep vs d =
     (if vs = [] then Some d
      else case inData d ep of None \<Rightarrow> None
      | Some b \<Rightarrow> let off = inDataOffset d ep
                  in if off + length vs \<le> length b
                     then Some (d\<lparr>inData := (inData d)(ep := Some (take off b @ vs @ drop (off + length vs) b)),
                                  inDataOffset := (inDataOffset d)(ep := off + length vs)\<rparr>)
                     else None)"

definition reply_in :: "nat \<Rightarrow> nat \<Rightarrow> usb \<Rightarrow> usb option" where
  "reply_in ep n d =
     (let b = (case inData d ep of Some b \<Rightarrow> b | None \<Rightarrow> [])
      in if n \<le> length b
         then Some ((usb_event (Ev_reply (usbipLastClient d) (inSeqnum d ep) (take n b) n) d)
                      \<lparr>inSeqnum := (inSeqnum d)(ep := 0)\<rparr>)
         else None)"

definition drain_tx :: "nat \<Rightarrow> nat \<Rightarrow> usb \<Rightarrow> usb option" where
  "drain_tx i ep d =
     (let (vs, f) = FIFO_drain 64 (inDataLen d ep - inDataOffset d ep) (txFifo d i)
      in store_in ep vs (d\<lparr>txFifo := (txFifo d)(i := f)\<rparr>))"

text \<open>What both the command register and a request of the host do when data is waiting.\<close>

definition send_in :: "nat \<Rightarrow> nat \<Rightarrow> bool \<Rightarrow> usb \<Rightarrow> usb option" where
  "send_in i ep final d =
     do { d \<leftarrow> drain_tx i ep d;
          if inDataOffset d ep = inDataLen d ep \<or> final then reply_in ep (inDataOffset d ep) d else Some d }"

definition write_TXC0 :: "usb_env \<Rightarrow> u8 \<Rightarrow> usb \<Rightarrow> usb option" where
  "write_TXC0 E val d =
     (let d = d\<lparr>txEnable := (txEnable d)(0 := tst val 1), txCommand := (txCommand d)(0 := val AND NOT 8)\<rparr>;
          d = (if tst val 8 then d\<lparr>controlFIFO := FIFO_reset (controlFIFO d)\<rparr> else d)
      in if \<not> txEnable d 0 then Some d
         else do { d \<leftarrow>
                     (if FIFO_empty (controlFIFO d)
                      then let d = updateInterrupt (d\<lparr>nakEvent := nakEvent d OR 0x10\<rparr>)
                           in if usbipServer d \<and> inSeqnum d 0 \<noteq> 0
                              then if inDataOffset d 0 \<noteq> 0 \<or> inDataLen d 0 = 0 then reply_in 0 (inDataLen d 0) d
                                   else Some ((usb_event (Ev_stall (usbipLastClient d) (inSeqnum d 0)) d)
                                                \<lparr>inSeqnum := (inSeqnum d)(0 := 0)\<rparr>)
                              else Some d
                      else if enumerationState d \<noteq> EnumDone then updateEnumeration E d
                      else if usbipServer d \<and> inSeqnum d 0 \<noteq> 0
                      then let (vs, f) = FIFO_drain 8 (FIFO_getFilled 8 (controlFIFO d)) (controlFIFO d)
                           in do { d \<leftarrow> store_in 0 vs (d\<lparr>controlFIFO := f\<rparr>);
                                   if inDataOffset d 0 = inDataLen d 0 then reply_in 0 (inDataLen d 0) d else Some d }
                      else Some d);
                   Some (if FIFO_empty (controlFIFO d) then updateInterrupt (d\<lparr>txEvent := txEvent d OR 1\<rparr>) else d) })"

definition write_RXC0 :: "usb_env \<Rightarrow> u8 \<Rightarrow> usb \<Rightarrow> usb option" where
  "write_RXC0 E val d =
     (let d = d\<lparr>rxEnable := (rxEnable d)(0 := tst val 1), rxCommand := (rxCommand d)(0 := val AND NOT 8)\<rparr>;
          d = (if tst val 8 then d\<lparr>controlFIFO := FIFO_reset (controlFIFO d)\<rparr> else d)
      in if rxEnable d 0 then updateEnumeration E d else Some d)"

definition write_TXC :: "nat \<Rightarrow> u8 \<Rightarrow> usb \<Rightarrow> usb option" where
  "write_TXC index val d =
     (let d = d\<lparr>txEnable := (txEnable d)(index := tst val 1), txCommand := (txCommand d)(index := val AND NOT (8 OR 16))\<rparr>;
          d = (if tst val 8 then d\<lparr>txFifo := (txFifo d)(index - 1 := FIFO_reset (txFifo d (index - 1)))\<rparr> else d)
      in if \<not> txEnable d index then Some d
         else let ep = unat (endpointControl d (index * 2 - 1) AND 0xF)
              in do { d \<leftarrow> (if usbipServer d \<and> inSeqnum d ep \<noteq> 0 then send_in (index - 1) ep (tst val 2) d else Some d);
                      Some (if FIFO_empty (txFifo d (index - 1)) then updateInterrupt (d\<lparr>txEvent := txEvent d OR bitv index\<rparr>) else d) })"

definition write_RXC :: "nat \<Rightarrow> u8 \<Rightarrow> usb \<Rightarrow> usb" where
  "write_RXC index val d =
     (let d = d\<lparr>rxEnable := (rxEnable d)(index := tst val 1), rxCommand := (rxCommand d)(index := val AND NOT 8)\<rparr>
      in if tst val 8 then d\<lparr>rxFifo := (rxFifo d)(index - 1 := FIFO_reset (rxFifo d (index - 1)))\<rparr> else d)"

definition write_endpoint :: "u8 \<Rightarrow> u8 \<Rightarrow> usb \<Rightarrow> usb option" where
  "write_endpoint r val d =
     (case reg_group 0x28 4 6 r of Some i \<Rightarrow> Some (d\<lparr>endpointControl := (endpointControl d)(i + 1 := val)\<rparr>)
      | None \<Rightarrow> case reg_group 0x29 8 3 r of Some i \<Rightarrow>
          Some (if FIFO_full (txFifo d i) then d else d\<lparr>txFifo := (txFifo d)(i := FIFO_push 64 val (txFifo d i))\<rparr>)
      | None \<Rightarrow> case reg_group 0x2B 8 3 r of Some i \<Rightarrow> write_TXC (i + 1) val d
      | None \<Rightarrow> case reg_group 0x2F 8 3 r of Some i \<Rightarrow> Some (write_RXC (i + 1) val d)
      | None \<Rightarrow> Some d)"

definition USBDevice_write :: "usb_env \<Rightarrow> u32 \<Rightarrow> u8 \<Rightarrow> usb \<Rightarrow> usb option" where
  "USBDevice_write E addr val d =
     (let r = usb_regAddr d
      in if tst addr 1 then Some (d\<lparr>usb_regAddr := val\<rparr>)
         else if r = R_MCNTRL then if tst val 1 then USBDevice_reset E d else Some d
         else if r = R_MAMSK then Some (d\<lparr>mainMask := val\<rparr>)
         else if r = R_ALTMSK then Some (d\<lparr>altMask := val\<rparr>)
         else if r = R_TXMSK then Some (d\<lparr>txMask := val\<rparr>)
         else if r = R_RXMSK then Some (d\<lparr>rxMask := val\<rparr>)
         else if r = R_NAKMSK then Some (d\<lparr>nakMask := val\<rparr>)
         else if r = R_EPC0 then Some (d\<lparr>endpointControl := (endpointControl d)(0 := val)\<rparr>)
         else if r = R_TXD0 then
           Some (if FIFO_full (controlFIFO d) then d else d\<lparr>controlFIFO := FIFO_push 8 val (controlFIFO d)\<rparr>)
         else if r = R_TXC0 then write_TXC0 E val d
         else if r = R_RXC0 then write_RXC0 E val d
         else write_endpoint r val d)"

section \<open>Requests of the host\<close>

definition new_in :: "usb_env \<Rightarrow> nat \<Rightarrow> nat \<Rightarrow> u32 \<Rightarrow> usb \<Rightarrow> usb" where
  "new_in E ep n seqnum d =
     d\<lparr>inData := (inData d)(ep := Some (replicate n (env_stale E))), inDataLen := (inDataLen d)(ep := n),
       inDataOffset := (inDataOffset d)(ep := 0), inSeqnum := (inSeqnum d)(ep := seqnum)\<rparr>"

definition setup_received :: "usb \<Rightarrow> usb" where
  "setup_received d = updateInterrupt (d\<lparr>rxEvent := rxEvent d OR 1, endpointSetupRecv := endpointSetupRecv d OR 1\<rparr>)"

definition usbipGetDescriptor :: "usb_env \<Rightarrow> nat \<Rightarrow> u32 \<Rightarrow> u8 \<Rightarrow> u8 \<Rightarrow> u16 \<Rightarrow> u16 \<Rightarrow> usb \<Rightarrow> bool \<times> usb" where
  "usbipGetDescriptor E client seqnum descType descIndex setupIndex setupLength d =
     (if rxEnable d 0 \<and> FIFO_empty (controlFIFO d)
      then let d = usb_pushes [0x80, 6, descIndex, descType, ucast setupIndex, ucast (drop_bit 8 setupIndex),
                               ucast setupLength, ucast (drop_bit 8 setupLength)] d;
               d = new_in E 0 (unat setupLength) seqnum (d\<lparr>usbipLastClient := client\<rparr>)
           in (True, setup_received d)
      else (False, d))"

text \<open>The data of a request must be as long as the request says, or it is read past its end.\<close>

definition usbipControlRequest :: "usb_env \<Rightarrow> nat \<Rightarrow> u32 \<Rightarrow> u8 \<Rightarrow> u8 \<Rightarrow> u16 \<Rightarrow> u16 \<Rightarrow> u16 \<Rightarrow> u8 list option \<Rightarrow> usb \<Rightarrow> (bool \<times> usb) option" where
  "usbipControlRequest E client seqnum requestType request value index len data d =
     (if case data of None \<Rightarrow> False | Some bs \<Rightarrow> length bs < unat len then None
      else let d = (case data of None \<Rightarrow> d
               | Some bs \<Rightarrow> d\<lparr>outData := (outData d)(0 := Some (take (unat len) bs)), outDataLen := (outDataLen d)(0 := unat len),
                              outDataOffset := (outDataOffset d)(0 := 0)\<rparr>);
          is_in = tst requestType 0x80 \<or> len = 0
      in if \<not> rxEnable d 0 \<and> \<not> FIFO_empty (controlFIFO d) then Some (False, d)
         else let d = usb_pushes (setup_bytes requestType request value index len) d;
                  d = d\<lparr>usbipLastClient := client\<rparr>;
                  d = (if is_in
                       then let b = inData d 0; d = new_in E 0 (unat len) seqnum d
                            in if len = 0 then d\<lparr>inData := (inData d)(0 := b)\<rparr> else d
                       else d\<lparr>outSeqnum := (outSeqnum d)(0 := seqnum)\<rparr>)
              in Some (True, setup_received d))"

text \<open>The first enabled endpoint with the address, among the control registers given.\<close>

definition find_endpoint :: "nat list \<Rightarrow> int \<Rightarrow> usb \<Rightarrow> nat option" where
  "find_endpoint is ep d = find (\<lambda>i. tst (endpointControl d i) 0x10 \<and> int (unat (endpointControl d i AND 0xF)) = ep) is"

definition usbipIn :: "usb_env \<Rightarrow> nat \<Rightarrow> u32 \<Rightarrow> int \<Rightarrow> nat \<Rightarrow> usb \<Rightarrow> (bool \<times> usb) option" where
  "usbipIn E client seqnum ep len d =
     (case find_endpoint [1, 3, 5] ep d of None \<Rightarrow> Some (False, d)
      | Some i \<Rightarrow>
        let fifoIndex = i div 2; ep = nat ep; d = (new_in E ep len seqnum d)\<lparr>usbipLastClient := client\<rparr>
        in if txEnable d (fifoIndex + 1)
           then do { d \<leftarrow> send_in fifoIndex ep (tst (txCommand d (fifoIndex + 1)) 2) d;
                     Some (True, updateInterrupt (d\<lparr>txEvent := txEvent d OR bitv (fifoIndex + 1)\<rparr>)) }
           else Some (True, d))"

definition usbipOut :: "nat \<Rightarrow> u32 \<Rightarrow> int \<Rightarrow> u8 list \<Rightarrow> usb \<Rightarrow> bool \<times> usb" where
  "usbipOut client seqnum ep data d =
     (case find_endpoint [2, 4, 6] ep d of None \<Rightarrow> (False, d)
      | Some i \<Rightarrow>
        let fifoIndex = (i - 1) div 2
        in if length data \<le> 64 \<and> rxEnable d (fifoIndex + 1)
           then let d = d\<lparr>rxFifo := (rxFifo d)(fifoIndex := fold (FIFO_push 64) data (rxFifo d fifoIndex))\<rparr>;
                    d = updateInterrupt (d\<lparr>rxEvent := rxEvent d OR bitv (fifoIndex + 1)\<rparr>)
                in (True, usb_event (Ev_reply (usbipLastClient d) seqnum [] (length data)) d)
           else (False, d))"

definition usbipUnlink :: "u32 \<Rightarrow> usb \<Rightarrow> bool \<times> usb" where
  "usbipUnlink seqnum d =
     (case find (\<lambda>i. inSeqnum d i = seqnum) [0..<16] of
        Some i \<Rightarrow> (True, d\<lparr>inSeqnum := (inSeqnum d)(i := 0)\<rparr>)
      | None \<Rightarrow> case find (\<lambda>i. outSeqnum d i = seqnum) [0..<16] of
        Some i \<Rightarrow> (True, d\<lparr>outSeqnum := (outSeqnum d)(i := 0)\<rparr>)
      | None \<Rightarrow> (True, d))"


section \<open>What holds in every reachable state\<close>

text \<open>The offsets are inside their arrays, also when a full FIFO has been written to.\<close>

definition fifo_in :: "nat \<Rightarrow> fifo \<Rightarrow> bool" where
  "fifo_in n f \<longleftrightarrow> readOff f < n \<and> writeOff f < n"

lemma fifo_in_ops:
  "0 < n \<Longrightarrow> fifo_in n (FIFO_reset f)" "fifo_in n f \<Longrightarrow> fifo_in n (FIFO_push n v f)" "fifo_in n f \<Longrightarrow> fifo_in n (snd (FIFO_pop n f))"
  by (auto simp: fifo_in_def FIFO_reset_def FIFO_push_def FIFO_pop_def Let_def)

lemma fifo_in_pushes: "fifo_in n f \<Longrightarrow> fifo_in n (fold (FIFO_push n) vs f)"
  by (induction vs arbitrary: f) (simp_all add: fifo_in_ops)

lemma fifo_in_drain: "fifo_in n f \<Longrightarrow> fifo_in n (snd (FIFO_drain n k f)) \<and> length (fst (FIFO_drain n k f)) \<le> k"
proof (induction k arbitrary: f)
  case (Suc k)
  then show ?case using Suc.IH [OF fifo_in_ops(3) [OF Suc.prems]] by (simp add: split_beta Let_def)
qed simp

definition usb_in_range :: "usb \<Rightarrow> bool" where
  "usb_in_range d \<longleftrightarrow> fifo_in 8 (controlFIFO d) \<and> (\<forall>i. fifo_in 64 (txFifo d i)) \<and> (\<forall>i. fifo_in 64 (rxFifo d i)) \<and>
     length (deviceDesc d) = 18 \<and> (enumerationState d = ReadDeviceDesc \<longrightarrow> deviceDescOffset d \<le> 18) \<and>
     (enumerationState d = ReadConfigDesc \<longrightarrow>
        (\<exists>b. configDesc d = Some b \<and> length b = configDescLen d \<and> configDescOffset d \<le> length b))"

abbreviation same_usb :: "usb \<Rightarrow> usb \<Rightarrow> bool" where
  "same_usb d d' \<equiv> controlFIFO d' = controlFIFO d \<and> txFifo d' = txFifo d \<and> rxFifo d' = rxFifo d \<and> deviceDesc d' = deviceDesc d \<and>
     enumerationState d' = enumerationState d \<and> deviceDescOffset d' = deviceDescOffset d \<and> configDesc d' = configDesc d \<and>
     configDescLen d' = configDescLen d \<and> configDescOffset d' = configDescOffset d"

lemma usb_in_range_same: "usb_in_range d \<Longrightarrow> same_usb d d' \<Longrightarrow> usb_in_range d'"
  by (simp add: usb_in_range_def)

lemma updateInterrupt_fields [simp]:
  "controlFIFO (updateInterrupt d) = controlFIFO d" "txFifo (updateInterrupt d) = txFifo d" "rxFifo (updateInterrupt d) = rxFifo d"
  "deviceDesc (updateInterrupt d) = deviceDesc d" "enumerationState (updateInterrupt d) = enumerationState d"
  "deviceDescOffset (updateInterrupt d) = deviceDescOffset d" "configDesc (updateInterrupt d) = configDesc d"
  "configDescLen (updateInterrupt d) = configDescLen d" "configDescOffset (updateInterrupt d) = configDescOffset d"
  "txEvent (updateInterrupt d) = txEvent d" "rxEvent (updateInterrupt d) = rxEvent d" "nakEvent (updateInterrupt d) = nakEvent d"
  "txEnable (updateInterrupt d) = txEnable d" "rxEnable (updateInterrupt d) = rxEnable d" "usbipServer (updateInterrupt d) = usbipServer d"
  "inSeqnum (updateInterrupt d) = inSeqnum d" "inData (updateInterrupt d) = inData d" "inDataLen (updateInterrupt d) = inDataLen d"
  "inDataOffset (updateInterrupt d) = inDataOffset d" "usbipLastClient (updateInterrupt d) = usbipLastClient d"
  "endpointControl (updateInterrupt d) = endpointControl d" "endpointSetupRecv (updateInterrupt d) = endpointSetupRecv d"
  "txCommand (updateInterrupt d) = txCommand d" "usb_regAddr (updateInterrupt d) = usb_regAddr d"
  by (simp_all add: updateInterrupt_def usb_event_def)

lemma usb_event_fields [simp]:
  "controlFIFO (usb_event e d) = controlFIFO d" "txFifo (usb_event e d) = txFifo d" "rxFifo (usb_event e d) = rxFifo d"
  "deviceDesc (usb_event e d) = deviceDesc d" "enumerationState (usb_event e d) = enumerationState d"
  "deviceDescOffset (usb_event e d) = deviceDescOffset d" "configDesc (usb_event e d) = configDesc d"
  "configDescLen (usb_event e d) = configDescLen d" "configDescOffset (usb_event e d) = configDescOffset d"
  "inSeqnum (usb_event e d) = inSeqnum d" "usb_log (usb_event e d) = usb_log d @ [e]" "usbipServer (usb_event e d) = usbipServer d"
  by (simp_all add: usb_event_def)

lemma setupPacket_fields [simp]:
  "txFifo (setupPacket a b c e f d) = txFifo d" "rxFifo (setupPacket a b c e f d) = rxFifo d"
  "deviceDesc (setupPacket a b c e f d) = deviceDesc d" "enumerationState (setupPacket a b c e f d) = enumerationState d"
  "configDescLen (setupPacket a b c e f d) = configDescLen d"
  "controlFIFO (setupPacket a b c e f d) = fold (FIFO_push 8) (setup_bytes a b c e f) (controlFIFO d)"
  by (simp_all add: setupPacket_def usb_pushes_def Let_def)

lemma pop_into_range:
  assumes "fifo_in 8 (controlFIFO d)" "off \<le> length buf"
  shows "holds (\<lambda>(b, off', d'). length b = length buf \<and> off' \<le> length b \<and> off' \<le> off + n \<and>
    (\<exists>f. fifo_in 8 f \<and> d' = d\<lparr>controlFIFO := f\<rparr>)) (pop_into buf off n d)"
proof -
  obtain vs f where v: "FIFO_drain 8 n (controlFIFO d) = (vs, f)" by fastforce
  then have "fifo_in 8 f" "length vs \<le> n" using fifo_in_drain [OF assms(1), of n] by simp_all
  then show ?thesis using assms(2) v by (auto simp: pop_into_def)
qed

lemma pop_into_free:
  assumes "fifo_in 8 (controlFIFO d)"
  shows "holds (\<lambda>(b, off', d'). \<exists>f. fifo_in 8 f \<and> d' = d\<lparr>controlFIFO := f\<rparr>) (pop_into buf off n d)"
proof -
  obtain vs f where v: "FIFO_drain 8 n (controlFIFO d) = (vs, f)" by fastforce
  then have "fifo_in 8 f" using fifo_in_drain [OF assms(1), of n] by simp
  then show ?thesis using v by (auto simp: pop_into_def)
qed

lemma updateEnumeration_range:
  assumes "usb_in_range d" shows "holds usb_in_range (updateEnumeration E d)"
proof -
  have r: "fifo_in 8 (controlFIFO d)" "\<forall>i. fifo_in 64 (txFifo d i)" "\<forall>i. fifo_in 64 (rxFifo d i)" "length (deviceDesc d) = 18"
    using assms by (simp_all add: usb_in_range_def)
  note p = fifo_in_pushes [OF r(1)]
  show ?thesis
  proof (cases "enumerationState d")
    case ReadDeviceDesc
    with assms have o: "deviceDescOffset d \<le> length (deviceDesc d)" by (simp add: usb_in_range_def)
    have "holds usb_in_range (do { (b, off, d) \<leftarrow> pop_into (deviceDesc d) (deviceDescOffset d) (18 - deviceDescOffset d) d;
                    let d = d\<lparr>deviceDesc := b, deviceDescOffset := off\<rparr>
                    in Some (if off = 18 then d\<lparr>enumerationState := SetAddress\<rparr> else d) })"
      by (rule holds_bind [OF pop_into_range [OF r(1) o]]) (use r ReadDeviceDesc in \<open>auto simp: usb_in_range_def Let_def\<close>)
    then show ?thesis using ReadDeviceDesc assms by (simp add: updateEnumeration_def)
  next
    case RequestFullConfigDesc
    have 1: "holds usb_in_range (do { (buf, off, d) \<leftarrow> pop_into (replicate 8 (env_stale E)) (configDescOffset d) (FIFO_getFilled 8 (controlFIFO d)) d;
                    Some (d\<lparr>configDescOffset := off, configDescLen := unat (buf ! 2) + 256 * unat (buf ! 3)\<rparr>) })"
      by (rule holds_bind [OF pop_into_free [OF r(1)]]) (use r RequestFullConfigDesc in \<open>auto simp: usb_in_range_def Let_def\<close>)
    have 2: "usb_in_range (d\<lparr>controlFIFO := snd (FIFO_drain 8 n (controlFIFO d)), configDescOffset := k\<rparr>)" for n k
      using r RequestFullConfigDesc fifo_in_drain [OF r(1), of n] by (simp add: usb_in_range_def)
    have 3: "usb_in_range ((setupPacket a b c e l d)\<lparr>enumerationState := ReadConfigDesc, configDesc := Some (replicate (configDescLen d) s),
        configDescOffset := 0\<rparr>)" for a b c e l s
      using r p by (simp add: usb_in_range_def)
    show ?thesis using assms RequestFullConfigDesc 1 2 3 by (simp add: updateEnumeration_def Let_def split_beta)
  next
    case ReadConfigDesc
    with assms obtain b where b: "configDesc d = Some b" "length b = configDescLen d" "configDescOffset d \<le> length b"
      by (auto simp: usb_in_range_def)
    have "holds usb_in_range (do { (cfg, off, d) \<leftarrow> pop_into b (configDescOffset d) (FIFO_getFilled 8 (controlFIFO d)) d;
                    let d = d\<lparr>configDesc := Some cfg, configDescOffset := off\<rparr>
                    in if off = configDescLen d
                       then do { hd \<leftarrow> desc_bytes cfg 0 9;
                                 _ \<leftarrow> usb_descriptors cfg (9 + off) 9 (unat (hd ! 4)) 0;
                                 let d = usb_event (Ev_addDevice (deviceDesc d) cfg) (usb_event Ev_removeDevice d)
                                 in Some (d\<lparr>enumerationState := EnumDone\<rparr>) }
                       else Some d })"
      by (rule holds_bind [OF pop_into_range [OF r(1) b(3)]])
        (use r b ReadConfigDesc in \<open>auto simp: usb_in_range_def Let_def split: Option.bind_splits\<close>)
    then show ?thesis using ReadConfigDesc b assms by (simp add: updateEnumeration_def)
  qed (use assms r p in \<open>simp_all add: updateEnumeration_def usb_in_range_def\<close>)
qed


lemma startEnumeration_range:
  "usb_in_range d \<Longrightarrow> holds usb_in_range (startEnumeration E d)"
  by (auto simp: startEnumeration_def usb_in_range_def intro!: updateEnumeration_range)

lemma reset_range:
  assumes "usb_in_range d" shows "holds usb_in_range (USBDevice_reset E d)"
proof -
  define d1 where "d1 = d\<lparr>mainMask := 0, altMask := 0, txMask := 0, rxMask := 0, nakMask := 0, altEvent := 0, txEvent := 0,
                rxEvent := 0, nakEvent := 0,
                txEnable := (\<lambda>i. if i < 4 then False else txEnable d i), rxEnable := (\<lambda>i. if i < 4 then False else rxEnable d i),
                controlFIFO := FIFO_reset (controlFIFO d)\<rparr>"
  define d2 where "d2 = d1\<lparr>enumerationState := NotStarted, configDesc := None, configDescLen := 0, configDescOffset := 0\<rparr>"
  have d2: "usb_in_range d2" using assms by (simp add: d2_def d1_def usb_in_range_def fifo_in_ops)
  have e: "enumerationState d1 = enumerationState d" by (simp add: d1_def)
  have "holds usb_in_range (do { d \<leftarrow> startEnumeration E d2;
                   let d = (if usbipServer d then (usb_event Ev_destroyServer d)\<lparr>usbipServer := False\<rparr> else d);
                       d = (usb_event Ev_createServer d)\<lparr>usbipServer := env_created E\<rparr>
                   in Some (d\<lparr>inSeqnum := (\<lambda>_. 0), outSeqnum := (\<lambda>_. 0), inData := (\<lambda>_. None), inDataLen := (\<lambda>_. 0),
                             inDataOffset := (\<lambda>_. 0), outData := (\<lambda>_. None), outDataLen := (\<lambda>_. 0), outDataOffset := (\<lambda>_. 0)\<rparr>) })"
    by (rule holds_bind [OF startEnumeration_range [OF d2]]) (simp add: usb_in_range_def Let_def)
  then show ?thesis using d2 unfolding USBDevice_reset_def d1_def [symmetric]
    by (simp only: Let_def d2_def [symmetric] e holds_if holds_Some split: if_split)
qed

lemma read_range: "usb_in_range d \<Longrightarrow> holds (\<lambda>(v, d'). usb_in_range d') (USBDevice_read addr d)"
  unfolding USBDevice_read_def Let_def read_endpoint_def read_txStatus_def read_rxStatus_def read_rxData_def
  by (auto simp: usb_in_range_def holds_def fifo_in_ops split_beta split: option.splits if_splits)


lemma store_in_same: "holds (\<lambda>d'. same_usb d d') (store_in ep vs d)"
  by (simp add: store_in_def holds_def Let_def split: option.splits)

lemma reply_in_same: "holds (\<lambda>d'. same_usb d d') (reply_in ep n d)"
  by (simp add: reply_in_def holds_def Let_def)

lemma store_in_range: "usb_in_range d \<Longrightarrow> holds usb_in_range (store_in ep vs d)"
  by (rule holds_mono [OF store_in_same]) (rule usb_in_range_same)

lemma reply_in_range: "usb_in_range d \<Longrightarrow> holds usb_in_range (reply_in ep n d)"
  by (rule holds_mono [OF reply_in_same]) (rule usb_in_range_same)

lemma drain_tx_range: "usb_in_range d \<Longrightarrow> holds usb_in_range (drain_tx i ep d)"
  using fifo_in_drain [of 64 "txFifo d i"]
  by (auto simp: drain_tx_def Let_def split_beta usb_in_range_def intro!: store_in_range)

lemma send_in_range: "usb_in_range d \<Longrightarrow> holds usb_in_range (send_in i ep final d)"
  unfolding send_in_def by (rule holds_bind [OF drain_tx_range]) (simp_all add: reply_in_range)

lemma interrupt_range: "usb_in_range d \<Longrightarrow> usb_in_range (updateInterrupt d)"
  by (rule usb_in_range_same) simp_all

lemma write_TXC0_range:
  assumes "usb_in_range d" shows "holds usb_in_range (write_TXC0 E val d)"
proof -
  define d1 where "d1 = d\<lparr>txEnable := (txEnable d)(0 := tst val 1), txCommand := (txCommand d)(0 := val AND NOT 8)\<rparr>"
  define d2 where "d2 = (if tst val 8 then d1\<lparr>controlFIFO := FIFO_reset (controlFIFO d1)\<rparr> else d1)"
  define d3 where "d3 = updateInterrupt (d2\<lparr>nakEvent := nakEvent d2 OR 0x10\<rparr>)"
  define v where "v = FIFO_drain 8 (FIFO_getFilled 8 (controlFIFO d2)) (controlFIFO d2)"
  have r2: "usb_in_range d2" using assms by (simp add: d2_def d1_def usb_in_range_def fifo_in_ops)
  then have r3: "usb_in_range d3" unfolding d3_def by (intro interrupt_range) (simp add: usb_in_range_def)
  have "usb_in_range (d2\<lparr>controlFIFO := snd v\<rparr>)"
    using r2 fifo_in_drain [of 8 "controlFIFO d2"] by (simp add: usb_in_range_def v_def)
  then have s: "holds usb_in_range (do { d \<leftarrow> store_in 0 (fst v) (d2\<lparr>controlFIFO := snd v\<rparr>);
        if inDataOffset d 0 = inDataLen d 0 then reply_in 0 (inDataLen d 0) d else Some d })"
    by (rule holds_bind [OF store_in_range]) (simp add: reply_in_range)
  have stall: "usb_in_range ((usb_event e d3)\<lparr>inSeqnum := f\<rparr>)" for e f by (rule usb_in_range_same [OF r3]) simp
  have tx: "usb_in_range d' \<Longrightarrow> holds usb_in_range (Some (if FIFO_empty (controlFIFO d') then updateInterrupt (d'\<lparr>txEvent := txEvent d' OR 1\<rparr>) else d'))" for d'
    by (simp add: usb_in_range_def)
  show ?thesis
    unfolding write_TXC0_def d1_def [symmetric] Let_def d2_def [symmetric] d3_def [symmetric] v_def [symmetric] case_prod_unfold
    by (intro holds_if holds_bind [OF _ tx] holds_intros)
      (use r2 r3 s stall reply_in_range [OF r3] updateEnumeration_range [OF r2] in simp_all)
qed

lemma write_range: "usb_in_range d \<Longrightarrow> holds usb_in_range (USBDevice_write E addr val d)"
proof -
  assume d: "usb_in_range d"
  have rxc0: "holds usb_in_range (write_RXC0 E val d)"
    using d by (auto simp: write_RXC0_def Let_def usb_in_range_def fifo_in_ops intro!: updateEnumeration_range)
  have txc: "holds usb_in_range (write_TXC index val d)" for index
  proof -
    define d1 where "d1 = d\<lparr>txEnable := (txEnable d)(index := tst val 1), txCommand := (txCommand d)(index := val AND NOT (8 OR 16))\<rparr>"
    define d2 where "d2 = (if tst val 8 then d1\<lparr>txFifo := (txFifo d1)(index - 1 := FIFO_reset (txFifo d1 (index - 1)))\<rparr> else d1)"
    have r2: "usb_in_range d2" using d by (simp add: d2_def d1_def usb_in_range_def fifo_in_ops)
    have tx: "usb_in_range d' \<Longrightarrow> holds usb_in_range (Some (if FIFO_empty (txFifo d' (index - 1)) then updateInterrupt (d'\<lparr>txEvent := txEvent d' OR bitv index\<rparr>) else d'))" for d'
      by (simp add: usb_in_range_def)
    show ?thesis
      unfolding write_TXC_def d1_def [symmetric] Let_def d2_def [symmetric]
      by (intro holds_if holds_bind [OF _ tx]) (use r2 send_in_range [OF r2] in simp_all)
  qed
  have "holds usb_in_range (write_endpoint r val d)" for r
    unfolding write_endpoint_def using d txc
    by (auto split: option.splits simp: usb_in_range_def fifo_in_ops write_RXC_def Let_def)
  then show ?thesis
    unfolding USBDevice_write_def Let_def using d rxc0 write_TXC0_range [OF d] reset_range [OF d]
    by (intro holds_if) (simp_all add: usb_in_range_def fifo_in_ops)
qed

lemma setup_range:
  "usb_in_range d \<Longrightarrow> usb_in_range (setup_received (d\<lparr>controlFIFO := fold (FIFO_push 8) vs (controlFIFO d), usbipLastClient := c\<rparr>))"
  by (simp add: setup_received_def usb_in_range_def fifo_in_pushes)

lemma requests_range:
  assumes "usb_in_range d"
  shows "usb_in_range (snd (usbipGetDescriptor E client seqnum descType descIndex setupIndex setupLength d)) \<and>
    holds (\<lambda>(b, d'). usb_in_range d') (usbipControlRequest E client seqnum requestType request value index len data d) \<and>
    holds (\<lambda>(b, d'). usb_in_range d') (usbipIn E client seqnum ep n d) \<and>
    usb_in_range (snd (usbipOut client seqnum ep bytes d)) \<and> usb_in_range (snd (usbipUnlink seqnum d))"
proof (intro conjI)
  show "usb_in_range (snd (usbipGetDescriptor E client seqnum descType descIndex setupIndex setupLength d))"
    using assms by (simp add: usbipGetDescriptor_def Let_def setup_received_def new_in_def usb_pushes_def usb_in_range_def fifo_in_ops)
  show "holds (\<lambda>(b, d'). usb_in_range d') (usbipControlRequest E client seqnum requestType request value index len data d)"
    using assms by (auto simp: usbipControlRequest_def Let_def setup_received_def new_in_def usb_pushes_def usb_in_range_def fifo_in_pushes
      split: option.split)
  show "holds (\<lambda>(b, d'). usb_in_range d') (usbipIn E client seqnum ep n d)"
  proof (cases "find_endpoint [1, 3, 5] ep d")
    case None
    then show ?thesis using assms by (simp add: usbipIn_def)
  next
    case (Some i)
    define d1 where "d1 = (new_in E (nat ep) n seqnum d)\<lparr>usbipLastClient := client\<rparr>"
    have r1: "usb_in_range d1" by (rule usb_in_range_same [OF assms]) (simp add: d1_def new_in_def)
    have "holds (\<lambda>(b, d'). usb_in_range d') (do { d \<leftarrow> send_in (i div 2) (nat ep) (tst (txCommand d1 (i div 2 + 1)) 2) d1;
                     Some (True, updateInterrupt (d\<lparr>txEvent := txEvent d OR bitv (i div 2 + 1)\<rparr>)) })"
      by (rule holds_bind [OF send_in_range [OF r1]]) (simp add: usb_in_range_def)
    then show ?thesis using Some r1 unfolding usbipIn_def by (simp add: Let_def d1_def [symmetric])
  qed
  show "usb_in_range (snd (usbipOut client seqnum ep bytes d))"
    using assms by (auto simp: usbipOut_def Let_def usb_in_range_def fifo_in_pushes split: option.split)
  show "usb_in_range (snd (usbipUnlink seqnum d))"
    using assms by (auto simp: usbipUnlink_def usb_in_range_def split: option.split)
qed

section \<open>What leaves an array\<close>

text \<open>The data kept for the host: what has been stored fits its array, which has the length asked for.\<close>

definition data_room :: "usb \<Rightarrow> nat \<Rightarrow> nat" where
  "data_room d ep = (case inData d ep of None \<Rightarrow> 0 | Some b \<Rightarrow> length b)"

definition data_ok :: "usb \<Rightarrow> bool" where
  "data_ok d \<longleftrightarrow> (\<forall>ep. inDataOffset d ep \<le> data_room d ep \<and> (inDataLen d ep \<noteq> 0 \<longrightarrow> data_room d ep = inDataLen d ep))"

abbreviation server_ok :: "usb \<Rightarrow> bool" where
  "server_ok d \<equiv> usbipServer d \<longrightarrow> data_ok d"

abbreviation same_data :: "usb \<Rightarrow> usb \<Rightarrow> bool" where
  "same_data d d' \<equiv> inData d' = inData d \<and> inDataLen d' = inDataLen d \<and> inDataOffset d' = inDataOffset d \<and> usbipServer d' = usbipServer d"

lemma data_ok_same: "same_data d d' \<Longrightarrow> data_ok d \<Longrightarrow> data_ok d'"
  by (simp add: data_ok_def data_room_def)

lemma data_ok_simps [simp]:
  "data_ok (updateInterrupt d) = data_ok d" "data_ok (usb_event e d) = data_ok d"
  "data_ok (setup_received d) = data_ok d"
  "data_ok (d\<lparr>inSeqnum := f\<rparr>) = data_ok d" "data_ok (d\<lparr>txEvent := u\<rparr>) = data_ok d" "data_ok (d\<lparr>rxEvent := u\<rparr>) = data_ok d"
  "data_ok (d\<lparr>controlFIFO := g\<rparr>) = data_ok d" "data_ok (d\<lparr>txFifo := h\<rparr>) = data_ok d" "data_ok (d\<lparr>rxFifo := h\<rparr>) = data_ok d"
  "data_ok (d\<lparr>usbipLastClient := c\<rparr>) = data_ok d" "data_ok (d\<lparr>outSeqnum := f\<rparr>) = data_ok d"
  by (simp_all add: data_ok_def data_room_def updateInterrupt_def usb_event_def setup_received_def Let_def)

lemma data_ok_new: "data_ok d \<Longrightarrow> data_ok (new_in E ep n s d)"
  by (simp add: data_ok_def data_room_def new_in_def)

lemma store_in_ok: "data_ok d \<Longrightarrow> holds (\<lambda>d'. data_ok d' \<and> usbipServer d' = usbipServer d) (store_in ep vs d)"
proof -
  assume d: "data_ok d"
  have "data_ok d' \<and> usbipServer d' = usbipServer d" if s: "store_in ep vs d = Some d'" for d'
  proof (cases "vs = []")
    case False
    then obtain b where b: "inData d ep = Some b" "inDataOffset d ep + length vs \<le> length b"
      and d': "d' = d\<lparr>inData := (inData d)(ep := Some (take (inDataOffset d ep) b @ vs @ drop (inDataOffset d ep + length vs) b)),
          inDataOffset := (inDataOffset d)(ep := inDataOffset d ep + length vs)\<rparr>"
      using s by (auto simp: store_in_def Let_def split: option.splits if_splits)
    have "data_room d' k = data_room d k" for k using b by (simp add: d' data_room_def)
    moreover have "inDataOffset d' k = (if k = ep then inDataOffset d ep + length vs else inDataOffset d k)"
      "inDataLen d' k = inDataLen d k" for k by (simp_all add: d')
    moreover have "data_room d ep = length b" using b by (simp add: data_room_def)
    ultimately show ?thesis using d b(2) by (simp add: data_ok_def d')
  qed (use s d in \<open>simp add: store_in_def\<close>)
  then show ?thesis by (simp add: holds_def)
qed

lemma store_in_None: "data_ok d \<Longrightarrow> store_in ep vs d = None \<longleftrightarrow> data_room d ep < inDataOffset d ep + length vs"
  by (auto simp: store_in_def Let_def data_ok_def data_room_def not_less not_le split: option.splits dest: spec [of _ ep])

lemma reply_in_some: "n \<le> data_room d ep \<Longrightarrow> \<exists>d'. reply_in ep n d = Some d' \<and> same_data d d'"
  by (simp add: reply_in_def data_room_def Let_def usb_event_def split: option.splits)

lemma drain_length: "length (fst (FIFO_drain n k f)) \<le> k"
  by (induction k arbitrary: f) (simp_all add: split_beta Let_def)

lemma drain_tx_some:
  assumes "data_ok d" shows "\<exists>d'. drain_tx i ep d = Some d' \<and> data_ok d' \<and> usbipServer d' = usbipServer d"
proof -
  obtain vs f where v: "FIFO_drain 64 (inDataLen d ep - inDataOffset d ep) (txFifo d i) = (vs, f)" by fastforce
  have "length vs \<le> inDataLen d ep - inDataOffset d ep"
    using v drain_length [of 64 "inDataLen d ep - inDataOffset d ep" "txFifo d i"] by simp
  then have "\<not> data_room d ep < inDataOffset d ep + length vs"
    using assms [unfolded data_ok_def, rule_format, of ep] by (cases "inDataLen d ep = 0") auto
  moreover have "data_room (d\<lparr>txFifo := g\<rparr>) ep = data_room d ep" for g by (simp add: data_room_def)
  ultimately have "store_in ep vs (d\<lparr>txFifo := (txFifo d)(i := f)\<rparr>) \<noteq> None"
    using store_in_None [of "d\<lparr>txFifo := (txFifo d)(i := f)\<rparr>" ep vs] assms by simp
  then show ?thesis
    using store_in_ok [of "d\<lparr>txFifo := (txFifo d)(i := f)\<rparr>" ep vs] assms v by (auto simp: drain_tx_def holds_def)
qed

lemma send_in_some:
  assumes "data_ok d" shows "\<exists>d'. send_in i ep final d = Some d' \<and> data_ok d' \<and> usbipServer d' = usbipServer d"
proof -
  obtain d1 where d1: "drain_tx i ep d = Some d1" "data_ok d1" "usbipServer d1 = usbipServer d"
    using drain_tx_some [OF assms] by blast
  moreover obtain d2 where d2: "reply_in ep (inDataOffset d1 ep) d1 = Some d2" "same_data d1 d2"
    using reply_in_some [of "inDataOffset d1 ep" d1 ep] d1(2) unfolding data_ok_def by blast
  moreover have "data_ok d2" using data_ok_same [OF d2(2) d1(2)] .
  ultimately show ?thesis unfolding send_in_def by (cases "inDataOffset d1 ep = inDataLen d1 ep \<or> final") simp_all
qed

lemma reply_len_some:
  "data_ok d \<Longrightarrow> \<exists>d'. reply_in ep (inDataLen d ep) d = Some d' \<and> same_data d d'"
  by (rule reply_in_some) (auto simp: data_ok_def dest: spec [of _ ep])

text \<open>The bytes in the control FIFO, and whether they are more than the request they answer asked for.\<close>

definition control_bytes :: "usb \<Rightarrow> u8 list" where
  "control_bytes d = fst (FIFO_drain 8 (FIFO_getFilled 8 (controlFIFO d)) (controlFIFO d))"

definition descriptors_bad :: "u8 list \<Rightarrow> bool" where
  "descriptors_bad cfg \<longleftrightarrow> length cfg < 9 \<or> usb_descriptors cfg (9 + length cfg) 9 (unat (cfg ! 4)) 0 = None"

definition excess :: "usb \<Rightarrow> bool" where
  "excess d \<longleftrightarrow>
     (case enumerationState d of
        RequestFullConfigDesc \<Rightarrow> configDescOffset d < 8 \<and> 8 < configDescOffset d + length (control_bytes d)
      | ReadConfigDesc \<Rightarrow>
          configDescLen d < configDescOffset d + length (control_bytes d) \<or>
          configDescOffset d + length (control_bytes d) = configDescLen d \<and>
            descriptors_bad (take (configDescOffset d) (the (configDesc d)) @ control_bytes d)
      | EnumDone \<Rightarrow> data_room d 0 < inDataOffset d 0 + length (control_bytes d)
      | _ \<Rightarrow> False)"


lemma excess_cong:
  "enumerationState d = enumerationState e \<Longrightarrow> configDescOffset d = configDescOffset e \<Longrightarrow> configDescLen d = configDescLen e \<Longrightarrow>
   configDesc d = configDesc e \<Longrightarrow> controlFIFO d = controlFIFO e \<Longrightarrow> inData d = inData e \<Longrightarrow> inDataOffset d = inDataOffset e \<Longrightarrow>
   excess d = excess e"
proof -
  assume "enumerationState d = enumerationState e" "configDescOffset d = configDescOffset e" "configDescLen d = configDescLen e"
   "configDesc d = configDesc e" "controlFIFO d = controlFIFO e" "inData d = inData e" "inDataOffset d = inDataOffset e"
  moreover from this have "control_bytes d = control_bytes e" "data_room d 0 = data_room e 0"
    by (simp_all add: control_bytes_def data_room_def)
  ultimately show ?thesis by (simp only: excess_def)
qed

lemma pop_into_None: "pop_into buf off n d = None \<longleftrightarrow>
    fst (FIFO_drain 8 n (controlFIFO d)) \<noteq> [] \<and> length buf < off + length (fst (FIFO_drain 8 n (controlFIFO d)))"
  by (auto simp: pop_into_def split_beta Let_def not_le)

lemma pop_into_bytes:
  assumes "pop_into buf off (FIFO_getFilled 8 (controlFIFO d)) d = Some (b, off', d')"
  shows "off' = off + length (control_bytes d)" "off' = length buf \<Longrightarrow> b = take off buf @ control_bytes d"
    "enumerationState d' = enumerationState d" "configDescLen d' = configDescLen d"
  using assms by (auto simp: pop_into_def split_beta Let_def control_bytes_def split: if_splits)

lemma pop_into_length: "pop_into buf off n d = Some (b, off', d') \<Longrightarrow> off \<le> length buf \<Longrightarrow> length b = length buf"
  by (auto simp: pop_into_def split_beta Let_def split: if_splits)

lemma updateEnumeration_None:
  assumes "usb_in_range d" "updateEnumeration E d = None" shows "excess d \<and> enumerationState d \<noteq> EnumDone"
proof (cases "enumerationState d")
  case ReadDeviceDesc
  then have o: "deviceDescOffset d \<le> 18" "length (deviceDesc d) = 18" using assms(1) by (simp_all add: usb_in_range_def)
  have "pop_into (deviceDesc d) (deviceDescOffset d) (18 - deviceDescOffset d) d \<noteq> None"
    using drain_length [of 8 "18 - deviceDescOffset d" "controlFIFO d"] o unfolding pop_into_None by linarith
  then show ?thesis using assms(2) ReadDeviceDesc by (auto simp: updateEnumeration_def Let_def split: if_splits)
next
  case RequestFullConfigDesc
  then have "configDescOffset d < 8 \<and> pop_into (replicate 8 (env_stale E)) (configDescOffset d) (FIFO_getFilled 8 (controlFIFO d)) d = None"
    using assms(2) by (auto simp: updateEnumeration_def Let_def split_beta split: if_splits Option.bind_splits)
  then show ?thesis using RequestFullConfigDesc by (simp add: pop_into_None excess_def control_bytes_def)
next
  case ReadConfigDesc
  then obtain b where b: "configDesc d = Some b" "length b = configDescLen d" "configDescOffset d \<le> length b"
    using assms(1) by (auto simp: usb_in_range_def)
  show ?thesis
  proof (cases "pop_into b (configDescOffset d) (FIFO_getFilled 8 (controlFIFO d)) d")
    case None
    then show ?thesis using ReadConfigDesc b by (simp add: pop_into_None excess_def control_bytes_def)
  next
    case (Some r)
    then obtain cfg off d' where r: "pop_into b (configDescOffset d) (FIFO_getFilled 8 (controlFIFO d)) d = Some (cfg, off, d')"
      by (cases r) auto
    note p = pop_into_bytes [OF r]
    have l: "length cfg = length b" by (rule pop_into_length [OF r b(3)])
    have "off = configDescLen d \<and> descriptors_bad cfg"
      using assms(2) ReadConfigDesc b r p(4) l
      by (auto simp: updateEnumeration_def Let_def descriptors_bad_def desc_bytes_def split: if_splits Option.bind_splits)
    then show ?thesis using p(1,2) b ReadConfigDesc by (simp add: excess_def)
  qed
qed (use assms(2) in \<open>simp_all add: updateEnumeration_def\<close>)


lemma pop_into_same: "holds (\<lambda>(b, off', d'). same_data d d') (pop_into buf off n d)"
  by (simp add: pop_into_def holds_def split_beta Let_def)

lemma setupPacket_same [simp]: "same_data d (setupPacket a b c e f d)"
  by (simp add: setupPacket_def usb_pushes_def updateInterrupt_def usb_event_def Let_def)

lemma updateEnumeration_same: "holds (same_data d) (updateEnumeration E d)"
proof (cases "enumerationState d")
  case ReadDeviceDesc
  have "holds (same_data d) (do { (b, off, d) \<leftarrow> pop_into (deviceDesc d) (deviceDescOffset d) (18 - deviceDescOffset d) d;
                    let d = d\<lparr>deviceDesc := b, deviceDescOffset := off\<rparr>
                    in Some (if off = 18 then d\<lparr>enumerationState := SetAddress\<rparr> else d) })"
    by (rule holds_bind [OF pop_into_same]) (auto simp: Let_def)
  then show ?thesis using ReadDeviceDesc by (simp add: updateEnumeration_def)
next
  case RequestFullConfigDesc
  have "holds (same_data d) (do { (buf, off, d) \<leftarrow> pop_into (replicate 8 (env_stale E)) (configDescOffset d) (FIFO_getFilled 8 (controlFIFO d)) d;
                    Some (d\<lparr>configDescOffset := off, configDescLen := unat (buf ! 2) + 256 * unat (buf ! 3)\<rparr>) })"
    by (rule holds_bind [OF pop_into_same]) auto
  then show ?thesis using RequestFullConfigDesc by (simp add: updateEnumeration_def Let_def split_beta)
next
  case ReadConfigDesc
  have "holds (same_data d) (do { (cfg, off, d) \<leftarrow> pop_into (case configDesc d of Some b \<Rightarrow> b | None \<Rightarrow> []) (configDescOffset d)
                                       (FIFO_getFilled 8 (controlFIFO d)) d;
                    let d = d\<lparr>configDesc := Some cfg, configDescOffset := off\<rparr>
                    in if off = configDescLen d
                       then do { hd \<leftarrow> desc_bytes cfg 0 9;
                                 _ \<leftarrow> usb_descriptors cfg (9 + off) 9 (unat (hd ! 4)) 0;
                                 let d = usb_event (Ev_addDevice (deviceDesc d) cfg) (usb_event Ev_removeDevice d)
                                 in Some (d\<lparr>enumerationState := EnumDone\<rparr>) }
                       else Some d })"
    by (rule holds_bind [OF pop_into_same]) (auto simp: Let_def usb_event_def holds_def split: Option.bind_splits if_splits)
  then show ?thesis using ReadConfigDesc by (simp add: updateEnumeration_def)
qed (simp_all add: updateEnumeration_def)

lemma startEnumeration_some: "\<exists>d'. startEnumeration E d = Some d' \<and> same_data d d'"
proof -
  have "updateEnumeration E (d\<lparr>enumerationState := RequestDeviceDesc\<rparr>) \<noteq> None" by (simp add: updateEnumeration_def)
  then show ?thesis
    using updateEnumeration_same [of "d\<lparr>enumerationState := RequestDeviceDesc\<rparr>" E] by (auto simp: startEnumeration_def holds_def)
qed

lemma reset_some: "server_ok d \<Longrightarrow> \<exists>d'. USBDevice_reset E d = Some d' \<and> server_ok d'"
proof -
  assume s: "server_ok d"
  define d2 where "d2 = d\<lparr>mainMask := 0, altMask := 0, txMask := 0, rxMask := 0, nakMask := 0, altEvent := 0, txEvent := 0,
                rxEvent := 0, nakEvent := 0,
                txEnable := (\<lambda>i. if i < 4 then False else txEnable d i), rxEnable := (\<lambda>i. if i < 4 then False else rxEnable d i),
                controlFIFO := FIFO_reset (controlFIFO d), enumerationState := NotStarted, configDesc := None,
                configDescLen := 0, configDescOffset := 0\<rparr>"
  have same: "same_data d d2" by (simp add: d2_def)
  obtain d3 where "startEnumeration E d2 = Some d3" using startEnumeration_some by blast
  then show ?thesis
    using s data_ok_same [OF same] same
    by (cases "enumerationState d = NotStarted")
      (auto simp: USBDevice_reset_def d2_def [symmetric] Let_def data_ok_def data_room_def)
qed

lemma write_TXC_some: "server_ok d \<Longrightarrow> \<exists>d'. write_TXC index val d = Some d' \<and> server_ok d'"
proof -
  assume s: "server_ok d"
  define d1 where "d1 = d\<lparr>txEnable := (txEnable d)(index := tst val 1), txCommand := (txCommand d)(index := val AND NOT (8 OR 16))\<rparr>"
  define d2 where "d2 = (if tst val 8 then d1\<lparr>txFifo := (txFifo d1)(index - 1 := FIFO_reset (txFifo d1 (index - 1)))\<rparr> else d1)"
  define ep where "ep = unat (endpointControl d2 (index * 2 - 1) AND 0xF)"
  have same: "same_data d d2" by (simp add: d2_def d1_def)
  have "\<exists>d3. (if usbipServer d2 \<and> inSeqnum d2 ep \<noteq> 0 then send_in (index - 1) ep (tst val 2) d2 else Some d2) = Some d3 \<and> server_ok d3"
  proof (cases "usbipServer d2 \<and> inSeqnum d2 ep \<noteq> 0")
    case True
    then have "data_ok d2" using s data_ok_same [OF same] same by simp
    then show ?thesis using True send_in_some [of d2 "index - 1" ep "tst val 2"] by (simp del: tst_2 tst_1) blast
  qed (use s data_ok_same [OF same] same in auto)
  then obtain d3 where "(if usbipServer d2 \<and> inSeqnum d2 ep \<noteq> 0 then send_in (index - 1) ep (tst val 2) d2 else Some d2) = Some d3"
    "server_ok d3" by blast
  then show ?thesis
    using s data_ok_same [OF same] same
    unfolding write_TXC_def d1_def [symmetric] Let_def d2_def [symmetric] ep_def [symmetric] by auto
qed

lemma write_RXC0_data:
  fixes val :: u8
  assumes "usb_in_range d" "server_ok d"
  defines "e \<equiv> (if tst val 8 then d\<lparr>controlFIFO := FIFO_reset (controlFIFO d)\<rparr> else d)"
  shows "(write_RXC0 E val d = None \<longrightarrow> excess e) \<and> holds server_ok (write_RXC0 E val d)"
proof -
  define d2 where "d2 = (let d = d\<lparr>rxEnable := (rxEnable d)(0 := tst val 1), rxCommand := (rxCommand d)(0 := val AND NOT 8)\<rparr>
     in if tst val 8 then d\<lparr>controlFIFO := FIFO_reset (controlFIFO d)\<rparr> else d)"
  have w: "write_RXC0 E val d = (if rxEnable d2 0 then updateEnumeration E d2 else Some d2)"
    by (simp add: write_RXC0_def d2_def Let_def)
  have r: "usb_in_range d2" using assms(1) by (simp add: d2_def Let_def usb_in_range_def fifo_in_ops)
  have x: "excess d2 = excess e" by (rule excess_cong) (simp_all add: d2_def e_def Let_def)
  have "same_data d d2" by (simp add: d2_def Let_def)
  then have "same_data d2 d' \<Longrightarrow> server_ok d'" for d' using assms(2) data_ok_same [where d = d and d' = d'] by simp
  then have "holds server_ok (updateEnumeration E d2)" by (rule holds_mono [OF updateEnumeration_same])
  moreover have "server_ok d2" using assms(2) \<open>same_data d d2\<close> data_ok_same by auto
  ultimately show ?thesis using updateEnumeration_None [OF r] x unfolding w by auto
qed


lemma write_TXC0_data:
  fixes val :: u8
  assumes "usb_in_range d" "server_ok d"
  defines "e \<equiv> (if tst val 8 then d\<lparr>controlFIFO := FIFO_reset (controlFIFO d)\<rparr> else d)"
  shows "(write_TXC0 E val d = None \<longrightarrow> excess e) \<and> holds server_ok (write_TXC0 E val d)"
proof -
  define d1 where "d1 = d\<lparr>txEnable := (txEnable d)(0 := tst val 1), txCommand := (txCommand d)(0 := val AND NOT 8)\<rparr>"
  define d2 where "d2 = (if tst val 8 then d1\<lparr>controlFIFO := FIFO_reset (controlFIFO d1)\<rparr> else d1)"
  define d3 where "d3 = updateInterrupt (d2\<lparr>nakEvent := nakEvent d2 OR 0x10\<rparr>)"
  define vs f where "vs = control_bytes d2" and "f = snd (FIFO_drain 8 (FIFO_getFilled 8 (controlFIFO d2)) (controlFIFO d2))"
  define d4 where "d4 = d2\<lparr>controlFIFO := f\<rparr>"
  have v: "FIFO_drain 8 (FIFO_getFilled 8 (controlFIFO d2)) (controlFIFO d2) = (vs, f)"
    by (simp add: vs_def f_def control_bytes_def)
  have r: "usb_in_range d2" using assms(1) by (simp add: d2_def d1_def usb_in_range_def fifo_in_ops)
  have x: "excess d2 = excess e" by (rule excess_cong) (simp_all add: d2_def d1_def e_def)
  have s2: "same_data d d2" by (simp add: d2_def d1_def)
  then have ok2: "server_ok d2" using assms(2) data_ok_same [where d = d and d' = d2] by simp
  have s3: "same_data d2 d3" "same_data d2 d4" by (simp_all add: d3_def d4_def)
  define m where "m = (if FIFO_empty (controlFIFO d2)
      then if usbipServer d3 \<and> inSeqnum d3 0 \<noteq> 0
           then if inDataOffset d3 0 \<noteq> 0 \<or> inDataLen d3 0 = 0 then reply_in 0 (inDataLen d3 0) d3
                else Some ((usb_event (Ev_stall (usbipLastClient d3) (inSeqnum d3 0)) d3)\<lparr>inSeqnum := (inSeqnum d3)(0 := 0)\<rparr>)
           else Some d3
      else if enumerationState d2 \<noteq> EnumDone then updateEnumeration E d2
      else if usbipServer d2 \<and> inSeqnum d2 0 \<noteq> 0
      then do { d \<leftarrow> store_in 0 vs d4; if inDataOffset d 0 = inDataLen d 0 then reply_in 0 (inDataLen d 0) d else Some d }
      else Some d2)"
  have w: "write_TXC0 E val d = (if \<not> txEnable d2 0 then Some d2
      else do { d \<leftarrow> m; Some (if FIFO_empty (controlFIFO d) then updateInterrupt (d\<lparr>txEvent := txEvent d OR 1\<rparr>) else d) })"
    unfolding write_TXC0_def d1_def [symmetric] Let_def d2_def [symmetric] d3_def [symmetric] v prod.case d4_def [symmetric] m_def ..
  have m: "(m = None \<longrightarrow> excess d2) \<and> holds server_ok m"
  proof -
    consider (empty) "FIFO_empty (controlFIFO d2)" | (enum) "\<not> FIFO_empty (controlFIFO d2)" "enumerationState d2 \<noteq> EnumDone"
      | (data) "\<not> FIFO_empty (controlFIFO d2)" "enumerationState d2 = EnumDone" "usbipServer d2" "inSeqnum d2 0 \<noteq> 0"
      | (idle) "\<not> FIFO_empty (controlFIFO d2)" "enumerationState d2 = EnumDone" "\<not> (usbipServer d2 \<and> inSeqnum d2 0 \<noteq> 0)"
      by blast
    then show ?thesis
    proof cases
      case empty
      have ok3: "server_ok d3" using ok2 s3(1) data_ok_same [where d = d2 and d' = d3] by simp
      show ?thesis
      proof (cases "usbipServer d3 \<and> inSeqnum d3 0 \<noteq> 0 \<and> (inDataOffset d3 0 \<noteq> 0 \<or> inDataLen d3 0 = 0)")
        case True
        then obtain d' where d': "reply_in 0 (inDataLen d3 0) d3 = Some d'" "same_data d3 d'"
          using reply_len_some [of d3 0] ok3 by blast
        then have "data_ok d'" using True ok3 data_ok_same [where d = d3 and d' = d'] by blast
        then show ?thesis using True d' empty by (simp add: m_def)
      qed (use empty ok3 in \<open>auto simp: m_def\<close>)
    next
      case enum
      have "same_data d2 d' \<Longrightarrow> server_ok d'" for d' using ok2 data_ok_same [where d = d2 and d' = d'] by simp
      then have "holds server_ok (updateEnumeration E d2)" by (rule holds_mono [OF updateEnumeration_same])
      then show ?thesis using enum updateEnumeration_None [OF r] by (simp add: m_def)
    next
      case data
      have ok4: "data_ok d4" using ok2 data(3) by (simp add: d4_def)
      show ?thesis
      proof (cases "store_in 0 vs d4")
        case None
        then have "data_room d4 0 < inDataOffset d4 0 + length vs" using store_in_None [OF ok4] by simp
        then have "excess d2" using data by (simp add: excess_def vs_def d4_def data_room_def)
        then show ?thesis using None data by (simp add: m_def)
      next
        case (Some d5)
        then have ok5: "data_ok d5" using store_in_ok [OF ok4, of 0 vs] by simp
        obtain d6 where d6: "reply_in 0 (inDataLen d5 0) d5 = Some d6" "same_data d5 d6" using reply_len_some [OF ok5] by blast
        have "data_ok d6" using data_ok_same [OF d6(2) ok5] .
        then show ?thesis using Some ok5 d6 data by (simp add: m_def)
      qed
    next
      case idle
      then show ?thesis using ok2 by (auto simp: m_def)
    qed
  qed
  have tail: "server_ok d' \<Longrightarrow> server_ok (if FIFO_empty (controlFIFO d') then updateInterrupt (d'\<lparr>txEvent := txEvent d' OR 1\<rparr>) else d')" for d'
    by simp
  have "holds server_ok (do { d \<leftarrow> m; Some (if FIFO_empty (controlFIFO d) then updateInterrupt (d\<lparr>txEvent := txEvent d OR 1\<rparr>) else d) })"
    by (rule holds_bind [OF conjunct2 [OF m]]) (simp only: holds_Some, erule tail)
  then show ?thesis using m ok2 x unfolding w by auto
qed

lemma write_leaves:
  assumes "usb_in_range d" "server_ok d"
  shows "(USBDevice_write E addr val d = None \<longrightarrow> \<not> tst addr 1 \<and> usb_regAddr d \<in> {R_TXC0, R_RXC0} \<and>
      excess (if tst val 8 then d\<lparr>controlFIFO := FIFO_reset (controlFIFO d)\<rparr> else d)) \<and>
    holds server_ok (USBDevice_write E addr val d)"
proof -
  obtain dr where dr: "USBDevice_reset E d = Some dr" "server_ok dr" using reset_some [OF assms(2)] by blast
  have e: "\<exists>d'. write_endpoint r val d = Some d' \<and> server_ok d'" for r
    using write_TXC_some [OF assms(2)] assms(2) data_ok_same [where d = d]
    by (auto simp: write_endpoint_def write_RXC_def Let_def data_ok_def data_room_def split: option.splits)
  then obtain de where de: "write_endpoint (usb_regAddr d) val d = Some de" "server_ok de" by blast
  have same: "data_ok (d\<lparr>usb_regAddr := v\<rparr>) = data_ok d" "data_ok (d\<lparr>mainMask := v\<rparr>) = data_ok d"
    "data_ok (d\<lparr>altMask := v\<rparr>) = data_ok d" "data_ok (d\<lparr>txMask := v\<rparr>) = data_ok d" "data_ok (d\<lparr>rxMask := v\<rparr>) = data_ok d"
    "data_ok (d\<lparr>nakMask := v\<rparr>) = data_ok d" "data_ok (d\<lparr>endpointControl := u\<rparr>) = data_ok d" for v u
    by (simp_all add: data_ok_def data_room_def)
  show ?thesis
    unfolding USBDevice_write_def Let_def
    using write_TXC0_data [OF assms, where val = val and E = E] write_RXC0_data [OF assms, where val = val and E = E] dr de assms(2)
    by (simp add: same)
qed

lemma read_data_kept: "server_ok d \<Longrightarrow> holds (\<lambda>(v, d'). server_ok d') (USBDevice_read addr d)"
  unfolding USBDevice_read_def Let_def read_endpoint_def read_txStatus_def read_rxStatus_def read_rxData_def
  by (auto simp: holds_def split_beta data_ok_def data_room_def split: option.splits if_splits)

text \<open>A read of the data register with a command register selected, at an address that gives no index below four.\<close>

definition command_outside :: "u32 \<Rightarrow> usb \<Rightarrow> bool" where
  "command_outside addr d \<longleftrightarrow> \<not> tst addr 1 \<and>
     (usb_regAddr d \<in> {0x23, 0x2B, 0x33, 0x3B} \<and> 4 \<le> unat (addr - 0x23) div 8 \<or>
      usb_regAddr d \<in> {0x27, 0x2F, 0x37, 0x3F} \<and> 4 \<le> unat (addr - 0x27) div 8)"

lemma read_None: "USBDevice_read addr d = None \<longleftrightarrow> command_outside addr d"
proof -
  have group: "reg_group a 8 3 r \<noteq> None \<longleftrightarrow> unat r = a \<or> unat r = a + 8 \<or> unat r = a + 16" for a r
  proof
    assume "reg_group a 8 3 r \<noteq> None"
    then have "a \<le> unat r" "unat r \<le> a + 16" "(unat r - a) mod 8 = 0" by (simp_all add: reg_group_def split: if_splits)
    then have "unat r - a \<in> {0, 8, 16}" by (auto elim!: dvdE simp: mod_eq_0_iff_dvd)
    then show "unat r = a \<or> unat r = a + 8 \<or> unat r = a + 16" using \<open>a \<le> unat r\<close> by auto
  qed (auto simp: reg_group_def)
  have tx: "(usb_regAddr d = R_TXC0 \<or> reg_group 0x2B 8 3 (usb_regAddr d) \<noteq> None) = (usb_regAddr d \<in> {0x23, 0x2B, 0x33, 0x3B})"
    using group [of "0x2B" "usb_regAddr d"] by (auto simp: word_unat_eq_iff)
  have rx: "(usb_regAddr d = R_RXC0 \<or> reg_group 0x2F 8 3 (usb_regAddr d) \<noteq> None) = (usb_regAddr d \<in> {0x27, 0x2F, 0x37, 0x3F})"
    using group [of "0x2F" "usb_regAddr d"] by (auto simp: word_unat_eq_iff)
  have c: "read_command f a b = None \<longleftrightarrow> 4 \<le> unat (a - b) div 8" for f a b
    by (simp add: read_command_def Let_def not_less)
  show ?thesis
    unfolding USBDevice_read_def Let_def tx rx command_outside_def by (auto simp: c split: prod.splits)
qed


lemma requests_some:
  assumes "data_ok d"
  shows "\<exists>b d'. usbipIn E client seqnum ep n d = Some (b, d') \<and> data_ok d'"
    and "usbipControlRequest E client seqnum requestType request value index len data d = None \<longleftrightarrow>
      (\<exists>bs. data = Some bs \<and> length bs < unat len)"
    and "holds (\<lambda>(b, d'). data_ok d') (usbipControlRequest E client seqnum requestType request value index len data d)"
    and "data_ok (snd (usbipGetDescriptor E client seqnum descType descIndex setupIndex setupLength d))"
    and "data_ok (snd (usbipOut client seqnum ep bytes d))" "data_ok (snd (usbipUnlink seqnum d))"
proof -
  show "\<exists>b d'. usbipIn E client seqnum ep n d = Some (b, d') \<and> data_ok d'"
  proof (cases "find_endpoint [1, 3, 5] ep d")
    case (Some i)
    define d1 where "d1 = (new_in E (nat ep) n seqnum d)\<lparr>usbipLastClient := client\<rparr>"
    have "data_ok d1" using data_ok_new [OF assms] by (simp add: d1_def)
    then obtain d2 where d2: "send_in (i div 2) (nat ep) (tst (txCommand d1 (i div 2 + 1)) 2) d1 = Some d2" "data_ok d2"
      using send_in_some by blast
    then show ?thesis
      using Some \<open>data_ok d1\<close> unfolding usbipIn_def by (auto simp: Let_def d1_def [symmetric] simp del: tst_2)
  qed (use assms in \<open>auto simp: usbipIn_def\<close>)
  show "usbipControlRequest E client seqnum requestType request value index len data d = None \<longleftrightarrow>
      (\<exists>bs. data = Some bs \<and> length bs < unat len)"
    by (auto simp: usbipControlRequest_def Let_def split: option.splits)
  have o: "data_ok (x\<lparr>outData := p, outDataLen := q, outDataOffset := r\<rparr>) = data_ok x" "data_ok (usb_pushes vs x) = data_ok x" for x p q r vs
    by (simp_all add: data_ok_def data_room_def usb_pushes_def)
  have z: "data_ok x \<Longrightarrow> data_ok ((new_in E 0 0 s x)\<lparr>inData := (inData (new_in E 0 0 s x))(0 := inData y 0)\<rparr>)" for x y s
    by (simp add: new_in_def data_ok_def data_room_def)
  show "holds (\<lambda>(b, d'). data_ok d') (usbipControlRequest E client seqnum requestType request value index len data d)"
    using assms by (auto simp: usbipControlRequest_def Let_def o data_ok_new z split: option.split)
  show "data_ok (snd (usbipGetDescriptor E client seqnum descType descIndex setupIndex setupLength d))"
    using assms by (simp add: usbipGetDescriptor_def Let_def data_ok_new o)
  show "data_ok (snd (usbipOut client seqnum ep bytes d))" "data_ok (snd (usbipUnlink seqnum d))"
    using assms by (auto simp: usbipOut_def usbipUnlink_def Let_def split: option.split)
qed

section \<open>Runs\<close>

text \<open>
  The steps of the controller: accesses of the program, calls of the emulator, and calls of the server while
  there is one.
\<close>

inductive usb_step :: "usb_env \<Rightarrow> usb \<Rightarrow> usb \<Rightarrow> bool" for E where
  step_read: "USBDevice_read addr d = Some (v, d') \<Longrightarrow> usb_step E d d'"
| step_write: "USBDevice_write E addr val d = Some d' \<Longrightarrow> usb_step E d d'"
| step_start: "startEnumeration E d = Some d' \<Longrightarrow> usb_step E d d'"
| step_descriptor: "usbipServer d \<Longrightarrow> usbipGetDescriptor E client seqnum descType descIndex setupIndex setupLength d = (b, d') \<Longrightarrow> usb_step E d d'"
| step_control: "usbipServer d \<Longrightarrow> usbipControlRequest E client seqnum requestType request value index len data d = Some (b, d') \<Longrightarrow> usb_step E d d'"
| step_in: "usbipServer d \<Longrightarrow> usbipIn E client seqnum ep n d = Some (b, d') \<Longrightarrow> usb_step E d d'"
| step_out: "usbipServer d \<Longrightarrow> usbipOut client seqnum ep bytes d = (b, d') \<Longrightarrow> usb_step E d d'"
| step_unlink: "usbipServer d \<Longrightarrow> usbipUnlink seqnum d = (b, d') \<Longrightarrow> usb_step E d d'"

inductive usb_run :: "usb_env \<Rightarrow> usb \<Rightarrow> usb \<Rightarrow> bool" for E where
  run_refl: "usb_run E d d"
| run_step: "usb_run E d d' \<Longrightarrow> usb_step E d' d'' \<Longrightarrow> usb_run E d d''"

inductive_cases usb_runE: "usb_run E d d'"

lemma usb_step_range: "usb_step E d d' \<Longrightarrow> usb_in_range d \<Longrightarrow> usb_in_range d'"
proof (induction rule: usb_step.induct)
  case (step_read addr d v d')
  with read_range [of d addr] show ?case by simp
next
  case (step_write addr val d d')
  with write_range [of d E addr val] show ?case by simp
next
  case (step_start d d')
  with startEnumeration_range [of d E] show ?case by simp
qed (use requests_range in \<open>metis holds_Some prod.case snd_conv\<close>)+

lemma usb_run_range: "usb_run E d d' \<Longrightarrow> usb_in_range d \<Longrightarrow> usb_in_range d'"
  by (induction rule: usb_run.induct) (auto intro: usb_step_range)


lemma usb_step_data:
  assumes "usb_step E d d'" "usb_in_range d" "server_ok d" shows "server_ok d'"
  using assms
proof (induction rule: usb_step.induct)
  case (step_read addr d v d')
  with read_data_kept [of d addr] show ?case by simp
next
  case (step_write addr val d d')
  with write_leaves [of d E addr val] show ?case by simp
next
  case (step_start d d')
  then obtain e where "startEnumeration E d = Some e" "same_data d e" using startEnumeration_some by blast
  with step_start data_ok_same [where d = d and d' = d'] show ?case by simp
next
  case (step_in d client seqnum ep n b d')
  with requests_some(1) [of d E client seqnum ep n] show ?case by auto
next
  case (step_control d client seqnum rt rq v i l bytes b d')
  with requests_some(3) [of d E client seqnum rt rq v i l bytes] show ?case by simp
next
  case (step_descriptor d client seqnum descType descIndex setupIndex setupLength b d')
  with requests_some(4) [of d E client seqnum descType descIndex setupIndex setupLength] show ?case by simp
next
  case (step_out d client seqnum ep bytes b d')
  with requests_some(5) [of d client seqnum ep bytes] show ?case by simp
next
  case (step_unlink d seqnum b d')
  with requests_some(6) [of d seqnum] show ?case by simp
qed

lemma usb_run_data: "usb_run E d d' \<Longrightarrow> usb_in_range d \<Longrightarrow> server_ok d \<Longrightarrow> usb_in_range d' \<and> server_ok d'"
  by (induction rule: usb_run.induct) (simp, metis usb_step_data usb_step_range)

text \<open>
  The members the constructor finds: the FIFOs and the pointer to the server are initialised, the rest
  is not.
\<close>

definition usb_fresh :: "usb \<Rightarrow> bool" where
  "usb_fresh d \<longleftrightarrow> fifo_in 8 (controlFIFO d) \<and> (\<forall>i. fifo_in 64 (txFifo d i)) \<and> (\<forall>i. fifo_in 64 (rxFifo d i)) \<and> length (deviceDesc d) = 18 \<and>
     \<not> usbipServer d"

lemma reset_fresh:
  assumes "usb_fresh d" shows "\<exists>d'. USBDevice_reset E d = Some d' \<and> usb_in_range d' \<and> server_ok d'"
proof -
  let ?d = "d\<lparr>enumerationState := SetAddress\<rparr>"
  have "USBDevice_reset E d = USBDevice_reset E (if enumerationState d = NotStarted then d else ?d)"
    by (simp add: USBDevice_reset_def Let_def)
  moreover have "usb_in_range (if enumerationState d = NotStarted then d else ?d)"
    using assms by (simp add: usb_fresh_def usb_in_range_def)
  moreover obtain d' where "USBDevice_reset E d = Some d'" "server_ok d'"
    using reset_some [of d E] assms by (auto simp: usb_fresh_def)
  ultimately show ?thesis using reset_range by (metis holdsD)
qed

text \<open>C31:
  The USB controller in every state that its constructor and any sequence of register
  accesses, of calls of the emulator and of requests of a host lead to.  It is well formed: the offsets of its
  seven FIFOs are inside their arrays, the device descriptor read so far fits its array and,
  while the configuration descriptor is read, its array has the announced length.  And these are all the ways to leave an array:
  a read does so exactly when the selected register is one of the eight command registers, which are looked up
  by the address of the access, and that address gives an index past the four; a write only as a command for endpoint 0, when the
  program has put more bytes into the control FIFO than the part of the
  configuration descriptor or the data that was asked for, or a complete configuration descriptor that does
  not hold what its lengths announce; a request of the host for data or the start of the enumeration never; and a control
  request exactly when its data is shorter than it says.
\<close>

theorem usb_well_formed:
  assumes "usb_fresh d0"
  shows "\<exists>d1. USBDevice_reset E d0 = Some d1 \<and>
    (\<forall>d. usb_run E d1 d \<longrightarrow> usb_in_range d \<and>
      (\<forall>addr. USBDevice_read addr d = None \<longleftrightarrow> command_outside addr d) \<and>
      (\<forall>addr val. USBDevice_write E addr val d = None \<longrightarrow> \<not> tst addr 1 \<and> usb_regAddr d \<in> {R_TXC0, R_RXC0} \<and>
         excess (if tst val 8 then d\<lparr>controlFIFO := FIFO_reset (controlFIFO d)\<rparr> else d)) \<and>
      startEnumeration E d \<noteq> None \<and>
      (usbipServer d \<longrightarrow>
        (\<forall>client seqnum ep n. usbipIn E client seqnum ep n d \<noteq> None) \<and>
        (\<forall>client seqnum requestType request value index len data.
          usbipControlRequest E client seqnum requestType request value index len data d = None \<longleftrightarrow>
            (\<exists>bs. data = Some bs \<and> length bs < unat len))))"
proof -
  obtain d1 where d1: "USBDevice_reset E d0 = Some d1" "usb_in_range d1" "server_ok d1" using reset_fresh [OF assms] by blast
  have "usb_in_range d \<and> server_ok d" if "usb_run E d1 d" for d
    using usb_run_data [OF that d1(2,3)] .
  then show ?thesis
    using d1(1) read_None write_leaves startEnumeration_some [of E] requests_some(1,2)
    by (intro exI [of _ d1]) (simp, metis option.distinct(1))
qed

definition usb_zero :: usb where
  "usb_zero =
     (let f = \<lparr>fifo_buf = \<lambda>_. 0, writeOff = 0, readOff = 0, fullFlag = False\<rparr>
      in \<lparr>usb_regAddr = 0, mainMask = 0, altMask = 0, txMask = 0, rxMask = 0, nakMask = 0, altEvent = 0, txEvent = 0,
         rxEvent = 0, nakEvent = 0, endpointControl = \<lambda>_. 0, txCommand = \<lambda>_. 0, rxCommand = \<lambda>_. 0, endpointSetupRecv = 0,
         txEnable = \<lambda>_. False, rxEnable = \<lambda>_. False, controlFIFO = f, txFifo = \<lambda>_. f, rxFifo = \<lambda>_. f,
         enumerationState = NotStarted, deviceDesc = replicate 18 0, deviceDescOffset = 0, configDesc = None,
         configDescLen = 0, configDescOffset = 0, usbipServer = False, usbipLastClient = 0, inSeqnum = \<lambda>_. 0,
         outSeqnum = \<lambda>_. 0, inData = \<lambda>_. None, inDataLen = \<lambda>_. 0, inDataOffset = \<lambda>_. 0, outData = \<lambda>_. None,
         outDataLen = \<lambda>_. 0, outDataOffset = \<lambda>_. 0, usb_log = []\<rparr>)"

definition usb_env_example :: usb_env where
  "usb_env_example = \<lparr>env_created = True, env_stale = 0\<rparr>"

lemma usb_zero_fresh: "usb_fresh usb_zero"
  by (simp add: usb_fresh_def usb_zero_def fifo_in_def Let_def)

text \<open>The controller as it is after the memory was zero.\<close>

lemma usb_well_formed_witness:
  "\<exists>d1 d. USBDevice_reset usb_env_example usb_zero = Some d1 \<and> USBDevice_write usb_env_example 1 0x23 d1 = Some d \<and>
    usb_in_range d \<and> USBDevice_read 0 d = None"
proof -
  obtain d1 where d1: "USBDevice_reset usb_env_example usb_zero = Some d1" using reset_fresh [OF usb_zero_fresh] by blast
  have run: "usb_run usb_env_example d1 d \<longrightarrow> usb_in_range d \<and> (USBDevice_read 0 d = None \<longleftrightarrow> command_outside 0 d)" for d
    using usb_well_formed [OF usb_zero_fresh, of usb_env_example] by (simp add: d1)
  have w: "USBDevice_write usb_env_example 1 0x23 d1 = Some (d1\<lparr>usb_regAddr := 0x23\<rparr>)" by (simp add: USBDevice_write_def)
  then have r: "usb_run usb_env_example d1 (d1\<lparr>usb_regAddr := 0x23\<rparr>)" by (blast intro: run_refl run_step step_write)
  have "command_outside 0 (d1\<lparr>usb_regAddr := 0x23\<rparr>)" by (simp add: command_outside_def)
  then have "USBDevice_read 0 (d1\<lparr>usb_regAddr := 0x23\<rparr>) = None" using run r by blast
  then show ?thesis using d1 w r run by blast
qed

end
