(* ===== verification/USBEnumeration.thy ===== *)
theory USBEnumeration
  imports USBDevice
begin

text \<open>
  Enumeration of an emulated program by the USB controller: a program that answers the requests
  it finds in the control FIFO, through the registers only, ends up as a device of the USB/IP
  server with its own descriptors.
\<close>

section \<open>The program\<close>

text \<open>An access of a register: its number goes to the odd address, its value to the even one.\<close>

definition usb_poke :: "usb_env \<Rightarrow> u8 \<Rightarrow> u8 \<Rightarrow> usb \<Rightarrow> usb option" where
  "usb_poke E r v d = do { d \<leftarrow> USBDevice_write E 1 r d; USBDevice_write E 0 v d }"

definition usb_peek :: "usb_env \<Rightarrow> u8 \<Rightarrow> usb \<Rightarrow> (u8 \<times> usb) option" where
  "usb_peek E r d = do { d \<leftarrow> USBDevice_write E 1 r d; USBDevice_read 0 d }"

text \<open>Reading a setup packet, and sending the data of the answer in packets of 8 bytes.\<close>

fun prog_receive :: "usb_env \<Rightarrow> nat \<Rightarrow> usb \<Rightarrow> (u8 list \<times> usb) option" where
  "prog_receive E 0 d = Some ([], d)"
| "prog_receive E (Suc n) d =
     do { (v, d) \<leftarrow> usb_peek E R_RXD0 d; (vs, d) \<leftarrow> prog_receive E n d; Some (v # vs, d) }"

fun prog_fill :: "usb_env \<Rightarrow> u8 list \<Rightarrow> usb \<Rightarrow> usb option" where
  "prog_fill E [] d = Some d"
| "prog_fill E (v # vs) d = do { d \<leftarrow> usb_poke E R_TXD0 v d; prog_fill E vs d }"

definition prog_packet :: "usb_env \<Rightarrow> u8 list \<Rightarrow> usb \<Rightarrow> usb option" where
  "prog_packet E vs d =
     do { d \<leftarrow> prog_fill E vs d; d \<leftarrow> usb_poke E R_TXC0 1 d; (s, d) \<leftarrow> usb_peek E R_TXS0 d; Some d }"

function prog_send :: "usb_env \<Rightarrow> u8 list \<Rightarrow> usb \<Rightarrow> usb option" where
  "prog_send E vs d =
     (if length vs \<le> 8 then prog_packet E vs d
      else do { d \<leftarrow> prog_packet E (take 8 vs) d; prog_send E (drop 8 vs) d })"
  by auto
termination by (relation "measure (\<lambda>(E, vs, d). length vs)") auto

declare prog_send.simps [simp del]

definition prog_answer :: "u8 list \<Rightarrow> u8 list \<Rightarrow> u8 list \<Rightarrow> u8 list" where
  "prog_answer dev cfg packet =
     (let n = unat (packet ! 6) + 256 * unat (packet ! 7)
      in if packet ! 1 = 6 then take n (if packet ! 3 = 1 then dev else cfg) else [])"

definition prog_transaction :: "usb_env \<Rightarrow> u8 list \<Rightarrow> u8 list \<Rightarrow> usb \<Rightarrow> usb option" where
  "prog_transaction E dev cfg d =
     do { d \<leftarrow> usb_poke E R_RXC0 1 d; (s, d) \<leftarrow> usb_peek E R_RXS0 d; (packet, d) \<leftarrow> prog_receive E 8 d;
          prog_send E (prog_answer dev cfg packet) d }"

section \<open>What the program and the enumeration see\<close>

type_synonym usb_descs = "u8 list \<times> nat \<times> u8 list option \<times> nat \<times> nat \<times> usb_event list"

definition usb_at :: "usb \<Rightarrow> enum_state \<Rightarrow> u8 list \<Rightarrow> bool \<Rightarrow> bool \<Rightarrow> bool \<Rightarrow> usb_descs \<Rightarrow> bool" where
  "usb_at d st vs tx rx tev ds \<longleftrightarrow> enumerationState d = st \<and> fifo_ok 8 (controlFIFO d) \<and> fifo_contents 8 (controlFIFO d) = vs \<and>
     txEnable d 0 = tx \<and> rxEnable d 0 = rx \<and> bit (txEvent d) 0 = tev \<and> inSeqnum d 0 = 0 \<and>
     ds = (deviceDesc d, deviceDescOffset d, configDesc d, configDescLen d, configDescOffset d, filter (\<lambda>e. e \<noteq> Ev_irq) (usb_log d))"

lemma interrupt_log [simp]: "filter (\<lambda>e. e \<noteq> Ev_irq) (usb_log (updateInterrupt d)) = filter (\<lambda>e. e \<noteq> Ev_irq) (usb_log d)"
  by (simp add: updateInterrupt_def usb_event_def)

lemmas usb_access = usb_poke_def usb_peek_def USBDevice_write_def USBDevice_read_def Let_def

lemma peek_RXD0:
  assumes "usb_at d st (v # vs) tx rx tev ds" shows "\<exists>d'. usb_peek E R_RXD0 d = Some (v, d') \<and> usb_at d' st vs tx rx tev ds"
proof -
  have f: "fifo_ok 8 (controlFIFO d)" "fifo_contents 8 (controlFIFO d) = v # vs" using assms by (simp_all add: usb_at_def)
  have "\<not> FIFO_empty (controlFIFO d)" using fifo8.empty [OF f(1)] f(2) by simp
  moreover have "fst (FIFO_pop 8 (controlFIFO d)) = v" "fifo_ok 8 (snd (FIFO_pop 8 (controlFIFO d)))"
    "fifo_contents 8 (snd (FIFO_pop 8 (controlFIFO d))) = vs" using fifo8.pop [OF f] by simp_all
  moreover have "reg_group 0x2B 8 3 R_RXD0 = None" "reg_group 0x2F 8 3 R_RXD0 = None" by (simp_all add: reg_group_def)
  ultimately show ?thesis using assms by (simp add: usb_access usb_at_def split_beta)
qed

lemma receive_setup:
  "usb_at d st vs tx rx tev ds \<Longrightarrow> \<exists>d'. prog_receive E (length vs) d = Some (vs, d') \<and> usb_at d' st [] tx rx tev ds"
proof (induction vs arbitrary: d)
  case (Cons v vs)
  from peek_RXD0 [OF Cons.prems, of E] obtain d1 where "usb_peek E R_RXD0 d = Some (v, d1)" "usb_at d1 st vs tx rx tev ds" by blast
  with Cons.IH [of d1] show ?case by auto
qed simp

lemma peek_RXS0:
  assumes "usb_at d st vs tx rx tev ds" shows "\<exists>v d'. usb_peek E R_RXS0 d = Some (v, d') \<and> usb_at d' st vs tx rx tev ds"
  using assms by (simp add: usb_access usb_at_def reg_group_def)

lemma peek_TXS0:
  assumes "usb_at d st vs tx rx tev ds" shows "\<exists>v d'. usb_peek E R_TXS0 d = Some (v, d') \<and> usb_at d' st vs tx rx False ds"
  using assms by (simp add: usb_access usb_at_def bit_and_iff bit_not_iff)

lemma fill_FIFO:
  "usb_at d st ws tx rx tev ds \<Longrightarrow> length ws + length vs \<le> 8 \<Longrightarrow>
   \<exists>d'. prog_fill E vs d = Some d' \<and> usb_at d' st (ws @ vs) tx rx tev ds"
proof (induction vs arbitrary: d ws)
  case (Cons v vs)
  have f: "fifo_ok 8 (controlFIFO d)" "fifo_contents 8 (controlFIFO d) = ws" using Cons.prems(1) by (simp_all add: usb_at_def)
  have nf: "\<not> FIFO_full (controlFIFO d)" using fifo8.full [OF f(1)] f(2) Cons.prems(2) by simp
  have "usb_poke E R_TXD0 v d = Some (d\<lparr>usb_regAddr := R_TXD0, controlFIFO := FIFO_push 8 v (controlFIFO d)\<rparr>)"
    using nf by (simp add: usb_access)
  moreover have "usb_at (d\<lparr>usb_regAddr := R_TXD0, controlFIFO := FIFO_push 8 v (controlFIFO d)\<rparr>) st (ws @ [v]) tx rx tev ds"
    using fifo8.push [OF f(1) nf] Cons.prems(1) by (simp add: usb_at_def)
  ultimately show ?case using Cons.IH [of _ "ws @ [v]"] Cons.prems(2) by auto
qed simp

lemma setup_at:
  assumes "usb_at d st [] tx rx tev ds"
  shows "usb_at (setupPacket a b c e f d) st (setup_bytes a b c e f) tx rx tev ds"
proof -
  have f: "fifo_ok 8 (controlFIFO d)" "fifo_contents 8 (controlFIFO d) = []" using assms by (simp_all add: usb_at_def)
  have l: "length (setup_bytes a b c e f) = 8" by (simp add: setup_bytes_def)
  show ?thesis
    using assms fifo8.push_list [OF f(1), of "setup_bytes a b c e f"] f(2) l
    by (simp add: usb_at_def setupPacket_def usb_pushes_def Let_def)
qed

lemma can_send: "usb_at d st [] tx True False ds \<Longrightarrow> canSendPacket d"
  by (simp add: usb_at_def canSendPacket_def fifo8.empty)

lemma at_not_empty: "usb_at d st vs tx rx tev ds \<Longrightarrow> FIFO_empty (controlFIFO d) \<longleftrightarrow> vs = []"
  by (auto simp: usb_at_def fifo8.empty)

lemma poke_RXC0:
  assumes "usb_at d st vs tx rx tev ds"
  shows "\<exists>d'. usb_poke E R_RXC0 1 d = updateEnumeration E d' \<and> usb_at d' st vs tx True tev ds"
  by (rule exI [of _ "d\<lparr>usb_regAddr := R_RXC0, rxEnable := (rxEnable d)(0 := True), rxCommand := (rxCommand d)(0 := 1)\<rparr>"])
    (use assms in \<open>simp add: usb_access write_RXC0_def usb_at_def\<close>)

lemma poke_TXC0:
  assumes "usb_at d st vs tx rx tev ds" "vs \<noteq> []" "st \<noteq> EnumDone"
  shows "\<exists>d'. usb_at d' st vs True rx tev ds \<and> usb_poke E R_TXC0 1 d =
    do { d \<leftarrow> updateEnumeration E d'; Some (if FIFO_empty (controlFIFO d) then updateInterrupt (d\<lparr>txEvent := txEvent d OR 1\<rparr>) else d) }"
  by (rule exI [of _ "d\<lparr>usb_regAddr := R_TXC0, txEnable := (txEnable d)(0 := True), txCommand := (txCommand d)(0 := 1)\<rparr>"])
    (use assms at_not_empty [OF assms(1)] in \<open>simp add: usb_access write_TXC0_def usb_at_def\<close>)

lemma sent_event:
  "usb_at d st [] tx rx tev ds \<Longrightarrow> usb_at (updateInterrupt (d\<lparr>txEvent := txEvent d OR 1\<rparr>)) st [] tx rx True ds"
  by (simp add: usb_at_def bit_or_iff)

lemma poke_TXC0_empty:
  assumes "usb_at d st [] tx rx tev ds"
  shows "\<exists>d'. usb_poke E R_TXC0 1 d = Some d' \<and> usb_at d' st [] True rx True ds"
  using assms at_not_empty [OF assms] by (simp add: usb_access write_TXC0_def usb_at_def bit_or_iff)

text \<open>A packet of data, given what the enumeration does with it.\<close>

lemma packet_data:
  assumes d: "usb_at d st [] tx rx tev ds" and vs: "length vs \<le> 8" "vs \<noteq> []" "st \<noteq> EnumDone"
    and step: "\<And>d1. usb_at d1 st vs True rx tev ds \<Longrightarrow> \<exists>d2. updateEnumeration E d1 = Some d2 \<and> usb_at d2 st' [] True rx tev ds'"
  shows "\<exists>d'. prog_packet E vs d = Some d' \<and> usb_at d' st' [] True rx False ds'"
proof -
  from fill_FIFO [OF d, of vs E] vs obtain d1 where d1: "prog_fill E vs d = Some d1" "usb_at d1 st vs tx rx tev ds" by auto
  from poke_TXC0 [OF d1(2) vs(2,3), of E] step obtain d2 where
    d2: "usb_at d2 st' [] True rx tev ds'"
      "usb_poke E R_TXC0 1 d1 = Some (updateInterrupt (d2\<lparr>txEvent := txEvent d2 OR 1\<rparr>))"
    by (fastforce simp: at_not_empty)
  from peek_TXS0 [OF sent_event [OF d2(1)], of E] d1 d2 show ?thesis by (auto simp: prog_packet_def)
qed

lemma packet_empty:
  assumes d: "usb_at d st [] tx rx tev ds"
  shows "\<exists>d'. prog_packet E [] d = Some d' \<and> usb_at d' st [] True rx False ds"
proof -
  from poke_TXC0_empty [OF d, of E] obtain d2 where d2: "usb_poke E R_TXC0 1 d = Some d2" "usb_at d2 st [] True rx True ds" by blast
  from peek_TXS0 [OF d2(2), of E] d2 show ?thesis by (auto simp: prog_packet_def)
qed

text \<open>A transaction, given the packet that the enumeration writes and what it does with the answer.\<close>

lemma transaction:
  assumes d: "usb_at d st [] tx rx False ds"
    and ask: "\<And>d1. usb_at d1 st [] tx True False ds \<Longrightarrow> \<exists>d2. updateEnumeration E d1 = Some d2 \<and> usb_at d2 st' packet tx True False ds'"
    and n: "length packet = 8"
    and answer: "\<And>d3. usb_at d3 st' [] tx True False ds' \<Longrightarrow>
      \<exists>d4. prog_send E (prog_answer dev cfg packet) d3 = Some d4 \<and> usb_at d4 st'' [] True True False ds''"
  shows "\<exists>d'. prog_transaction E dev cfg d = Some d' \<and> usb_at d' st'' [] True True False ds''"
proof -
  from poke_RXC0 [OF d, of E] ask obtain d1 where d1: "usb_poke E R_RXC0 1 d = Some d1" "usb_at d1 st' packet tx True False ds'" by metis
  from peek_RXS0 [OF d1(2), of E] obtain v d2 where d2: "usb_peek E R_RXS0 d1 = Some (v, d2)" "usb_at d2 st' packet tx True False ds'" by blast
  from receive_setup [OF d2(2), of E] n obtain d3 where d3: "prog_receive E 8 d2 = Some (packet, d3)" "usb_at d3 st' [] tx True False ds'" by auto
  from answer [OF d3(2)] d1 d2 d3 show ?thesis by (auto simp: prog_transaction_def)
qed

text \<open>Sending data in packets: \<open>F sent\<close> is the state of the enumeration after the bytes \<open>sent\<close>.\<close>

lemma send_all:
  assumes step: "\<And>sent vs rest d1. sent @ vs @ rest = data \<Longrightarrow> rest \<noteq> [] \<Longrightarrow> vs \<noteq> [] \<Longrightarrow> usb_at d1 st vs True True False (F sent) \<Longrightarrow>
      \<exists>d2. updateEnumeration E d1 = Some d2 \<and> usb_at d2 st [] True True False (F (sent @ vs))"
    and final: "\<And>sent vs d1. sent @ vs = data \<Longrightarrow> vs \<noteq> [] \<Longrightarrow> usb_at d1 st vs True True False (F sent) \<Longrightarrow>
      \<exists>d2. updateEnumeration E d1 = Some d2 \<and> usb_at d2 st' [] True True False ds'"
    and st: "st \<noteq> EnumDone"
  shows "sent @ vs = data \<Longrightarrow> vs \<noteq> [] \<Longrightarrow> usb_at d st [] tx True False (F sent) \<Longrightarrow>
    \<exists>d'. prog_send E vs d = Some d' \<and> usb_at d' st' [] True True False ds'"
proof (induction "length vs" arbitrary: vs sent d tx rule: less_induct)
  case less
  show ?case
  proof (cases "length vs \<le> 8")
    case True
    have "\<exists>d'. prog_packet E vs d = Some d' \<and> usb_at d' st' [] True True False ds'"
      by (rule packet_data [OF less.prems(3) True less.prems(2) st]) (use final less.prems in blast)
    then show ?thesis using True by (simp add: prog_send.simps [of E vs d])
  next
    case False
    have "\<exists>d'. prog_packet E (take 8 vs) d = Some d' \<and> usb_at d' st [] True True False (F (sent @ take 8 vs))"
      by (rule packet_data [OF less.prems(3) _ _ st], simp, use False in force)
        (rule step [of _ _ "drop 8 vs"], use False less.prems in auto)
    then obtain d1 where d1: "prog_packet E (take 8 vs) d = Some d1" "usb_at d1 st [] True True False (F (sent @ take 8 vs))" by blast
    have "\<exists>d'. prog_send E (drop 8 vs) d1 = Some d' \<and> usb_at d' st' [] True True False ds'"
      by (rule less.hyps [OF _ _ _ d1(2)]) (use False less.prems in auto)
    then show ?thesis using False d1(1) by (simp add: prog_send.simps [of E vs d])
  qed
qed

section \<open>The steps of the enumeration\<close>

lemma pop_into_at:
  assumes d: "usb_at d st vs tx rx tev ds" and n: "length vs \<le> n" and b: "off + length vs \<le> length buf"
  shows "\<exists>d'. pop_into buf off n d = Some (take off buf @ vs @ drop (off + length vs) buf, off + length vs, d') \<and>
    usb_at d' st [] tx rx tev ds"
proof -
  have f: "fifo_ok 8 (controlFIFO d)" "fifo_contents 8 (controlFIFO d) = vs" using d by (simp_all add: usb_at_def)
  obtain ws f' where w: "FIFO_drain 8 n (controlFIFO d) = (ws, f')" by fastforce
  have "ws = vs" "fifo_ok 8 f'" "fifo_contents 8 f' = []" using fifo8_drain [OF f(1), of n] f(2) n w by simp_all
  then show ?thesis using d b w by (auto simp: pop_into_def usb_at_def)
qed

lemma at_filled: "usb_at d st vs tx rx tev ds \<Longrightarrow> FIFO_getFilled 8 (controlFIFO d) = length vs"
  by (simp add: usb_at_def fifo8.filled)

lemma ask_device:
  assumes "usb_at d RequestDeviceDesc [] tx True False (dd, o1, c, l, o2, log)"
  shows "\<exists>d'. updateEnumeration E d = Some d' \<and>
    usb_at d' ReadDeviceDesc (setup_bytes 0x80 6 0x100 0 18) tx True False (dd, 0, c, l, o2, log)"
  using setup_at [OF assms] can_send [OF assms] assms by (simp add: updateEnumeration_def usb_at_def)

lemma ask_address:
  assumes "usb_at d SetAddress [] tx True False ds"
  shows "\<exists>d'. updateEnumeration E d = Some d' \<and> usb_at d' RequestConfigDesc (setup_bytes 0 5 1 0 0) tx True False ds"
  using setup_at [OF assms] can_send [OF assms] assms by (simp add: updateEnumeration_def usb_at_def)

lemma ask_config:
  assumes "usb_at d RequestConfigDesc [] tx True False (dd, o1, c, l, o2, log)"
  shows "\<exists>d'. updateEnumeration E d = Some d' \<and>
    usb_at d' RequestFullConfigDesc (setup_bytes 0x80 6 0x200 0 9) tx True False (dd, o1, c, l, 0, log)"
  using setup_at [OF assms] can_send [OF assms] assms by (simp add: updateEnumeration_def usb_at_def)

lemma ask_full:
  assumes "usb_at d RequestFullConfigDesc [] tx True False (dd, o1, c, l, 9, log)"
  shows "\<exists>d'. updateEnumeration E d = Some d' \<and>
    usb_at d' ReadConfigDesc (setup_bytes 0x80 6 0x200 0 (of_nat l)) tx True False (dd, o1, Some (replicate l (env_stale E)), l, 0, log)"
  using setup_at [OF assms] can_send [OF assms] assms by (simp add: updateEnumeration_def usb_at_def)

lemma read_device:
  assumes d: "usb_at d ReadDeviceDesc vs True rx tev (dd, o1, r)" and l: "length dd = 18" "o1 + length vs \<le> 18"
  shows "\<exists>d'. updateEnumeration E d = Some d' \<and> usb_at d' (if o1 + length vs = 18 then SetAddress else ReadDeviceDesc) [] True rx tev
    (take o1 dd @ vs @ drop (o1 + length vs) dd, o1 + length vs, r)"
proof -
  have e: "enumerationState d = ReadDeviceDesc" "txEnable d 0" "deviceDesc d = dd" "deviceDescOffset d = o1"
    using d by (simp_all add: usb_at_def)
  have "length vs \<le> 18 - o1" "o1 + length vs \<le> length dd" using l by simp_all
  from pop_into_at [OF d this] obtain d' where
    p: "pop_into dd o1 (18 - o1) d = Some (take o1 dd @ vs @ drop (o1 + length vs) dd, o1 + length vs, d')"
      "usb_at d' ReadDeviceDesc [] True rx tev (dd, o1, r)" by blast
  then show ?thesis by (simp add: updateEnumeration_def e Let_def) (simp add: usb_at_def)
qed

lemma read_config_head:
  assumes d: "usb_at d RequestFullConfigDesc vs True rx tev (dd, o1, c, l, 0, log)" and l: "length vs = 8"
  shows "\<exists>d'. updateEnumeration E d = Some d' \<and> usb_at d' RequestFullConfigDesc [] True rx tev
    (dd, o1, c, unat (vs ! 2) + 256 * unat (vs ! 3), 8, log)"
proof -
  have e: "enumerationState d = RequestFullConfigDesc" "txEnable d 0" "configDescOffset d = 0" using d by (simp_all add: usb_at_def)
  have "length vs \<le> 8" "0 + length vs \<le> length (replicate 8 (env_stale E))" using l by simp_all
  from pop_into_at [OF d this] obtain d' where
    p: "pop_into (replicate 8 (env_stale E)) 0 8 d = Some (vs, 8, d')" "usb_at d' RequestFullConfigDesc [] True rx tev (dd, o1, c, l, 0, log)"
    using l by auto
  then show ?thesis by (simp add: updateEnumeration_def e at_filled [OF d] l) (simp add: usb_at_def)
qed

lemma read_config_rest:
  assumes d: "usb_at d RequestFullConfigDesc [v] True rx tev (dd, o1, c, l, 8, log)"
  shows "\<exists>d'. updateEnumeration E d = Some d' \<and> usb_at d' RequestFullConfigDesc [] True rx tev (dd, o1, c, l, 9, log)"
proof -
  have e: "enumerationState d = RequestFullConfigDesc" "txEnable d 0" "configDescOffset d = 8" using d by (simp_all add: usb_at_def)
  have f: "fifo_ok 8 (controlFIFO d)" "fifo_contents 8 (controlFIFO d) = [v]" using d by (simp_all add: usb_at_def)
  obtain ws f' where w: "FIFO_drain 8 1 (controlFIFO d) = (ws, f')" by fastforce
  have "length ws = 1" "fifo_ok 8 f'" "fifo_contents 8 f' = []" using fifo8_drain [OF f(1), of 1] f(2) w by simp_all
  then show ?thesis using d w by (simp add: updateEnumeration_def e at_filled [OF d]) (simp add: usb_at_def)
qed

lemma read_config:
  assumes d: "usb_at d ReadConfigDesc vs True rx tev (dd, o1, Some b, l, o2, log)" and l: "length b = l" "o2 + length vs < l"
  shows "\<exists>d'. updateEnumeration E d = Some d' \<and> usb_at d' ReadConfigDesc [] True rx tev
    (dd, o1, Some (take o2 b @ vs @ drop (o2 + length vs) b), l, o2 + length vs, log)"
proof -
  have e: "enumerationState d = ReadConfigDesc" "txEnable d 0" "configDesc d = Some b" "configDescOffset d = o2" "configDescLen d = l"
    using d by (simp_all add: usb_at_def)
  have "length vs \<le> length vs" "o2 + length vs \<le> length b" using l by simp_all
  from pop_into_at [OF d this] obtain d' where
    p: "pop_into b o2 (length vs) d = Some (take o2 b @ vs @ drop (o2 + length vs) b, o2 + length vs, d')"
      "usb_at d' ReadConfigDesc [] True rx tev (dd, o1, Some b, l, o2, log)" by blast
  moreover have "configDescLen d' = l" using p(2) by (simp add: usb_at_def)
  ultimately show ?thesis using l by (simp add: updateEnumeration_def e at_filled [OF d] Let_def) (simp add: usb_at_def)
qed

definition config_ok :: "u8 list \<Rightarrow> bool" where
  "config_ok cfg \<longleftrightarrow> 9 \<le> length cfg \<and> length cfg < 65536 \<and> unat (cfg ! 2) + 256 * unat (cfg ! 3) = length cfg \<and>
     usb_descriptors cfg (9 + length cfg) 9 (unat (cfg ! 4)) 0 \<noteq> None"

lemma read_config_last:
  assumes d: "usb_at d ReadConfigDesc vs True rx tev (dd, o1, Some b, l, o2, log)" and l: "length b = l" "o2 + length vs = l"
    and cfg: "take o2 b @ vs = cfg" "config_ok cfg"
  shows "\<exists>d'. updateEnumeration E d = Some d' \<and> usb_at d' EnumDone [] True rx tev
    (dd, o1, Some cfg, l, l, log @ [Ev_removeDevice, Ev_addDevice dd cfg])"
proof -
  have e: "enumerationState d = ReadConfigDesc" "txEnable d 0" "configDesc d = Some b" "configDescOffset d = o2" "configDescLen d = l"
    using d by (simp_all add: usb_at_def)
  have "length vs \<le> length vs" "o2 + length vs \<le> length b" using l by simp_all
  from pop_into_at [OF d this] l cfg(1) obtain d' where
    p: "pop_into b o2 (length vs) d = Some (cfg, l, d')" "usb_at d' ReadConfigDesc [] True rx tev (dd, o1, Some b, l, o2, log)" by auto
  have d': "configDescLen d' = l" "deviceDesc d' = dd" using p(2) by (simp_all add: usb_at_def)
  have n: "length cfg = l" using l cfg(1) by auto
  have "desc_bytes cfg 0 9 = Some (take 9 cfg)" "take 9 cfg ! 4 = cfg ! 4" using cfg(2) by (simp_all add: desc_bytes_def config_ok_def)
  moreover obtain ds where "usb_descriptors cfg (9 + l) 9 (unat (cfg ! 4)) 0 = Some ds" using cfg(2) n by (auto simp: config_ok_def)
  ultimately show ?thesis using p d' by (simp add: updateEnumeration_def e at_filled [OF d] Let_def) (simp add: usb_at_def usb_event_def)
qed

section \<open>The enumeration\<close>

lemma transaction_device:
  assumes d: "usb_at d RequestDeviceDesc [] tx rx False (dd, o1, c, l, o2, log)" and dev: "length dev = 18" "length dd = 18"
  shows "\<exists>d'. prog_transaction E dev cfg d = Some d' \<and> usb_at d' SetAddress [] True True False (dev, 18, c, l, o2, log)"
proof (rule transaction [OF d ask_device])
  show "length (setup_bytes 0x80 6 0x100 0 18) = 8" by (simp add: setup_bytes_def)
next
  fix d3 assume d3: "usb_at d3 ReadDeviceDesc [] tx True False (dd, 0, c, l, o2, log)"
  define F where "F = (\<lambda>sent. (sent @ drop (length sent) dd, length sent, c, l, o2, log))"
  have a: "prog_answer dev cfg (setup_bytes 0x80 6 0x100 0 18) = dev" using dev by (simp add: prog_answer_def setup_bytes_def)
  have "\<exists>d4. prog_send E dev d3 = Some d4 \<and> usb_at d4 SetAddress [] True True False (dev, 18, c, l, o2, log)"
  proof (rule send_all [where data = dev and F = F and sent = "[]"])
    fix sent vs rest d1 assume s: "sent @ vs @ rest = dev" "rest \<noteq> []" "usb_at d1 ReadDeviceDesc vs True True False (F sent)"
    from arg_cong [OF s(1), of length] s(2) dev have "length sent + length vs < 18" by (cases rest) simp_all
    then show "\<exists>d2. updateEnumeration E d1 = Some d2 \<and> usb_at d2 ReadDeviceDesc [] True True False (F (sent @ vs))"
      using read_device [OF s(3) [unfolded F_def], of E] dev by (simp add: F_def add.commute)
  next
    fix sent vs d1 assume s: "sent @ vs = dev" "usb_at d1 ReadDeviceDesc vs True True False (F sent)"
    from arg_cong [OF s(1), of length] dev have "length sent + length vs = 18" by simp
    then show "\<exists>d2. updateEnumeration E d1 = Some d2 \<and> usb_at d2 SetAddress [] True True False (dev, 18, c, l, o2, log)"
      using read_device [OF s(2) [unfolded F_def], of E] dev s(1) by simp
  qed (use dev d3 in \<open>auto simp: F_def\<close>)
  then show "\<exists>d4. prog_send E (prog_answer dev cfg (setup_bytes 0x80 6 0x100 0 18)) d3 = Some d4 \<and>
      usb_at d4 SetAddress [] True True False (dev, 18, c, l, o2, log)" by (simp add: a)
qed

lemma transaction_address:
  assumes d: "usb_at d SetAddress [] tx rx False ds"
  shows "\<exists>d'. prog_transaction E dev cfg d = Some d' \<and> usb_at d' RequestConfigDesc [] True True False ds"
proof (rule transaction [OF d ask_address])
  fix d3 assume d3: "usb_at d3 RequestConfigDesc [] tx True False ds"
  have "prog_answer dev cfg (setup_bytes 0 5 1 0 0) = []" by (simp add: prog_answer_def setup_bytes_def)
  then show "\<exists>d4. prog_send E (prog_answer dev cfg (setup_bytes 0 5 1 0 0)) d3 = Some d4 \<and>
      usb_at d4 RequestConfigDesc [] True True False ds"
    using packet_empty [OF d3, of E] by (simp add: prog_send.simps)
qed (simp_all add: setup_bytes_def)

lemma transaction_config_head:
  assumes d: "usb_at d RequestConfigDesc [] tx rx False (dd, o1, c, l, o2, log)" and cfg: "config_ok cfg"
  shows "\<exists>d'. prog_transaction E dev cfg d = Some d' \<and> usb_at d' RequestFullConfigDesc [] True True False (dd, o1, c, length cfg, 9, log)"
proof (rule transaction [OF d ask_config])
  fix d3 assume d3: "usb_at d3 RequestFullConfigDesc [] tx True False (dd, o1, c, l, 0, log)"
  have n: "9 \<le> length cfg" "unat (cfg ! 2) + 256 * unat (cfg ! 3) = length cfg" using cfg by (simp_all add: config_ok_def)
  have a: "prog_answer dev cfg (setup_bytes 0x80 6 0x200 0 9) = take 9 cfg" by (simp add: prog_answer_def setup_bytes_def)
  have "take 9 cfg = take 8 cfg @ [cfg ! 8]" using n(1) take_Suc_conv_app_nth [of 8 cfg] by simp
  then have r: "drop 8 (take 9 cfg) = [cfg ! 8]" using n(1) by simp
  have "\<exists>d4. prog_packet E (take 8 cfg) d3 = Some d4 \<and> usb_at d4 RequestFullConfigDesc [] True True False (dd, o1, c, length cfg, 8, log)"
    by (rule packet_data [OF d3]) (use n read_config_head in \<open>force+\<close>)
  then obtain d4 where d4: "prog_packet E (take 8 cfg) d3 = Some d4"
    "usb_at d4 RequestFullConfigDesc [] True True False (dd, o1, c, length cfg, 8, log)" by blast
  have "\<exists>d5. prog_packet E [cfg ! 8] d4 = Some d5 \<and> usb_at d5 RequestFullConfigDesc [] True True False (dd, o1, c, length cfg, 9, log)"
    by (rule packet_data [OF d4(2)]) (auto intro: read_config_rest)
  then show "\<exists>d4. prog_send E (prog_answer dev cfg (setup_bytes 0x80 6 0x200 0 9)) d3 = Some d4 \<and>
      usb_at d4 RequestFullConfigDesc [] True True False (dd, o1, c, length cfg, 9, log)"
    using d4(1) n(1) r by (simp add: a prog_send.simps [of E "take 9 cfg"] prog_send.simps [of E "[_]"] min_def)
qed (simp_all add: setup_bytes_def)

lemma u16_bytes: "n < 65536 \<Longrightarrow> unat (ucast (of_nat n :: u16) :: u8) + 256 * unat (ucast (drop_bit 8 (of_nat n :: u16)) :: u8) = n"
proof -
  assume "n < 65536"
  then have "unat (of_nat n :: u16) = n" by (simp add: unat_of_nat take_bit_nat_eq_self)
  then have "unat (ucast (of_nat n :: u16) :: u8) = n mod 256" "unat (ucast (drop_bit 8 (of_nat n :: u16)) :: u8) = n div 256 mod 256"
    by (simp_all add: unsigned_ucast_eq unat_drop_bit_eq drop_bit_eq_div take_bit_eq_mod unat_div)
  then show ?thesis using \<open>n < 65536\<close> by simp
qed

lemma transaction_config:
  assumes d: "usb_at d RequestFullConfigDesc [] tx rx False (dev, o1, c, length cfg, 9, log)" and cfg: "config_ok cfg"
  shows "\<exists>d'. prog_transaction E dev cfg d = Some d' \<and>
    usb_at d' EnumDone [] True True False (dev, o1, Some cfg, length cfg, length cfg, log @ [Ev_removeDevice, Ev_addDevice dev cfg])"
proof (rule transaction [OF d ask_full])
  let ?packet = "setup_bytes 0x80 6 0x200 0 (of_nat (length cfg))"
  show "length ?packet = 8" by (simp add: setup_bytes_def)
next
  let ?packet = "setup_bytes 0x80 6 0x200 0 (of_nat (length cfg))" and ?n = "length cfg"
  fix d3 assume d3: "usb_at d3 ReadConfigDesc [] tx True False (dev, o1, Some (replicate ?n (env_stale E)), ?n, 0, log)"
  have n: "9 \<le> ?n" "?n < 65536" using cfg by (simp_all add: config_ok_def)
  have a: "prog_answer dev cfg ?packet = cfg"
    using u16_bytes [OF n(2)] by (simp add: prog_answer_def setup_bytes_def)
  define F where "F = (\<lambda>sent. (dev, o1, Some (sent @ replicate (?n - length sent) (env_stale E)), ?n, length sent, log))"
  let ?ds = "(dev, o1, Some cfg, ?n, ?n, log @ [Ev_removeDevice, Ev_addDevice dev cfg])"
  have "\<exists>d4. prog_send E cfg d3 = Some d4 \<and> usb_at d4 EnumDone [] True True False ?ds"
  proof (rule send_all [where data = cfg and F = F and sent = "[]"])
    fix sent vs rest d1 assume s: "sent @ vs @ rest = cfg" "rest \<noteq> []" "usb_at d1 ReadConfigDesc vs True True False (F sent)"
    from arg_cong [OF s(1), of length] s(2) have "length sent + length vs < ?n" by (cases rest) simp_all
    then show "\<exists>d2. updateEnumeration E d1 = Some d2 \<and> usb_at d2 ReadConfigDesc [] True True False (F (sent @ vs))"
      using read_config [OF s(3) [unfolded F_def], of E] by (simp add: F_def)
  next
    fix sent vs d1 assume s: "sent @ vs = cfg" "usb_at d1 ReadConfigDesc vs True True False (F sent)"
    from arg_cong [OF s(1), of length] have "length sent + length vs = ?n" by simp
    then show "\<exists>d2. updateEnumeration E d1 = Some d2 \<and> usb_at d2 EnumDone [] True True False ?ds"
      using read_config_last [OF s(2) [unfolded F_def] _ _ _ cfg, of E] s(1) by simp
  qed (use n d3 in \<open>auto simp: F_def\<close>)
  then show "\<exists>d4. prog_send E (prog_answer dev cfg ?packet) d3 = Some d4 \<and> usb_at d4 EnumDone [] True True False ?ds" by (simp add: a)
qed

text \<open>C30:
  Enumeration: from the moment the emulator asks for it, a controller whose program enables its
  control endpoint, reads the four requests it then finds in the FIFO and answers them with its
  descriptors in packets of eight bytes through the registers, ends with exactly these
  descriptors, and the device they describe has replaced the previous one of the server.
\<close>

theorem usb_enumerates:
  assumes "enumerationState d = NotStarted" "fifo_ok 8 (controlFIFO d)" "FIFO_empty (controlFIFO d)" "\<not> rxEnable d 0"
    "\<not> tst (txEvent d) 1" "inSeqnum d 0 = 0" "length (deviceDesc d) = 18"
    and "length dev = 18" "config_ok cfg"
  shows "\<exists>d'. (do { d \<leftarrow> startEnumeration E d; d \<leftarrow> prog_transaction E dev cfg d; d \<leftarrow> prog_transaction E dev cfg d;
                  d \<leftarrow> prog_transaction E dev cfg d; prog_transaction E dev cfg d }) = Some d' \<and>
    enumerationState d' = EnumDone \<and> deviceDesc d' = dev \<and> configDesc d' = Some cfg \<and> FIFO_empty (controlFIFO d') \<and>
    filter (\<lambda>e. e \<noteq> Ev_irq) (usb_log d') = filter (\<lambda>e. e \<noteq> Ev_irq) (usb_log d) @ [Ev_removeDevice, Ev_addDevice dev cfg]"
proof -
  define log where "log = filter (\<lambda>e. e \<noteq> Ev_irq) (usb_log d)"
  let ?d = "d\<lparr>enumerationState := RequestDeviceDesc\<rparr>"
  have s: "startEnumeration E d = Some ?d"
    using assms(1,4) by (simp add: startEnumeration_def updateEnumeration_def canSendPacket_def)
  have d: "usb_at ?d RequestDeviceDesc [] (txEnable d 0) False False
    (deviceDesc d, deviceDescOffset d, configDesc d, configDescLen d, configDescOffset d, log)"
    using assms by (simp add: usb_at_def fifo8.empty log_def)
  from transaction_device [OF d assms(8,7), of E cfg] obtain d1 where d1: "prog_transaction E dev cfg ?d = Some d1"
    "usb_at d1 SetAddress [] True True False (dev, 18, configDesc d, configDescLen d, configDescOffset d, log)" by blast
  from transaction_address [OF d1(2), of E dev cfg] obtain d2 where d2: "prog_transaction E dev cfg d1 = Some d2"
    "usb_at d2 RequestConfigDesc [] True True False (dev, 18, configDesc d, configDescLen d, configDescOffset d, log)" by blast
  from transaction_config_head [OF d2(2) assms(9), of E dev] obtain d3 where d3: "prog_transaction E dev cfg d2 = Some d3"
    "usb_at d3 RequestFullConfigDesc [] True True False (dev, 18, configDesc d, length cfg, 9, log)" by blast
  from transaction_config [OF d3(2) assms(9), of E] obtain d4 where d4: "prog_transaction E dev cfg d3 = Some d4"
    "usb_at d4 EnumDone [] True True False (dev, 18, Some cfg, length cfg, length cfg, log @ [Ev_removeDevice, Ev_addDevice dev cfg])" by blast
  show ?thesis using s d1(1) d2(1) d3(1) d4 at_not_empty [OF d4(2)] by (simp add: log_def [symmetric]) (auto simp: usb_at_def)
qed

text \<open>A device with one interface and one endpoint.\<close>

definition example_config :: "u8 list" where
  "example_config = [9, 2, 25, 0, 1, 1, 0, 0x80, 50] @ [9, 4, 0, 0, 1, 0xFF, 0, 0, 0] @ [7, 5, 0x81, 2, 64, 0, 0]"

lemma example_config_ok: "config_ok example_config"
  by (simp add: config_ok_def example_config_def usb_descriptors.simps desc_bytes_def)

lemma usb_enumerates_witness:
  "\<exists>d'. (do { d \<leftarrow> startEnumeration usb_env_example usb_zero;
              d \<leftarrow> prog_transaction usb_env_example (replicate 18 7) example_config d;
              d \<leftarrow> prog_transaction usb_env_example (replicate 18 7) example_config d;
              d \<leftarrow> prog_transaction usb_env_example (replicate 18 7) example_config d;
              prog_transaction usb_env_example (replicate 18 7) example_config d }) = Some d' \<and>
    enumerationState d' = EnumDone \<and> deviceDesc d' = replicate 18 7 \<and> configDesc d' = Some example_config \<and>
    FIFO_empty (controlFIFO d') \<and>
    filter (\<lambda>e. e \<noteq> Ev_irq) (usb_log d') =
      filter (\<lambda>e. e \<noteq> Ev_irq) (usb_log usb_zero) @ [Ev_removeDevice, Ev_addDevice (replicate 18 7) example_config]"
  by (rule usb_enumerates [OF _ _ _ _ _ _ _ _ example_config_ok])
    (simp_all add: usb_zero_def FIFO_empty_def fifo_ok_def Let_def)

end
