(* ===== verification/Usbip.thy ===== *)
theory Usbip
  imports Decimal
begin

text \<open>
  \<open>usbip-server/usbip.c\<close>: the list of exported devices, the clients of the server and the messages
  of the USB/IP protocol.  A socket of the host is the list of the bytes it still delivers,
  those it has taken and how many it will take; devices and clients are identified by numbers,
  a client by its descriptor.  The callbacks of a device act on a state of their own and return the replies
  they send on the way.  \<open>None\<close> is an access outside an array, the use of a client that has been freed, or
  a loop that does not end.
\<close>

section \<open>Sockets and messages\<close>

datatype usbip_result =
    usbip_success | usbip_disconnected | usbip_not_ready | usbip_error | usbip_error_socket | usbip_error_unknown_command

record sock =
  sock_in :: "u8 list"
  sock_fails :: bool
  sock_out :: "u8 list"
  sock_room :: "nat option"

text \<open>\<open>recv\<close> waits for all bytes, or the end; then it returns 0, or -1 (\<open>None\<close>) after an error.\<close>

definition recv_all :: "nat \<Rightarrow> sock \<Rightarrow> u8 list option \<times> sock" where
  "recv_all n s = (if sock_in s = [] \<and> sock_fails s then None else Some (take n (sock_in s)), s\<lparr>sock_in := drop n (sock_in s)\<rparr>)"

definition send_all :: "u8 list \<Rightarrow> sock \<Rightarrow> bool \<times> sock" where
  "send_all bs s =
     (let n = (case sock_room s of None \<Rightarrow> length bs | Some r \<Rightarrow> min r (length bs))
      in (n = length bs, s\<lparr>sock_out := sock_out s @ take n bs, sock_room := map_option (\<lambda>r. r - n) (sock_room s)\<rparr>))"

text \<open>Messages sent one after the other until one fails.\<close>

fun send_parts :: "u8 list list \<Rightarrow> sock \<Rightarrow> bool \<times> sock" where
  "send_parts [] s = (True, s)"
| "send_parts (p # ps) s = (let (ok, s) = send_all p s in if ok then send_parts ps s else (False, s))"

definition htons :: "u16 \<Rightarrow> u8 list" where
  "htons w = [ucast (drop_bit 8 w), ucast w]"

definition htonl :: "u32 \<Rightarrow> u8 list" where
  "htonl w = [ucast (drop_bit 24 w), ucast (drop_bit 16 w), ucast (drop_bit 8 w), ucast w]"

definition ntohl :: "u8 list \<Rightarrow> u32" where
  "ntohl b = push_bit 24 (ucast (b ! 0)) OR push_bit 16 (ucast (b ! 1)) OR push_bit 8 (ucast (b ! 2)) OR ucast (b ! 3)"

definition u16_of :: "u8 \<Rightarrow> u8 \<Rightarrow> u16" where
  "u16_of lo hi = ucast lo OR push_bit 8 (ucast hi)"

definition header_basic :: "u32 \<Rightarrow> u32 \<Rightarrow> u8 list" where
  "header_basic command seqnum = htonl command @ htonl seqnum @ replicate 12 0"

definition ret_submit :: "u32 \<Rightarrow> u32 \<Rightarrow> u8 list" where
  "ret_submit status actual_length = htonl status @ htonl actual_length @ replicate 20 0"

definition ret_unlink :: "u32 \<Rightarrow> u8 list" where
  "ret_unlink status = htonl status @ replicate 24 0"

text \<open>A reply with data, which may be null, and a stall.\<close>

definition reply_parts :: "u32 \<Rightarrow> u8 list option \<Rightarrow> nat \<Rightarrow> u8 list list option" where
  "reply_parts seqnum data n =
     (let head = [header_basic 3 seqnum, ret_submit 0 (of_nat n)]
      in case data of None \<Rightarrow> Some head
         | Some b \<Rightarrow> if n = 0 then Some head else if n \<le> length b then Some (head @ [take n b]) else None)"

definition stall_parts :: "u32 \<Rightarrow> u8 list list" where
  "stall_parts seqnum = [header_basic 3 seqnum, ret_submit (- 32) 0]"

definition socket_result :: "bool \<Rightarrow> usbip_result" where
  "socket_result ok = (if ok then usbip_success else usbip_error_socket)"

section \<open>State\<close>

datatype usbip_reply = Reply nat u32 "u8 list option" nat | Stall nat u32

type_synonym 's answer = "(bool \<times> usbip_reply list \<times> 's) option"

record 's usbip_device =
  device_descriptor :: "u8 list"
  config_descriptor :: "u8 list"
  dev_speed :: u32
  dev_num :: int
  dev_get_descriptor :: "(nat \<Rightarrow> u32 \<Rightarrow> u8 \<Rightarrow> u8 \<Rightarrow> u16 \<Rightarrow> u16 \<Rightarrow> 's \<Rightarrow> 's answer) option"
  dev_control_request :: "(nat \<Rightarrow> u32 \<Rightarrow> u8 \<Rightarrow> u8 \<Rightarrow> u16 \<Rightarrow> u16 \<Rightarrow> u16 \<Rightarrow> u8 list option \<Rightarrow> 's \<Rightarrow> 's answer) option"
  dev_in :: "(nat \<Rightarrow> u32 \<Rightarrow> int \<Rightarrow> nat \<Rightarrow> 's \<Rightarrow> 's answer) option"
  dev_out :: "(nat \<Rightarrow> u32 \<Rightarrow> int \<Rightarrow> u8 list \<Rightarrow> 's \<Rightarrow> 's answer) option"
  dev_unlink :: "(nat \<Rightarrow> u32 \<Rightarrow> 's \<Rightarrow> 's answer) option"

record usbip_client =
  client_fd :: nat
  imported_device :: "nat option"

record 's usbip =
  user :: 's
  socks :: "nat \<Rightarrow> sock"
  devs :: "nat \<Rightarrow> 's usbip_device"
  device_list :: "nat list"
  num_devices :: int
  next_dev_num :: int
  server_fd :: nat
  clients :: "usbip_client list"
  sock_set :: "nat list"
  max_set_fd :: nat

text \<open>An operation on the socket of a client, which must not have been freed.\<close>

definition on_sock :: "nat \<Rightarrow> (sock \<Rightarrow> 'a \<times> sock) \<Rightarrow> 's usbip \<Rightarrow> ('a \<times> 's usbip) option" where
  "on_sock fd m u =
     (if fd \<in> set (map client_fd (clients u))
      then let (r, s) = m (socks u fd) in Some (r, u\<lparr>socks := (socks u)(fd := s)\<rparr>) else None)"

section \<open>Devices\<close>

definition usbip_add_device :: "nat \<Rightarrow> 's usbip \<Rightarrow> 's usbip" where
  "usbip_add_device dev u =
     u\<lparr>devs := (devs u)(dev := (devs u dev)\<lparr>dev_num := next_dev_num u\<rparr>), next_dev_num := next_dev_num u + 1,
       device_list := device_list u @ [dev], num_devices := num_devices u + 1\<rparr>"

definition usbip_remove_device :: "nat \<Rightarrow> 's usbip \<Rightarrow> 's usbip" where
  "usbip_remove_device dev u =
     (if dev \<in> set (device_list u) then u\<lparr>device_list := remove1 dev (device_list u), num_devices := num_devices u - 1\<rparr> else u)"

section \<open>Replies\<close>

definition usbip_client_reply :: "nat \<Rightarrow> u32 \<Rightarrow> u8 list option \<Rightarrow> nat \<Rightarrow> 's usbip \<Rightarrow> (usbip_result \<times> 's usbip) option" where
  "usbip_client_reply client seqnum data n u =
     do { ps \<leftarrow> reply_parts seqnum data n; (ok, u) \<leftarrow> on_sock client (send_parts ps) u; Some (socket_result ok, u) }"

definition usbip_client_stall :: "nat \<Rightarrow> u32 \<Rightarrow> 's usbip \<Rightarrow> (usbip_result \<times> 's usbip) option" where
  "usbip_client_stall client seqnum u =
     do { (ok, u) \<leftarrow> on_sock client (send_parts (stall_parts seqnum)) u; Some (socket_result ok, u) }"

text \<open>The replies of a callback; their results are ignored.\<close>

fun send_reply :: "usbip_reply \<Rightarrow> 's usbip \<Rightarrow> 's usbip option" where
  "send_reply (Reply client seqnum data n) u = map_option snd (usbip_client_reply client seqnum data n u)"
| "send_reply (Stall client seqnum) u = map_option snd (usbip_client_stall client seqnum u)"

fun send_replies :: "usbip_reply list \<Rightarrow> 's usbip \<Rightarrow> 's usbip option" where
  "send_replies [] u = Some u"
| "send_replies (r # rs) u = do { u \<leftarrow> send_reply r u; send_replies rs u }"

text \<open>A callback that may be null.\<close>

definition callback :: "('s \<Rightarrow> 's answer) option \<Rightarrow> 's usbip \<Rightarrow> (bool \<times> 's usbip) option" where
  "callback cb u =
     (case cb of None \<Rightarrow> Some (False, u)
      | Some f \<Rightarrow> do { (b, rs, s) \<leftarrow> f (user u); u \<leftarrow> send_replies rs (u\<lparr>user := s\<rparr>); Some (b, u) })"

section \<open>The device list\<close>

definition pad_to :: "nat \<Rightarrow> u8 list \<Rightarrow> u8 list" where
  "pad_to n bs = bs @ replicate (n - length bs) 0"

definition dev_path :: "int \<Rightarrow> u8 list" where
  "dev_path num = pad_to 256 (take 254 (ascii ''/sys/devices/pci0000:00/0000:00:00.1/usb1/1-'' @ dec_int num))"

definition dev_busid :: "int \<Rightarrow> u8 list" where
  "dev_busid num = pad_to 32 (take 30 (ascii ''1-'' @ dec_int num))"

definition fill_dev_reply :: "'s usbip_device \<Rightarrow> u8 list option" where
  "fill_dev_reply dev =
     (let d = device_descriptor dev; c = config_descriptor dev
      in if length d < 18 \<or> length c < 6 then None
         else Some (dev_path (dev_num dev) @ dev_busid (dev_num dev) @ htonl 1 @ htonl (word_of_int (dev_num dev)) @ htonl (dev_speed dev) @
           htons (u16_of (d ! 8) (d ! 9)) @ htons (u16_of (d ! 10) (d ! 11)) @ htons (u16_of (d ! 12) (d ! 13)) @
           [d ! 4, d ! 5, d ! 6, c ! 5, d ! 17, c ! 4]))"

function interface_parts :: "u8 list \<Rightarrow> nat \<Rightarrow> nat \<Rightarrow> u8 list list option" where
  "interface_parts c n off =
     (if \<not> off < n then Some []
      else if length c \<le> off + 1 \<or> c ! off = 0 then None
      else if c ! (off + 1) = 4
      then if length c \<le> off + 7 then None
           else do { ps \<leftarrow> interface_parts c n (off + unat (c ! off));
                     Some ([c ! (off + 5), c ! (off + 6), c ! (off + 7), 0] # ps) }
      else interface_parts c n (off + unat (c ! off)))"
  by pat_completeness auto
termination
  by (relation "measure (\<lambda>(c, n, off). n - off)") (auto simp: unat_gt_0 diff_less_mono2)

declare interface_parts.simps [simp del]

definition config_length :: "'s usbip_device \<Rightarrow> nat option" where
  "config_length dev =
     (let c = config_descriptor dev in if length c < 4 then None else Some (unat (u16_of (c ! 2) (c ! 3))))"

fun device_parts :: "'s usbip_device list \<Rightarrow> u8 list list option" where
  "device_parts [] = Some []"
| "device_parts (dev # rest) =
     do { r \<leftarrow> fill_dev_reply dev; n \<leftarrow> config_length dev; ps \<leftarrow> interface_parts (config_descriptor dev) n 9;
          qs \<leftarrow> device_parts rest; Some (r # ps @ qs) }"

definition devlist_header :: "int \<Rightarrow> u8 list" where
  "devlist_header n = htons 0x111 @ htons 5 @ htonl 0 @ htonl (word_of_int n)"

definition send_devlist :: "nat \<Rightarrow> 's usbip \<Rightarrow> (usbip_result \<times> 's usbip) option" where
  "send_devlist fd u =
     do { (r, u) \<leftarrow> on_sock fd (recv_all 4) u;
          if map_option length r \<noteq> Some 4 then Some (usbip_error_socket, u)
          else do { ps \<leftarrow> device_parts (map (devs u) (device_list u));
                    (ok, u) \<leftarrow> on_sock fd (send_parts (devlist_header (num_devices u) # ps)) u;
                    Some (socket_result ok, u) } }"

section \<open>Import\<close>

text \<open>\<open>%i\<close> of \<open>sscanf\<close>: white space, a sign, a prefix that tells the base, digits.\<close>

definition digit_of :: "int \<Rightarrow> u8 \<Rightarrow> int option" where
  "digit_of base b =
     (let v = (if 48 \<le> b \<and> b \<le> 57 then int (unat b) - 48 else if 65 \<le> b \<and> b \<le> 70 then int (unat b) - 55
               else if 97 \<le> b \<and> b \<le> 102 then int (unat b) - 87 else 16)
      in if v < base then Some v else None)"

definition scan_digits :: "int \<Rightarrow> u8 list \<Rightarrow> (int \<times> u8 list) option" where
  "scan_digits base s =
     (let ds = takeWhile (\<lambda>b. digit_of base b \<noteq> None) s
      in if ds = [] then None
         else Some (foldl (\<lambda>v b. v * base + the (digit_of base b)) 0 ds, dropWhile (\<lambda>b. digit_of base b \<noteq> None) s))"

definition scan_int :: "u8 list \<Rightarrow> (int \<times> u8 list) option" where
  "scan_int s =
     (let s = dropWhile is_space s;
          (neg, s) = (case s of [] \<Rightarrow> (False, []) | b # bs \<Rightarrow> if b = 45 then (True, bs) else if b = 43 then (False, bs) else (False, s));
          (base, s) = (if take 2 s = [48, 120] \<or> take 2 s = [48, 88] then (16, drop 2 s) else if take 1 s = [48] then (8, s) else (10, s))
      in map_option (\<lambda>(v, r). (if neg then - v else v, r)) (scan_digits base s))"

text \<open>\<open>sscanf(busid, "%i-%i", &bus, &dev) == 2\<close>; a string without an end is read past its array.\<close>

definition scan_busid :: "u8 list \<Rightarrow> (int \<times> int) option option" where
  "scan_busid b =
     (if 0 \<notin> set b then None
      else Some (case scan_int (takeWhile (\<lambda>c. c \<noteq> 0) b) of None \<Rightarrow> None
                 | Some (bus, r) \<Rightarrow>
                   (case r of [] \<Rightarrow> None
                    | c # r \<Rightarrow> if c = 45 then map_option (\<lambda>(dev, r). (bus, dev)) (scan_int r) else None)))"

definition import_header :: "u32 \<Rightarrow> u8 list" where
  "import_header status = htons 0x111 @ htons 3 @ htonl status"

definition set_imported :: "nat \<Rightarrow> nat \<Rightarrow> 's usbip \<Rightarrow> 's usbip" where
  "set_imported fd dev u =
     u\<lparr>clients := map (\<lambda>c. if client_fd c = fd then c\<lparr>imported_device := Some dev\<rparr> else c) (clients u)\<rparr>"

definition find_client :: "nat \<Rightarrow> 's usbip \<Rightarrow> usbip_client option" where
  "find_client fd u = find (\<lambda>c. client_fd c = fd) (clients u)"

text \<open>An import that fails after the answer was sent returns \<open>true\<close>, which is \<open>usbip_disconnected\<close>.\<close>

definition handle_import :: "nat \<Rightarrow> 's usbip \<Rightarrow> (usbip_result \<times> 's usbip) option" where
  "handle_import fd u =
     do { (r, u) \<leftarrow> on_sock fd (recv_all 36) u;
          if map_option length r \<noteq> Some 36 then Some (usbip_error_socket, u)
          else do { ids \<leftarrow> scan_busid (drop 4 (the r));
                    let dev = (case ids of Some (bus, dev) \<Rightarrow>
                                 if bus = 1 then find (\<lambda>a. dev_num (devs u a) = dev) (device_list u) else None
                               | None \<Rightarrow> None);
                        u = (case dev of Some a \<Rightarrow> set_imported fd a u | None \<Rightarrow> u)
                    in do { c \<leftarrow> find_client fd u;
                            case imported_device c of
                              None \<Rightarrow> do { (ok, u) \<leftarrow> on_sock fd (send_all (import_header 1)) u;
                                          Some (if ok then usbip_disconnected else usbip_error_socket, u) }
                            | Some a \<Rightarrow> do { rep \<leftarrow> fill_dev_reply (devs u a);
                                            (ok, u) \<leftarrow> on_sock fd (send_parts [import_header 0, rep]) u;
                                            Some (socket_result ok, u) } } } }"

section \<open>Requests\<close>

definition handle_control :: "nat \<Rightarrow> 's usbip_device \<Rightarrow> u32 \<Rightarrow> nat \<Rightarrow> u8 list \<Rightarrow> u8 list option \<Rightarrow> 's usbip \<Rightarrow>
    (bool option \<times> usbip_result \<times> 's usbip) option" where
  "handle_control fd dev seqnum len p out u =
     (let value = u16_of (p ! 2) (p ! 3); index = u16_of (p ! 4) (p ! 5); plen = u16_of (p ! 6) (p ! 7)
      in if p ! 0 = 0x80 \<and> p ! 1 = 6
         then if p ! 3 = 1
              then if device_descriptor dev = [] then None
                   else do { (r, u) \<leftarrow> usbip_client_reply fd seqnum (Some (device_descriptor dev)) (min len (unat (device_descriptor dev ! 0))) u;
                             Some (None, r, u) }
              else if p ! 3 = 2
              then do { n \<leftarrow> config_length dev;
                        (r, u) \<leftarrow> usbip_client_reply fd seqnum (Some (config_descriptor dev)) (min len n) u;
                        Some (None, r, u) }
              else do { (b, u) \<leftarrow> callback (map_option (\<lambda>f. f fd seqnum (p ! 3) (p ! 2) index plen) (dev_get_descriptor dev)) u;
                        Some (Some b, usbip_success, u) }
         else do { (b, u) \<leftarrow> callback (map_option (\<lambda>f. f fd seqnum (p ! 0) (p ! 1) value index plen out) (dev_control_request dev)) u;
                   Some (Some b, usbip_success, u) })"

text \<open>The data of a transfer to the device; \<open>None\<close> is a failure.\<close>

definition recv_out :: "nat \<Rightarrow> bool \<Rightarrow> nat \<Rightarrow> 's usbip \<Rightarrow> (u8 list option option \<times> 's usbip) option" where
  "recv_out fd is_in len u =
     (if is_in \<or> len = 0 then Some (Some None, u)
      else do { (r, u) \<leftarrow> on_sock fd (recv_all len) u;
                Some (if map_option length r = Some len then Some r else None, u) })"

definition handle_submit :: "nat \<Rightarrow> nat \<Rightarrow> u32 \<Rightarrow> u32 \<Rightarrow> u32 \<Rightarrow> 's usbip \<Rightarrow> (usbip_result \<times> 's usbip) option" where
  "handle_submit fd a seqnum direction ep u =
     do { (r, u) \<leftarrow> on_sock fd (recv_all 28) u;
          if map_option length r \<noteq> Some 28 then Some (usbip_error_socket, u)
          else let b = the r; len = unat (ntohl (take 4 (drop 4 b))); is_in = direction = 1; dev = devs u a
               in do { (out, u) \<leftarrow> recv_out fd is_in len u;
                       case out of None \<Rightarrow> Some (usbip_error_socket, u)
                       | Some out \<Rightarrow>
                         do { (handled, res, u) \<leftarrow>
                                (if ep = 0 then handle_control fd dev seqnum len (drop 20 b) out u
                                 else do { (b, u) \<leftarrow> callback (if is_in then map_option (\<lambda>f. f fd seqnum (sint ep) len) (dev_in dev)
                                                              else map_option (\<lambda>f. f fd seqnum (sint ep) (case out of Some d \<Rightarrow> d | None \<Rightarrow> []))
                                                                     (dev_out dev)) u;
                                           Some (Some b, usbip_success, u) });
                              case handled of None \<Rightarrow> Some (res, u)
                              | Some b \<Rightarrow> if b then Some (usbip_success, u) else usbip_client_stall fd seqnum u } } }"

definition handle_unlink :: "nat \<Rightarrow> nat \<Rightarrow> u32 \<Rightarrow> 's usbip \<Rightarrow> (usbip_result \<times> 's usbip) option" where
  "handle_unlink fd a seqnum u =
     do { (r, u) \<leftarrow> on_sock fd (recv_all 28) u;
          if map_option length r \<noteq> Some 28 then Some (usbip_error_socket, u)
          else do { (ok, u) \<leftarrow> on_sock fd (send_all (header_basic 4 seqnum)) u;
                    if \<not> ok then Some (usbip_error_socket, u)
                    else do { (unlinked, u) \<leftarrow>
                                (case dev_unlink (devs u a) of None \<Rightarrow> Some (True, u)
                                 | Some f \<Rightarrow> callback (Some (f fd (ntohl (take 4 (the r))))) u);
                              (ok, u) \<leftarrow> on_sock fd (send_all (ret_unlink (if unlinked then - 104 else 0))) u;
                              Some (socket_result ok, u) } } }"

text \<open>The four bytes that begin a message; those that do not arrive have any value.\<close>

definition usbip_client_recv :: "u8 \<Rightarrow> nat \<Rightarrow> 's usbip \<Rightarrow> (usbip_result \<times> 's usbip) option" where
  "usbip_client_recv stale fd u =
     do { (r, u) \<leftarrow> on_sock fd (recv_all 4) u;
          case r of None \<Rightarrow> Some (usbip_error_socket, u)
          | Some b \<Rightarrow>
            if b = [] then Some (usbip_disconnected, u)
            else let b = b @ replicate (4 - length b) stale
                 in do { c \<leftarrow> find_client fd u;
                         case imported_device c of
                           Some a \<Rightarrow>
                             do { (r, u) \<leftarrow> on_sock fd (recv_all 16) u;
                                  if map_option length r \<noteq> Some 16 then Some (usbip_error_socket, u)
                                  else let h = the r; command = ntohl b; seqnum = ntohl (take 4 h);
                                           direction = ntohl (take 4 (drop 8 h)); ep = ntohl (take 4 (drop 12 h))
                                       in if command = 1 then handle_submit fd a seqnum direction ep u
                                          else if command = 2 then handle_unlink fd a seqnum u
                                          else Some (usbip_error_unknown_command, u) }
                         | None \<Rightarrow>
                             if u16_of (b ! 1) (b ! 0) = 0x111
                             then let cmd = u16_of (b ! 3) (b ! 2)
                                  in if cmd = 0x8003 then handle_import fd u
                                     else if cmd = 0x8005 then send_devlist fd u
                                     else Some (usbip_error_unknown_command, u)
                             else Some (usbip_error_unknown_command, u) } }"

section \<open>The server\<close>

definition usbip_destroy_server :: "'s usbip \<Rightarrow> 's usbip" where
  "usbip_destroy_server u = u\<lparr>clients := []\<rparr>"

definition usbip_create_server :: "nat \<Rightarrow> 's usbip \<Rightarrow> 's usbip" where
  "usbip_create_server fd u = u\<lparr>server_fd := fd, sock_set := [fd], max_set_fd := fd, clients := []\<rparr>"

definition accept_client :: "nat \<Rightarrow> sock \<Rightarrow> 's usbip \<Rightarrow> 's usbip" where
  "accept_client fd s u =
     u\<lparr>socks := (socks u)(fd := s), sock_set := fd # sock_set u, max_set_fd := max fd (max_set_fd u),
       clients := clients u @ [\<lparr>client_fd = fd, imported_device = None\<rparr>]\<rparr>"

definition remove_client :: "nat \<Rightarrow> 's usbip \<Rightarrow> 's usbip" where
  "remove_client fd u = u\<lparr>clients := filter (\<lambda>c. client_fd c \<noteq> fd) (clients u)\<rparr>"

text \<open>The clients of which a message can be read, in order; whether one of them has gone.\<close>

fun serve_clients :: "u8 \<Rightarrow> nat list \<Rightarrow> nat list \<Rightarrow> 's usbip \<Rightarrow> (bool \<times> 's usbip) option" where
  "serve_clients stale ready [] u = Some (False, u)"
| "serve_clients stale ready (fd # fds) u =
     (if fd \<in> set ready
      then do { (res, u) \<leftarrow> usbip_client_recv stale fd u;
                if res = usbip_disconnected \<or> res = usbip_error_socket
                then do { (_, u) \<leftarrow> serve_clients stale ready fds (remove_client fd u); Some (True, u) }
                else serve_clients stale ready fds u }
      else serve_clients stale ready fds u)"

definition rebuild_set :: "'s usbip \<Rightarrow> 's usbip" where
  "rebuild_set u = u\<lparr>sock_set := [server_fd u], max_set_fd := fold max (map client_fd (clients u)) (server_fd u)\<rparr>"

text \<open>
  \<open>select\<close> finds the descriptors of its set that are readable, \<open>readable\<close>, or fails (\<open>None\<close>);
  \<open>accepted\<close> is the connection that \<open>accept\<close> returns.
\<close>

definition usbip_server_update :: "u8 \<Rightarrow> nat list option \<Rightarrow> (nat \<times> sock) option \<Rightarrow> 's usbip \<Rightarrow> (usbip_result \<times> 's usbip) option" where
  "usbip_server_update stale readable accepted u =
     (case readable of None \<Rightarrow> Some (usbip_error_socket, u)
      | Some fds \<Rightarrow>
        let ready = filter (\<lambda>fd. fd \<in> set (sock_set u) \<and> fd \<le> max_set_fd u) fds
        in if ready = [] then Some (usbip_not_ready, u)
           else if server_fd u \<in> set ready \<and> accepted = None then Some (usbip_error_socket, u)
           else let u = (if server_fd u \<in> set ready then case accepted of Some (fd, s) \<Rightarrow> accept_client fd s u | None \<Rightarrow> u else u)
                in do { (gone, u) \<leftarrow> serve_clients stale ready (map client_fd (clients u)) u;
                        Some (usbip_success, if gone then rebuild_set u else u) })"

section \<open>A client that leaves takes the others with it\<close>

lemma recv_ended:
  assumes "find_client c u = Some x" "sock_in (socks u c) = []" "\<not> sock_fails (socks u c)"
  shows "\<exists>s. usbip_client_recv stale c u = Some (usbip_disconnected, u\<lparr>socks := s\<rparr>)"
proof -
  have "c \<in> set (map client_fd (clients u))" using assms(1) by (force simp: find_client_def find_Some_iff in_set_conv_nth)
  then show ?thesis using assms(2,3) by (auto simp: usbip_client_recv_def on_sock_def recv_all_def)
qed

lemma serve_others: "c \<notin> set fds \<Longrightarrow> serve_clients stale [c] fds u = Some (False, u)"
  by (induction fds) auto

lemma serve_ended:
  assumes "distinct fds" "c \<in> set fds" "find_client c u = Some x" "sock_in (socks u c) = []" "\<not> sock_fails (socks u c)"
  shows "\<exists>s. serve_clients stale [c] fds u = Some (True, remove_client c (u\<lparr>socks := s\<rparr>))"
  using assms(1,2)
proof (induction fds)
  case (Cons fd fds)
  from recv_ended [OF assms(3-5), of stale] obtain s where s: "usbip_client_recv stale c u = Some (usbip_disconnected, u\<lparr>socks := s\<rparr>)" by blast
  show ?case
  proof (cases "fd = c")
    case True
    then have n: "c \<notin> set fds" using Cons.prems(1) by simp
    show ?thesis using True s by (auto simp: serve_others [OF n])
  qed (use Cons in auto)
qed simp

text \<open>C33:
  When the connection of one client has ended, the server removes it from its list and builds the
  set of sockets it watches anew, but with its own socket only: the other clients stay in the list
  and are never served again.  Whatever is readable afterwards, as long as no new connection is
  waiting, an update finds nothing ready and changes nothing.
\<close>

theorem usbip_clients_starve:
  assumes "distinct (map client_fd (clients u))" "find_client c u = Some x" "sock_in (socks u c) = []" "\<not> sock_fails (socks u c)"
    and "c \<in> set (sock_set u)" "c \<le> max_set_fd u" "c \<noteq> server_fd u"
  shows "\<exists>u'. usbip_server_update stale (Some [c]) None u = Some (usbip_success, u') \<and>
    clients u' = filter (\<lambda>d. client_fd d \<noteq> c) (clients u) \<and>
    (\<forall>fds accepted. server_fd u \<notin> set fds \<longrightarrow> usbip_server_update stale (Some fds) accepted u' = Some (usbip_not_ready, u'))"
proof -
  have "c \<in> set (map client_fd (clients u))" using assms(2) by (force simp: find_client_def find_Some_iff in_set_conv_nth)
  from serve_ended [OF assms(1) this assms(2-4), of stale] obtain s where
    s: "serve_clients stale [c] (map client_fd (clients u)) u = Some (True, remove_client c (u\<lparr>socks := s\<rparr>))" by blast
  define u' where "u' = rebuild_set (remove_client c (u\<lparr>socks := s\<rparr>))"
  have "usbip_server_update stale (Some [c]) None u = Some (usbip_success, u')"
    using s assms(5-7) by (simp add: usbip_server_update_def u'_def)
  moreover have "clients u' = filter (\<lambda>d. client_fd d \<noteq> c) (clients u)" "sock_set u' = [server_fd u]"
    by (simp_all add: u'_def rebuild_set_def remove_client_def)
  moreover have "filter (\<lambda>fd. fd \<in> set (sock_set u') \<and> fd \<le> max_set_fd u') fds = []" if "server_fd u \<notin> set fds" for fds
    using that \<open>sock_set u' = [server_fd u]\<close> by (auto simp: filter_empty_conv)
  ultimately show ?thesis by (simp add: usbip_server_update_def)
qed

text \<open>A server with two clients, of which one has gone.\<close>

definition two_clients :: "unit usbip" where
  "two_clients =
     \<lparr>user = (), socks = (\<lambda>_. \<lparr>sock_in = [], sock_fails = False, sock_out = [], sock_room = None\<rparr>),
      devs = (\<lambda>_. \<lparr>device_descriptor = [], config_descriptor = [], dev_speed = 2, dev_num = 1, dev_get_descriptor = None,
        dev_control_request = None, dev_in = None, dev_out = None, dev_unlink = None\<rparr>),
      device_list = [], num_devices = 0, next_dev_num = 1, server_fd = 3,
      clients = [\<lparr>client_fd = 4, imported_device = None\<rparr>, \<lparr>client_fd = 5, imported_device = None\<rparr>],
      sock_set = [5, 4, 3], max_set_fd = 5\<rparr>"

lemma usbip_clients_starve_witness:
  "\<exists>u'. usbip_server_update 0 (Some [4]) None two_clients = Some (usbip_success, u') \<and>
    clients u' = [\<lparr>client_fd = 5, imported_device = None\<rparr>] \<and> usbip_server_update 0 (Some [5]) None u' = Some (usbip_not_ready, u')"
  using usbip_clients_starve [of two_clients 4 "\<lparr>client_fd = 4, imported_device = None\<rparr>" 0]
  by (force simp: two_clients_def find_client_def)

end
