(* ===== verification/USBSystem.thy ===== *)
theory USBSystem
  imports USBEnumeration Usbip
begin

text \<open>
  The USB controller and the USB/IP server together: what the controller asks of the server is
  done on the server's state, and the requests of a host reach the controller through the callbacks
  that it exports.
\<close>

section \<open>Composition\<close>

text \<open>The replies of the controller become those of the server; the data of an output transfer is null.\<close>

fun usb_reply :: "usb_event \<Rightarrow> usbip_reply option" where
  "usb_reply (Ev_reply client seqnum bs n) = Some (Reply client seqnum (if bs = [] then None else Some bs) n)"
| "usb_reply (Ev_stall client seqnum) = Some (Stall client seqnum)"
| "usb_reply _ = None"

definition usb_answer :: "(usb \<Rightarrow> (bool \<times> usb) option) \<Rightarrow> usb \<Rightarrow> usb answer" where
  "usb_answer m d =
     do { (b, d') \<leftarrow> m (d\<lparr>usb_log := []\<rparr>);
          Some (b, List.map_filter usb_reply (usb_log d'),
                d'\<lparr>usb_log := usb_log d @ filter (\<lambda>e. usb_reply e = None) (usb_log d')\<rparr>) }"

text \<open>
  The server is given pointers to the descriptors of the controller.  Here it is given what they are then: the controller
  exports its device again whenever an enumeration has filled them anew, and that they are already being overwritten before that is not seen.
\<close>

definition usb_export :: "usb_env \<Rightarrow> u8 list \<Rightarrow> u8 list \<Rightarrow> usb usbip_device \<Rightarrow> usb usbip_device" where
  "usb_export E dev cfg x =
     x\<lparr>device_descriptor := dev, config_descriptor := cfg, dev_speed := 2,
       dev_get_descriptor := Some (\<lambda>c q ty ix si sl. usb_answer (\<lambda>d. Some (usbipGetDescriptor E c q ty ix si sl d))),
       dev_control_request := Some (\<lambda>c q rt r v i n data. usb_answer (usbipControlRequest E c q rt r v i n data)),
       dev_in := Some (\<lambda>c q ep n. usb_answer (usbipIn E c q ep n)),
       dev_out := Some (\<lambda>c q ep data. usb_answer (\<lambda>d. Some (usbipOut c q ep data d))),
       dev_unlink := Some (\<lambda>c q. usb_answer (\<lambda>d. Some (usbipUnlink q d)))\<rparr>"

text \<open>The device of the controller has the number 0; \<open>fd\<close> is the descriptor of a server that is created.\<close>

fun usb_deliver :: "usb_env \<Rightarrow> nat \<Rightarrow> usb_event \<Rightarrow> usb usbip \<Rightarrow> usb usbip option" where
  "usb_deliver E fd Ev_irq u = Some (u\<lparr>user := usb_event Ev_irq (user u)\<rparr>)"
| "usb_deliver E fd (Ev_reply client seqnum bs n) u = send_reply (Reply client seqnum (if bs = [] then None else Some bs) n) u"
| "usb_deliver E fd (Ev_stall client seqnum) u = send_reply (Stall client seqnum) u"
| "usb_deliver E fd Ev_destroyServer u = Some (usbip_destroy_server u)"
| "usb_deliver E fd Ev_createServer u = Some (if env_created E then usbip_create_server fd u else u)"
| "usb_deliver E fd Ev_removeDevice u = Some (usbip_remove_device 0 u)"
| "usb_deliver E fd (Ev_addDevice dev cfg) u =
     Some (usbip_add_device 0 (u\<lparr>devs := (devs u)(0 := usb_export E dev cfg (devs u 0))\<rparr>))"

fun usb_delivers :: "usb_env \<Rightarrow> nat \<Rightarrow> usb_event list \<Rightarrow> usb usbip \<Rightarrow> usb usbip option" where
  "usb_delivers E fd [] u = Some u"
| "usb_delivers E fd (e # es) u = do { u \<leftarrow> usb_deliver E fd e u; usb_delivers E fd es u }"

text \<open>An operation of the controller in the composed system.\<close>

definition usb_lift :: "usb_env \<Rightarrow> nat \<Rightarrow> (usb \<Rightarrow> ('a \<times> usb) option) \<Rightarrow> usb usbip \<Rightarrow> ('a \<times> usb usbip) option" where
  "usb_lift E fd m u =
     do { (x, d) \<leftarrow> m ((user u)\<lparr>usb_log := []\<rparr>);
          u \<leftarrow> usb_delivers E fd (usb_log d) (u\<lparr>user := d\<lparr>usb_log := usb_log (user u)\<rparr>\<rparr>);
          Some (x, u) }"

section \<open>A program that echoes\<close>

text \<open>The program reads \<open>n\<close> bytes of a receive FIFO and sends bytes through a transmit FIFO.\<close>

fun prog_read :: "usb_env \<Rightarrow> u8 \<Rightarrow> nat \<Rightarrow> usb \<Rightarrow> (u8 list \<times> usb) option" where
  "prog_read E r 0 d = Some ([], d)"
| "prog_read E r (Suc n) d = do { (v, d) \<leftarrow> usb_peek E r d; (vs, d) \<leftarrow> prog_read E r n d; Some (v # vs, d) }"

fun prog_write :: "usb_env \<Rightarrow> u8 \<Rightarrow> u8 list \<Rightarrow> usb \<Rightarrow> usb option" where
  "prog_write E r [] d = Some d"
| "prog_write E r (v # vs) d = do { d \<leftarrow> usb_poke E r v d; prog_write E r vs d }"

definition prog_echo :: "usb_env \<Rightarrow> nat \<Rightarrow> nat \<Rightarrow> nat \<Rightarrow> usb \<Rightarrow> (unit \<times> usb) option" where
  "prog_echo E k m n d =
     do { (vs, d) \<leftarrow> prog_read E (of_nat (0x2D + 8 * k)) n d; d \<leftarrow> prog_write E (of_nat (0x29 + 8 * m)) vs d;
          d \<leftarrow> usb_poke E (of_nat (0x2B + 8 * m)) 3 d; Some ((), d) }"

section \<open>Messages of a host\<close>

definition submit_message :: "u32 \<Rightarrow> u32 \<Rightarrow> u32 \<Rightarrow> u32 \<Rightarrow> u32 \<Rightarrow> u8 list \<Rightarrow> u8 list" where
  "submit_message seqnum devid direction ep len bs =
     htonl 1 @ htonl seqnum @ htonl devid @ htonl direction @ htonl ep @ htonl 0 @ htonl len @ replicate 12 0 @ replicate 8 0 @ bs"

lemma ntohl_htonl [simp]: "ntohl (htonl w) = w"
  by (simp add: ntohl_def htonl_def u32_bytes)

lemma length_htonl [simp]: "length (htonl w) = 4" by (simp add: htonl_def)

lemma length_headers [simp]: "length (header_basic c q) = 20" "length (ret_submit s n) = 28"
  by (simp_all add: header_basic_def ret_submit_def)

section \<open>What the program does\<close>

definition echo_at :: "usb \<Rightarrow> nat \<Rightarrow> nat \<Rightarrow> u8 list \<Rightarrow> u8 list \<Rightarrow> nat \<Rightarrow> nat \<Rightarrow> u32 \<Rightarrow> nat \<Rightarrow> bool" where
  "echo_at d k m vs ws c ep q n \<longleftrightarrow> k < 3 \<and> m < 3 \<and>
     fifo_ok 64 (rxFifo d k) \<and> fifo_contents 64 (rxFifo d k) = vs \<and> fifo_ok 64 (txFifo d m) \<and> fifo_contents 64 (txFifo d m) = ws \<and>
     unat (endpointControl d (2 * m + 1) AND 0xF) = ep \<and> usbipServer d \<and> usbipLastClient d = c \<and> inSeqnum d ep = q \<and>
     inDataLen d ep = n \<and> inDataOffset d ep = 0 \<and> (\<exists>b. inData d ep = Some b \<and> length b = n) \<and> usb_log d = []"

lemma three_cases: "k < 3 \<Longrightarrow> k = 0 \<or> k = 1 \<or> k = (2 :: nat)" by linarith

lemma read_RXD: "k < 3 \<Longrightarrow> usb_regAddr d = of_nat (0x2D + 8 * k) \<Longrightarrow> USBDevice_read 0 d = Some (read_rxData k d)"
  by (drule three_cases, elim disjE) (simp_all add: USBDevice_read_def read_endpoint_def reg_group_def)

lemma write_TXD:
  "m < 3 \<Longrightarrow> usb_regAddr d = of_nat (0x29 + 8 * m) \<Longrightarrow> USBDevice_write E 0 v d =
    Some (if FIFO_full (txFifo d m) then d else d\<lparr>txFifo := (txFifo d)(m := FIFO_push 64 v (txFifo d m))\<rparr>)"
  by (drule three_cases, elim disjE) (simp_all add: USBDevice_write_def write_endpoint_def reg_group_def)

lemma write_TXC_register:
  "m < 3 \<Longrightarrow> usb_regAddr d = of_nat (0x2B + 8 * m) \<Longrightarrow> USBDevice_write E 0 v d = write_TXC (Suc m) v d"
  by (drule three_cases, elim disjE) (simp_all add: USBDevice_write_def write_endpoint_def reg_group_def)

lemma select_register: "USBDevice_write E 1 r d = Some (d\<lparr>usb_regAddr := r\<rparr>)"
  by (simp add: USBDevice_write_def)

lemma peek_RXD:
  assumes "echo_at d k m (v # vs) ws c ep q n"
  shows "\<exists>d'. usb_peek E (of_nat (0x2D + 8 * k)) d = Some (v, d') \<and> echo_at d' k m vs ws c ep q n"
proof -
  have f: "fifo_ok 64 (rxFifo d k)" "fifo_contents 64 (rxFifo d k) = v # vs" and k: "k < 3" using assms by (simp_all add: echo_at_def)
  define d1 where "d1 = d\<lparr>usb_regAddr := of_nat (0x2D + 8 * k)\<rparr>"
  have "usb_peek E (of_nat (0x2D + 8 * k)) d = Some (read_rxData k d1)"
    using read_RXD [OF k, of d1] by (simp only: usb_peek_def select_register Option.bind.bind_lunit d1_def [symmetric]) (simp add: d1_def)
  moreover have "\<not> FIFO_empty (rxFifo d k)" using fifo64.empty [OF f(1)] f(2) by simp
  ultimately show ?thesis using fifo64.pop [OF f] assms by (simp add: read_rxData_def echo_at_def d1_def split_beta)
qed

lemma read_data:
  "echo_at d k m vs ws c ep q n \<Longrightarrow>
   \<exists>d'. prog_read E (of_nat (0x2D + 8 * k)) (length vs) d = Some (vs, d') \<and> echo_at d' k m [] ws c ep q n"
proof (induction vs arbitrary: d)
  case (Cons v vs)
  from peek_RXD [OF Cons.prems, of E] obtain d1 where "usb_peek E (of_nat (0x2D + 8 * k)) d = Some (v, d1)" "echo_at d1 k m vs ws c ep q n" by blast
  with Cons.IH [of d1] show ?case by auto
qed simp

lemma poke_TXD:
  assumes d: "echo_at d k m vs ws c ep q n" and l: "length ws < 64"
  shows "\<exists>d'. usb_poke E (of_nat (0x29 + 8 * m)) v d = Some d' \<and> echo_at d' k m vs (ws @ [v]) c ep q n"
proof -
  have f: "fifo_ok 64 (txFifo d m)" "fifo_contents 64 (txFifo d m) = ws" and m: "m < 3" using d by (simp_all add: echo_at_def)
  let ?r = "of_nat (0x29 + 8 * m) :: u8"
  have nf: "\<not> FIFO_full (txFifo d m)" using fifo64.full [OF f(1)] f(2) l by simp
  have "usb_poke E ?r v d = Some (d\<lparr>usb_regAddr := ?r, txFifo := (txFifo d)(m := FIFO_push 64 v (txFifo d m))\<rparr>)"
    using write_TXD [OF m, of "d\<lparr>usb_regAddr := ?r\<rparr>" E v] nf by (simp add: usb_poke_def select_register)
  moreover have "echo_at (d\<lparr>usb_regAddr := ?r, txFifo := (txFifo d)(m := FIFO_push 64 v (txFifo d m))\<rparr>) k m vs (ws @ [v]) c ep q n"
    using fifo64.push [OF f(1) nf] d by (simp add: echo_at_def)
  ultimately show ?thesis by blast
qed

lemma write_data:
  "echo_at d k m vs ws c ep q n \<Longrightarrow> length ws + length xs \<le> 64 \<Longrightarrow>
   \<exists>d'. prog_write E (of_nat (0x29 + 8 * m)) xs d = Some d' \<and> echo_at d' k m vs (ws @ xs) c ep q n"
proof (induction xs arbitrary: d ws)
  case (Cons x xs)
  then have "length ws < 64" by simp
  from poke_TXD [OF Cons.prems(1) this, of E x] obtain d1 where
    "usb_poke E (of_nat (0x29 + 8 * m)) x d = Some d1" "echo_at d1 k m vs (ws @ [x]) c ep q n" by blast
  with Cons.IH [of d1 "ws @ [x]"] Cons.prems(2) show ?case by auto
qed simp

lemma write_TXC_3:
  "write_TXC (Suc m) 3 d =
    (let d1 = d\<lparr>txEnable := (txEnable d)(Suc m := True), txCommand := (txCommand d)(Suc m := 3)\<rparr>;
         ep = unat (endpointControl d (2 * m + 1) AND 0xF)
     in do { d \<leftarrow> (if usbipServer d \<and> inSeqnum d ep \<noteq> 0 then send_in m ep True d1 else Some d1);
             Some (if FIFO_empty (txFifo d m) then updateInterrupt (d\<lparr>txEvent := txEvent d OR bitv (Suc m)\<rparr>) else d) })"
  by (simp add: write_TXC_def Let_def mult.commute)

lemma poke_TXC:
  assumes d: "echo_at d k m vs ws c ep q n" and l: "length ws \<le> n" and q: "q \<noteq> 0"
  shows "\<exists>d'. usb_poke E (of_nat (0x2B + 8 * m)) 3 d = Some d' \<and> filter (\<lambda>e. e \<noteq> Ev_irq) (usb_log d') = [Ev_reply c q ws (length ws)]"
proof -
  let ?r = "of_nat (0x2B + 8 * m) :: u8"
  have m: "m < 3" using d by (simp add: echo_at_def)
  have p: "usb_poke E ?r 3 d = write_TXC (Suc m) 3 (d\<lparr>usb_regAddr := ?r\<rparr>)"
    using write_TXC_register [OF m, of "d\<lparr>usb_regAddr := ?r\<rparr>" E 3] by (simp add: usb_poke_def select_register)
  define d1 where "d1 = d\<lparr>usb_regAddr := ?r, txEnable := (txEnable d)(Suc m := True), txCommand := (txCommand d)(Suc m := 3)\<rparr>"
  have e: "echo_at d1 k m vs ws c ep q n" using d by (simp add: echo_at_def d1_def)
  have f: "fifo_ok 64 (txFifo d1 m)" "fifo_contents 64 (txFifo d1 m) = ws" using e by (simp_all add: echo_at_def)
  obtain b where b: "inData d1 ep = Some b" "length b = n" using e by (auto simp: echo_at_def)
  obtain ws' f' where w': "FIFO_drain 64 n (txFifo d1 m) = (ws', f')" by fastforce
  have "ws' = ws" "fifo_ok 64 f'" "fifo_contents 64 f' = []" using fifo64_drain [OF f(1), of n] f(2) l w' by simp_all
  then have dr: "drain_tx m ep d1 = store_in ep ws (d1\<lparr>txFifo := (txFifo d1)(m := f')\<rparr>)"
    using e w' by (simp add: drain_tx_def echo_at_def)
  obtain d2 where d2: "store_in ep ws (d1\<lparr>txFifo := (txFifo d1)(m := f')\<rparr>) = Some d2" "usb_log d2 = []" "inDataOffset d2 ep = length ws"
    "usbipLastClient d2 = c" "inSeqnum d2 ep = q" "\<exists>b2. inData d2 ep = Some (ws @ b2)"
    using e b l by (cases "ws = []") (auto simp: store_in_def echo_at_def)
  have s: "send_in m ep True d1 = Some ((usb_event (Ev_reply c q ws (length ws)) d2)\<lparr>inSeqnum := (inSeqnum d2)(ep := 0)\<rparr>)"
    using d2 by (auto simp: send_in_def dr reply_in_def)
  have en: "unat (endpointControl d1 (2 * m + 1) AND 0xF) = ep" "usbipServer d1" "inSeqnum d1 ep \<noteq> 0" using e q by (simp_all add: echo_at_def)
  have "write_TXC (Suc m) 3 (d\<lparr>usb_regAddr := ?r\<rparr>) =
    do { d \<leftarrow> send_in m ep True d1; Some (if FIFO_empty (txFifo d m) then updateInterrupt (d\<lparr>txEvent := txEvent d OR bitv (Suc m)\<rparr>) else d) }"
    using en unfolding write_TXC_3 Let_def by (simp add: d1_def)
  then show ?thesis using p s d2(2) by simp
qed

lemma echo_program:
  assumes d: "echo_at d k m vs [] c ep q n" and q: "q \<noteq> 0" and l: "length vs \<le> 64" "length vs \<le> n"
  shows "\<exists>d'. prog_echo E k m (length vs) d = Some ((), d') \<and> filter (\<lambda>e. e \<noteq> Ev_irq) (usb_log d') = [Ev_reply c q vs (length vs)]"
proof -
  from read_data [OF d, of E] obtain d1 where d1: "prog_read E (of_nat (0x2D + 8 * k)) (length vs) d = Some (vs, d1)"
    "echo_at d1 k m [] [] c ep q n" by blast
  from write_data [OF d1(2), of vs E] l(1) obtain d2 where d2: "prog_write E (of_nat (0x29 + 8 * m)) vs d1 = Some d2"
    "echo_at d2 k m [] vs c ep q n" by auto
  from poke_TXC [OF d2(2) l(2) q, of E] d1(1) d2(1) show ?thesis by (auto simp: prog_echo_def)
qed

section \<open>What the requests of the host do\<close>

definition echo_ready :: "usb \<Rightarrow> nat \<Rightarrow> nat \<Rightarrow> int \<Rightarrow> int \<Rightarrow> u8 list \<Rightarrow> bool" where
  "echo_ready d k m epo epi vs \<longleftrightarrow> k < 3 \<and> m < 3 \<and>
     find_endpoint [2, 4, 6] epo d = Some (2 * k + 2) \<and> find_endpoint [1, 3, 5] epi d = Some (2 * m + 1) \<and>
     fifo_ok 64 (rxFifo d k) \<and> fifo_contents 64 (rxFifo d k) = vs \<and> fifo_ok 64 (txFifo d m) \<and> fifo_contents 64 (txFifo d m) = [] \<and>
     rxEnable d (k + 1) \<and> \<not> txEnable d (m + 1) \<and> usbipServer d"

lemma interrupt_irqs: "\<exists>es. usb_log (updateInterrupt d) = usb_log d @ es \<and> set es \<subseteq> {Ev_irq}"
  by (simp add: updateInterrupt_def usb_event_def)

lemma echo_ready_fields:
  "echo_ready d k m epo epi vs \<Longrightarrow> endpointControl d' = endpointControl d \<Longrightarrow> fifo_ok 64 (rxFifo d' k) \<Longrightarrow>
   fifo_contents 64 (rxFifo d' k) = vs' \<Longrightarrow> txFifo d' = txFifo d \<Longrightarrow> rxEnable d' = rxEnable d \<Longrightarrow> txEnable d' = txEnable d \<Longrightarrow>
   usbipServer d' = usbipServer d \<Longrightarrow> echo_ready d' k m epo epi vs'"
  by (simp add: echo_ready_def find_endpoint_def)

text \<open>Data from the host is taken, and its confirmation is addressed to the last client.\<close>

lemma out_step:
  assumes d: "echo_ready d k m epo epi []" and l: "length data \<le> 64"
  shows "\<exists>d' es. usbipOut c q epo data d = (True, d') \<and> echo_ready d' k m epo epi data \<and> usbipLastClient d' = usbipLastClient d \<and>
    usb_log d' = usb_log d @ es @ [Ev_reply (usbipLastClient d) q [] (length data)] \<and> set es \<subseteq> {Ev_irq}"
proof -
  define f where "f = fold (FIFO_push 64) data (rxFifo d k)"
  define d1 where "d1 = d\<lparr>rxFifo := (rxFifo d)(k := f), rxEvent := rxEvent d OR bitv (k + 1)\<rparr>"
  let ?e = "Ev_reply (usbipLastClient d) q [] (length data)"
  have f: "fifo_ok 64 f" "fifo_contents 64 f = data"
    using fifo64.push_list [of "rxFifo d k" data] d l by (simp_all add: f_def echo_ready_def)
  have e: "find_endpoint [2, 4, 6] epo d = Some (2 * k + 2)" "rxEnable d (k + 1)" "(2 * k + 2 - 1) div 2 = k"
    using d by (simp_all add: echo_ready_def)
  have "usbipOut c q epo data d = (True, usb_event ?e (updateInterrupt d1))"
    using e l unfolding usbipOut_def e(1) option.case Let_def e(3) by (simp add: d1_def f_def)
  moreover have "echo_ready (usb_event ?e (updateInterrupt d1)) k m epo epi data"
    by (rule echo_ready_fields [OF d]) (use f in \<open>simp_all add: d1_def usb_event_def\<close>)
  moreover obtain es where "usb_log (updateInterrupt d1) = usb_log d1 @ es" "set es \<subseteq> {Ev_irq}" using interrupt_irqs by blast
  moreover have "usbipLastClient (usb_event ?e (updateInterrupt d1)) = usbipLastClient d" by (simp add: d1_def usb_event_def)
  ultimately show ?thesis by (simp add: d1_def)
qed

lemma find_endpointD:
  "find_endpoint is ep d = Some i \<Longrightarrow> int (unat (endpointControl d i AND 0xF)) = ep"
  by (auto simp: find_endpoint_def find_Some_iff)

lemma in_step:
  assumes d: "echo_ready d k m epo epi vs"
  shows "\<exists>d'. usbipIn E c q epi n d = Some (True, d') \<and> echo_at (d'\<lparr>usb_log := []\<rparr>) k m vs [] c (nat epi) q n \<and> usb_log d' = usb_log d"
proof -
  have e: "find_endpoint [1, 3, 5] epi d = Some (2 * m + 1)" "\<not> txEnable d (m + 1)" "(2 * m + 1) div 2 = m"
    using d by (simp_all add: echo_ready_def)
  have ep: "unat (endpointControl d (2 * m + 1) AND 0xF) = nat epi" using find_endpointD [OF e(1)] by (metis nat_int)
  have "usbipIn E c q epi n d = Some (True, (new_in E (nat epi) n q d)\<lparr>usbipLastClient := c\<rparr>)"
    using e unfolding usbipIn_def e(1) option.case Let_def e(3) by (simp add: new_in_def)
  then show ?thesis using d ep by (simp add: echo_at_def echo_ready_def new_in_def)
qed

section \<open>Sockets and clients\<close>

definition client_at :: "'s usbip \<Rightarrow> nat \<Rightarrow> nat option \<Rightarrow> u8 list \<Rightarrow> u8 list \<Rightarrow> bool" where
  "client_at u c a xs out \<longleftrightarrow> find_client c u = Some \<lparr>client_fd = c, imported_device = a\<rparr> \<and>
     sock_in (socks u c) = xs \<and> sock_out (socks u c) = out \<and> sock_room (socks u c) = None"

text \<open>What the server and the sockets of the other clients have is left as it is.\<close>

definition others :: "nat \<Rightarrow> 's usbip \<Rightarrow> nat \<Rightarrow> (usbip_client option \<times> sock) option" where
  "others c u = (\<lambda>x. if x = c then None else Some (find_client x u, socks u x))"

abbreviation same_devices :: "nat \<Rightarrow> 's usbip \<Rightarrow> 's usbip \<Rightarrow> bool" where
  "same_devices c u u' \<equiv> user u' = user u \<and> devs u' = devs u \<and> device_list u' = device_list u \<and> others c u' = others c u \<and>
     map client_fd (clients u') = map client_fd (clients u)"

lemma others_user [simp]: "others c (u\<lparr>user := d\<rparr>) = others c u"
  by (rule ext) (simp add: others_def find_client_def)

lemma others_sock [simp]: "others c (u\<lparr>socks := (socks u)(c := s)\<rparr>) = others c u"
  by (rule ext) (simp add: others_def find_client_def)

lemma others_client_at:
  "others c u' = others c u \<Longrightarrow> x \<noteq> c \<Longrightarrow> client_at u' x a xs out = client_at u x a xs out"
  by (drule fun_cong [of _ _ x]) (simp add: others_def client_at_def)

lemma client_at_known: "client_at u c a xs out \<Longrightarrow> c \<in> set (map client_fd (clients u))"
  by (force simp: client_at_def find_client_def find_Some_iff in_set_conv_nth)

lemma on_recv:
  assumes u: "client_at u c a (xs @ ys) out" and n: "length xs = n" "0 < n"
  shows "\<exists>u'. on_sock c (recv_all n) u = Some (Some xs, u') \<and> client_at u' c a ys out \<and> same_devices c u u'"
  using client_at_known [OF u] u n by (auto simp: on_sock_def recv_all_def client_at_def find_client_def)

lemma send_parts_all:
  "sock_room s = None \<Longrightarrow> send_parts ps s = (True, s\<lparr>sock_out := sock_out s @ concat ps\<rparr>)"
  by (induction ps arbitrary: s) (simp_all add: send_all_def Let_def)

lemma on_send:
  assumes u: "client_at u c a xs out"
  shows "\<exists>u'. on_sock c (send_parts ps) u = Some (True, u') \<and> client_at u' c a xs (out @ concat ps) \<and> same_devices c u u'"
  using client_at_known [OF u] u by (simp add: on_sock_def client_at_def find_client_def send_parts_all)

lemma send_data_reply:
  assumes u: "client_at u c a xs out" and n: "case data of None \<Rightarrow> bs = [] | Some b \<Rightarrow> n \<le> length b \<and> take n b = bs"
  shows "\<exists>u'. send_reply (Reply c q data n) u = Some u' \<and> client_at u' c a xs (out @ header_basic 3 q @ ret_submit 0 (of_nat n) @ bs) \<and>
    same_devices c u u'"
proof -
  obtain ps where ps: "reply_parts q data n = Some ps" "concat ps = header_basic 3 q @ ret_submit 0 (of_nat n) @ bs"
    using n by (cases data; cases "n = 0") (auto simp: reply_parts_def Let_def)
  then show ?thesis using on_send [OF u, of ps] by (auto simp: usbip_client_reply_def)
qed

lemma client_at_user [simp]: "client_at (u\<lparr>user := d\<rparr>) c a xs out = client_at u c a xs out"
  by (simp add: client_at_def find_client_def)

lemma delivers_reply:
  "client_at u c a xs out \<Longrightarrow> filter (\<lambda>e. e \<noteq> Ev_irq) es = map (\<lambda>(q, ws). Ev_reply c q ws (length ws)) rs \<Longrightarrow>
   \<exists>u'. usb_delivers E fd es u = Some u' \<and> others c u' = others c u \<and>
     client_at u' c a xs (out @ concat (map (\<lambda>(q, ws). header_basic 3 q @ ret_submit 0 (of_nat (length ws)) @ ws) rs))"
proof (induction es arbitrary: u out rs)
  case (Cons e es)
  show ?case
  proof (cases "e = Ev_irq")
    case True
    then show ?thesis using Cons.IH [of "u\<lparr>user := usb_event Ev_irq (user u)\<rparr>" out rs] Cons.prems by simp
  next
    case False
    with Cons.prems(2) obtain q ws rs' where r: "rs = (q, ws) # rs'" "e = Ev_reply c q ws (length ws)"
      "filter (\<lambda>e. e \<noteq> Ev_irq) es = map (\<lambda>(q, ws). Ev_reply c q ws (length ws)) rs'" by (cases rs) auto
    have "case if ws = [] then None else Some ws of None \<Rightarrow> ws = [] | Some b \<Rightarrow> length ws \<le> length b \<and> take (length ws) b = ws" by simp
    from send_data_reply [OF Cons.prems(1) this] obtain u1 where u1:
      "send_reply (Reply c q (if ws = [] then None else Some ws) (length ws)) u = Some u1"
      "client_at u1 c a xs (out @ header_basic 3 q @ ret_submit 0 (of_nat (length ws)) @ ws)" "others c u1 = others c u" by blast
    from Cons.IH [OF u1(2) r(3)] u1(1,3) show ?thesis by (simp add: r(1,2) del: send_reply.simps)
  qed
qed simp

section \<open>The messages are handled\<close>

lemma submit_received:
  assumes u: "client_at u c (Some a) (submit_message q devid dir ep len bs @ rest) out"
  shows "\<exists>u'. usbip_client_recv stale c u = handle_submit c a q dir ep u' \<and> same_devices c u u' \<and>
    client_at u' c (Some a) (htonl 0 @ htonl len @ replicate 20 0 @ bs @ rest) out"
proof -
  let ?body = "htonl 0 @ htonl len @ replicate 20 0 @ bs @ rest" and ?h = "htonl q @ htonl devid @ htonl dir @ htonl ep"
  have e: "submit_message q devid dir ep len bs @ rest = htonl 1 @ ?h @ ?body"
    by (simp add: submit_message_def numeral_eq_Suc)
  from on_recv [OF u [unfolded e], of 4] obtain u1 where u1: "on_sock c (recv_all 4) u = Some (Some (htonl 1), u1)"
    "client_at u1 c (Some a) (?h @ ?body) out" "same_devices c u u1" by auto
  from on_recv [OF u1(2), of 16] obtain u2 where u2: "on_sock c (recv_all 16) u1 = Some (Some ?h, u2)"
    "client_at u2 c (Some a) ?body out" "same_devices c u1 u2" by auto
  have n: "htonl 1 \<noteq> []" "htonl 1 @ replicate (4 - length (htonl 1)) stale = htonl 1" by (simp_all add: htonl_def)
  have c: "find_client c u1 = Some \<lparr>client_fd = c, imported_device = Some a\<rparr>" using u1(2) by (simp add: client_at_def)
  have "usbip_client_recv stale c u = handle_submit c a q dir ep u2"
    unfolding usbip_client_recv_def u1(1) Option.bind.bind_lunit prod.case option.case n Let_def c
    by (simp add: u2(1) n)
  then show ?thesis using u1(3) u2(2,3) by auto
qed

text \<open>A transfer to or from an endpoint, given what the callback answers: its replies are sent to the clients that it names.\<close>

lemma submit_transfer:
  assumes u: "client_at u c (Some a) (submit_message q devid dir ep len bs @ rest) out"
    and dir: "dir = 1 \<and> bs = [] \<or> dir = 0 \<and> length bs = unat len" and ep: "ep \<noteq> 0"
    and cb: "(if dir = 1 then map_option (\<lambda>f. f c q (sint ep) (unat len)) (dev_in (devs u a))
              else map_option (\<lambda>f. f c q (sint ep) bs) (dev_out (devs u a))) = Some f"
      "f (user u) = Some (True, rs, s)"
  shows "\<exists>u'. usbip_client_recv stale c u = map_option (Pair usbip_success) (send_replies rs (u'\<lparr>user := s\<rparr>)) \<and>
    same_devices c u u' \<and> client_at u' c (Some a) rest out"
proof -
  from submit_received [OF u] obtain u1 where u1: "usbip_client_recv stale c u = handle_submit c a q dir ep u1" "same_devices c u u1"
    "client_at u1 c (Some a) (htonl 0 @ htonl len @ replicate 20 0 @ bs @ rest) out" by blast
  let ?b = "htonl 0 @ htonl len @ replicate 20 0"
  have "client_at u1 c (Some a) (?b @ bs @ rest) out" using u1(3) by simp
  from on_recv [OF this, of 28] obtain u2 where u2: "on_sock c (recv_all 28) u1 = Some (Some ?b, u2)"
    "client_at u2 c (Some a) (bs @ rest) out" "same_devices c u1 u2" by auto
  have l: "take 4 (drop 4 ?b) = htonl len" by simp
  obtain o2 u3 where u3: "recv_out c (dir = 1) (unat len) u2 = Some (Some o2, u3)" "client_at u3 c (Some a) rest out" "same_devices c u2 u3"
    "dir \<noteq> 1 \<Longrightarrow> (case o2 of Some d \<Rightarrow> d | None \<Rightarrow> []) = bs"
  proof (cases "dir = 1 \<or> len = 0")
    case True
    then have "bs = []" using dir by auto
    then show ?thesis using True u2(2) that [of None u2] by (auto simp: recv_out_def unat_eq_0)
  next
    case False
    then have "length bs = unat len" "0 < unat len" using dir by (auto simp: unat_gt_0)
    with on_recv [OF u2(2)] obtain u3 where "on_sock c (recv_all (unat len)) u2 = Some (Some bs, u3)" "client_at u3 c (Some a) rest out"
      "same_devices c u2 u3" by blast
    then show ?thesis using False \<open>length bs = unat len\<close> that [of "Some bs" u3] by (simp add: recv_out_def unat_eq_0)
  qed
  have d: "devs u2 a = devs u a" "user u3 = user u" using u1(2) u2(3) u3(3) by simp_all
  have f: "(if dir = 1 then map_option (\<lambda>f. f c q (sint ep) (unat len)) (dev_in (devs u a))
      else map_option (\<lambda>f. f c q (sint ep) (case o2 of Some d \<Rightarrow> d | None \<Rightarrow> [])) (dev_out (devs u a))) = Some f"
    using cb(1) u3(4) by (auto split: if_splits)
  have "callback (Some f) u3 = map_option (Pair True) (send_replies rs (u3\<lparr>user := s\<rparr>))"
    using cb(2) d(2) by (cases "send_replies rs (u3\<lparr>user := s\<rparr>)") (simp_all add: callback_def)
  then have "handle_submit c a q dir ep u1 = map_option (Pair usbip_success) (send_replies rs (u3\<lparr>user := s\<rparr>))"
    unfolding handle_submit_def u2(1) Option.bind.bind_lunit prod.case Let_def option.sel l ntohl_htonl d(1) u3(1) option.case f
    using ep by (cases "send_replies rs (u3\<lparr>user := s\<rparr>)") simp_all
  then show ?thesis using u1(1,2) u2(3) u3(2,3) by auto
qed

section \<open>Importing a device\<close>

definition import_message :: "int \<Rightarrow> u8 list" where
  "import_message num = htons 0x111 @ htons 0x8003 @ replicate 4 0 @ pad_to 32 (ascii ''1-'' @ dec_int num)"

lemma digit_of_10: "digit_of 10 b \<noteq> None \<longleftrightarrow> is_dec b"
  by (auto simp: digit_of_def is_dec_def word_le_nat_alt Let_def simp del: of_nat_unat)

lemma digit_of_dec: "is_dec b \<Longrightarrow> the (digit_of 10 b) = int (unat b) - 48"
  by (auto simp: digit_of_def is_dec_def word_le_nat_alt Let_def simp del: of_nat_unat)

lemma scan_int_dec:
  assumes n: "0 < n" and r: "r = [] \<or> \<not> is_dec (hd r)" shows "scan_int (dec n @ r) = Some (int n, r)"
proof -
  obtain b bs where b: "dec n = b # bs" "is_dec b" using dec_ok [of n] by (cases "dec n") auto
  have nz: "b \<noteq> 48" using dec_first [OF n] b(1) by simp
  have dp: "(\<lambda>b. digit_of 10 b \<noteq> None) = is_dec" by (intro ext) (rule digit_of_10)
  have all: "\<forall>b \<in> set (dec n). is_dec b" using dec_ok [of n] by simp
  have tk: "takeWhile is_dec (dec n @ r) = dec n" "dropWhile is_dec (dec n @ r) = r"
    using all r by (cases r; simp add: takeWhile_append dropWhile_append)+
  have v: "foldl (\<lambda>v b. v * 10 + the (digit_of 10 b)) 0 (dec n) = int n"
  proof -
    have "foldl (\<lambda>v b. v * 10 + the (digit_of 10 b)) w ds = foldl (\<lambda>v b. v * 10 + (int (unat b) - 48)) w ds" if "\<forall>b \<in> set ds. is_dec b" for w ds
      using that by (induction ds arbitrary: w) (simp_all add: digit_of_dec)
    then show ?thesis using dec_ok [of n] by (simp add: dec_value_def)
  qed
  have s: "scan_digits 10 (dec n @ r) = Some (int n, r)"
    unfolding scan_digits_def dp tk Let_def v using b(1) by simp
  have "dropWhile is_space (dec n @ r) = dec n @ r" using dec_byte [OF b(2)] b(1) by simp
  then show ?thesis using s b nz dec_byte [OF b(2)] by (simp add: scan_int_def)
qed

lemma scan_import:
  assumes "0 < k" "k < 2 ^ 31"
  shows "scan_busid (pad_to 32 (ascii ''1-'' @ dec_int (int k))) = Some (Some (1, int k))"
proof -
  have d: "dec_int (int k) = dec k" using assms(1) by (simp add: dec_int_def)
  have "k < 10 ^ 10" using assms(2) by simp
  then have l: "length (dec k) \<le> 10" by (rule dec_length) simp
  have one: "dec (Suc 0) = [49]" by (subst dec.simps) simp
  let ?s = "dec 1 @ 45 # dec k"
  have s: "ascii ''1-'' @ dec k = ?s" by (simp add: one ascii_def)
  have nz: "\<forall>b \<in> set ?s. b \<noteq> 0"
    using dec_ok [of k] by (auto simp: one is_dec_def)
  have p: "pad_to 32 (ascii ''1-'' @ dec_int (int k)) = ?s @ replicate (30 - length (dec k)) 0"
    unfolding d s pad_to_def by (simp add: one)
  have z: "30 - length (dec k) \<noteq> 0" using l by simp
  have w: "takeWhile (\<lambda>c. c \<noteq> 0) (?s @ replicate (30 - length (dec k)) 0) = ?s"
    using nz z by (simp add: takeWhile_append2 takeWhile_replicate)
  have "scan_int ?s = Some (1, 45 # dec k)" using scan_int_dec [of 1 "45 # dec k"] by (simp add: is_dec_def)
  moreover have "scan_int (dec k) = Some (int k, [])" using scan_int_dec [of k "[]"] assms(1) by simp
  moreover have "0 \<in> set (?s @ replicate (30 - length (dec k)) 0)" using z by simp
  ultimately show ?thesis unfolding p scan_busid_def w by simp
qed

lemma import_received:
  assumes u: "client_at u c None (import_message (int k) @ rest) out" and k: "0 < k" "k < 2 ^ 31"
    and a: "find (\<lambda>a. dev_num (devs u a) = int k) (device_list u) = Some a" and rep: "fill_dev_reply (devs u a) = Some rep"
  shows "\<exists>u'. usbip_client_recv stale c u = Some (usbip_success, u') \<and> same_devices c u u' \<and>
    client_at u' c (Some a) rest (out @ import_header 0 @ rep)"
proof -
  let ?h = "htons 0x111 @ htons 0x8003" and ?b = "replicate 4 0 @ pad_to 32 (ascii ''1-'' @ dec_int (int k))"
  have lb: "length ?b = 36"
  proof -
    have "k < 10 ^ 10" using k(2) by simp
    from dec_length [OF this] show ?thesis using k(1) by (simp add: pad_to_def ascii_def dec_int_def)
  qed
  have h: "length ?h = 4" "?h \<noteq> []" "?h @ replicate (4 - length ?h) stale = ?h" "u16_of (?h ! 1) (?h ! 0) = 0x111" "u16_of (?h ! 3) (?h ! 2) = 0x8003"
    by (simp_all add: htons_def u16_of_def)
  from on_recv [of u c None ?h "?b @ rest"] u h(1) obtain u1 where u1: "on_sock c (recv_all 4) u = Some (Some ?h, u1)"
    "client_at u1 c None (?b @ rest) out" "same_devices c u u1" by (auto simp: import_message_def)
  from on_recv [OF u1(2) lb] obtain u2 where u2: "on_sock c (recv_all 36) u1 = Some (Some ?b, u2)"
    "client_at u2 c None rest out" "same_devices c u1 u2" by auto
  define u3 where "u3 = set_imported c a u2"
  have c3: "client_at u3 c (Some a) rest out"
  proof -
    have "find (\<lambda>x. client_fd x = c) (map (\<lambda>x. if client_fd x = c then x\<lparr>imported_device := Some a\<rparr> else x) cs) =
        map_option (\<lambda>x. x\<lparr>imported_device := Some a\<rparr>) (find (\<lambda>x. client_fd x = c) cs)" for cs :: "usbip_client list"
      by (induction cs) simp_all
    then show ?thesis using u2(2) by (simp add: client_at_def find_client_def u3_def set_imported_def)
  qed
  have f3: "find_client x u3 = find_client x u2" if "x \<noteq> c" for x
  proof -
    have "find (\<lambda>y. client_fd y = x) (map (\<lambda>y. if client_fd y = c then y\<lparr>imported_device := Some a\<rparr> else y) cs) =
        find (\<lambda>y. client_fd y = x) cs" for cs :: "usbip_client list" using that by (induction cs) auto
    then show ?thesis by (simp add: find_client_def u3_def set_imported_def)
  qed
  have s3: "same_devices c u2 u3"
    using f3 by (auto simp: others_def fun_eq_iff) (simp_all add: u3_def set_imported_def comp_def if_distrib cong: if_cong)
  from on_send [OF c3, of "[import_header 0, rep]"] obtain u4 where u4: "on_sock c (send_parts [import_header 0, rep]) u3 = Some (True, u4)"
    "client_at u4 c (Some a) rest (out @ import_header 0 @ rep)" "same_devices c u3 u4" by auto
  have c1: "find_client c u1 = Some \<lparr>client_fd = c, imported_device = None\<rparr>" using u1(2) by (simp add: client_at_def)
  have g3: "find_client c u3 = Some \<lparr>client_fd = c, imported_device = Some a\<rparr>" using c3 by (simp add: client_at_def)
  have ids: "scan_busid (drop 4 ?b) = Some (Some (1, int k))" using scan_import [OF k] by simp
  have "handle_import c u1 = Some (usbip_success, u4)"
    unfolding handle_import_def u2(1) Option.bind.bind_lunit prod.case option.sel ids option.case Let_def
    using a rep lb u1(3) u2(3) s3 u4(1) g3 by (simp add: u3_def socket_result_def)
  then have "usbip_client_recv stale c u = Some (usbip_success, u4)"
    unfolding usbip_client_recv_def u1(1) Option.bind.bind_lunit prod.case option.case h(3) Let_def c1 h(4,5)
    using h(2) by simp
  then show ?thesis using u4 u1(3) u2(3) s3 by auto
qed

section \<open>A host, the server, the controller and a program\<close>

definition exported :: "usb_env \<Rightarrow> usb usbip \<Rightarrow> bool" where
  "exported E u \<longleftrightarrow> (\<exists>dev cfg x num. devs u 0 = (usb_export E dev cfg x)\<lparr>dev_num := num\<rparr>)"

lemma send_one [simp]: "send_replies [r] u = send_reply r u"
  by (cases "send_reply r u") simp_all

text \<open>Data for the device: taken, and then confirmed to the last client that asked for input.\<close>

lemma host_out:
  assumes u: "client_at u c (Some 0) (submit_message q devid 0 ep (of_nat (length data)) data @ rest) out" and e: "exported E u"
    and ready: "echo_ready (user u) k m (sint ep) epi []" and ep: "ep \<noteq> 0" and n: "length data \<le> 64"
  shows "\<exists>u'. usbip_client_recv stale c u =
      map_option (Pair usbip_success) (send_reply (Reply (usbipLastClient (user u)) q None (length data)) u') \<and>
    exported E u' \<and> echo_ready (user u') k m (sint ep) epi data \<and> others c u' = others c u \<and>
    map client_fd (clients u') = map client_fd (clients u) \<and> client_at u' c (Some 0) rest out"
proof -
  let ?l = "usbipLastClient (user u)"
  have l: "unat (of_nat (length data) :: u32) = length data" using n by (simp add: unat_of_nat take_bit_nat_eq_self)
  have "echo_ready ((user u)\<lparr>usb_log := []\<rparr>) k m (sint ep) epi []" using ready by (simp add: echo_ready_def find_endpoint_def)
  from out_step [OF this n, where c = c and q = q] obtain d es where d: "usbipOut c q (sint ep) data ((user u)\<lparr>usb_log := []\<rparr>) = (True, d)"
    "echo_ready d k m (sint ep) epi data" "usb_log d = es @ [Ev_reply ?l q [] (length data)]" "set es \<subseteq> {Ev_irq}" by auto
  have es: "filter (\<lambda>e. usb_reply e \<noteq> None) es = []" using d(4) by (induction es) auto
  define d' where "d' = d\<lparr>usb_log := usb_log (user u) @ filter (\<lambda>e. usb_reply e = None) (usb_log d)\<rparr>"
  have "usb_answer (\<lambda>d. Some (usbipOut c q (sint ep) data d)) (user u) = Some (True, [Reply ?l q None (length data)], d')"
    using d(1,3) es by (simp add: usb_answer_def d'_def List.map_filter_def)
  with submit_transfer [OF u, of "usb_answer (\<lambda>d. Some (usbipOut c q (sint ep) data d))" "[Reply ?l q None (length data)]" d' stale] e ep l
  obtain u' where u': "usbip_client_recv stale c u =
      map_option (Pair usbip_success) (send_reply (Reply ?l q None (length data)) (u'\<lparr>user := d'\<rparr>))"
    "same_devices c u u'" "client_at u' c (Some 0) rest out"
    by (auto simp: usb_export_def exported_def simp del: send_reply.simps send_replies.simps)
  have "echo_ready d' k m (sint ep) epi data" using d(2) by (simp add: d'_def echo_ready_def find_endpoint_def)
  with u' e show ?thesis by (intro exI [of _ "u'\<lparr>user := d'\<rparr>"]) (simp add: exported_def find_client_def del: send_reply.simps)
qed

lemma host_in:
  assumes u: "client_at u c (Some 0) (submit_message q devid 1 ep (of_nat n) [] @ rest) out" and e: "exported E u"
    and ready: "echo_ready (user u) k m epo (sint ep) data" and ep: "ep \<noteq> 0" and n: "n < 2 ^ 32"
  shows "\<exists>u'. usbip_client_recv stale c u = Some (usbip_success, u') \<and> others c u' = others c u \<and>
    echo_at ((user u')\<lparr>usb_log := []\<rparr>) k m data [] c (nat (sint ep)) q n \<and> client_at u' c (Some 0) rest out"
proof -
  have l: "unat (of_nat n :: u32) = n" using n by (simp add: unat_of_nat take_bit_nat_eq_self)
  have "echo_ready ((user u)\<lparr>usb_log := []\<rparr>) k m epo (sint ep) data" using ready by (simp add: echo_ready_def find_endpoint_def)
  from in_step [OF this, where E = E and c = c and q = q and n = n] obtain d where d: "usbipIn E c q (sint ep) n ((user u)\<lparr>usb_log := []\<rparr>) = Some (True, d)"
    "echo_at (d\<lparr>usb_log := []\<rparr>) k m data [] c (nat (sint ep)) q n" "usb_log d = []" by auto
  define d' where "d' = d\<lparr>usb_log := usb_log (user u)\<rparr>"
  have "usb_answer (usbipIn E c q (sint ep) n) (user u) = Some (True, [], d')"
    using d(1,3) by (simp add: usb_answer_def d'_def List.map_filter_def)
  with submit_transfer [OF u, of "usb_answer (usbipIn E c q (sint ep) n)" "[]" d' stale] e ep l
  obtain u' where u': "usbip_client_recv stale c u = Some (usbip_success, u'\<lparr>user := d'\<rparr>)" "same_devices c u u'" "client_at u' c (Some 0) rest out"
    by (auto simp: usb_export_def exported_def)
  then show ?thesis using d(2) by (intro exI [of _ "u'\<lparr>user := d'\<rparr>"]) (simp add: d'_def)
qed

text \<open>The host asks for the data that the program sends back.\<close>

lemma host_end:
  assumes u: "client_at u c (Some 0) (submit_message q devid 1 ep (of_nat n) [] @ rest) out" and e: "exported E u"
    and ready: "echo_ready (user u) k m epo (sint ep) data" and ep: "ep \<noteq> 0" "q \<noteq> 0" and n: "length data \<le> 64" "length data \<le> n" "n < 2 ^ 32"
  shows "\<exists>u1 u2. usbip_client_recv stale c u = Some (usbip_success, u1) \<and> usb_lift E fd (prog_echo E k m (length data)) u1 = Some ((), u2) \<and>
    others c u2 = others c u \<and> client_at u2 c (Some 0) rest (out @ header_basic 3 q @ ret_submit 0 (of_nat (length data)) @ data)"
proof -
  from host_in [OF u e ready ep(1) n(3), of stale] obtain u1 where
    u1: "usbip_client_recv stale c u = Some (usbip_success, u1)" "echo_at ((user u1)\<lparr>usb_log := []\<rparr>) k m data [] c (nat (sint ep)) q n"
      "client_at u1 c (Some 0) rest out" "others c u1 = others c u" by blast
  from echo_program [OF u1(2) ep(2) n(1,2), of E] obtain d where d: "prog_echo E k m (length data) ((user u1)\<lparr>usb_log := []\<rparr>) = Some ((), d)"
    "filter (\<lambda>e. e \<noteq> Ev_irq) (usb_log d) = map (\<lambda>(q, ws). Ev_reply c q ws (length ws)) [(q, data)]" by auto
  have "client_at (u1\<lparr>user := d\<lparr>usb_log := usb_log (user u1)\<rparr>\<rparr>) c (Some 0) rest out" using u1(3) by simp
  from delivers_reply [OF this d(2), of E fd] obtain u2 where
    u2: "usb_delivers E fd (usb_log d) (u1\<lparr>user := d\<lparr>usb_log := usb_log (user u1)\<rparr>\<rparr>) = Some u2" "others c u2 = others c u1"
    "client_at u2 c (Some 0) rest (out @ header_basic 3 q @ ret_submit 0 (of_nat (length data)) @ data)" by auto
  have "usb_lift E fd (prog_echo E k m (length data)) u1 = Some ((), u2)" using d(1) u2(1) by (simp add: usb_lift_def)
  then show ?thesis using u1(1,4) u2(2,3) by auto
qed

text \<open>Three messages of the client \<open>c\<close> are handled, then the program echoes \<open>n\<close> bytes.\<close>

definition host_session :: "usb_env \<Rightarrow> nat \<Rightarrow> u8 \<Rightarrow> nat \<Rightarrow> nat \<Rightarrow> nat \<Rightarrow> nat \<Rightarrow> usb usbip \<Rightarrow> (usbip_result list \<times> usb usbip) option" where
  "host_session E fd stale c k m n u =
     do { (r1, u) \<leftarrow> usbip_client_recv stale c u; (r2, u) \<leftarrow> usbip_client_recv stale c u; (r3, u) \<leftarrow> usbip_client_recv stale c u;
          (_, u) \<leftarrow> usb_lift E fd (prog_echo E k m n) u; Some ([r1, r2, r3], u) }"


text \<open>A controller with one endpoint in each direction, exported as device 7 to two clients, 4 and 5, that have just connected.\<close>

definition session_usb :: "nat \<Rightarrow> usb" where
  "session_usb l = usb_zero\<lparr>endpointControl := (\<lambda>_. 0)(1 := 0x11, 2 := 0x12), rxEnable := (\<lambda>_. True), usbipServer := True, usbipLastClient := l\<rparr>"

definition session_world :: "u8 list \<Rightarrow> nat \<Rightarrow> usb usbip" where
  "session_world input l =
     \<lparr>user = session_usb l,
      socks = (\<lambda>x. \<lparr>sock_in = (if x = 4 then input else []), sock_fails = False, sock_out = [], sock_room = None\<rparr>),
      devs = (\<lambda>_. (usb_export usb_env_example (replicate 18 9) (9 # replicate 8 0)
        \<lparr>device_descriptor = [], config_descriptor = [], dev_speed = 0, dev_num = 0, dev_get_descriptor = None,
         dev_control_request = None, dev_in = None, dev_out = None, dev_unlink = None\<rparr>)\<lparr>dev_num := 7\<rparr>),
      device_list = [0], num_devices = 1, next_dev_num = 8, server_fd = 3,
      clients = [\<lparr>client_fd = 5, imported_device = None\<rparr>, \<lparr>client_fd = 4, imported_device = None\<rparr>],
      sock_set = [5, 4, 3], max_set_fd = 5\<rparr>"

abbreviation session_input :: "u8 list" where
  "session_input \<equiv> import_message (int 7) @ submit_message 5 0 0 2 (of_nat (length [10, 20 :: u8])) [10, 20] @
     submit_message 6 0 1 1 (of_nat 64) [] @ []"

abbreviation session_answer :: "u8 list" where
  "session_answer \<equiv> header_basic 3 6 @ ret_submit 0 (of_nat (length [10, 20 :: u8])) @ [10, 20]"

abbreviation session_conf :: "u8 list" where
  "session_conf \<equiv> header_basic 3 5 @ ret_submit 0 (of_nat (length [10, 20 :: u8]))"

lemma session_example:
  "client_at (session_world session_input l) 4 None session_input []" "client_at (session_world session_input l) 5 None [] []"
  "echo_ready (user (session_world session_input l)) 0 0 (sint (2 :: u32)) (sint (1 :: u32)) []"
proof -
  show "client_at (session_world session_input l) 4 None session_input []" "client_at (session_world session_input l) 5 None [] []"
    by (simp_all add: client_at_def find_client_def session_world_def)
  have e: "fifo_ok 64 (rxFifo (session_usb l) 0)" "fifo_contents 64 (rxFifo (session_usb l) 0) = []" "fifo_ok 64 (txFifo (session_usb l) 0)"
    "fifo_contents 64 (txFifo (session_usb l) 0) = []"
    by (simp_all add: session_usb_def usb_zero_def Let_def fifo_ok_def fifo_contents_def FIFO_getFilled_def)
  show "echo_ready (user (session_world session_input l)) 0 0 (sint (2 :: u32)) (sint (1 :: u32)) []"
    using e by (simp add: echo_ready_def session_world_def) (simp add: find_endpoint_def session_usb_def usb_zero_def Let_def)
qed


end
