(* ===== verification/Machine.thy ===== *)
theory Machine
  imports H8Safety LCDDriver KeyboardDevice PCF8593 DS2401 FrontPorts FrontImages BootSerial RFSerial USBSystem
begin

text \<open>
  \<open>emu2/Main.cpp\<close>: both models of the machine, put together from the CPU and its devices, the
  options, what happens before the first instruction, and the loop of the emulator, one frame after the other.  The windows, the
  audio device and the events of SDL, the files, the sockets and the clock of the host are arguments.
\<close>

section \<open>The devices of a machine\<close>

text \<open>
  The flash chips are the internal one and the two of the expansion, which exist if \<open>cart\<close> is set.
  \<open>rf_sent\<close> holds the datagrams that the radio has sent.
\<close>

record machine =
  lcd_dev :: lcd
  ext_ram :: memory
  flash_rom :: memory
  cart_ram :: memory
  xtreme_keys :: "16 matrix"
  classic_keys :: "8 matrix"
  rtc_dev :: rtc
  sound_dev :: sound
  usb_dev :: "usb usbip"
  serial_no :: ds2401
  cart :: bool
  flash_chips :: "nat \<Rightarrow> flash"
  boot_dev :: boot_serial
  rf_dev :: rf_serial
  rf_sent :: "u8 list list"

text \<open>The pointers to the devices are numbers.\<close>

abbreviation D_lcd :: nat where "D_lcd \<equiv> 0"
abbreviation D_usb :: nat where "D_usb \<equiv> 1"
abbreviation D_ram :: nat where "D_ram \<equiv> 2"
abbreviation D_flash :: nat where "D_flash \<equiv> 3"
abbreviation D_cartRAM :: nat where "D_cartRAM \<equiv> 4"
abbreviation D_xtremeKeys :: nat where "D_xtremeKeys \<equiv> 5"
abbreviation D_classicKeys :: nat where "D_classicKeys \<equiv> 6"
abbreviation D_sound :: nat where "D_sound \<equiv> 7"
abbreviation D_serialNo :: nat where "D_serialNo \<equiv> 8"
abbreviation D_portA :: nat where "D_portA \<equiv> 9"
abbreviation D_rtc :: nat where "D_rtc \<equiv> 10"
abbreviation D_port1 :: nat where "D_port1 \<equiv> 11"
abbreviation D_port2 :: nat where "D_port2 \<equiv> 12"
abbreviation D_port3 :: nat where "D_port3 \<equiv> 13"
abbreviation D_portF :: nat where "D_portF \<equiv> 14"
abbreviation D_boot :: nat where "D_boot \<equiv> 15"
abbreviation D_rf :: nat where "D_rf \<equiv> 16"
abbreviation D_serialFlash :: nat where "D_serialFlash \<equiv> 17"
abbreviation D_multiFlash :: nat where "D_multiFlash \<equiv> 18"

text \<open>The environment: that of the USB controller, the socket of its server, and the bytes that buffers hold.\<close>

record machine_env =
  me_usb :: usb_env
  me_fd :: nat
  me_sd :: "u8 list"

text \<open>An operation of the USB controller, with the interrupts that it raises.\<close>

definition usb_irqs :: "machine \<Rightarrow> nat list \<times> machine" where
  "usb_irqs w = (let u = usb_dev w; d = user u in (map (\<lambda>_. 1) (filter (\<lambda>e. e = Ev_irq) (usb_log d)), w\<lparr>usb_dev := u\<lparr>user := d\<lparr>usb_log := []\<rparr>\<rparr>\<rparr>))"

definition usb_access :: "machine_env \<Rightarrow> (usb \<Rightarrow> ('a \<times> usb) option) \<Rightarrow> machine \<Rightarrow> ('a \<times> nat list \<times> machine) option" where
  "usb_access E m w =
     do { (v, u) \<leftarrow> usb_lift (me_usb E) (me_fd E) m (usb_dev w);
          let (irqs, w) = usb_irqs (w\<lparr>usb_dev := u\<rparr>); Some (v, irqs, w) }"

definition machine_ext_read :: "machine_env \<Rightarrow> nat \<Rightarrow> u32 \<Rightarrow> machine \<Rightarrow> (u8 \<times> nat list \<times> machine) option" where
  "machine_ext_read E dev addr w =
     (if dev = D_lcd then Some (LCDDevice_read addr (lcd_dev w), [], w)
      else if dev = D_usb then usb_access E (USBDevice_read addr) w
      else if dev = D_ram then do { v \<leftarrow> MemoryDevice_read addr (ext_ram w); Some (v, [], w) }
      else if dev = D_flash then do { v \<leftarrow> MemoryDevice_read addr (flash_rom w); Some (v, [], w) }
      else if dev = D_cartRAM then do { v \<leftarrow> MemoryDevice_read addr (cart_ram w); Some (v, [], w) }
      else if dev = D_xtremeKeys then Some (XtremeKeyboardDevice_read addr (xtreme_keys w), [], w)
      else if dev = D_classicKeys then Some (ClassicKeyboardDevice_read addr (classic_keys w), [], w)
      else None)"

definition machine_ext_write :: "machine_env \<Rightarrow> nat \<Rightarrow> u32 \<Rightarrow> u8 \<Rightarrow> machine \<Rightarrow> (nat list \<times> machine) option" where
  "machine_ext_write E dev addr val w =
     (if dev = D_lcd then do { d \<leftarrow> LCDDevice_write addr val (lcd_dev w); Some ([], w\<lparr>lcd_dev := d\<rparr>) }
      else if dev = D_usb
      then do { (_, irqs, w) \<leftarrow> usb_access E (\<lambda>d. map_option (Pair ()) (USBDevice_write (me_usb E) addr val d)) w; Some (irqs, w) }
      else if dev = D_ram then do { d \<leftarrow> MemoryDevice_write addr val (ext_ram w); Some ([], w\<lparr>ext_ram := d\<rparr>) }
      else if dev = D_flash then do { d \<leftarrow> MemoryDevice_write addr val (flash_rom w); Some ([], w\<lparr>flash_rom := d\<rparr>) }
      else if dev = D_cartRAM then do { d \<leftarrow> MemoryDevice_write addr val (cart_ram w); Some ([], w\<lparr>cart_ram := d\<rparr>) }
      else if dev = D_xtremeKeys then Some ([], w\<lparr>xtreme_keys := KeyboardDevice_write addr val (xtreme_keys w)\<rparr>)
      else if dev = D_classicKeys then Some ([], w\<lparr>classic_keys := KeyboardDevice_write addr val (classic_keys w)\<rparr>)
      else None)"

text \<open>Only the memories can be read through a pointer.\<close>

definition machine_memory :: "nat \<Rightarrow> machine \<Rightarrow> memory option" where
  "machine_memory dev w =
     (if dev = D_ram then Some (ext_ram w) else if dev = D_flash then Some (flash_rom w)
      else if dev = D_cartRAM then Some (cart_ram w) else None)"

definition machine_getPtr :: "nat \<Rightarrow> machine \<Rightarrow> u32 option" where
  "machine_getPtr dev w = do { d \<leftarrow> machine_memory dev w; MemoryDevice_getPtr d }"

definition machine_ptrRead :: "nat \<Rightarrow> u32 \<Rightarrow> machine \<Rightarrow> u8 option" where
  "machine_ptrRead dev i w = do { d \<leftarrow> machine_memory dev w; MemoryDevice_ptrRead i d }"

definition cart_chip :: "nat \<Rightarrow> machine \<Rightarrow> flash option" where
  "cart_chip i w = (if cart w then Some (flash_chips w (i + 1)) else None)"

definition set_chip :: "nat \<Rightarrow> flash \<Rightarrow> machine \<Rightarrow> machine" where
  "set_chip i f w = w\<lparr>flash_chips := (flash_chips w)(i := f)\<rparr>"

definition set_cart_chip :: "nat \<Rightarrow> flash option \<Rightarrow> machine \<Rightarrow> machine" where
  "set_cart_chip i f w = (case f of None \<Rightarrow> w | Some f \<Rightarrow> set_chip (i + 1) f w)"

definition machine_io_read :: "nat \<Rightarrow> u32 \<Rightarrow> machine \<Rightarrow> (u8 \<times> machine) option" where
  "machine_io_read dev time w =
     (if dev = D_sound then Some (Port1Sound_read, w)
      else if dev = D_serialNo then do { v \<leftarrow> DS2401_read (serial_no w); Some (v, w) }
      else if dev = D_portA then Some (PortA_read, w)
      else if dev = D_rtc then do { v \<leftarrow> PCF8593_read (rtc_dev w); Some (v, w) }
      else if dev = D_port1 then Some (Port1Classic_read (cart w), w)
      else if dev = D_port2 then Some (Port2Classic_read, w)
      else if dev = D_port3 then Some (Port3Classic_read, w)
      else if dev = D_portF then Some (PortFClassic_read, w)
      else None)"

definition machine_io_write :: "nat \<Rightarrow> u8 \<Rightarrow> u32 \<Rightarrow> machine \<Rightarrow> machine option" where
  "machine_io_write dev val time w =
     (if dev = D_sound then Some (w\<lparr>sound_dev := Port1Sound_write val time (sound_dev w)\<rparr>)
      else if dev = D_serialNo then Some (w\<lparr>serial_no := DS2401_write val time (serial_no w)\<rparr>)
      else if dev = D_rtc then Some (w\<lparr>rtc_dev := PCF8593_write val (rtc_dev w)\<rparr>)
      else if dev = D_port1 then do { f \<leftarrow> Port1Classic_write val (cart_chip 1 w); Some (set_cart_chip 1 f w) }
      else if dev = D_port2 then do { f \<leftarrow> Port2Classic_write val (cart_chip 0 w); Some (set_cart_chip 0 f w) }
      else if dev = D_port3 then do { f \<leftarrow> Port3Classic_write val (flash_chips w 0); Some (set_chip 0 f w) }
      else if dev = D_portA \<or> dev = D_portF then Some w
      else None)"

definition machine_io_setDirection :: "nat \<Rightarrow> u8 \<Rightarrow> u32 \<Rightarrow> machine \<Rightarrow> machine option" where
  "machine_io_setDirection dev dir time w =
     (if dev = D_serialNo then Some (w\<lparr>serial_no := DS2401_setDirection dir time (serial_no w)\<rparr>)
      else if dev = D_rtc then Some (w\<lparr>rtc_dev := PCF8593_setDirection dir (rtc_dev w)\<rparr>)
      else if dev \<in> {D_sound, D_portA, D_port1, D_port2, D_port3, D_portF} then Some w
      else None)"

definition machine_ser_read :: "nat \<Rightarrow> machine \<Rightarrow> (u8 \<times> machine) option" where
  "machine_ser_read dev w =
     (if dev = D_boot then let (v, d) = BootSerial_read (boot_dev w) in Some (v, w\<lparr>boot_dev := d\<rparr>)
      else if dev = D_rf then do { (v, d) \<leftarrow> RFSerial_read (rf_dev w); Some (v, w\<lparr>rf_dev := d\<rparr>) }
      else if dev = D_serialFlash then do { (v, f) \<leftarrow> SerialFlash_read (flash_chips w 0); Some (v, set_chip 0 f w) }
      else if dev = D_multiFlash then do { (v, fs) \<leftarrow> multi_read [0, 1, 2] (flash_chips w); Some (v, w\<lparr>flash_chips := fs\<rparr>) }
      else None)"

definition machine_ser_write :: "machine_env \<Rightarrow> nat \<Rightarrow> u8 \<Rightarrow> machine \<Rightarrow> machine option" where
  "machine_ser_write E dev val w =
     (if dev = D_boot then do { d \<leftarrow> BootSerial_write (me_sd E) val (boot_dev w); Some (w\<lparr>boot_dev := d\<rparr>) }
      else if dev = D_rf
      then do { (out, d) \<leftarrow> RFSerial_write val (rf_dev w);
                Some (w\<lparr>rf_dev := d, rf_sent := (case out of None \<Rightarrow> rf_sent w | Some bs \<Rightarrow> rf_sent w @ [bs])\<rparr>) }
      else if dev = D_serialFlash then do { f \<leftarrow> SerialFlash_write val (flash_chips w 0); Some (set_chip 0 f w) }
      else if dev = D_multiFlash then do { fs \<leftarrow> multi_write val [0, 1, 2] (flash_chips w); Some (w\<lparr>flash_chips := fs\<rparr>) }
      else None)"

definition machine_ser_canRead :: "nat \<Rightarrow> machine \<Rightarrow> bool" where
  "machine_ser_canRead dev w \<longleftrightarrow>
     (if dev = D_boot then BootSerial_canRead (boot_dev w)
      else if dev = D_rf then RFSerial_canRead (rf_dev w)
      else if dev = D_serialFlash then SerialFlash_canRead (flash_chips w 0)
      else if dev = D_multiFlash then multi_canRead [0, 1, 2] (flash_chips w)
      else False)"

definition machine_devices :: "machine_env \<Rightarrow> machine devices" where
  "machine_devices E = \<lparr>ext_read = machine_ext_read E, ext_write = machine_ext_write E, ext_getPtr = machine_getPtr,
     ext_ptrRead = machine_ptrRead, io_read = machine_io_read, io_write = machine_io_write,
     io_setDirection = machine_io_setDirection, ser_read = machine_ser_read, ser_write = machine_ser_write E,
     ser_canRead = machine_ser_canRead\<rparr>"


section \<open>Options\<close>

text \<open>An empty name is an option that is not given.\<close>

record options =
  opt_xtreme :: bool
  opt_boot :: string
  opt_port :: string
  opt_cyID :: string
  opt_usbip :: bool
  opt_mp3SD :: bool
  opt_expCart :: bool
  opt_benchmark :: bool
  opt_cycles :: int

definition no_options :: options where
  "no_options = \<lparr>opt_xtreme = True, opt_boot = [], opt_port = [], opt_cyID = [], opt_usbip = False, opt_mp3SD = False,
     opt_expCart = False, opt_benchmark = False, opt_cycles = 0\<rparr>"

definition option_flag :: "string \<Rightarrow> options \<Rightarrow> options" where
  "option_flag x a =
     (if x = ''--classic'' then a\<lparr>opt_xtreme := False\<rparr> else if x = ''--usbip'' then a\<lparr>opt_usbip := True\<rparr>
      else if x = ''--mp3-sd'' then a\<lparr>opt_mp3SD := True\<rparr> else if x = ''--exp-cart'' then a\<lparr>opt_expCart := True\<rparr> else a)"

abbreviation clockFreq :: int where "clockFreq \<equiv> 18432000"

definition int64 :: "int \<Rightarrow> int" where
  "int64 i = sint (word_of_int i :: u64)"

text \<open>\<open>None\<close> is the exception of \<open>std::stoi\<close>.  An identifier is cut or filled to seven characters.\<close>

fun parse_options :: "string list \<Rightarrow> options \<Rightarrow> options option" where
  "parse_options [] a = Some a"
| "parse_options [x] a = Some (option_flag x a)"
| "parse_options (x # y # r) a =
     (if x = ''--boot'' then parse_options r (a\<lparr>opt_boot := y\<rparr>)
      else if x = ''--attach-serial'' then parse_options r (a\<lparr>opt_port := y\<rparr>)
      else if x = ''--benchmark-time''
      then do { n \<leftarrow> stoi (ascii y); parse_options r (a\<lparr>opt_benchmark := True, opt_cycles := int64 (clockFreq * n)\<rparr>) }
      else if x = ''--cyid'' then parse_options r (a\<lparr>opt_cyID := take 7 y @ replicate (7 - length y) CHR ''A''\<rparr>)
      else parse_options (y # r) (option_flag x a))"

definition main_options :: "string list \<Rightarrow> options option" where
  "main_options args =
     do { a \<leftarrow> parse_options args no_options;
          Some (if opt_cyID a = [] then a\<lparr>opt_cyID := (if opt_xtreme a then ''FAKECYB'' else ''FAKECYA'')\<rparr> else a) }"

section \<open>Construction\<close>

text \<open>
  What C++ leaves uninitialised, numbered so that no two members share a value, and the sockets of the radio.
\<close>

record stale =
  st_byte :: "nat \<Rightarrow> u8"
  st_mem :: "nat \<Rightarrow> nat \<Rightarrow> u8"
  st_nat :: "nat \<Rightarrow> nat"
  st_int :: "nat \<Rightarrow> int"
  st_time :: host_time
  st_usb :: "usb usbip"
  st_tables :: rs_tables
  st_recv :: bool
  st_send :: bool
  st_adc :: "nat \<Rightarrow> u16"

definition stale_array :: "(nat \<Rightarrow> u8) \<Rightarrow> nat \<Rightarrow> u8 list" where
  "stale_array m n = map m [0..<n]"

definition machine_parts :: "stale \<Rightarrow> options \<Rightarrow> machine" where
  "machine_parts S a =
     (let xtreme = opt_xtreme a; b = st_byte S; m = st_mem S
      in \<lparr>lcd_dev = LCDDevice_new (b 0),
          ext_ram = MemoryDevice_new (if xtreme then 0x1FFFFF else 0x3FFFF) False,
          flash_rom = MemoryDevice_new (if xtreme then 0x7FFFF else 0x3FFFF) False,
          cart_ram = MemoryDevice_new 0x3FFFF False, xtreme_keys = XtremeKeyboardDevice_new, classic_keys = ClassicKeyboardDevice_new,
          rtc_dev = PCF8593_new (if xtreme then 6 else 0) 1 (st_nat S 0) (b 1) (b 2) (st_time S),
          sound_dev = Port1Sound_new (stale_array (m 0) 512), usb_dev = st_usb S, serial_no = DS2401_new (b 3) (st_nat S 1) (st_int S 0),
          cart = (\<not> xtreme \<and> opt_expCart a), flash_chips = (\<lambda>i. SerialFlash_new (m (3 * i + 9)) (m (3 * i + 10)) (m (3 * i + 11))),
          boot_dev = BootSerial_new (if xtreme then 1 else 2) (SDCard_new (m 1) (m 2)) (stale_array (m 3) 521),
          rf_dev = RFSerial_new (st_recv S) (st_send S) (m 4) (st_tables S) (stale_array (m 5) 21) (stale_array (m 6) 81) (stale_array (m 7) 16),
          rf_sent = []\<rparr>)"

text \<open>The constructor of the USB controller resets it.\<close>

definition machine_new :: "machine_env \<Rightarrow> stale \<Rightarrow> options \<Rightarrow> (nat list \<times> machine) option" where
  "machine_new E S a = map_option snd (usb_access E (\<lambda>d. map_option (Pair ()) (USBDevice_reset (me_usb E) d)) (machine_parts S a))"

definition machine_cpu :: "stale \<Rightarrow> nat list \<times> machine \<Rightarrow> machine cpu" where
  "machine_cpu S = (\<lambda>(irqs, w). raise_irqs irqs
     (init_cpu (st_byte S 4) (st_byte S 5) (st_mem S 8) (st_adc S) (\<lambda>i. st_int S (2 * i + 1)) (\<lambda>i. st_int S (2 * i + 2)) w))"

definition attach_xtreme :: "machine devices \<Rightarrow> machine cpu \<Rightarrow> machine cpu" where
  "attach_xtreme D c =
     (let c = setExternalArea D 0 D_lcd c; c = setExternalArea D 1 D_usb c; c = setExternalArea D 2 D_ram c;
          c = setExternalArea D 3 D_flash c; c = setExternalArea D 7 D_xtremeKeys c;
          c = IOPort_addDevice 0 D_sound c; c = IOPort_addDevice 5 D_serialNo c; c = IOPort_addDevice 9 D_portA c;
          c = IOPort_addDevice 14 D_rtc c; c = Serial_setDevice 1 D_boot c
      in Serial_setDevice 2 D_rf c)"

definition attach_classic :: "machine devices \<Rightarrow> bool \<Rightarrow> machine cpu \<Rightarrow> machine cpu" where
  "attach_classic D expCart c =
     (let c = setExternalArea D 0 D_flash c; c = setExternalArea D 1 D_ram c; c = setExternalArea D 3 D_lcd c;
          c = setExternalArea D 7 D_classicKeys c; c = (if expCart then setExternalArea D 2 D_cartRAM c else c);
          c = Serial_setDevice 0 D_rf c; c = Serial_setDevice 2 D_boot c;
          c = (if expCart then IOPort_addDevice 1 D_port2 (Serial_setDevice 1 D_multiFlash c) else Serial_setDevice 1 D_serialFlash c);
          c = IOPort_addDevice 0 D_port1 c; c = IOPort_addDevice 2 D_port3 c; c = IOPort_addDevice 14 D_rtc c
      in IOPort_addDevice 14 D_portF c)"

section \<open>Before the first instruction\<close>

definition on_world :: "(machine \<Rightarrow> machine) \<Rightarrow> machine cpu \<Rightarrow> machine cpu" where
  "on_world f c = c\<lparr>world := f (world c)\<rparr>"

text \<open>The files, what can be read from the serial port of the host, and the time of the host.\<close>

record host =
  h_files :: "string \<Rightarrow> u8 list option"
  h_port :: "string \<Rightarrow> u8 list option"
  h_timestamp :: u32
  h_dataPath :: string

definition device_path :: "host \<Rightarrow> options \<Rightarrow> string" where
  "device_path h a = h_dataPath h @ opt_cyID a @ ''/''"

definition load_memory :: "u8 list option \<Rightarrow> memory \<Rightarrow> memory" where
  "load_memory file d = snd (MemoryDevice_loadFile file 0 d)"

text \<open>The result of the program is an exit code or the CPU.\<close>

definition load_xtreme :: "machine_env \<Rightarrow> host \<Rightarrow> options \<Rightarrow> machine cpu \<Rightarrow> (int + machine cpu) option" where
  "load_xtreme E h a c =
     (let (ok, c) = loadROM (h_files h (h_dataPath h @ ''xtreme-rom.bin'')) c
      in if \<not> ok then Some (Inl 1)
         else let c = on_world (flash_rom_update (load_memory (h_files h (h_dataPath h @ ''xtreme-flash.bin'')))) c;
                  c = on_world (ext_ram_update (load_memory (h_files h (device_path h a @ ''exram.bin'')))) c
              in if opt_usbip a
                 then do { (_, irqs, w) \<leftarrow> usb_access E (\<lambda>d. map_option (Pair ()) (startEnumeration (me_usb E) d)) (world c);
                           Some (Inr (raise_irqs irqs (c\<lparr>world := w\<rparr>))) }
                 else Some (Inr c))"

definition load_chip :: "nat \<Rightarrow> u8 list option \<Rightarrow> machine \<Rightarrow> bool \<times> machine" where
  "load_chip i file w = (let (ok, f) = SerialFlash_loadFile file 0 (flash_chips w i) in (ok, set_chip i f w))"

definition load_cart :: "host \<Rightarrow> options \<Rightarrow> nat \<Rightarrow> machine \<Rightarrow> machine" where
  "load_cart h a i w =
     (let (ok, w) = load_chip (i + 1) (h_files h (device_path h a @ ''classic-flash-cart'' @ (if i = 0 then ''0'' else ''1'') @ ''.bin'')) w
      in if ok then w else set_chip (i + 1) (flash_mem_update format_pages (flash_chips w (i + 1))) w)"

definition classic_images :: "host \<Rightarrow> options \<Rightarrow> machine \<Rightarrow> machine" where
  "classic_images h a w =
     (let (ok, w) = load_chip 0 (h_files h (device_path h a @ ''classic-flash-persist.bin'')) w;
          w = (if ok then w else snd (load_chip 0 (h_files h (h_dataPath h @ ''classic-flash.bin'')) w));
          w = flash_rom_update (load_memory (h_files h (h_dataPath h @ ''classic-cyos.bin''))) w
      in if opt_expCart a then load_cart h a 1 (load_cart h a 0 w) else w)"

definition load_classic :: "host \<Rightarrow> options \<Rightarrow> machine cpu \<Rightarrow> int + machine cpu" where
  "load_classic h a c =
     (let (ok, c) = loadROM (h_files h (h_dataPath h @ ''classic-rom.bin'')) c
      in if \<not> ok then Inl 1 else Inr (on_world (classic_images h a) c))"

definition setXtremeBatteryLevel :: "u32 \<Rightarrow> machine cpu \<Rightarrow> machine cpu option" where
  "setXtremeBatteryLevel timestamp c =
     (let c = setADCValue 2 0x3B0 (setADCValue 1 0x32 c)
      in do { d \<leftarrow> setXtremeBattery timestamp (ext_ram (world c)); Some (on_world (ext_ram_update (\<lambda>_. d)) c) })"

text \<open>The serial port, the identifier, the reset, and what has to be done after it.\<close>

definition finish_start :: "host \<Rightarrow> options \<Rightarrow> machine cpu \<Rightarrow> machine cpu option" where
  "finish_start h a c =
     (let c = (if opt_boot a = [] then c else on_world (boot_dev_update (BootSerial_setBootFile (h_files h (opt_boot a)))) c);
          c = (if opt_port a = [] then c else on_world (boot_dev_update (BootSerial_attachPort (h_port h (opt_port a)))) c)
      in do { cyID \<leftarrow> cyIDFromString (opt_cyID a);
              c \<leftarrow> (if opt_xtreme a
                   then do { d \<leftarrow> setXtremeCyID cyID (flash_rom (world c)); Some (on_world (flash_rom_update (\<lambda>_. d)) c) }
                   else Some (on_world (\<lambda>w. set_chip 0 (setClassicCyID cyID (flash_chips w 0)) w) c));
              let c = reset c;
              if opt_xtreme a
              then do { c \<leftarrow> setXtremeBatteryLevel (h_timestamp h) c;
                        Some (if opt_mp3SD a
                              then on_world (boot_dev_update (boot_sd_update (SDCard_setFile (h_files h (device_path h a @ ''sdcard.bin''))))) (setADCValue 3 0 c)
                              else c) }
              else Some c })"

definition main_start :: "machine_env \<Rightarrow> stale \<Rightarrow> host \<Rightarrow> options \<Rightarrow> (int + machine cpu) option" where
  "main_start E S h a =
     do { m \<leftarrow> machine_new E S a;
          let c = machine_cpu S m;
          let D = machine_devices E;
          r \<leftarrow> (if opt_xtreme a then load_xtreme E h a (attach_xtreme D c)
               else Some (load_classic h a (attach_classic D (opt_expCart a) c)));
          case r of Inl code \<Rightarrow> Some (Inl code) | Inr c \<Rightarrow> map_option Inr (finish_start h a c) }"

section \<open>The loop\<close>

datatype sdl_event = Key nat bool | Quit

text \<open>What a frame finds: the time, the counter of the host, the events, and what the sockets are ready for.\<close>

record frame =
  f_time :: host_time
  f_counter :: u64
  f_events :: "sdl_event list"
  f_readable :: "nat list option"
  f_accepted :: "(nat \<times> sock) option"
  f_datagram :: "u8 list option"

record emulator =
  em_cpu :: "machine cpu"
  em_running :: bool
  em_lastTime :: u64
  em_benchmark :: int
  em_screen :: "nat \<Rightarrow> u8"

text \<open>A key moves the matrix of the model; on the Xtreme it also raises an interrupt.\<close>

definition key_event :: "bool \<Rightarrow> nat \<Rightarrow> bool \<Rightarrow> machine cpu \<Rightarrow> machine cpu option" where
  "key_event xtreme scancode down c =
     (if xtreme
      then do { m \<leftarrow> XtremeKeyboardDevice_updateKey scancode down (xtreme_keys (world c));
                Some (externalInterrupt 5 (on_world (xtreme_keys_update (\<lambda>_. m)) c)) }
      else do { m \<leftarrow> ClassicKeyboardDevice_updateKey scancode down (classic_keys (world c));
                Some (on_world (classic_keys_update (\<lambda>_. m)) c) })"

fun sdl_events :: "bool \<Rightarrow> sdl_event list \<Rightarrow> bool \<times> machine cpu \<Rightarrow> (bool \<times> machine cpu) option" where
  "sdl_events xtreme [] s = Some s"
| "sdl_events xtreme (Key scancode down # es) (running, c) =
     do { c \<leftarrow> key_event xtreme scancode down c; sdl_events xtreme es (running, c) }"
| "sdl_events xtreme (Quit # es) (running, c) = sdl_events xtreme es (False, c)"

text \<open>The cycles to run for the time that has passed, and the time that they stand for; half of them are run when the emulator is slow.\<close>

definition frame_cycles :: "u64 \<Rightarrow> u64 \<Rightarrow> u64 \<Rightarrow> u64 \<times> u64" where
  "frame_cycles freq now lastTime =
     (let cpuCycles = ((now - lastTime) * 18432000) div freq in (cpuCycles, lastTime + (cpuCycles * freq) div 18432000))"

definition slow_cycles :: "u64 \<Rightarrow> u64" where
  "slow_cycles n = (if n > 18432000 div 30 then n div 2 else n)"

definition usbipUpdate :: "machine_env \<Rightarrow> nat list option \<Rightarrow> (nat \<times> sock) option \<Rightarrow> machine cpu \<Rightarrow> machine cpu option" where
  "usbipUpdate E readable accepted c =
     (let u = usb_dev (world c)
      in if \<not> usbipServer (user u) then Some c
         else do { (_, u) \<leftarrow> usbip_server_update (env_stale (me_usb E)) readable accepted u;
                   let (irqs, w) = usb_irqs ((world c)\<lparr>usb_dev := u\<rparr>); Some (raise_irqs irqs (c\<lparr>world := w\<rparr>)) })"

text \<open>
  A frame ends the loop when the CPU stops, without the rest of the frame; the first result tells
  that.  Division by a frequency of 0 is not possible, SDL never reports it.
\<close>

definition main_frame :: "machine_env \<Rightarrow> options \<Rightarrow> u64 \<Rightarrow> u8 list \<Rightarrow> frame \<Rightarrow> emulator \<Rightarrow> (bool \<times> emulator) option" where
  "main_frame E a freq datagram_buf f em =
     (let D = machine_devices E;
          c = on_world (rtc_dev_update (PCF8593_updateTime (f_time f))) (em_cpu em);
          (cpuCycles, lastTime) = frame_cycles freq (f_counter f) (em_lastTime em)
      in do { (running, c) \<leftarrow> sdl_events (opt_xtreme a) (f_events f) (em_running em, c);
              let cpuCycles = slow_cycles cpuCycles;
              (ok, c) \<leftarrow> executeCycles D (int32 (uint cpuCycles)) c;
              if \<not> ok then Some (True, em\<lparr>em_cpu := c, em_running := running, em_lastTime := lastTime\<rparr>)
              else do {
                let c = (if \<not> getTPUStarted 1 c \<and> opt_xtreme a
                         then on_world (sound_dev_update (Port1Sound_updateAudio (clock c))) c else c);
                let bench = int64 (em_benchmark em - uint cpuCycles);
                let (running, bench) = (if opt_benchmark a then (running \<and> 0 \<le> bench, bench) else (running, em_benchmark em));
                c \<leftarrow> (if opt_usbip a then usbipUpdate E (f_readable f) (f_accepted f) c else Some c);
                rf \<leftarrow> RFSerial_networkUpdate datagram_buf (f_datagram f) (rf_dev (world c));
                let c = on_world (rf_dev_update (\<lambda>_. rf)) c;
                Some (False, em\<lparr>em_cpu := c, em_running := running, em_lastTime := lastTime, em_benchmark := bench,
                                em_screen := LCDDevice_convertDisplay (lcd_dev (world c)) (em_screen em)\<rparr>) } })"

fun main_loop :: "machine_env \<Rightarrow> options \<Rightarrow> u64 \<Rightarrow> u8 list \<Rightarrow> frame list \<Rightarrow> emulator \<Rightarrow> emulator option" where
  "main_loop E a freq datagram_buf [] em = Some em"
| "main_loop E a freq datagram_buf (f # fs) em =
     (if \<not> em_running em then Some em
      else do { (stop, em) \<leftarrow> main_frame E a freq datagram_buf f em;
                if stop then Some em else main_loop E a freq datagram_buf fs em })"

text \<open>The audio device is opened on the Xtreme; the screen is black.\<close>

definition main_emulator :: "bool \<Rightarrow> u64 \<Rightarrow> options \<Rightarrow> machine cpu \<Rightarrow> emulator" where
  "main_emulator audio now a c =
     \<lparr>em_cpu = (if opt_xtreme a \<and> audio then on_world (sound_dev_update (Port1Sound_setAudioDevice True)) c else c),
      em_running = True, em_lastTime = now, em_benchmark = opt_cycles a, em_screen = (\<lambda>_. 0)\<rparr>"

text \<open>The files that are written at the end.\<close>

definition main_saves :: "host \<Rightarrow> options \<Rightarrow> machine \<Rightarrow> (string \<times> u8 list) list option" where
  "main_saves h a w =
     (if opt_benchmark a then Some []
      else if opt_xtreme a then do { bs \<leftarrow> MemoryDevice_saveFile 0 (-1) (ext_ram w); Some [(device_path h a @ ''exram.bin'', bs)] }
      else do { bs \<leftarrow> SerialFlash_saveFile 0 (-1) (flash_chips w 0);
                b0 \<leftarrow> SerialFlash_saveFile 0 (-1) (flash_chips w 1);
                b1 \<leftarrow> SerialFlash_saveFile 0 (-1) (flash_chips w 2);
                Some ((device_path h a @ ''classic-flash-persist.bin'', bs) #
                      (if opt_expCart a then [(device_path h a @ ''classic-flash-cart0.bin'', b0), (device_path h a @ ''classic-flash-cart1.bin'', b1)] else [])) })"

end
