(* ===== verification/MachineStart.thy ===== *)
theory MachineStart
  imports Machine
begin

text \<open>
  What the start of \<open>Main.cpp\<close> establishes, for any images, options and state of the host: how the
  devices are wired, what a program reads through the bus, and that the driver of the target
  library reaches the display.
\<close>

section \<open>The display on the bus of the machine\<close>

text \<open>The area of the external bus to which the display is attached.\<close>

definition lcd_area :: "bool \<Rightarrow> nat" where
  "lcd_area xtreme = (if xtreme then 0 else 3)"

definition set_lcd :: "lcd \<Rightarrow> machine cpu \<Rightarrow> machine cpu" where
  "set_lcd d = on_world (lcd_dev_update (\<lambda>_. d))"

lemma write_display:
  assumes "externalAreas c (lcd_area xtreme) = Some D_lcd" "a = LCD_INDEX xtreme \<or> a = LCD_DATA xtreme"
  shows "writeByte (machine_devices E) a v c = map_option (\<lambda>d. set_lcd d c) (lcd_bus a v (lcd_dev (world c)))"
proof -
  have "\<not> a AND 0xFFFFFF < 0x10000" "\<not> inRAM (a AND 0xFFFFFF)" "unat ((a AND 0xFFFFFF) div 0x200000) = lcd_area xtreme"
    "\<not> 0xFFFE50 \<le> a AND 0xFFFFFF" "\<not> 0xFFFF28 \<le> a AND 0xFFFFFF" "(a AND 0xFFFFFF) AND 0x1FFFFF = a AND 0x1FFFFF"
    using assms(2) by (cases xtreme; elim disjE; simp add: LCD_INDEX_def LCD_DATA_def lcd_area_def inRAM_def)+
  then show ?thesis using assms(1)
    by (cases "LCDDevice_write (a AND 0x1FFFFF) v (lcd_dev (world c))")
      (simp_all add: writeByte_def Let_def machine_devices_def machine_ext_write_def lcd_bus_def set_lcd_def on_world_def raise_irqs_def)
qed

interpretation display: lcd_host xtreme "writeByte (machine_devices E)" "\<lambda>c. lcd_dev (world c)" set_lcd
    "\<lambda>c. externalAreas c (lcd_area xtreme) = Some D_lcd" for E xtreme
  by unfold_locales (simp_all add: write_display set_lcd_def on_world_def)

section \<open>How the machine is wired\<close>

text \<open>The wires that the start puts in.\<close>

definition wires_in :: "bool \<Rightarrow> machine cpu \<Rightarrow> bool" where
  "wires_in xtreme c \<longleftrightarrow> externalAreas c (lcd_area xtreme) = Some D_lcd \<and>
     areaPtrs c 3 = (if xtreme then Some D_flash else None) \<and> (xtreme \<longrightarrow> areaMasks c 3 = 0x7FFFF) \<and>
     (xtreme \<longrightarrow> areaPtrs c 2 = Some D_ram \<and> areaMasks c 2 = 0x1FFFFF)"

lemma wires_in_cong: "wiring c' = wiring c \<Longrightarrow> wires_in xtreme c' = wires_in xtreme c"
  by (simp add: wires_in_def wiring_def)

lemma wires_in_world: "wires_in xtreme (on_world f c) = wires_in xtreme c" "wires_in xtreme (c\<lparr>world := w\<rparr>) = wires_in xtreme c"
  by (simp_all add: wires_in_def on_world_def)

text \<open>No program can change it, so it holds ever after.\<close>

definition machine_wired :: "bool \<Rightarrow> machine cpu \<Rightarrow> bool" where
  "machine_wired xtreme c \<longleftrightarrow> bus_ok c \<and> wires_in xtreme c"

lemma machine_wired_kept:
  assumes "machine_wired xtreme c" "reachable (machine_devices E) c c'" shows "machine_wired xtreme c'"
proof -
  have "wired (wiring c) c'" using wires.reachable_keeps [OF assms(2)] assms(1) by (simp add: wired_def machine_wired_def)
  then show ?thesis using assms(1) wires_in_cong [of c' c] by (simp add: wired_def machine_wired_def)
qed

lemma wiring_simps:
  "wiring (on_world f c) = wiring c" "wiring (interrupt s c) = wiring c" "wiring (externalInterrupt i c) = wiring c"
  "wiring (setADCValue ch v c) = wiring c" "wiring (reset c) = wiring c"
  by (auto simp: wiring_def on_world_def interrupt_def externalInterrupt_def setADCValue_def reset_def updateBusTimings_def Let_def)

lemma raise_irqs_wiring: "wiring (raise_irqs is c) = wiring (c :: machine cpu)"
  unfolding raise_irqs_def by (induction "is" arbitrary: c) (simp_all add: wiring_simps)

lemma raise_irqs_world: "world (raise_irqs is c) = world c"
  unfolding raise_irqs_def by (induction "is" arbitrary: c) (simp_all add: externalInterrupt_def interrupt_def Let_def)

lemma bus_ok_simps: "bus_ok (on_world f c) = bus_ok c" "bus_ok (setADCValue ch v c) = bus_ok c"
  by (simp_all add: bus_ok_def busTiming8_def busTiming16_def on_world_def setADCValue_def)

lemma wires_in_irqs: "wires_in xtreme (raise_irqs is c) = wires_in xtreme c"
  by (rule wires_in_cong) (rule raise_irqs_wiring)

lemma setExternalArea_simps:
  "externalAreas (setExternalArea D area dev c) = (externalAreas c)(area := Some dev)"
  "areaPtrs (setExternalArea D area dev c) = (if area \<noteq> 0 \<and> area \<noteq> 7
     then (areaPtrs c)(area := map_option (\<lambda>_. dev) (ext_getPtr D dev (world c))) else areaPtrs c)"
  "areaMasks (setExternalArea D area dev c) = (if area \<noteq> 0 \<and> area \<noteq> 7
     then (case ext_getPtr D dev (world c) of None \<Rightarrow> areaMasks c | Some m \<Rightarrow> (areaMasks c)(area := m)) else areaMasks c)"
  "world (setExternalArea D area dev c) = world c"
  by (auto simp: setExternalArea_def Let_def split: option.split)

lemma attached_simps:
  "externalAreas (IOPort_addDevice p dev c) = externalAreas c" "areaPtrs (IOPort_addDevice p dev c) = areaPtrs c"
  "areaMasks (IOPort_addDevice p dev c) = areaMasks c" "world (IOPort_addDevice p dev c) = world c"
  "externalAreas (Serial_setDevice i dev c) = externalAreas c" "areaPtrs (Serial_setDevice i dev c) = areaPtrs c"
  "areaMasks (Serial_setDevice i dev c) = areaMasks c" "world (Serial_setDevice i dev c) = world c"
  by (simp_all add: IOPort_addDevice_def upd_port_def Serial_setDevice_def upd_serial_def)

lemma pointer_simps:
  "ext_getPtr (machine_devices E) D_lcd w = None" "ext_getPtr (machine_devices E) D_usb w = None"
  "ext_getPtr (machine_devices E) D_ram w = MemoryDevice_getPtr (ext_ram w)"
  "ext_getPtr (machine_devices E) D_flash w = MemoryDevice_getPtr (flash_rom w)"
  "ext_getPtr (machine_devices E) D_cartRAM w = MemoryDevice_getPtr (cart_ram w)"
  by (simp_all add: machine_devices_def machine_getPtr_def machine_memory_def)

lemma attach_xtreme_wires:
  assumes "MemoryDevice_getPtr (ext_ram (world c)) = Some 0x1FFFFF" "MemoryDevice_getPtr (flash_rom (world c)) = Some 0x7FFFF"
  shows "wires_in True (attach_xtreme (machine_devices E) c)" "world (attach_xtreme (machine_devices E) c) = world c"
  using assms by (simp_all add: wires_in_def attach_xtreme_def Let_def lcd_area_def setExternalArea_simps attached_simps pointer_simps)

lemma attach_classic_wires:
  assumes "areaPtrs c 3 = None"
  shows "wires_in False (attach_classic (machine_devices E) b c)" "world (attach_classic (machine_devices E) b c) = world c"
  using assms by (simp_all add: wires_in_def attach_classic_def Let_def lcd_area_def setExternalArea_simps attached_simps pointer_simps)


section \<open>The start\<close>

lemma usb_access_frame: "usb_access E m w = Some (v, irqs, w') \<Longrightarrow> \<exists>u. w' = w\<lparr>usb_dev := u\<rparr>"
  by (auto simp: usb_access_def usb_irqs_def Let_def split: bind_splits)

text \<open>What the start needs of a new machine.\<close>

definition machine_fresh :: "options \<Rightarrow> machine \<Rightarrow> bool" where
  "machine_fresh a w \<longleftrightarrow> lcd_x (lcd_dev w) = 0 \<and>
     (opt_xtreme a \<longrightarrow> MemoryDevice_getPtr (ext_ram w) = Some 0x1FFFFF \<and> MemoryDevice_getPtr (flash_rom w) = Some 0x7FFFF)"

lemma machine_fresh_usb [simp]: "machine_fresh a (w\<lparr>usb_dev := u\<rparr>) = machine_fresh a w"
  by (simp add: machine_fresh_def)

lemma machine_new_fresh:
  assumes "machine_new E S a = Some (irqs, w)" shows "machine_fresh a w"
proof -
  from assms obtain u where "w = (machine_parts S a)\<lparr>usb_dev := u\<rparr>"
    unfolding machine_new_def using usb_access_frame by fastforce
  then show ?thesis
    by (simp add: machine_fresh_def machine_parts_def Let_def MemoryDevice_new_def MemoryDevice_getPtr_def LCDDevice_new_def)
qed

lemma machine_cpu_new: "world (machine_cpu S (irqs, w)) = w" "areaPtrs (machine_cpu S (irqs, w)) 3 = None"
proof -
  show "world (machine_cpu S (irqs, w)) = w" by (simp add: machine_cpu_def raise_irqs_world init_cpu_def)
  have "areaPtrs (raise_irqs irqs c) = areaPtrs c" for c :: "machine cpu" using raise_irqs_wiring [of irqs c] by (simp add: wiring_def)
  then show "areaPtrs (machine_cpu S (irqs, w)) 3 = None" by (simp add: machine_cpu_def init_cpu_def)
qed


lemma load_memory_ptr: "MemoryDevice_getPtr (load_memory file d) = MemoryDevice_getPtr d"
  by (simp add: load_memory_def MemoryDevice_loadFile_def MemoryDevice_getPtr_def split: option.split)

lemma loadROM_frame: "loadROM file c = (ok, c') \<Longrightarrow> \<exists>r. c' = c\<lparr>rom := r\<rparr>"
  by (auto simp: loadROM_def split: option.splits intro: exI [of _ "rom c"])

text \<open>Loading the images changes neither the wires nor the settings of the devices.\<close>

lemma load_xtreme_ok:
  assumes "load_xtreme E h a c = Some (Inr c')" "opt_xtreme a" "machine_fresh a (world c)" "wires_in True c"
  shows "machine_fresh a (world c') \<and> wires_in True c'"
proof -
  obtain ok c1 where "loadROM (h_files h (h_dataPath h @ ''xtreme-rom.bin'')) c = (ok, c1)" by fastforce
  then obtain r where r: "loadROM (h_files h (h_dataPath h @ ''xtreme-rom.bin'')) c = (ok, c\<lparr>rom := r\<rparr>)" using loadROM_frame by blast
  define c2 where "c2 = on_world (ext_ram_update (load_memory (h_files h (device_path h a @ ''exram.bin''))))
    (on_world (flash_rom_update (load_memory (h_files h (h_dataPath h @ ''xtreme-flash.bin'')))) (c\<lparr>rom := r\<rparr>))"
  have c2: "machine_fresh a (world c2)" "wires_in True c2" using assms(2-4)
    by (simp_all add: c2_def machine_fresh_def on_world_def load_memory_ptr wires_in_def)
  show ?thesis
  proof (cases "opt_usbip a")
    case False
    then show ?thesis using assms(1) r c2 by (auto simp: load_xtreme_def Let_def c2_def split: if_splits)
  next
    case True
    then obtain irqs w where "usb_access E (\<lambda>d. map_option (Pair ()) (startEnumeration (me_usb E) d)) (world c2) = Some ((), irqs, w)"
      "c' = raise_irqs irqs (c2\<lparr>world := w\<rparr>)"
      using assms(1) r by (auto simp: load_xtreme_def Let_def c2_def [symmetric] split: if_splits bind_splits)
    then show ?thesis using c2 usb_access_frame by (fastforce simp: raise_irqs_world wires_in_irqs wires_in_world)
  qed
qed


lemma set_chip_frame [simp]: "lcd_dev (set_chip i f w) = lcd_dev w"
  by (simp add: set_chip_def)

lemma load_chip_frame: "load_chip i contents w = (ok, w') \<Longrightarrow> lcd_dev w' = lcd_dev w"
  by (auto simp: load_chip_def split: prod.splits)

lemma load_cart_frame [simp]: "lcd_dev (load_cart h a i w) = lcd_dev w"
  by (auto simp: load_cart_def Let_def dest: load_chip_frame split: prod.split)

lemma classic_images_frame: "lcd_dev (classic_images h a w) = lcd_dev w"
proof -
  obtain ok w1 where 1: "load_chip 0 (h_files h (device_path h a @ ''classic-flash-persist.bin'')) w = (ok, w1)" by fastforce
  obtain ok' w2 where 2: "load_chip 0 (h_files h (h_dataPath h @ ''classic-flash.bin'')) w1 = (ok', w2)" by fastforce
  show ?thesis unfolding classic_images_def 1 Let_def prod.case 2 snd_conv
    using load_chip_frame [OF 1] load_chip_frame [OF 2] by simp
qed

lemma load_classic_ok:
  assumes "load_classic h a c = Inr c'" "\<not> opt_xtreme a" "machine_fresh a (world c)" "wires_in False c"
  shows "machine_fresh a (world c') \<and> wires_in False c'"
proof -
  obtain ok c1 where "loadROM (h_files h (h_dataPath h @ ''classic-rom.bin'')) c = (ok, c1)" by fastforce
  then obtain r where r: "loadROM (h_files h (h_dataPath h @ ''classic-rom.bin'')) c = (ok, c\<lparr>rom := r\<rparr>)" using loadROM_frame by blast
  then have "c' = on_world (classic_images h a) (c\<lparr>rom := r\<rparr>)" using assms(1) by (simp add: load_classic_def split: if_splits)
  then show ?thesis using assms(2-4) by (simp add: machine_fresh_def wires_in_def on_world_def classic_images_frame)
qed

lemma reset_world: "world (reset c) = world c"
  by (simp add: reset_def updateBusTimings_def Let_def)

lemma finish_classic:
  assumes "finish_start h a c = Some c'" "\<not> opt_xtreme a" "machine_fresh a (world c)" "wires_in False c"
  shows "machine_wired False c' \<and> lcd_x (lcd_dev (world c')) = 0"
proof -
  from assms(1,2) obtain f where f: "c' = reset (on_world f c)" "\<And>w. lcd_dev (f w) = lcd_dev w"
    by (auto simp: finish_start_def Let_def on_world_def split: bind_splits if_splits)
  then show ?thesis using assms(2-4) wires_in_cong [of c' c]
    by (simp add: machine_wired_def wiring_simps reset_world machine_fresh_def) (simp add: on_world_def)
qed


text \<open>The images that a program finds on an Xtreme.\<close>

definition xtreme_images :: "u32 \<Rightarrow> u32 \<Rightarrow> machine \<Rightarrow> bool" where
  "xtreme_images cyID ts w \<longleftrightarrow> bytes_at (mem (flash_rom w)) 0x7F818 4 = be_word cyID \<and>
     sealed crc_bytes 0x7FFFC 0x7F800 0x7FC (mem (flash_rom w)) \<and> (\<forall>i \<in> {2, 3, 4}. battery_ok ts 0x2673C0 (i * 258) (mem (ext_ram w)))"

lemma ptr_mask: "MemoryDevice_getPtr d = Some m \<Longrightarrow> addressMask d = m"
  by (simp add: MemoryDevice_getPtr_def split: if_splits)

lemma getPtr_mem: "MemoryDevice_getPtr (d\<lparr>mem := m\<rparr>) = MemoryDevice_getPtr d"
  by (simp add: MemoryDevice_getPtr_def)

lemma finish_xtreme:
  assumes "cyIDFromString (opt_cyID a) = Some cyID" "opt_xtreme a" "machine_fresh a (world c)" "wires_in True c"
  shows "\<exists>c'. finish_start h a c = Some c' \<and> machine_wired True c' \<and> machine_fresh a (world c') \<and> xtreme_images cyID (h_timestamp h) (world c')"
proof -
  let ?b = "if opt_boot a = [] then c else on_world (boot_dev_update (BootSerial_setBootFile (h_files h (opt_boot a)))) c"
  define c1 where "c1 = (if opt_port a = [] then ?b else on_world (boot_dev_update (BootSerial_attachPort (h_port h (opt_port a)))) ?b)"
  have c1: "flash_rom (world c1) = flash_rom (world c)" "ext_ram (world c1) = ext_ram (world c)" "lcd_dev (world c1) = lcd_dev (world c)"
    "wires_in True c1" using assms(4) by (auto simp: c1_def on_world_def wires_in_def)
  have p: "MemoryDevice_getPtr (flash_rom (world c)) = Some 0x7FFFF" "MemoryDevice_getPtr (ext_ram (world c)) = Some 0x1FFFFF"
    "lcd_x (lcd_dev (world c)) = 0"
    using assms(2,3) by (simp_all add: machine_fresh_def)
  obtain f where f: "setXtremeCyID cyID (flash_rom (world c)) = Some ((flash_rom (world c))\<lparr>mem := f\<rparr>)"
    "bytes_at f 0x7F818 4 = be_word cyID" "sealed crc_bytes 0x7FFFC 0x7F800 0x7FC f"
    using xtreme_flash [OF ptr_mask [OF p(1)], of cyID] by blast
  obtain r where r: "setXtremeBattery (h_timestamp h) (ext_ram (world c)) = Some ((ext_ram (world c))\<lparr>mem := r\<rparr>)"
    "\<forall>i \<in> {2, 3, 4}. battery_ok (h_timestamp h) 0x2673C0 (i * 258) r"
    using xtreme_battery [OF ptr_mask [OF p(2)], of "h_timestamp h"] by blast
  define c2 where "c2 = setADCValue 2 0x3B0 (setADCValue 1 0x32 (reset (on_world (flash_rom_update (\<lambda>_. (flash_rom (world c))\<lparr>mem := f\<rparr>)) c1)))"
  have w2: "world c2 = (world c1)\<lparr>flash_rom := (flash_rom (world c))\<lparr>mem := f\<rparr>\<rparr>"
    unfolding c2_def by (simp add: setADCValue_def reset_world) (simp add: on_world_def)
  define c3 where "c3 = on_world (ext_ram_update (\<lambda>_. (ext_ram (world c))\<lparr>mem := r\<rparr>)) c2"
  define c4 where "c4 = (if opt_mp3SD a then on_world (boot_dev_update (boot_sd_update (SDCard_setFile (h_files h (device_path h a @ ''sdcard.bin'')))))
      (setADCValue 3 0 c3) else c3)"
  have "setXtremeBatteryLevel (h_timestamp h) (reset (on_world (flash_rom_update (\<lambda>_. (flash_rom (world c))\<lparr>mem := f\<rparr>)) c1)) = Some c3"
    unfolding setXtremeBatteryLevel_def c2_def [symmetric] Let_def w2 using r(1) c1(2) by (simp add: c3_def)
  then have c4: "finish_start h a c = Some c4"
    unfolding finish_start_def Let_def c1_def [symmetric] assms(1) c1(1) using assms(2) f(1) by (simp add: c4_def)
  have "bus_ok c4 \<and> wiring c4 = wiring c1" by (simp add: c4_def c3_def c2_def bus_ok_simps wiring_simps)
  then have "machine_wired True c4" using c1(4) wires_in_cong [of c4 c1] by (simp add: machine_wired_def)
  moreover have w4: "flash_rom (world c4) = (flash_rom (world c))\<lparr>mem := f\<rparr>" "ext_ram (world c4) = (ext_ram (world c))\<lparr>mem := r\<rparr>"
    "lcd_dev (world c4) = lcd_dev (world c)"
    using c1(3) by (simp_all add: c4_def c3_def on_world_def w2 setADCValue_def)
  then have "machine_fresh a (world c4)" "xtreme_images cyID (h_timestamp h) (world c4)"
    using p f(2,3) r(2) by (simp_all add: machine_fresh_def xtreme_images_def getPtr_mem)
  ultimately show ?thesis using c4 by blast
qed

lemma finish_id: "finish_start h a c = Some c' \<Longrightarrow> \<exists>cyID. cyIDFromString (opt_cyID a) = Some cyID"
  by (cases "cyIDFromString (opt_cyID a)") (simp_all add: finish_start_def Let_def)


lemma main_start_cases:
  assumes "main_start E S h a = Some (Inr c)"
  obtains irqs w c1 where "machine_new E S a = Some (irqs, w)" "finish_start h a c1 = Some c"
    "opt_xtreme a \<Longrightarrow> load_xtreme E h a (attach_xtreme (machine_devices E) (machine_cpu S (irqs, w))) = Some (Inr c1)"
    "\<not> opt_xtreme a \<Longrightarrow> load_classic h a (attach_classic (machine_devices E) (opt_expCart a) (machine_cpu S (irqs, w))) = Inr c1"
proof -
  obtain m where m: "machine_new E S a = Some m" using assms by (cases "machine_new E S a") (simp_all add: main_start_def)
  obtain irqs w where w: "m = (irqs, w)" by fastforce
  define r where "r = (if opt_xtreme a then load_xtreme E h a (attach_xtreme (machine_devices E) (machine_cpu S m))
               else Some (load_classic h a (attach_classic (machine_devices E) (opt_expCart a) (machine_cpu S m))))"
  have e: "r \<bind> (\<lambda>r. case r of Inl code \<Rightarrow> Some (Inl code) | Inr c \<Rightarrow> map_option Inr (finish_start h a c)) = Some (Inr c)"
    using assms unfolding main_start_def m Let_def by (simp add: r_def)
  then obtain c1 where "r = Some (Inr c1)" "finish_start h a c1 = Some c"
    by (cases r) (auto split: sum.splits)
  then show ?thesis using that m w by (auto simp: r_def split: if_splits)
qed

lemma main_start_ok:
  assumes "main_start E S h a = Some (Inr c)"
  shows "machine_wired (opt_xtreme a) c \<and> lcd_x (lcd_dev (world c)) = 0"
    and "opt_xtreme a \<Longrightarrow> machine_fresh a (world c) \<and>
      (\<exists>cyID. cyIDFromString (opt_cyID a) = Some cyID \<and> xtreme_images cyID (h_timestamp h) (world c))"
proof -
  from main_start_cases [OF assms] obtain irqs w c1 where m: "machine_new E S a = Some (irqs, w)" "finish_start h a c1 = Some c"
    and x: "opt_xtreme a \<Longrightarrow> load_xtreme E h a (attach_xtreme (machine_devices E) (machine_cpu S (irqs, w))) = Some (Inr c1)"
    and k: "\<not> opt_xtreme a \<Longrightarrow> load_classic h a (attach_classic (machine_devices E) (opt_expCart a) (machine_cpu S (irqs, w))) = Inr c1" by blast
  note fresh = machine_new_fresh [OF m(1)]
  have X: "machine_wired True c \<and> machine_fresh a (world c) \<and>
      (\<exists>cyID. cyIDFromString (opt_cyID a) = Some cyID \<and> xtreme_images cyID (h_timestamp h) (world c))" if o: "opt_xtreme a"
  proof -
    have p: "MemoryDevice_getPtr (ext_ram (world (machine_cpu S (irqs, w)))) = Some 0x1FFFFF"
      "MemoryDevice_getPtr (flash_rom (world (machine_cpu S (irqs, w)))) = Some 0x7FFFF"
      using fresh o by (simp_all add: machine_fresh_def machine_cpu_new)
    from load_xtreme_ok [OF x [OF o] o _ attach_xtreme_wires(1) [OF p]] fresh have "machine_fresh a (world c1) \<and> wires_in True c1"
      by (simp add: attach_xtreme_wires(2) [OF p] machine_cpu_new)
    then show ?thesis using finish_id [OF m(2)] finish_xtreme [OF _ o, where c = c1 and h = h] m(2) by fastforce
  qed
  have "machine_wired False c \<and> lcd_x (lcd_dev (world c)) = 0" if o: "\<not> opt_xtreme a"
  proof -
    from load_classic_ok [OF k [OF o] o _ attach_classic_wires(1) [OF machine_cpu_new(2)]] fresh
    have "machine_fresh a (world c1) \<and> wires_in False c1"
      by (simp add: attach_classic_wires(2) [OF machine_cpu_new(2)] machine_cpu_new)
    then show ?thesis using finish_classic [OF m(2) o] by blast
  qed
  then show "machine_wired (opt_xtreme a) c \<and> lcd_x (lcd_dev (world c)) = 0" using X by (cases "opt_xtreme a") (auto simp: machine_fresh_def)
  show "opt_xtreme a \<Longrightarrow> machine_fresh a (world c) \<and>
      (\<exists>cyID. cyIDFromString (opt_cyID a) = Some cyID \<and> xtreme_images cyID (h_timestamp h) (world c))" using X by blast
qed


section \<open>What a program sees\<close>

fun read_block :: "machine devices \<Rightarrow> nat \<Rightarrow> nat \<Rightarrow> machine cpu \<Rightarrow> (u8 list \<times> machine cpu) option" where
  "read_block D i 0 c = Some ([], c)"
| "read_block D i (Suc n) c = do { (b, c) \<leftarrow> readByte D (of_nat i) c; (bs, c) \<leftarrow> read_block D (i + 1) n c; Some (b # bs, c) }"

lemma unat_word32: "x < 2 ^ 32 \<Longrightarrow> unat (of_nat x :: u32) = x"
  by (simp add: unat_of_nat take_bit_nat_eq_self)

lemma bytes_at_Suc: "bytes_at m i (Suc n) = m i # bytes_at m (i + 1) n"
  by (simp add: bytes_at_def upt_conv_Cons del: upt_Suc)

lemma area_of_nat:
  assumes "k < 8" "i < 0x200000" shows "area_of (of_nat (k * 0x200000 + i)) = k"
proof -
  have u: "unat (of_nat (k * 0x200000 + i) :: u32) = k * 0x200000 + i"
    using assms by (intro unat_word32) simp
  have "drop_bit 21 (of_nat (k * 0x200000 + i)) AND 7 = take_bit 3 (drop_bit 21 (of_nat (k * 0x200000 + i) :: u32))"
    by (simp add: take_bit_eq_mask mask_eq_exp_minus_1)
  then have "area_of (of_nat (k * 0x200000 + i)) = take_bit 3 (drop_bit 21 (k * 0x200000 + i))"
    unfolding area_of_def by (simp only: unsigned_take_bit_eq unsigned_drop_bit_eq u) (simp add: take_bit_drop_bit)
  also have "\<dots> = k" using assms by (simp add: take_bit_eq_mod drop_bit_eq_div)
  finally show ?thesis .
qed

lemma masked_nat:
  assumes "i < 2 ^ n" "n \<le> 21" "k < 8" shows "unat (of_nat (k * 0x200000 + i) AND (mask n :: u32)) = i"
proof -
  have p: "(2 :: nat) ^ n \<le> 2 ^ 21" using assms(2) by (intro power_increasing) simp_all
  then have u: "unat (of_nat (k * 0x200000 + i) :: u32) = k * 0x200000 + i"
    using assms p by (intro unat_word32) simp
  have "(2 :: nat) ^ n dvd 0x200000" using le_imp_power_dvd [OF assms(2), of "2 :: nat"] by simp
  then have "(k * 0x200000 + i) mod 2 ^ n = i" using assms(1) by (simp add: mod_add_eq [symmetric] dvd_imp_mod_0)
  then have "take_bit n (k * 0x200000 + i) = i" by (simp only: take_bit_eq_mod)
  then show ?thesis unfolding take_bit_eq_mask [symmetric] unsigned_take_bit_eq u .
qed

lemma read_memory:
  assumes w: "areaPtrs c k = Some dev" "areaMasks c k = mask n" "machine_memory dev (world c) = Some d" "n \<le> 21" "k < 8"
  shows "i + len \<le> 2 ^ n \<Longrightarrow> read_block (machine_devices E) (k * 0x200000 + i) len c = Some (bytes_at (mem d) i len, c)"
proof (induction len arbitrary: i)
  case (Suc len)
  have p: "(2 :: nat) ^ n \<le> 2 ^ 21" using w(4) by (intro power_increasing) simp_all
  then have i: "i < 2 ^ n" "i < 0x200000" using Suc.prems by simp_all
  have "readByte (machine_devices E) (of_nat (k * 0x200000 + i)) c = Some (mem d i, c)"
    unfolding readByte_def area_of_nat [OF w(5) i(2)] Let_def w(1,2)
    using w(3) i(2) masked_nat [OF i(1) w(4,5)] by (simp add: machine_devices_def machine_ptrRead_def MemoryDevice_ptrRead_def)
  then show ?case using Suc.IH [of "i + 1"] Suc.prems by (simp add: bytes_at_Suc add.assoc)
qed (simp add: bytes_at_def)

lemma read_flash:
  assumes "wires_in True c" "i + len \<le> 0x80000"
  shows "read_block (machine_devices E) (0x600000 + i) len c = Some (bytes_at (mem (flash_rom (world c))) i len, c)"
  using read_memory [of c 3 D_flash 19 "flash_rom (world c)" i len E] assms
  by (simp add: wires_in_def machine_memory_def mask_eq_exp_minus_1)

lemma read_ram:
  assumes "wires_in True c" "i + len \<le> 0x200000"
  shows "read_block (machine_devices E) (0x400000 + i) len c = Some (bytes_at (mem (ext_ram (world c))) i len, c)"
  using read_memory [of c 2 D_ram 21 "ext_ram (world c)" i len E] assms
  by (simp add: wires_in_def machine_memory_def mask_eq_exp_minus_1)

text \<open>The emulator starts whenever it has a ROM and the controller of the USB port does not ask for an enumeration.\<close>

definition quiet_start :: "stale \<Rightarrow> bool" where
  "quiet_start S \<longleftrightarrow> enumerationState (user (st_usb S)) = NotStarted \<and> usb_log (user (st_usb S)) = []"

lemma machine_new_quiet: "quiet_start S \<Longrightarrow> \<exists>m. machine_new E S a = Some m"
  by (simp add: machine_new_def usb_access_def usb_lift_def USBDevice_reset_def quiet_start_def machine_parts_def Let_def usb_irqs_def)

lemma main_start_exists:
  assumes "quiet_start S" "cyIDFromString (opt_cyID a) = Some cyID" "\<not> opt_usbip a" "\<And>n. h_files h n \<noteq> None"
  shows "\<exists>c. main_start E S h a = Some (Inr c)"
proof -
  obtain irqs w where m: "machine_new E S a = Some (irqs, w)" using machine_new_quiet [OF assms(1)] by fastforce
  have rom: "\<exists>r. loadROM (h_files h n) c = (True, c\<lparr>rom := r\<rparr>)" for n and c :: "machine cpu"
    using assms(4) [of n] by (auto simp: loadROM_def)
  show ?thesis
  proof (cases "opt_xtreme a")
    case True
    define c0 where "c0 = attach_xtreme (machine_devices E) (machine_cpu S (irqs, w))"
    have p: "MemoryDevice_getPtr (ext_ram (world (machine_cpu S (irqs, w)))) = Some 0x1FFFFF"
      "MemoryDevice_getPtr (flash_rom (world (machine_cpu S (irqs, w)))) = Some 0x7FFFF"
      using machine_new_fresh [OF m] True by (simp_all add: machine_fresh_def machine_cpu_new)
    have c0: "wires_in True c0" "machine_fresh a (world c0)"
      using attach_xtreme_wires [OF p] machine_new_fresh [OF m] by (simp_all add: c0_def machine_cpu_new)
    obtain c1 where "load_xtreme E h a c0 = Some (Inr c1)"
      using rom [of "h_dataPath h @ ''xtreme-rom.bin''" c0] assms(3) by (auto simp: load_xtreme_def)
    with load_xtreme_ok [OF this True c0(2,1)] finish_xtreme [OF assms(2) True, of c1 h] show ?thesis
      by (auto simp: main_start_def m True c0_def)
  next
    case False
    define c0 where "c0 = attach_classic (machine_devices E) (opt_expCart a) (machine_cpu S (irqs, w))"
    obtain c1 where "load_classic h a c0 = Inr c1"
      using rom [of "h_dataPath h @ ''classic-rom.bin''" c0] by (auto simp: load_classic_def)
    moreover have "\<exists>c'. finish_start h a c1 = Some c'" using assms(2) False by (simp add: finish_start_def Let_def)
    ultimately show ?thesis by (auto simp: main_start_def m False c0_def)
  qed
qed

text \<open>A host whose files are all empty.\<close>

definition example_host :: host where
  "example_host = \<lparr>h_files = (\<lambda>_. Some []), h_port = (\<lambda>_. None), h_timestamp = 7, h_dataPath = ''data/''\<rparr>"

definition example_stale :: stale where
  "example_stale = \<lparr>st_byte = (\<lambda>_. 0), st_mem = (\<lambda>_ _. 0), st_nat = (\<lambda>_. 0), st_int = (\<lambda>_. 0),
     st_time = \<lparr>tv_usec = 0, tm_sec = 0, tm_min = 0, tm_hour = 0, tm_mday = 1, tm_mon = 0, tm_year = 100, tm_wday = 6\<rparr>,
     st_usb = (session_world [] 4)\<lparr>user := usb_zero\<rparr>, st_tables = \<lparr>rsExpTable = (\<lambda>_. 0), rsLogTable = (\<lambda>_. 0)\<rparr>, st_recv = False, st_send = False, st_adc = (\<lambda>_. 0)\<rparr>"

definition example_env :: machine_env where
  "example_env = \<lparr>me_usb = usb_env_example, me_fd = 3, me_sd = []\<rparr>"

definition example_options :: "bool \<Rightarrow> options" where
  "example_options xtreme = no_options\<lparr>opt_xtreme := xtreme, opt_cyID := ''FAKECYB''\<rparr>"

lemma example_starts: "\<exists>c. main_start example_env example_stale example_host (example_options xtreme) = Some (Inr c)"
proof -
  have "quiet_start example_stale" by (simp add: quiet_start_def example_stale_def usb_zero_def Let_def)
  moreover have "\<exists>cyID. cyIDFromString (opt_cyID (example_options xtreme)) = Some cyID"
    by (simp add: example_options_def cyIDFromString_def Let_def)
  ultimately show ?thesis using main_start_exists [where h = example_host] by (auto simp: example_options_def no_options_def example_host_def)
qed

text \<open>C36:
  What the program of an emulated Xtreme finds when it starts, whatever images have been loaded
  and whatever is on the command line: reading through the bus, at the end of the flash the identifier that was given, or the
  one that stands in for it, and after the configuration its checksum; in the memory three records of the battery, with the
  time, the level, the time, and a checksum of the file system before each.
\<close>

theorem xtreme_starts:
  assumes "main_start E S h a = Some (Inr c)" "opt_xtreme a" "D = machine_devices E"
  shows "\<exists>cyID cfg. cyIDFromString (opt_cyID a) = Some cyID \<and> read_block D 0x67F818 4 c = Some (be_word cyID, c) \<and>
    read_block D 0x67F800 0x7FC c = Some (cfg, c) \<and> read_block D 0x67FFFC 4 c = Some (crc_bytes cfg, c) \<and>
    (\<forall>i \<in> {2, 3, 4}. \<exists>rec. read_block D (0x400000 + i * 258 + 2) 250 c = Some (rec, c) \<and>
       read_block D (0x400000 + i * 258) 2 c = Some (fs_bytes rec, c) \<and>
       read_block D (0x400000 + i * 258 + 115) 12 c = Some (be_word (h_timestamp h) @ be_word 0x2673C0 @ be_word (h_timestamp h), c))"
proof -
  have w: "wires_in True c" using main_start_ok(1) [OF assms(1)] assms(2) by (simp add: machine_wired_def)
  obtain cyID where id: "cyIDFromString (opt_cyID a) = Some cyID" "xtreme_images cyID (h_timestamp h) (world c)"
    using main_start_ok(2) [OF assms(1,2)] by blast
  let ?f = "mem (flash_rom (world c))" and ?r = "mem (ext_ram (world c))"
  have f: "read_block D (0x600000 + i) n c = Some (bytes_at ?f i n, c)" if "i + n \<le> 0x80000" for i n
    unfolding assms(3) by (rule read_flash [OF w that])
  have r: "read_block D (0x400000 + i) n c = Some (bytes_at ?r i n, c)" if "i + n \<le> 0x200000" for i n
    unfolding assms(3) by (rule read_ram [OF w that])
  have "read_block D 0x67F818 4 c = Some (be_word cyID, c)" using f [of "0x7F818" 4] id(2) by (simp add: xtreme_images_def)
  moreover have "read_block D 0x67F800 0x7FC c = Some (bytes_at ?f 0x7F800 0x7FC, c)" using f [of "0x7F800" "0x7FC"] by simp
  moreover have "read_block D 0x67FFFC 4 c = Some (crc_bytes (bytes_at ?f 0x7F800 0x7FC), c)"
    using f [of "0x7FFFC" 4] id(2) by (simp add: xtreme_images_def sealed_def)
  moreover have "read_block D (0x400000 + i * 258 + 2) 250 c = Some (bytes_at ?r (i * 258 + 2) 250, c) \<and>
       read_block D (0x400000 + i * 258) 2 c = Some (fs_bytes (bytes_at ?r (i * 258 + 2) 250), c) \<and>
       read_block D (0x400000 + i * 258 + 115) 12 c = Some (be_word (h_timestamp h) @ be_word 0x2673C0 @ be_word (h_timestamp h), c)"
    if "i \<in> {2, 3, 4}" for i
  proof -
    have "battery_ok (h_timestamp h) 0x2673C0 (i * 258) ?r" using id(2) that unfolding xtreme_images_def by blast
    moreover have "i * 258 + 258 \<le> 0x200000" using that by auto
    ultimately show ?thesis using r [of "i * 258 + 2" 250] r [of "i * 258" 2] r [of "i * 258 + 115" 12]
      by (simp add: battery_ok_def sealed_def add.assoc)
  qed
  ultimately show ?thesis using id(1) by blast
qed


lemma xtreme_starts_witness:
  "\<exists>c cyID. main_start example_env example_stale example_host (example_options True) = Some (Inr c) \<and>
    cyIDFromString ''FAKECYB'' = Some cyID \<and> read_block (machine_devices example_env) 0x67F818 4 c = Some (be_word cyID, c)"
proof -
  obtain c where c: "main_start example_env example_stale example_host (example_options True) = Some (Inr c)" using example_starts by blast
  have o: "opt_xtreme (example_options True)" "opt_cyID (example_options True) = ''FAKECYB''" by (simp_all add: example_options_def)
  from xtreme_starts [OF c o(1) refl] show ?thesis using c unfolding o(2) by blast
qed

text \<open>C35:
  The display, end to end.  After the start of either model, in every state that is reached, whatever programs have run and
  whatever the devices have done since, a program for the device that uses the driver of the library,
  writing to the bus of the emulated CPU at the address of its model, shows what it draws: the gray of the pixel
  \<open>px\<close>, \<open>py\<close> of its frame buffer, inverted, is in the image that the emulator makes of the display at the end
  of a frame, in the same line and, when the column register of the controller is 0, as it is after the start, in the same column.
  The driver never sets that register: when a program has left it at \<open>x\<close>, the lines of the image are turned by
  \<open>4 * x\<close> pixels, and at 40 the first byte of the constructor's update is written behind the memory of the controller.
\<close>

theorem machine_shows:
  assumes "main_start E S h a = Some (Inr c0)" "reachable D c0 c" "D = machine_devices E" "unat (lcd_x (lcd_dev (world c))) = x"
    and "length fb = 4000" "px < 160" "py < 100" "k < 3"
  shows "(x \<noteq> 40 \<longrightarrow> (\<exists>u c1 u' c2. LCDDriver_new (writeByte D) (opt_xtreme a) c = Some (u, c1) \<and>
      updateDisplay (writeByte D) (opt_xtreme a) (setDirty minY maxY (u\<lparr>framebuffer := fb\<rparr>)) c1 = Some (u', c2) \<and> maxDirtyY u' = 0 \<and>
      LCDDevice_convertDisplay (lcd_dev (world c2)) rgba (((px + 4 * x) mod 160 + py * 160) * 4 + k) =
        0xFF - of_nat (unat (drop_bit (6 - px mod 4 * 2) (fb ! (py * 40 + px div 4)) AND 3) * 85))) \<and>
    (x = 40 \<longrightarrow> LCDDriver_new (writeByte D) (opt_xtreme a) c = None) \<and>
    lcd_x (lcd_dev (world c0)) = 0"
proof -
  note start = main_start_ok(1) [OF assms(1)]
  have "machine_wired (opt_xtreme a) c"
    using machine_wired_kept [of "opt_xtreme a" c0 E c] start assms(2,3) by blast
  then have w: "externalAreas c (lcd_area (opt_xtreme a)) = Some D_lcd" by (simp add: machine_wired_def wires_in_def)
  show ?thesis
  proof (intro conjI impI)
    assume "x \<noteq> 40"
    from display.host_shows [OF w assms(4) this assms(5-8)]
    show "\<exists>u c1 u' c2. LCDDriver_new (writeByte D) (opt_xtreme a) c = Some (u, c1) \<and>
      updateDisplay (writeByte D) (opt_xtreme a) (setDirty minY maxY (u\<lparr>framebuffer := fb\<rparr>)) c1 = Some (u', c2) \<and> maxDirtyY u' = 0 \<and>
      LCDDevice_convertDisplay (lcd_dev (world c2)) rgba (((px + 4 * x) mod 160 + py * 160) * 4 + k) =
        0xFF - of_nat (unat (drop_bit (6 - px mod 4 * 2) (fb ! (py * 40 + px div 4)) AND 3) * 85)"
      unfolding assms(3) lcd_shows_def .
  next
    assume "x = 40"
    then show "LCDDriver_new (writeByte D) (opt_xtreme a) c = None"
      using display.host_stops [OF w] assms(4) unfolding assms(3) by simp
  next
    show "lcd_x (lcd_dev (world c0)) = 0" using start by blast
  qed
qed

lemma machine_shows_witness:
  "\<exists>c u c1 u' c2. main_start example_env example_stale example_host (example_options False) = Some (Inr c) \<and>
    LCDDriver_new (writeByte (machine_devices example_env)) False c = Some (u, c1) \<and>
    updateDisplay (writeByte (machine_devices example_env)) False (setDirty 5 7 (u\<lparr>framebuffer := replicate 4000 0x1B\<rparr>)) c1 = Some (u', c2) \<and>
    maxDirtyY u' = 0 \<and> LCDDevice_convertDisplay (lcd_dev (world c2)) (\<lambda>_. 0) ((6 + 98 * 160) * 4 + 2) = 0xFF - of_nat (2 * 85)"
proof -
  obtain c where c: "main_start example_env example_stale example_host (example_options False) = Some (Inr c)" using example_starts by blast
  have o: "opt_xtreme (example_options False) = False" by (simp add: example_options_def)
  have "lcd_x (lcd_dev (world c)) = 0" using main_start_ok(1) [OF c] by blast
  then have "unat (lcd_x (lcd_dev (world c))) = 0" by simp
  note seen = machine_shows [OF c reachable.here refl this, of "replicate 4000 0x1B" 6 98 2 5 7 "\<lambda>_. 0", unfolded o]
  have "unat (drop_bit 2 (0x1B :: u8) AND 3) = 2" by code_simp
  moreover have "replicate 4000 (0x1B :: u8) ! (98 * 40 + 6 div 4) = 0x1B" by (rule nth_replicate) simp
  ultimately show ?thesis using c seen by auto
qed

end
