(* ===== verification/Spec2Isabelle.thy ===== *)
theory Spec2Isabelle
  imports H8System H8ALUSpec H8RegFile H8Memory H8Safety H8Ticks
    MemoryDevice PCF8593 SerialFlash DS2401 KeyboardDevice LCDDevice CRC CyID
    LZSS BitStream BMC Archive Imgtool RSCode RFSerial SDCard BootSerial Sercon MachineStart
begin

text \<open>
  CybikoStuff is an emulator of the Cybiko handhelds (directory \<open>emu2\<close>, C++), with tools on the
  host for the files and the boot protocols of the device (\<open>tools\<close>, C) and a small library for
  programs that run on it (\<open>lib/H8\<close>).  This development models them as Isabelle functions,
  one theory for a component, and proves the properties that the program relies on.

  \<^bold>\<open>Conventions.\<close>  A class or struct is a record with the names of its members, a method a
  function on it with the name of the method.  Integers keep their width as words
  where they wrap (\<open>u8\<close>, \<open>u16\<close>, \<open>u32\<close>, \<open>u64\<close> of \<open>Prelude\<close>); where the code computes in \<open>int\<close> the
  model does so too, and \<open>int32\<close> writes the conversion back out.  An array indexed within known bounds
  is a function on numbers; a buffer whose bounds matter is a list.  Operations that can fail return an
  option: \<open>None\<close> is a run that has no defined continuation in C++, a failed assertion, an
  access outside an array, a shift that has no value.  Memory that the code leaves uninitialised is
  an argument of the definition that leaves it so, usually called \<open>stale\<close>.

  \<^bold>\<open>The processor.\<close>  The class \<open>H8CPU\<close> of \<open>emu2/H8CPU.cpp\<close>.  Its state is the record \<open>'d cpu\<close>
  of \<open>H8State\<close>: registers, bus controller, on-chip memories, the nested
  classes for DMA, ports, timers and serial ports, interrupt requests and the clock.  \<open>'d\<close> is
  the state of everything attached, and \<open>'d devices\<close> the table of the virtual functions of \<open>ExternalDevice\<close>,
  \<open>IODevice\<close> and \<open>SerialDevice\<close>; a device is a number, as a pointer is.  In the order of the file:
  \<^item> \<open>H8ALU\<close>: the templates \<open>doADD\<close>, \<open>doSUB\<close>, \<open>doSHAL\<close> and so on, for any width, the flags and the
    branch conditions; \<open>H8ALUSpec\<close>: their meaning as arithmetic, for single operations, for chains of
    \<open>addx\<close> over numbers of any length, for decimal addition, for rotations, and for a branch after a comparison.
  \<^item> \<open>H8Ports\<close>, \<open>H8TPU\<close>, \<open>H8Timer\<close>, \<open>H8Serial\<close>, \<open>H8DMARegs\<close>: the on-chip modules.
    \<open>H8Ticks\<close> compares the catching up of a timer channel, which jumps from one event to the
    next, with a counter that handles every single count.
  \<^item> \<open>H8Bus\<close>: access times, the on-chip register file, and the reads and writes of the bus;
    \<open>H8Regs\<close> and \<open>H8Exec\<close>: the views of the registers and \<open>executeInstruction\<close> with all its
    handlers; \<open>H8System\<close>: DMA, data transfer controller, converter, interrupt entry and \<open>executeCycles\<close>.
  \<^item> \<open>H8RegFile\<close>: the byte, word and long views of the registers meet the contract \<open>register_view\<close>.
    \<open>H8Memory\<close>: the contract \<open>byte_memory\<close>, met by the on-chip RAM, and on it the round trips of calls and of
    interrupts through the stack.
  \<^item> \<open>H8Invariant\<close>, \<open>H8StepInvariant\<close> and \<open>H8Safety\<close>: the locale \<open>cpu_invariant\<close> says what an
    invariant has to survive, and is proved once through every instruction and module;
    \<open>machine_invariant\<close> extends it to the step relation of a whole machine.  Its interpretations are
    the wiring of the bus and the boot ROM, and the access times and channels of the converter.

  \<^bold>\<open>The devices of the emulator.\<close>  Each is a state machine driven by accesses to the bus, a
  port or a serial line: \<open>MemoryDevice\<close>, \<open>LCDDevice\<close>, \<open>KeyboardDevice\<close> and
  \<open>USBDevice\<close> on the bus, \<open>PCF8593\<close> and \<open>DS2401\<close> on port pins, \<open>SerialFlash\<close>,
  \<open>SDCard\<close> and \<open>BootSerial\<close> (both of \<open>BootSerial.cpp\<close>) and \<open>RFSerial\<close> on serial ports.  \<open>CRC\<close>, \<open>CyID\<close>
  (\<open>Util.cpp\<close>) and \<open>RSCode\<close>, the Reed-Solomon code of \<open>RFSerial.cpp\<close>, are the computations they share.
  Their properties are stated at the protocol, from the side of the program that talks to the
  device: a page programmed into the flash is read back, a transaction on the two-wire bus
  reads the clock, the sequence of commands to the SD card implements an array of blocks, a loader gets the
  whole boot file, packets reach the other emulators.

  \<^bold>\<open>USB.\<close>  \<open>USBFifo\<close> and \<open>USBDevice\<close> are the USB controller (\<open>USBDevice.cpp\<close>), \<open>Usbip\<close> the
  server of \<open>usbip-server/usbip.c\<close> through which a host of the network reaches it.  \<open>USBEnumeration\<close>
  runs the controller against a program that answers requests through the registers;
  \<open>USBSystem\<close> composes both, the calls that the controller logs are done on the server, and a host
  imports the device and exchanges data with the program.

  \<^bold>\<open>The front end.\<close>  \<open>FrontPorts\<close> and \<open>FrontImages\<close> are the devices and the preparation of the memory images of
  \<open>emu2/Main.cpp\<close>, \<open>Machine\<close> its \<open>main\<close>: options, construction and wiring of both models,
  loading, the loop over the frames and the files written at the end.  The record \<open>machine\<close> holds all
  devices and \<open>machine_devices\<close> is the table that the CPU calls.  \<open>MachineStart\<close> has the
  properties of the whole: what a started machine shows a program on the bus, and that a program
  that uses the display driver of the target library (\<open>lib/H8/LCDDriver.cpp\<close>, \<open>LCDDriver\<close>) shows
  its frame buffer on the image that the front end draws.

  \<^bold>\<open>The tools.\<close>  \<open>LZSS\<close>, \<open>BitStream\<close> and \<open>BMC\<close> are the encodings of \<open>tools/encoding.c\<close>,
  \<open>Archive\<close> reads archives (\<open>archive.c\<close>), \<open>Imgtool\<close> is \<open>imgtool.c\<close> with its command line,
  and \<open>Sercon\<close> is \<open>sercon.c\<close>, which boots a device over a serial port.  The encodings are
  proved to be inverted by the decoders of the same file, the tools by their round trips, and
  the boot tool to send what the emulated boot port sends.  \<open>Decimal\<close> holds the printing and reading
  of numbers that several of them use.

  \<^bold>\<open>Interfaces.\<close>  Where a client relies on laws of another component they are the assumptions of a locale,
  interpreted on the component: \<open>register_view\<close> (three views of the registers), \<open>byte_memory\<close>
  (on-chip RAM), \<open>cpu_invariant\<close> and \<open>machine_invariant\<close>, \<open>bit_code\<close> (the codes of BMC),
  \<open>bounded_queue\<close> (the FIFOs of the USB controller), \<open>lcd_host\<close> (the bus of the whole machine as the
  display driver sees it) and \<open>serial_port\<close> (the port of the boot tool).

  \<^bold>\<open>Loops and fuel.\<close>  Recursion is structural or has a measure wherever the loop of the code ends.
  \<open>cpu_loop\<close> has as many rounds as cycles are asked for; every round takes a cycle or more, and \<open>cpu_loop_enough\<close>
  shows that the bound is never the reason of a failure.  \<open>TPU_loop\<close> and \<open>Serial_loop\<close> have as many
  rounds as counts or cycles have elapsed, and \<open>H8Ticks\<close> shows the same for them.  The loops of
  \<open>sercon.c\<close> wait for the other side of a line without any bound and are partial functions,
  of which the properties show that they return.

  \<^bold>\<open>Arguments of the model.\<close>  Files are lists of bytes or finite maps from names, sockets the bytes they deliver and
  take, the port library of \<open>sercon.c\<close> its two operations, the time of the
  host a value; events of the windows, performance counters and the queue of the audio device
  are the record \<open>frame_input\<close> of \<open>Machine\<close>.  Nothing is assumed about them but what
  a property states.

  \<^bold>\<open>Not modelled.\<close>  The windows, textures and the audio device of SDL and the search for data directories in
  \<open>Main.cpp\<close> and \<open>Util.cpp\<close>, which only call libraries; console messages, the names of registers and
  the register trace of the CPU; the argument parsing and the printing of
  \<open>archive.c\<close>; the wrappers \<open>Serial\<close>, \<open>IOPort\<close> and \<open>Registers.hpp\<close> of \<open>lib/H8\<close>, which
  name hardware registers of the real device; the toolchain files; and the instruction tests under \<open>test\<close>, tables
  of cases which are run on the device.
\<close>

end
